(* ===== verification/GoPrelude.thy ===== *)
theory GoPrelude
  imports Main "HOL-Library.Word" "HOL-Library.Char_ord" "HOL-Library.List_Lexorder"
begin

text \<open>
  The parts of Go and of its standard library that the sources of dnsplane use everywhere:
  byte strings and package \<^verbatim>\<open>strings\<close>, decimal formatting and parsing (\<^verbatim>\<open>fmt\<close> verbs
  \<^verbatim>\<open>%d\<close>, \<^verbatim>\<open>%q\<close>, \<^verbatim>\<open>%v\<close> and package \<^verbatim>\<open>strconv\<close>), instants and durations of package
  \<^verbatim>\<open>time\<close>, and the message type shared by the command-line operations.

  A Go string is a sequence of bytes and is modelled as a \<open>char list\<close> (a \<open>char\<close> is a
  byte).  White space and letter case are those of ASCII: on a string of ASCII bytes the
  definitions compute what \<^verbatim>\<open>strings.TrimSpace\<close>, \<^verbatim>\<open>strings.ToLower\<close> and
  \<^verbatim>\<open>strings.ToUpper\<close> compute; bytes above 127 (UTF-8 encoded runes) are neither space nor
  letter in the model.  An instant is the number of nanoseconds since Go's zero time, so that
  \<^verbatim>\<open>t.IsZero()\<close> is \<open>t = 0\<close>.
\<close>

named_theorems go_defs "definitions of Go library functions, for unfolding"
named_theorems norm_simps "rewriting facts about name, type and value normalisation"

subsection \<open>Bytes and strings\<close>

type_synonym gostr = string
type_synonym u8 = "8 word"
type_synonym u16 = "16 word"
type_synonym u32 = "32 word"
type_synonym u64 = "64 word"

definition is_space :: "char \<Rightarrow> bool" where
  "is_space c \<longleftrightarrow> c = CHR '' '' \<or> c = CHR 0x09 \<or> c = CHR 0x0A \<or> c = CHR 0x0B \<or> c = CHR 0x0C \<or> c = CHR 0x0D"

definition lower_char :: "char \<Rightarrow> char" where
  "lower_char c = (let n = of_char c :: nat in if 65 \<le> n \<and> n \<le> 90 then char_of (n + 32) else c)"

definition upper_char :: "char \<Rightarrow> char" where
  "upper_char c = (let n = of_char c :: nat in if 97 \<le> n \<and> n \<le> 122 then char_of (n - 32) else c)"

definition trimr :: "('a \<Rightarrow> bool) \<Rightarrow> 'a list \<Rightarrow> 'a list" where
  "trimr P s = rev (dropWhile P (rev s))"

text \<open>\<^verbatim>\<open>strings.TrimSpace\<close>, \<^verbatim>\<open>strings.ToLower\<close>, \<^verbatim>\<open>strings.ToUpper\<close>, \<^verbatim>\<open>strings.TrimRight(s, ".")\<close>.\<close>

definition TrimSpace :: "gostr \<Rightarrow> gostr" where
  "TrimSpace s = trimr is_space (dropWhile is_space s)"

definition ToLower :: "gostr \<Rightarrow> gostr" where
  "ToLower s = map lower_char s"

definition ToUpper :: "gostr \<Rightarrow> gostr" where
  "ToUpper s = map upper_char s"

definition TrimRightDots :: "gostr \<Rightarrow> gostr" where
  "TrimRightDots s = trimr (\<lambda>c. c = CHR ''.'') s"

definition HasPrefix :: "gostr \<Rightarrow> gostr \<Rightarrow> bool" where
  "HasPrefix s p \<longleftrightarrow> take (length p) s = p"

definition HasSuffix :: "gostr \<Rightarrow> gostr \<Rightarrow> bool" where
  "HasSuffix s p \<longleftrightarrow> length p \<le> length s \<and> drop (length s - length p) s = p"

definition TrimPrefix :: "gostr \<Rightarrow> gostr \<Rightarrow> gostr" where
  "TrimPrefix s p = (if HasPrefix s p then drop (length p) s else s)"

definition TrimSuffix :: "gostr \<Rightarrow> gostr \<Rightarrow> gostr" where
  "TrimSuffix s p = (if HasSuffix s p then take (length s - length p) s else s)"

definition EqualFold :: "gostr \<Rightarrow> gostr \<Rightarrow> bool" where
  "EqualFold s t \<longleftrightarrow> ToLower s = ToLower t"

text \<open>\<^verbatim>\<open>strings.Index\<close>: the first position at which a string occurs (\<open>None\<close> for -1).\<close>

fun Index :: "gostr \<Rightarrow> gostr \<Rightarrow> nat option" where
  "Index [] sub = (if sub = [] then Some 0 else None)"
| "Index (c # s) sub = (if HasPrefix (c # s) sub then Some 0 else map_option Suc (Index s sub))"

definition Contains :: "gostr \<Rightarrow> gostr \<Rightarrow> bool" where
  "Contains s sub \<longleftrightarrow> Index s sub \<noteq> None"

text \<open>\<^verbatim>\<open>strings.Split\<close> with a separator of one byte, and \<^verbatim>\<open>strings.Join\<close>.\<close>

fun Split :: "char \<Rightarrow> gostr \<Rightarrow> gostr list" where
  "Split sep [] = [[]]"
| "Split sep (c # s) =
     (if c = sep then [] # Split sep s
      else case Split sep s of [] \<Rightarrow> [[c]] | w # ws \<Rightarrow> (c # w) # ws)"

fun Join :: "gostr \<Rightarrow> gostr list \<Rightarrow> gostr" where
  "Join sep [] = []"
| "Join sep [w] = w"
| "Join sep (w # v # ws) = w @ sep @ Join sep (v # ws)"

text \<open>\<^verbatim>\<open>strings.Fields\<close>: the maximal runs of bytes that are not white space.\<close>

fun fields_acc :: "gostr \<Rightarrow> gostr \<Rightarrow> gostr list" where
  "fields_acc acc [] = (if acc = [] then [] else [rev acc])"
| "fields_acc acc (c # s) =
     (if is_space c then (if acc = [] then fields_acc [] s else rev acc # fields_acc [] s)
      else fields_acc (c # acc) s)"

definition Fields :: "gostr \<Rightarrow> gostr list" where
  "Fields s = fields_acc [] s"

text \<open>\<^verbatim>\<open>strings.ReplaceAll\<close> and \<^verbatim>\<open>strings.Count\<close> for a non-empty pattern: leftmost,
  non-overlapping occurrences.\<close>

function ReplaceAll :: "gostr \<Rightarrow> gostr \<Rightarrow> gostr \<Rightarrow> gostr" where
  "ReplaceAll s old new =
     (case s of [] \<Rightarrow> []
      | c # s' \<Rightarrow> if old \<noteq> [] \<and> HasPrefix s old then new @ ReplaceAll (drop (length old) s) old new
                  else c # ReplaceAll s' old new)"
  by pat_completeness auto
termination
  by (relation "measure (\<lambda>(s, old, new). length s)") auto

function CountSub :: "gostr \<Rightarrow> gostr \<Rightarrow> nat" where
  "CountSub s sub =
     (case s of [] \<Rightarrow> 0
      | c # s' \<Rightarrow> if sub \<noteq> [] \<and> HasPrefix s sub then Suc (CountSub (drop (length sub) s) sub)
                  else CountSub s' sub)"
  by pat_completeness auto
termination
  by (relation "measure (\<lambda>(s, sub). length s)") auto

declare ReplaceAll.simps [simp del] CountSub.simps [simp del]

subsection \<open>Numbers as text\<close>

definition digit_char :: "nat \<Rightarrow> char" where
  "digit_char d = char_of (48 + d)"

fun dec :: "nat \<Rightarrow> gostr" where
  "dec n = (if n < 10 then [digit_char n] else dec (n div 10) @ [digit_char (n mod 10)])"

declare dec.simps [simp del]

definition dec_int :: "int \<Rightarrow> gostr" where
  "dec_int i = (if i < 0 then CHR ''-'' # dec (nat (- i)) else dec (nat i))"

definition is_digit :: "char \<Rightarrow> bool" where
  "is_digit c \<longleftrightarrow> 48 \<le> (of_char c :: nat) \<and> (of_char c :: nat) \<le> 57"

definition digit_val :: "char \<Rightarrow> nat" where
  "digit_val c = (of_char c :: nat) - 48"

fun dec_value :: "nat \<Rightarrow> gostr \<Rightarrow> nat" where
  "dec_value acc [] = acc"
| "dec_value acc (c # s) = dec_value (10 * acc + digit_val c) s"

text \<open>\<^verbatim>\<open>strconv.ParseUint(s, 10, 32)\<close>: decimal digits only, at least one, in range.\<close>

definition ParseUint32 :: "gostr \<Rightarrow> u32 option" where
  "ParseUint32 s =
     (if s \<noteq> [] \<and> list_all is_digit s \<and> dec_value 0 s < 2 ^ 32 then Some (of_nat (dec_value 0 s)) else None)"

text \<open>\<^verbatim>\<open>strconv.Atoi\<close> on a 64-bit platform: an optional sign, then decimal digits, in range.\<close>

definition Atoi :: "gostr \<Rightarrow> int option" where
  "Atoi s =
     (let neg = HasPrefix s ''-'';
          t = (if neg \<or> HasPrefix s ''+'' then drop 1 s else s)
      in if t = [] \<or> \<not> list_all is_digit t then None
         else let v = (if neg then - int (dec_value 0 t) else int (dec_value 0 t))
              in if - (2 ^ 63) \<le> v \<and> v < 2 ^ 63 then Some v else None)"

text \<open>\<^verbatim>\<open>strconv.ParseBool\<close>.\<close>

definition ParseBool :: "gostr \<Rightarrow> bool option" where
  "ParseBool s =
     (if s \<in> set [''1'', ''t'', ''T'', ''TRUE'', ''true'', ''True''] then Some True
      else if s \<in> set [''0'', ''f'', ''F'', ''FALSE'', ''false'', ''False''] then Some False
      else None)"

text \<open>\<^verbatim>\<open>fmt\<close> verb \<^verbatim>\<open>%v\<close> on a slice of strings, and \<^verbatim>\<open>%q\<close> on a string of ASCII bytes.\<close>

definition fmt_strings :: "gostr list \<Rightarrow> gostr" where
  "fmt_strings xs = ''['' @ Join '' '' xs @ '']''"

definition hex_char :: "nat \<Rightarrow> char" where
  "hex_char d = (if d < 10 then char_of (48 + d) else char_of (87 + d))"

definition quote_char :: "char \<Rightarrow> gostr" where
  "quote_char c =
     (let n = of_char c :: nat in
      if n = 34 then [char_of (92::nat), char_of (34::nat)]
      else if n = 92 then [char_of (92::nat), char_of (92::nat)]
      else if n = 7 then [char_of (92::nat), CHR ''a'']
      else if n = 8 then [char_of (92::nat), CHR ''b'']
      else if n = 12 then [char_of (92::nat), CHR ''f'']
      else if n = 10 then [char_of (92::nat), CHR ''n'']
      else if n = 13 then [char_of (92::nat), CHR ''r'']
      else if n = 9 then [char_of (92::nat), CHR ''t'']
      else if n = 11 then [char_of (92::nat), CHR ''v'']
      else if n < 32 \<or> n = 127 then [char_of (92::nat), CHR ''x'', hex_char (n div 16), hex_char (n mod 16)]
      else [c])"

definition Quote :: "gostr \<Rightarrow> gostr" where
  "Quote s = [char_of (34::nat)] @ concat (map quote_char s) @ [char_of (34::nat)]"

subsection \<open>Instants and durations\<close>

type_synonym gotime = int
type_synonym duration = int

abbreviation Second :: duration where
  "Second \<equiv> 1000000000"

definition time_IsZero :: "gotime \<Rightarrow> bool" where
  "time_IsZero t \<longleftrightarrow> t = 0"

text \<open>\<^verbatim>\<open>t.UnixNano()\<close>: the Unix epoch is 62135596800 seconds after the zero time.\<close>

definition time_UnixNano :: "gotime \<Rightarrow> int" where
  "time_UnixNano t = t - 62135596800 * Second"

text \<open>\<^verbatim>\<open>t.Sub(u)\<close> saturates at the ends of the 64-bit range of a \<^verbatim>\<open>Duration\<close>.\<close>

definition time_Sub :: "gotime \<Rightarrow> gotime \<Rightarrow> duration" where
  "time_Sub t u = max (- (2 ^ 63)) (min (2 ^ 63 - 1) (t - u))"

subsection \<open>Messages of the record and server operations\<close>

datatype level = LevelInfo | LevelWarn | LevelError

record message =
  msg_Level :: level
  msg_Text :: gostr

abbreviation Msg :: "level \<Rightarrow> gostr \<Rightarrow> message" where
  "Msg l t \<equiv> \<lparr>msg_Level = l, msg_Text = t\<rparr>"

datatype op_error = ErrHelpRequested | ErrInvalidArgs

subsection \<open>Lemmas on trimming and letter case\<close>

lemma trimr_Nil [simp]: "trimr P [] = []"
  by (simp add: trimr_def)

lemma trimr_snoc: "trimr P (s @ [c]) = (if P c then trimr P s else s @ [c])"
  by (simp add: trimr_def)

lemma trimr_idem [simp]: "trimr P (trimr P s) = trimr P s"
  by (simp add: trimr_def dropWhile_idem)

lemma trimr_fixed: "s = [] \<or> \<not> P (last s) \<Longrightarrow> trimr P s = s"
  by (cases s rule: rev_cases) (auto simp: trimr_snoc)

lemma trimr_last: "trimr P s \<noteq> [] \<Longrightarrow> \<not> P (last (trimr P s))"
  by (induction s rule: rev_induct) (auto simp: trimr_snoc)

lemma trimr_prefix: "\<exists>t. s = trimr P s @ t \<and> (\<forall>c\<in>set t. P c)"
proof -
  have "s = trimr P s @ rev (takeWhile P (rev s))"
    by (metis rev_append rev_rev_ident takeWhile_dropWhile_id trimr_def)
  then show ?thesis by (metis set_rev set_takeWhileD)
qed

lemma set_trimr_subset: "set (trimr P s) \<subseteq> set s"
  using set_dropWhileD by (fastforce simp: trimr_def)

lemma dropWhile_trimr:
  assumes "s = [] \<or> \<not> Q (hd s)"
  shows "dropWhile Q (trimr P s) = trimr P s"
proof (cases "trimr P s")
  case (Cons c t)
  moreover obtain u where "s = trimr P s @ u" using trimr_prefix [of s P] by blast
  ultimately have "hd s = c" by (metis append_Cons list.sel(1))
  moreover have "s \<noteq> []" using Cons by auto
  ultimately show ?thesis using assms Cons by simp
qed simp

lemma hd_dropWhile_not: "dropWhile P s = [] \<or> \<not> P (hd (dropWhile P s))"
  by (induction s) auto

lemma TrimSpace_idem [simp]: "TrimSpace (TrimSpace s) = TrimSpace s"
  by (simp add: TrimSpace_def dropWhile_trimr [OF hd_dropWhile_not])

lemma TrimSpace_Nil [simp]: "TrimSpace [] = []"
  by (simp add: TrimSpace_def)

lemma trimr_map:
  assumes "\<And>c. P (f c) = P c"
  shows "trimr P (map f s) = map f (trimr P s)"
proof -
  have "P \<circ> f = P" using assms by auto
  then show ?thesis by (simp add: trimr_def rev_map dropWhile_map)
qed

lemma TrimSpace_map:
  assumes "\<And>c. is_space (f c) = is_space c"
  shows "TrimSpace (map f s) = map f (TrimSpace s)"
proof -
  have "is_space \<circ> f = is_space" using assms by auto
  then show ?thesis using assms by (simp add: TrimSpace_def dropWhile_map trimr_map)
qed

lemma of_char_lower: "(of_char (lower_char c) :: nat) =
    (let n = of_char c in if 65 \<le> n \<and> n \<le> 90 then n + 32 else n)"
  by (simp add: lower_char_def Let_def)

lemma of_char_upper: "(of_char (upper_char c) :: nat) =
    (let n = of_char c in if 97 \<le> n \<and> n \<le> 122 then n - 32 else n)"
  by (auto simp: upper_char_def Let_def)

lemma of_char_eq_iff: "n < 256 \<Longrightarrow> (of_char c :: nat) = n \<longleftrightarrow> c = char_of n"
  by auto

lemma is_space_code: "is_space c \<longleftrightarrow> (of_char c :: nat) \<in> {9, 10, 11, 12, 13, 32}"
proof -
  have "char_of (9::nat) = CHR 0x09" "char_of (10::nat) = CHR 0x0A" "char_of (11::nat) = CHR 0x0B"
    "char_of (12::nat) = CHR 0x0C" "char_of (13::nat) = CHR 0x0D" "char_of (32::nat) = CHR '' ''"
    by code_simp+
  then show ?thesis by (auto simp: is_space_def of_char_eq_iff)
qed

lemma dot_code: "c = CHR ''.'' \<longleftrightarrow> (of_char c :: nat) = 46"
proof -
  have "char_of (46::nat) = CHR ''.''" by code_simp
  then show ?thesis by (simp add: of_char_eq_iff)
qed

lemma is_space_lower [simp]: "is_space (lower_char c) = is_space c"
  by (auto simp: is_space_code of_char_lower Let_def)

lemma is_space_upper [simp]: "is_space (upper_char c) = is_space c"
  by (auto simp: is_space_code of_char_upper Let_def)

lemma lower_char_dot [simp]: "lower_char c = CHR ''.'' \<longleftrightarrow> c = CHR ''.''"
  by (auto simp: dot_code of_char_lower Let_def split: if_splits)

lemma lower_char_idem [simp]: "lower_char (lower_char c) = lower_char c"
  by (simp add: lower_char_def Let_def)

lemma upper_char_idem [simp]: "upper_char (upper_char c) = upper_char c"
proof -
  have "(of_char (upper_char (upper_char c)) :: nat) = of_char (upper_char c)"
    by (auto simp: of_char_upper Let_def)
  then show ?thesis by simp
qed

lemma ToLower_idem [simp]: "ToLower (ToLower s) = ToLower s"
  by (simp add: ToLower_def)

lemma ToUpper_idem [simp]: "ToUpper (ToUpper s) = ToUpper s"
  by (simp add: ToUpper_def)

lemma ToLower_Nil_iff [simp]: "ToLower s = [] \<longleftrightarrow> s = []"
  by (simp add: ToLower_def)

lemma ToUpper_Nil_iff [simp]: "ToUpper s = [] \<longleftrightarrow> s = []"
  by (simp add: ToUpper_def)

lemma TrimSpace_ToLower [norm_simps]: "TrimSpace (ToLower s) = ToLower (TrimSpace s)"
  by (simp add: ToLower_def TrimSpace_map)

lemma TrimSpace_ToUpper [norm_simps]: "TrimSpace (ToUpper s) = ToUpper (TrimSpace s)"
  by (simp add: ToUpper_def TrimSpace_map)

lemma TrimRightDots_ToLower [norm_simps]: "TrimRightDots (ToLower s) = ToLower (TrimRightDots s)"
  by (simp add: ToLower_def TrimRightDots_def trimr_map)

lemma TrimRightDots_idem [simp]: "TrimRightDots (TrimRightDots s) = TrimRightDots s"
  by (simp add: TrimRightDots_def)

lemma TrimSpace_fixed: "(\<forall>c\<in>set s. \<not> is_space c) \<Longrightarrow> TrimSpace s = s"
  using trimr_fixed [of s is_space] last_in_set [of s] by (cases s) (auto simp: TrimSpace_def)

lemma set_TrimSpace_subset: "set (TrimSpace s) \<subseteq> set s"
  unfolding TrimSpace_def using set_trimr_subset set_dropWhileD by fastforce

lemma TrimRightDots_spaceless:
  "(\<forall>c\<in>set s. \<not> is_space c) \<Longrightarrow> TrimSpace (TrimRightDots s) = TrimRightDots s"
  using set_trimr_subset by (fastforce simp: TrimRightDots_def intro: TrimSpace_fixed)

subsection \<open>Lemmas on prefixes, splitting and joining\<close>

lemma HasPrefix_append [simp]: "HasPrefix (p @ s) p"
  by (simp add: HasPrefix_def)

lemma HasPrefix_iff: "HasPrefix s p \<longleftrightarrow> (\<exists>t. s = p @ t)"
  by (metis HasPrefix_append HasPrefix_def append_take_drop_id)

lemma HasSuffix_append [simp]: "HasSuffix (s @ p) p"
  by (simp add: HasSuffix_def)

lemma HasSuffix_iff: "HasSuffix s p \<longleftrightarrow> (\<exists>t. s = t @ p)"
proof
  assume "HasSuffix s p"
  then have "s = take (length s - length p) s @ p"
    by (metis HasSuffix_def append_take_drop_id)
  then show "\<exists>t. s = t @ p" by blast
qed auto

lemma TrimPrefix_append [simp]: "TrimPrefix (p @ s) p = s"
  by (simp add: TrimPrefix_def)

lemma TrimSuffix_append [simp]: "TrimSuffix (s @ p) p = s"
  by (simp add: TrimSuffix_def)

lemma Split_nonempty [simp]: "Split sep s \<noteq> []"
  by (induction s) (auto split: list.splits)

lemma Join_Cons: "ws \<noteq> [] \<Longrightarrow> Join sep (w # ws) = w @ sep @ Join sep ws"
  by (cases ws) auto

lemma Join_Split: "Join [sep] (Split sep s) = s"
proof (induction s)
  case (Cons c s)
  obtain w ws where w: "Split sep s = w # ws" by (cases "Split sep s") auto
  then show ?case using Cons by (cases ws) (auto simp: Join_Cons)
qed simp

lemma Split_no_sep: "sep \<notin> set s \<Longrightarrow> Split sep s = [s]"
  by (induction s) auto

lemma Split_append_sep: "sep \<notin> set w \<Longrightarrow> Split sep (w @ sep # s) = w # Split sep s"
  by (induction w) auto

lemma Split_Join:
  "ws \<noteq> [] \<Longrightarrow> (\<forall>w\<in>set ws. sep \<notin> set w) \<Longrightarrow> Split sep (Join [sep] ws) = ws"
proof (induction ws)
  case (Cons w ws)
  then show ?case by (cases "ws = []") (auto simp: Split_no_sep Join_Cons Split_append_sep)
qed simp

lemma Split_parts_no_sep: "w \<in> set (Split sep s) \<Longrightarrow> sep \<notin> set w"
proof (induction s arbitrary: w)
  case (Cons c s)
  then show ?case by (cases "Split sep s") (auto split: if_splits)
qed simp

lemma Split_parts_subset: "w \<in> set (Split sep s) \<Longrightarrow> set w \<subseteq> set s"
proof (induction s arbitrary: w)
  case (Cons c s)
  then show ?case by (cases "Split sep s") (fastforce split: if_splits)+
qed simp

lemma Split_map:
  assumes "\<And>c. f c = sep \<longleftrightarrow> c = sep"
  shows "Split sep (map f s) = map (map f) (Split sep s)"
proof (induction s)
  case (Cons c s)
  then show ?case using assms by (cases "Split sep s") auto
qed simp

subsection \<open>Lemmas on decimal text\<close>

lemma of_char_digit [simp]: "d < 10 \<Longrightarrow> (of_char (digit_char d) :: nat) = 48 + d"
  by (simp add: digit_char_def)

lemma dec_digits: "list_all is_digit (dec n)"
proof (induction n rule: dec.induct)
  case (1 n)
  moreover have "n mod 10 \<le> 9" by simp
  ultimately show ?case by (simp add: dec.simps [of n] is_digit_def)
qed

lemma dec_nonempty [simp]: "dec n \<noteq> []"
  by (subst dec.simps) simp

lemma dec_value_append: "dec_value acc (s @ t) = dec_value (dec_value acc s) t"
  by (induction s arbitrary: acc) auto

lemma dec_value_dec: "dec_value 0 (dec n) = n"
proof (induction n rule: dec.induct)
  case (1 n)
  show ?case
  proof (cases "n < 10")
    case True
    then show ?thesis by (simp add: dec.simps [of n] digit_val_def)
  next
    case False
    with 1 show ?thesis by (simp add: dec.simps [of n] dec_value_append digit_val_def)
  qed
qed

lemma ParseUint32_dec: "ParseUint32 (dec (unat (w :: u32))) = Some w"
  using unsigned_less [of w] by (simp add: ParseUint32_def dec_digits dec_value_dec)

lemma dec_inject [simp]: "dec m = dec n \<longleftrightarrow> m = n"
  by (metis dec_value_dec)

lemma digit_not_space: "is_digit c \<Longrightarrow> \<not> is_space c"
  by (auto simp: is_digit_def is_space_code)

lemma digit_not_dot: "is_digit c \<Longrightarrow> c \<noteq> CHR ''.''"
  by (simp add: is_digit_def dot_code)

end
