(* ===== verification/DnsLib.thy ===== *)
theory DnsLib
  imports IPAddr
begin

text \<open>
  The data of the library \<^verbatim>\<open>github.com/miekg/dns\<close> that dnsplane handles (resource records,
  questions, messages, numeric constants of the protocol) and the record \<open>dnslib\<close> of the
  library functions that dnsplane calls.  The library is not part of the repository: its
  functions are an argument of every definition that uses one of them, and what a theorem needs
  of them is a named hypothesis.  \<^verbatim>\<open>dns.NewRR\<close> is modelled as returning an optional record;
  \<open>None\<close> stands for an error and for the nil record that the library returns for a blank
  line.
\<close>

record rr_header =
  h_Name :: gostr
  h_Rrtype :: u16
  h_Class :: u16
  h_Ttl :: u32

record rrsig_data =
  sig_TypeCovered :: u16
  sig_Algorithm :: u8
  sig_Expiration :: u32
  sig_Inception :: u32
  sig_KeyTag :: u16
  sig_SignerName :: gostr

record dnskey_data =
  key_Flags :: u16
  key_Protocol :: u8
  key_Algorithm :: u8
  key_PublicKey :: gostr

datatype rdata =
    RD_A "u8 list"
  | RD_AAAA "u8 list"
  | RD_CNAME gostr
  | RD_NS gostr
  | RD_PTR gostr
  | RD_MX u16 gostr
  | RD_SOA gostr gostr u32 u32 u32 u32 u32
  | RD_TXT "gostr list"
  | RD_RRSIG rrsig_data
  | RD_DNSKEY dnskey_data
  | RD_Other gostr

datatype rr = RR (rr_Hdr: rr_header) (rr_Data: rdata)

abbreviation rr_Ttl :: "rr \<Rightarrow> u32" where
  "rr_Ttl r \<equiv> h_Ttl (rr_Hdr r)"

definition set_rr_Ttl :: "u32 \<Rightarrow> rr \<Rightarrow> rr" where
  "set_rr_Ttl t r = RR ((rr_Hdr r)\<lparr>h_Ttl := t\<rparr>) (rr_Data r)"

lemma set_rr_Ttl_simps [simp]:
  "rr_Hdr (set_rr_Ttl t r) = (rr_Hdr r)\<lparr>h_Ttl := t\<rparr>"
  "rr_Data (set_rr_Ttl t r) = rr_Data r"
  by (simp_all add: set_rr_Ttl_def)

record question =
  q_Name :: gostr
  q_Qtype :: u16
  q_Qclass :: u16

record edns_opt =
  opt_Do :: bool
  opt_UDPSize :: u16

record dns_msg =
  m_Id :: u16
  m_Opcode :: int
  m_Authoritative :: bool
  m_AuthenticatedData :: bool
  m_Rcode :: int
  m_Question :: "question list"
  m_Answer :: "rr list"
  m_Ns :: "rr list"
  m_Extra :: "rr list"
  m_Edns0 :: "edns_opt option"

subsection \<open>Protocol constants\<close>

definition TypeA :: u16 where "TypeA = 1"
definition TypeNS :: u16 where "TypeNS = 2"
definition TypeCNAME :: u16 where "TypeCNAME = 5"
definition TypePTR :: u16 where "TypePTR = 12"
definition TypeAAAA :: u16 where "TypeAAAA = 28"
definition TypeRRSIG :: u16 where "TypeRRSIG = 46"
definition TypeDNSKEY :: u16 where "TypeDNSKEY = 48"
definition TypeSVCB :: u16 where "TypeSVCB = 64"
definition TypeHTTPS :: u16 where "TypeHTTPS = 65"
definition TypeAXFR :: u16 where "TypeAXFR = 252"
definition TypeANY :: u16 where "TypeANY = 255"
definition ClassINET :: u16 where "ClassINET = 1"

lemmas dns_type_defs =
  TypeA_def TypeNS_def TypeCNAME_def TypePTR_def TypeAAAA_def TypeRRSIG_def TypeDNSKEY_def
  TypeSVCB_def TypeHTTPS_def TypeAXFR_def TypeANY_def ClassINET_def

definition RcodeSuccess :: int where "RcodeSuccess = 0"
definition RcodeServerFailure :: int where "RcodeServerFailure = 2"
definition RcodeNameError :: int where "RcodeNameError = 3"
definition RcodeNotImplemented :: int where "RcodeNotImplemented = 4"
definition RcodeRefused :: int where "RcodeRefused = 5"
definition OpcodeQuery :: int where "OpcodeQuery = 0"
definition OpcodeUpdate :: int where "OpcodeUpdate = 5"

lemmas dns_code_defs =
  RcodeSuccess_def RcodeServerFailure_def RcodeNameError_def RcodeNotImplemented_def
  RcodeRefused_def OpcodeQuery_def OpcodeUpdate_def

subsection \<open>Library functions\<close>

text \<open>\<open>lib_NewRR\<close> is \<open>None\<close> for a line that the library refuses.  For a blank line or a comment the library
  returns a nil record and no error; the lines built by the program start with a name and hold a class, a
  type and a value, so that case, a name that starts with a semicolon, is not told apart from a refusal.\<close>

record dnslib =
  lib_NewRR :: "gostr \<Rightarrow> rr option"
  lib_RRString :: "rr \<Rightarrow> gostr"
  lib_IsDomainName :: "gostr \<Rightarrow> bool"
  lib_StringToType :: "gostr \<Rightarrow> u16 option"
  lib_TypeToString :: "u16 \<Rightarrow> gostr"
  lib_SetRcode :: "dns_msg \<Rightarrow> dns_msg \<Rightarrow> int \<Rightarrow> dns_msg"

text \<open>\<open>lib_TypeToString L t\<close> is the map look-up \<^verbatim>\<open>dns.TypeToString[t]\<close>, the empty string for a
  missing key; \<open>lib_SetRcode L resp req c\<close> is the message \<^verbatim>\<open>resp\<close> after
  \<^verbatim>\<open>resp.SetRcode(req, c)\<close>.\<close>

subsection \<open>A sample library\<close>

text \<open>A small executable instance of the library record, on which hypotheses about the library
  are shown to be satisfiable: it knows a few types and reads resource records of five fields.\<close>

definition sample_types :: "(gostr \<times> u16) list" where
  "sample_types = [(''A'', 1), (''NS'', 2), (''CNAME'', 5), (''SOA'', 6), (''PTR'', 12), (''MX'', 15), (''TXT'', 16),
     (''AAAA'', 28), (''RRSIG'', 46), (''DNSKEY'', 48), (''ANY'', 255)]"

definition sample_NewRR :: "gostr \<Rightarrow> rr option" where
  "sample_NewRR line = (case Fields line of
      [n, t, c, ty, v] \<Rightarrow>
        (case (map_of sample_types ty, ParseUint32 t) of
           (Some code, Some ttl) \<Rightarrow> Some (RR \<lparr>h_Name = n, h_Rrtype = code, h_Class = 1, h_Ttl = ttl\<rparr> (RD_Other v))
         | _ \<Rightarrow> None)
    | _ \<Rightarrow> None)"

definition sample_type_name :: "u16 \<Rightarrow> gostr" where
  "sample_type_name t = (case find (\<lambda>p. snd p = t) sample_types of None \<Rightarrow> [] | Some p \<Rightarrow> fst p)"

definition sample_RRString :: "rr \<Rightarrow> gostr" where
  "sample_RRString r =
     h_Name (rr_Hdr r) @ '' '' @ dec (unat (rr_Ttl r)) @ '' IN '' @ sample_type_name (h_Rrtype (rr_Hdr r)) @ '' '' @
     (case rr_Data r of RD_Other v \<Rightarrow> v | _ \<Rightarrow> ''-'')"

definition sample_lib :: dnslib where
  "sample_lib = \<lparr>lib_NewRR = sample_NewRR, lib_RRString = sample_RRString,
     lib_IsDomainName = (\<lambda>s. s \<noteq> [] \<and> \<not> Contains s '' ''),
     lib_StringToType = map_of sample_types, lib_TypeToString = sample_type_name,
     lib_SetRcode = (\<lambda>resp req c. resp\<lparr>m_Id := m_Id req, m_Rcode := c, m_Question := m_Question req\<rparr>)\<rparr>"

lemmas sample_defs [simp] = sample_types_def sample_NewRR_def sample_type_name_def sample_RRString_def sample_lib_def

end
