(* ===== verification/Util.thy ===== *)
theory Util
  imports GoPrelude
begin

text \<open>
  The small utility packages: \<^verbatim>\<open>safecast\<close> (saturating conversions to unsigned machine
  integers), \<^verbatim>\<open>cliutil\<close> (help tokens of the command line) and \<^verbatim>\<open>converters\<close> (reverse DNS
  names).  A Go \<^verbatim>\<open>int\<close> or \<^verbatim>\<open>int64\<close> argument is an \<open>int\<close>; the results are words of the
  width the source returns.  The lemmas give the value of every conversion and show that the
  conversions between an address and its reverse name are inverse to each other.
\<close>

subsection \<open>Package \<^verbatim>\<open>safecast\<close>\<close>

definition DurationToUint64 :: "duration \<Rightarrow> u64" where
  "DurationToUint64 d = (if d \<le> 0 then 0 else of_int d)"

definition NonNegativeInt64ToUint64 :: "int \<Rightarrow> u64" where
  "NonNegativeInt64ToUint64 v = (if v \<le> 0 then 0 else of_int v)"

definition NonNegativeIntToUint64 :: "int \<Rightarrow> u64" where
  "NonNegativeIntToUint64 v = (if v < 0 then 0 else of_int v)"

definition MaxUint32 :: int where
  "MaxUint32 = 4294967295"

definition IntToUint32Clamp :: "int \<Rightarrow> u32" where
  "IntToUint32Clamp v = (if v \<le> 0 then 0 else if v > MaxUint32 then of_int MaxUint32 else of_int v)"

definition UnixSecondsToDNSUint32 :: "int \<Rightarrow> u32" where
  "UnixSecondsToDNSUint32 sec = (if sec \<le> 0 then 0 else if sec > MaxUint32 then of_int MaxUint32 else of_int sec)"

lemma uint_IntToUint32Clamp: "uint (IntToUint32Clamp v) = max 0 (min MaxUint32 v)"
  by (auto simp: IntToUint32Clamp_def MaxUint32_def uint_word_of_int_eq take_bit_eq_mod)

lemma uint_UnixSecondsToDNSUint32: "uint (UnixSecondsToDNSUint32 v) = max 0 (min MaxUint32 v)"
  by (auto simp: UnixSecondsToDNSUint32_def MaxUint32_def uint_word_of_int_eq take_bit_eq_mod)

lemma uint_DurationToUint64: "d < 2 ^ 63 \<Longrightarrow> uint (DurationToUint64 d) = max 0 d"
  by (auto simp: DurationToUint64_def uint_word_of_int_eq take_bit_eq_mod)

text \<open>Saturating casts: \<^verbatim>\<open>IntToUint32Clamp\<close> and \<^verbatim>\<open>UnixSecondsToDNSUint32\<close> return the
  nearest value of the \<^verbatim>\<open>uint32\<close> range for every argument, and both are monotone, so no
  argument ever wraps around.\<close>

theorem safecast_saturates:
  "uint (IntToUint32Clamp v) = max 0 (min MaxUint32 v) \<and>
   uint (UnixSecondsToDNSUint32 v) = max 0 (min MaxUint32 v) \<and>
   IntToUint32Clamp (min v w) \<le> IntToUint32Clamp w \<and>
   UnixSecondsToDNSUint32 (min v w) \<le> UnixSecondsToDNSUint32 w"
  by (auto simp: word_le_def uint_IntToUint32Clamp uint_UnixSecondsToDNSUint32)

subsection \<open>Package \<^verbatim>\<open>cliutil\<close>\<close>

definition helpTokens :: "gostr list" where
  "helpTokens = [''?'', ''help'', ''h'']"

definition IsHelpToken :: "gostr \<Rightarrow> bool" where
  "IsHelpToken token \<longleftrightarrow> TrimSpace (ToLower token) \<in> set helpTokens"

definition IsHelpRequest :: "gostr list \<Rightarrow> bool" where
  "IsHelpRequest args = (case args of [] \<Rightarrow> False | a # _ \<Rightarrow> IsHelpToken a)"

definition ContainsHelpToken :: "gostr list \<Rightarrow> bool" where
  "ContainsHelpToken args \<longleftrightarrow> list_ex IsHelpToken args"

lemma IsHelpRequest_Contains: "IsHelpRequest args \<Longrightarrow> ContainsHelpToken args"
  by (auto simp: IsHelpRequest_def ContainsHelpToken_def split: list.splits)

subsection \<open>Package \<^verbatim>\<open>converters\<close>\<close>

definition ConvertIPToReverseDNS :: "gostr \<Rightarrow> gostr" where
  "ConvertIPToReverseDNS ip =
     (let parts = Split CHR ''.'' ip in
      if length parts \<noteq> 4 then ''Invalid IP address''
      else Join ''.'' (rev parts) @ ''.in-addr.arpa'')"

definition ConvertReverseDNSToIP :: "gostr \<Rightarrow> gostr" where
  "ConvertReverseDNSToIP reverseDNS =
     (let parts = Split CHR ''.'' reverseDNS in
      if length parts < 6 then ''Invalid input''
      else Join ''.'' (rev (take 4 parts)))"

lemma Join_append_sep:
  "xs \<noteq> [] \<Longrightarrow> ys \<noteq> [] \<Longrightarrow> Join sep (xs @ ys) = Join sep xs @ sep @ Join sep ys"
proof (induction xs)
  case (Cons x xs)
  then show ?case by (cases "xs = []") (auto simp: Join_Cons)
qed simp

lemma reverse_name_as_Join:
  "ws \<noteq> [] \<Longrightarrow> Join ''.'' ws @ ''.in-addr.arpa'' = Join ''.'' (ws @ [''in-addr'', ''arpa''])"
  by (simp add: Join_append_sep)

lemma ConvertReverseDNSToIP_chars:
  assumes "c \<noteq> CHR ''.''" "c \<notin> set name" "c \<notin> set ''Invalid input''"
  shows "c \<notin> set (ConvertReverseDNSToIP name)"
proof -
  have "c \<notin> set (Join ''.'' ws)" if "\<forall>w\<in>set ws. c \<notin> set w" for ws
    using that assms(1) by (induction "''.''" ws rule: Join.induct) auto
  moreover have "\<forall>w\<in>set (rev (take 4 (Split CHR ''.'' name))). c \<notin> set w"
    using Split_parts_subset assms(2) in_set_takeD by fastforce
  ultimately have "c \<notin> set (Join ''.'' (rev (take 4 (Split CHR ''.'' name))))" by blast
  then show ?thesis using assms(3) unfolding ConvertReverseDNSToIP_def Let_def by simp
qed

text \<open>Reverse names: for every text with four dot-separated parts (every IPv4 address)
  the reverse name converts back to the same text, and the trailing root dot of a query name
  does not change that.\<close>

theorem reverse_dns_round_trip:
  assumes "length (Split CHR ''.'' ip) = 4"
  shows "ConvertReverseDNSToIP (ConvertIPToReverseDNS ip) = ip \<and>
         ConvertReverseDNSToIP (ConvertIPToReverseDNS ip @ ''.'') = ip"
proof -
  let ?ps = "Split CHR ''.'' ip"
  have rev: "ConvertIPToReverseDNS ip = Join ''.'' (rev ?ps @ [''in-addr'', ''arpa''])"
    using assms reverse_name_as_Join [of "rev ?ps"] by (simp add: ConvertIPToReverseDNS_def)
  then have rev_dot: "ConvertIPToReverseDNS ip @ ''.'' = Join ''.'' (rev ?ps @ [''in-addr'', ''arpa'', []])"
    by (simp add: Join_append_sep)
  have nosep: "\<forall>w\<in>set (rev ?ps @ [''in-addr'', ''arpa'', []]). CHR ''.'' \<notin> set w"
    using Split_parts_no_sep by auto
  then have "Split CHR ''.'' (ConvertIPToReverseDNS ip) = rev ?ps @ [''in-addr'', ''arpa'']"
    unfolding rev by (intro Split_Join) auto
  moreover have "Split CHR ''.'' (ConvertIPToReverseDNS ip @ ''.'') = rev ?ps @ [''in-addr'', ''arpa'', []]"
    unfolding rev_dot using nosep by (intro Split_Join) auto
  moreover have "Join ''.'' ?ps = ip" by (rule Join_Split)
  ultimately show ?thesis using assms by (simp add: ConvertReverseDNSToIP_def)
qed

theorem reverse_dns_round_trip_witness:
  "length (Split CHR ''.'' ''192.168.5.10'') = 4 \<and>
   ConvertIPToReverseDNS ''192.168.5.10'' = ''10.5.168.192.in-addr.arpa'' \<and>
   ConvertReverseDNSToIP ''10.5.168.192.in-addr.arpa'' = ''192.168.5.10''"
proof -
  have h: "length (Split CHR ''.'' ''192.168.5.10'') = 4" by simp
  have c: "ConvertIPToReverseDNS ''192.168.5.10'' = ''10.5.168.192.in-addr.arpa''"
    by (simp add: ConvertIPToReverseDNS_def)
  show ?thesis using reverse_dns_round_trip [OF h] h c by simp
qed

end
