(* ===== verification/Upsert.thy ===== *)
theory Upsert
  imports GoPrelude
begin

text \<open>
  Slices used as tables.  dnsplane keeps its local records, its cache and its servers in
  slices that are searched from the front: an element with the same key is replaced in place,
  a new one is appended, a removed one is cut out.  This theory has the search loop
  (\<open>find_idx\<close>, -1 is \<open>None\<close>), the cut (\<open>remove_at\<close>) and the insert-or-replace step
  (\<open>upsert\<close>), and the contract of such a table as the locale \<open>keyed_slice\<close>: the comparison the
  loop makes agrees with a key, and replacing an element keeps its key.  The locale's lemmas
  (keys stay distinct, look-up after insert, everything else untouched, removal) are proved once
  and interpreted by the record store and by the cache.
\<close>

fun find_idx :: "('a \<Rightarrow> bool) \<Rightarrow> 'a list \<Rightarrow> nat option" where
  "find_idx P [] = None"
| "find_idx P (x # xs) = (if P x then Some 0 else map_option Suc (find_idx P xs))"

definition remove_at :: "nat \<Rightarrow> 'a list \<Rightarrow> 'a list" where
  "remove_at i xs = take i xs @ drop (Suc i) xs"

definition upsert :: "('a \<Rightarrow> 'a \<Rightarrow> bool) \<Rightarrow> ('a \<Rightarrow> 'a \<Rightarrow> 'a) \<Rightarrow> 'a \<Rightarrow> 'a list \<Rightarrow> 'a list" where
  "upsert same merge x xs =
     (case find_idx (same x) xs of None \<Rightarrow> xs @ [x] | Some i \<Rightarrow> xs[i := merge x (xs ! i)])"

subsection \<open>The search loop\<close>

lemma find_idx_None: "find_idx P xs = None \<longleftrightarrow> (\<forall>x\<in>set xs. \<not> P x)"
  by (induction xs) auto

lemma find_idx_Some:
  "find_idx P xs = Some i \<longleftrightarrow> i < length xs \<and> P (xs ! i) \<and> (\<forall>j<i. \<not> P (xs ! j))"
proof (induction xs arbitrary: i)
  case (Cons x xs)
  show ?case
  proof (cases "P x")
    case True
    then show ?thesis by (cases i) auto
  next
    case False
    then show ?thesis using Cons by (cases i) (auto simp: less_Suc_eq_0_disj)
  qed
qed simp

lemma find_idx_SomeD:
  assumes "find_idx P xs = Some i"
  shows "i < length xs" "P (xs ! i)"
  using assms by (simp_all add: find_idx_Some)

lemma find_idx_cong: "(\<And>x. x \<in> set xs \<Longrightarrow> P x = Q x) \<Longrightarrow> find_idx P xs = find_idx Q xs"
  by (induction xs) auto

lemma find_via_idx: "find P xs = map_option ((!) xs) (find_idx P xs)"
  by (induction xs) (auto simp: option.map_comp comp_def)

lemma find_append_case: "find P (xs @ ys) = (case find P xs of None \<Rightarrow> find P ys | Some x \<Rightarrow> Some x)"
  by (induction xs) auto

subsection \<open>Cutting out\<close>

lemma length_remove_at: "i < length xs \<Longrightarrow> length (remove_at i xs) = length xs - 1"
  by (simp add: remove_at_def)

lemma mset_remove_at: "i < length xs \<Longrightarrow> xs = take i xs @ xs ! i # drop (Suc i) xs"
  by (simp add: id_take_nth_drop)

lemma set_remove_at_subset: "set (remove_at i xs) \<subseteq> set xs"
  unfolding remove_at_def using set_take_subset set_drop_subset by fastforce

lemma map_remove_at: "map f (remove_at i xs) = remove_at i (map f xs)"
  by (simp add: remove_at_def take_map drop_map)

lemma distinct_remove_at:
  assumes "distinct xs" "i < length xs"
  shows "distinct (remove_at i xs)" "set (remove_at i xs) = set xs - {xs ! i}"
proof -
  have "distinct (take i xs @ xs ! i # drop (Suc i) xs)"
    using assms by (simp add: id_take_nth_drop [symmetric])
  then show "distinct (remove_at i xs)" by (simp add: remove_at_def)
  have "set xs = set (take i xs @ xs ! i # drop (Suc i) xs)"
    using assms(2) by (simp add: id_take_nth_drop [symmetric])
  then show "set (remove_at i xs) = set xs - {xs ! i}"
    using \<open>distinct (take i xs @ xs ! i # drop (Suc i) xs)\<close> by (auto simp: remove_at_def)
qed

lemma filter_distinct_remove_at:
  "distinct (filter P xs) \<Longrightarrow> distinct (filter P (remove_at i xs))"
proof (cases "i < length xs")
  case True
  assume "distinct (filter P xs)"
  then have "distinct (filter P (take i xs @ xs ! i # drop (Suc i) xs))"
    using True by (simp add: id_take_nth_drop [symmetric])
  then show ?thesis by (auto simp: remove_at_def split: if_splits)
qed (simp add: remove_at_def)

subsection \<open>The contract of a table\<close>

locale keyed_slice =
  fixes same :: "'a \<Rightarrow> 'a \<Rightarrow> bool" and merge :: "'a \<Rightarrow> 'a \<Rightarrow> 'a" and key :: "'a \<Rightarrow> 'k"
  assumes same_key: "same x y \<longleftrightarrow> key y = key x"
    and merge_key: "same x y \<Longrightarrow> key (merge x y) = key x"
begin

lemma keys_upsert:
  "map key (upsert same merge x xs) =
     (if key x \<in> key ` set xs then map key xs else map key xs @ [key x])"
proof (cases "find_idx (same x) xs")
  case None
  then have "\<forall>y\<in>set xs. key y \<noteq> key x" by (simp add: find_idx_None same_key)
  then show ?thesis using None by (auto simp: upsert_def)
next
  case (Some i)
  note i = find_idx_SomeD [OF Some]
  have "key (xs ! i) = key x" using i(2) same_key by blast
  then have "map key (xs[i := merge x (xs ! i)]) = map key xs"
    using i merge_key by (metis list_update_id map_update nth_map)
  moreover have "key x \<in> key ` set xs" using i \<open>key (xs ! i) = key x\<close> by (metis imageI nth_mem)
  ultimately show ?thesis using Some by (simp add: upsert_def)
qed

lemma distinct_upsert: "distinct (map key xs) \<Longrightarrow> distinct (map key (upsert same merge x xs))"
  by (auto simp: keys_upsert)

lemma find_upsert_other:
  assumes "k \<noteq> key x"
  shows "find (\<lambda>r. key r = k) (upsert same merge x xs) = find (\<lambda>r. key r = k) xs"
proof (cases "find_idx (same x) xs")
  case None
  then show ?thesis using assms by (simp add: upsert_def find_append_case split: option.splits)
next
  case (Some i)
  note i = find_idx_SomeD [OF Some]
  have kn: "key (xs ! i) \<noteq> k" "key (merge x (xs ! i)) \<noteq> k"
    using i(2) same_key merge_key assms by auto
  have "find (\<lambda>r. key r = k) (take i xs @ y # drop (Suc i) xs) =
      (case find (\<lambda>r. key r = k) (take i xs) of None \<Rightarrow> find (\<lambda>r. key r = k) (drop (Suc i) xs) | Some r \<Rightarrow> Some r)"
    if "key y \<noteq> k" for y using that by (simp add: find_append_case split: option.split)
  note split = this
  have "xs = take i xs @ xs ! i # drop (Suc i) xs" using i(1) by (simp add: id_take_nth_drop)
  then have "find (\<lambda>r. key r = k) xs = find (\<lambda>r. key r = k) (take i xs @ xs ! i # drop (Suc i) xs)"
    by simp
  moreover have "upsert same merge x xs = take i xs @ merge x (xs ! i) # drop (Suc i) xs"
    using Some i(1) by (simp add: upsert_def upd_conv_take_nth_drop)
  ultimately show ?thesis by (simp only: split [OF kn(1)] split [OF kn(2)])
qed

lemma find_upsert_same:
  "find (\<lambda>r. key r = key x) (upsert same merge x xs) =
     Some (case find (\<lambda>r. key r = key x) xs of None \<Rightarrow> x | Some old \<Rightarrow> merge x old)"
proof -
  have eq: "(\<lambda>r. key r = key x) = same x" using same_key by auto
  show ?thesis
  proof (cases "find_idx (same x) xs")
    case None
    then have "find (same x) xs = None" by (simp add: find_via_idx)
    then show ?thesis using None by (simp add: upsert_def eq find_append_case same_key)
  next
    case (Some i)
    note i = find_idx_SomeD [OF Some]
    have "find_idx (same x) (xs[i := merge x (xs ! i)]) = Some i"
      using Some i merge_key same_key by (auto simp: find_idx_Some nth_list_update)
    then show ?thesis using Some i by (simp add: upsert_def eq find_via_idx)
  qed
qed

lemma remove_found:
  assumes "distinct (map key xs)" "find_idx (\<lambda>r. key r = k) xs = Some i"
  shows "distinct (map key (remove_at i xs))"
    and "set (map key (remove_at i xs)) = set (map key xs) - {k}"
  using assms distinct_remove_at [of "map key xs" i]
  by (auto simp: map_remove_at find_idx_Some)

end

end
