(* ===== verification/DnsRecords.thy ===== *)
theory DnsRecords
  imports DnsLib Util Upsert
begin

text \<open>
  The local record store, \<^verbatim>\<open>dnsrecords/dnsrecords.go\<close>: the record type, the normalisation of
  names, types and values, the operations add, list, filter, update and remove with their
  messages and errors, and the two look-ups \<^verbatim>\<open>FindRecord\<close> and \<^verbatim>\<open>FindAllRecords\<close>.

  An operation returns the new slice, the messages and the error; an index of -1 is \<open>None\<close>.
  The clock is read once per operation and the random bytes of \<^verbatim>\<open>NewRecordID\<close> are an argument:
  both are the environment \<open>op_env\<close>.
\<close>

record dns_record =
  dr_ID :: gostr
  dr_Name :: gostr
  dr_Type :: gostr
  dr_Value :: gostr
  dr_TTL :: u32
  dr_AddedOn :: gotime
  dr_UpdatedOn :: gotime
  dr_MACAddress :: gostr
  dr_CacheRecord :: bool
  dr_LastQuery :: gotime

definition empty_record :: dns_record where
  "empty_record = \<lparr>dr_ID = [], dr_Name = [], dr_Type = [], dr_Value = [], dr_TTL = 0, dr_AddedOn = 0,
     dr_UpdatedOn = 0, dr_MACAddress = [], dr_CacheRecord = False, dr_LastQuery = 0\<rparr>"

record ListResult =
  lr_Records :: "dns_record list"
  lr_Detailed :: bool
  lr_Filter :: gostr
  lr_Messages :: "message list"

subsection \<open>Record identifiers\<close>

text \<open>The bytes \<^verbatim>\<open>NewRecordID\<close> reads: 16 random bytes, or (when the random source fails) the
  low bytes of the clock followed by eight further random bytes.\<close>

datatype entropy = RandOK "u8 list" | RandFail "u8 list"

record op_env =
  env_now :: gotime
  env_entropy :: entropy

unbundle bit_operations_syntax

definition id_bytes :: "op_env \<Rightarrow> u8 list" where
  "id_bytes e = (case env_entropy e of
      RandOK b \<Rightarrow> take 16 (b @ replicate 16 0)
    | RandFail b \<Rightarrow>
        (let u = NonNegativeInt64ToUint64 (time_UnixNano (env_now e))
         in map (\<lambda>i. ucast (drop_bit (8 * i) u) AND 0xff) [0..<8] @ take 8 (b @ replicate 8 0)))"

definition NewRecordID :: "op_env \<Rightarrow> gostr" where
  "NewRecordID e =
     (let b = id_bytes e;
          b = b[6 := ((b ! 6) AND 0x0f) OR 0x40];
          b = b[8 := ((b ! 8) AND 0x3f) OR 0x80];
          s = concat (map byte_hex b)
      in take 8 s @ ''-'' @ take 4 (drop 8 s) @ ''-'' @ take 4 (drop 12 s) @ ''-'' @
         take 4 (drop 16 s) @ ''-'' @ take 12 (drop 20 s))"

subsection \<open>Normalisation\<close>

definition normalizeRecordType :: "gostr \<Rightarrow> gostr" where
  "normalizeRecordType recordType = ToUpper (TrimSpace recordType)"

definition canonicalizeRecordNameForStorage :: "gostr \<Rightarrow> gostr" where
  "canonicalizeRecordNameForStorage name = TrimRightDots (TrimSpace name)"

definition normalizeRecordNameKey :: "gostr \<Rightarrow> gostr" where
  "normalizeRecordNameKey name = ToLower (canonicalizeRecordNameForStorage name)"

definition normalizeRecordValueKey :: "gostr \<Rightarrow> gostr \<Rightarrow> gostr" where
  "normalizeRecordValueKey recordType0 value0 =
     (let recordType = normalizeRecordType recordType0; value = TrimSpace value0 in
      if recordType = [] then value
      else if recordType \<in> set [''CNAME'', ''NS'', ''PTR''] then normalizeRecordNameKey value
      else if recordType \<in> set [''A'', ''AAAA''] then ToLower value
      else value)"

subsection \<open>Finding records\<close>

definition findDNSRecordIndexByID :: "dns_record list \<Rightarrow> gostr \<Rightarrow> nat option" where
  "findDNSRecordIndexByID dnsRecords id0 =
     (let id = TrimSpace id0 in
      if id = [] then None else find_idx (\<lambda>r. TrimSpace (dr_ID r) = id) dnsRecords)"

definition findDNSRecordIndex :: "dns_record list \<Rightarrow> gostr \<Rightarrow> gostr \<Rightarrow> gostr \<Rightarrow> nat option" where
  "findDNSRecordIndex dnsRecords name recordType value =
     (let targetName = normalizeRecordNameKey name;
          targetType = normalizeRecordType recordType;
          targetValue = normalizeRecordValueKey targetType value
      in find_idx (\<lambda>r. normalizeRecordNameKey (dr_Name r) = targetName \<and>
                       normalizeRecordType (dr_Type r) = targetType \<and>
                       normalizeRecordValueKey (dr_Type r) (dr_Value r) = targetValue) dnsRecords)"

definition FilterRecords :: "dnslib \<Rightarrow> dns_record list \<Rightarrow> gostr \<Rightarrow> gostr \<Rightarrow> gostr + dns_record list" where
  "FilterRecords L records nameSubstr typ0 =
     (let typ = TrimSpace typ0; nt = normalizeRecordType typ in
      if typ \<noteq> [] \<and> lib_StringToType L nt = None
      then Inl (''invalid arguments: invalid DNS type '' @ Quote typ)
      else
        let typ = (if typ \<noteq> [] then nt else typ);
            needle = TrimSpace nameSubstr;
            nameKeyNeedle = (if needle \<noteq> [] then normalizeRecordNameKey needle else [])
        in Inr (filter (\<lambda>r. \<not> (typ \<noteq> [] \<and> normalizeRecordType (dr_Type r) \<noteq> typ) \<and>
                            \<not> (nameKeyNeedle \<noteq> [] \<and> \<not> Contains (normalizeRecordNameKey (dr_Name r)) nameKeyNeedle))
                  records))"

definition ApplyLegacyListFilter :: "dnslib \<Rightarrow> dns_record list \<Rightarrow> gostr \<Rightarrow> dns_record list" where
  "ApplyLegacyListFilter L records filter0 =
     (let flt = TrimSpace filter0; t = normalizeRecordType flt;
          out = (\<lambda>r. case r of Inl _ \<Rightarrow> [] | Inr rs \<Rightarrow> rs) in
      if flt = [] then records
      else if t \<noteq> [] \<and> lib_StringToType L t \<noteq> None then out (FilterRecords L records [] t)
      else out (FilterRecords L records flt []))"

subsection \<open>Usage texts\<close>

definition helpHint :: message where
  "helpHint = Msg LevelInfo ''Hint: append '?', 'help', or 'h' after the command to view this usage.''"

definition usageAdd :: "message list" where
  "usageAdd = [Msg LevelInfo ''Usage  : add <Name> [Type] <Value> [TTL]'',
     Msg LevelInfo ''Examples:'',
     Msg LevelInfo ''  add example.com 127.0.0.1'',
     Msg LevelInfo ''  add example.com A 127.0.0.1'',
     Msg LevelInfo ''  add example.com A 127.0.0.1 3600''] @ [helpHint]"

definition usageRemove :: "message list" where
  "usageRemove = [Msg LevelInfo ''Usage  : remove <Name> [Type] <Value>'',
     Msg LevelInfo ''Examples:'',
     Msg LevelInfo ''  remove example.com 127.0.0.1'',
     Msg LevelInfo ''  remove example.com A 127.0.0.1''] @ [helpHint]"

definition usageList :: "message list" where
  "usageList = [Msg LevelInfo ''Usage  : record list [details|d] [filter]'',
     Msg LevelInfo ''Description: List DNS records. Use 'details' to include timestamps, or provide a filter by name/type.''] @ [helpHint]"

subsection \<open>Validation and argument parsing\<close>

definition ipvToRecordType :: "int \<Rightarrow> gostr" where
  "ipvToRecordType v = (if v = 4 then ''A'' else if v = 6 then ''AAAA'' else [])"

definition validateIPAndDomain :: "dnslib \<Rightarrow> gostr \<Rightarrow> gostr \<Rightarrow> gostr \<times> gostr \<times> gostr" where
  "validateIPAndDomain L arg1 arg2 =
     (if IsValidIP arg1 \<and> lib_IsDomainName L arg2
      then (TrimSpace arg2, TrimSpace arg1, ipvToRecordType (GetIPVersion arg1))
      else if IsValidIP arg2 \<and> lib_IsDomainName L arg1
      then (TrimSpace arg1, TrimSpace arg2, ipvToRecordType (GetIPVersion arg2))
      else ([], [], []))"

text \<open>The error text of \<^verbatim>\<open>validateRecordValue\<close>, \<open>None\<close> when the value is valid.\<close>

definition validateRecordValue :: "dnslib \<Rightarrow> gostr \<Rightarrow> gostr \<Rightarrow> gostr option" where
  "validateRecordValue L recordType value =
     (if recordType \<in> set [''A'', ''AAAA''] then
        (if \<not> IsValidIP value then Some (''invalid IP address: '' @ value) else None)
      else if recordType \<in> set [''CNAME'', ''NS'', ''PTR'', ''TXT'', ''SRV'', ''SOA'', ''MX'', ''NAPTR'', ''CAA'',
            ''TLSA'', ''DS'', ''DNSKEY'', ''RRSIG'', ''NSEC'', ''NSEC3'', ''NSEC3PARAM''] then
        (if \<not> lib_IsDomainName L value then Some (''invalid domain name: '' @ value) else None)
      else None)"

definition invalidFormat :: gostr where
  "invalidFormat = ''invalid DNS record format. Please enter the DNS record in the format: <Name> [Type] <Value> [TTL]''"

definition parseDNSRecordArgs :: "dnslib \<Rightarrow> gostr list \<Rightarrow> gostr + dns_record" where
  "parseDNSRecordArgs L args =
     (if length args < 2 then Inl invalidFormat
      else
        case (if length args = 2 then
                (let (name, value, recordType) = validateIPAndDomain L (args ! 0) (args ! 1) in
                 if name = [] \<or> recordType = [] \<or> value = [] then None
                 else Some (name, recordType, value, ''3600''))
              else if length args > 4 then None
              else Some (args ! 0, ToUpper (args ! 1), args ! 2,
                         if length args \<ge> 4 then args ! 3 else ''3600''))
        of None \<Rightarrow> Inl invalidFormat
        | Some (name, recordType, value, ttlStr) \<Rightarrow>
            let name = TrimSpace name; value = TrimSpace value; recordType = normalizeRecordType recordType in
            if lib_StringToType L recordType = None then Inl (''invalid DNS record type: '' @ recordType)
            else case validateRecordValue L recordType value of
              Some err \<Rightarrow> Inl err
            | None \<Rightarrow>
                (case ParseUint32 ttlStr of
                   None \<Rightarrow> Inl (''invalid TTL value: '' @ ttlStr)
                 | Some ttl \<Rightarrow> Inr (empty_record\<lparr>dr_Name := name, dr_Type := recordType,
                                                  dr_Value := value, dr_TTL := ttl\<rparr>)))"

subsection \<open>Adding records\<close>

type_synonym records_result = "dns_record list \<times> message list \<times> op_error option"

text \<open>\<^verbatim>\<open>ConvertValuesToStrings(GetFieldValuesByNamesArray(r, {"Name","Type","Value","TTL"}))\<close>,
  printed with \<^verbatim>\<open>%v\<close>.\<close>

definition recToPrint :: "dns_record \<Rightarrow> gostr" where
  "recToPrint r = fmt_strings [dr_Name r, dr_Type r, dr_Value r, dec (unat (dr_TTL r))]"

text \<open>\<^verbatim>\<open>addRecordInternal\<close> first brings the record into the stored form; a record with the same
  key is replaced (its identifier survives) and a new record gets an identifier when it has none.\<close>

definition stored_record :: "op_env \<Rightarrow> dns_record \<Rightarrow> dns_record" where
  "stored_record e rec0 =
     (let r = rec0\<lparr>dr_Name := canonicalizeRecordNameForStorage (dr_Name rec0),
                   dr_Type := normalizeRecordType (dr_Type rec0)\<rparr>
      in if time_IsZero (dr_AddedOn r) then r\<lparr>dr_AddedOn := env_now e\<rparr> else r)"

definition merge_record :: "op_env \<Rightarrow> dns_record \<Rightarrow> dns_record \<Rightarrow> dns_record" where
  "merge_record e r old =
     (let r1 = (if TrimSpace (dr_ID r) = [] then r\<lparr>dr_ID := dr_ID old\<rparr> else r);
          r2 = (if TrimSpace (dr_ID r1) = [] then r1\<lparr>dr_ID := NewRecordID e\<rparr> else r1)
      in r2\<lparr>dr_UpdatedOn := env_now e\<rparr>)"

definition with_id :: "op_env \<Rightarrow> dns_record \<Rightarrow> dns_record" where
  "with_id e r = (if TrimSpace (dr_ID r) \<noteq> [] then r else r\<lparr>dr_ID := NewRecordID e\<rparr>)"

definition addRecordInternal :: "op_env \<Rightarrow> dns_record \<Rightarrow> dns_record list \<Rightarrow> bool \<Rightarrow> records_result" where
  "addRecordInternal e rec0 dnsRecords allowUpdate =
     (let r = stored_record e rec0
      in case findDNSRecordIndex dnsRecords (dr_Name r) (dr_Type r) (dr_Value r) of
           Some i \<Rightarrow>
             let oldRecord = dnsRecords ! i in
             if allowUpdate then
               let r' = merge_record e r oldRecord
               in (dnsRecords[i := r'],
                   [Msg LevelInfo ''Existing record found. Updating...'',
                    Msg LevelInfo (''Previous: '' @ recToPrint oldRecord),
                    Msg LevelInfo (''Current : '' @ recToPrint r')], None)
             else (dnsRecords,
                   [Msg LevelWarn ''A record already exists.'',
                    Msg LevelWarn (''Attempted: '' @ recToPrint r),
                    Msg LevelWarn (''Current  : '' @ recToPrint oldRecord)], None)
         | None \<Rightarrow>
             let tid = TrimSpace (dr_ID r) in
             if tid \<noteq> [] \<and> findDNSRecordIndexByID dnsRecords tid \<noteq> None
             then (dnsRecords, [Msg LevelError (''a record with id '' @ Quote tid @ '' already exists'')],
                   Some ErrInvalidArgs)
             else (dnsRecords @ [with_id e r], [Msg LevelInfo (''Added: '' @ recToPrint (with_id e r))], None))"

definition AddRecord :: "dnslib \<Rightarrow> op_env \<Rightarrow> dns_record \<Rightarrow> dns_record list \<Rightarrow> bool \<Rightarrow> records_result" where
  "AddRecord L e rec0 dnsRecords allowUpdate =
     (let r = rec0\<lparr>dr_Name := canonicalizeRecordNameForStorage (dr_Name rec0),
                   dr_Value := TrimSpace (dr_Value rec0),
                   dr_Type := normalizeRecordType (dr_Type rec0)\<rparr> in
      if dr_Name r = [] \<or> dr_Type r = [] \<or> dr_Value r = [] then
        (dnsRecords, [Msg LevelError ''name, type, and value are required''], Some ErrInvalidArgs)
      else if lib_StringToType L (dr_Type r) = None then
        (dnsRecords, [Msg LevelError (''invalid DNS record type: '' @ dr_Type r)], Some ErrInvalidArgs)
      else
        let r = (if dr_TTL r = 0 then r\<lparr>dr_TTL := 3600\<rparr> else r) in
        case validateRecordValue L (dr_Type r) (dr_Value r) of
          Some err \<Rightarrow> (dnsRecords, [Msg LevelError err], Some ErrInvalidArgs)
        | None \<Rightarrow> addRecordInternal e (r\<lparr>dr_AddedOn := env_now e\<rparr>) dnsRecords allowUpdate)"

definition Records_Add :: "dnslib \<Rightarrow> op_env \<Rightarrow> gostr list \<Rightarrow> dns_record list \<Rightarrow> bool \<Rightarrow> records_result" where
  "Records_Add L e fullCommand dnsRecords allowUpdate =
     (if IsHelpRequest fullCommand then (dnsRecords, usageAdd, Some ErrHelpRequested)
      else case parseDNSRecordArgs L fullCommand of
        Inl err \<Rightarrow> (dnsRecords, [Msg LevelError err] @ usageAdd, Some ErrInvalidArgs)
      | Inr r \<Rightarrow> addRecordInternal e r dnsRecords allowUpdate)"

definition Records_List :: "dnslib \<Rightarrow> dns_record list \<Rightarrow> gostr list \<Rightarrow> ListResult \<times> op_error option" where
  "Records_List L dnsRecords args =
     (let result = \<lparr>lr_Records = dnsRecords, lr_Detailed = False, lr_Filter = [], lr_Messages = []\<rparr> in
      if IsHelpRequest args then (result\<lparr>lr_Messages := usageList\<rparr>, Some ErrHelpRequested)
      else
        let result =
              (case args of [] \<Rightarrow> result
               | a # rest \<Rightarrow>
                   if a = ''details'' \<or> a = ''d'' then
                     (case rest of [] \<Rightarrow> result\<lparr>lr_Detailed := True\<rparr>
                      | b # _ \<Rightarrow> result\<lparr>lr_Detailed := True, lr_Filter := b\<rparr>)
                   else result\<lparr>lr_Filter := a\<rparr>);
            result =
              (if lr_Filter result \<noteq> [] then
                 result\<lparr>lr_Messages := lr_Messages result @ [Msg LevelInfo (''Filtering records by: '' @ lr_Filter result)],
                        lr_Records := ApplyLegacyListFilter L (lr_Records result) (lr_Filter result)\<rparr>
               else result);
            result =
              (if lr_Records result = [] then
                 result\<lparr>lr_Messages := lr_Messages result @ [Msg LevelInfo ''No records found.'']\<rparr>
               else result)
        in (result, None))"

subsection \<open>Removing and updating records\<close>

definition removeFormat :: "message list" where
  "removeFormat = [Msg LevelError ''invalid record format. Please use: remove <Name> [Type] <Value>''] @ usageRemove"

text \<open>The second half of \<^verbatim>\<open>Remove\<close>: the fields are known, the index perhaps.\<close>

definition removeFound ::
    "gostr \<Rightarrow> gostr \<Rightarrow> gostr \<Rightarrow> nat option \<Rightarrow> dns_record list \<Rightarrow> records_result" where
  "removeFound name recordType value existing dnsRecords =
     (if name = [] \<or> recordType = [] \<or> value = [] then (dnsRecords, removeFormat, Some ErrInvalidArgs)
      else
        let normType = normalizeRecordType recordType;
            targetName = normalizeRecordNameKey name;
            targetValue = normalizeRecordValueKey normType value;
            existing = (case existing of Some i \<Rightarrow> Some i
              | None \<Rightarrow> find_idx (\<lambda>r. normalizeRecordNameKey (dr_Name r) = targetName \<and>
                         normalizeRecordType (dr_Type r) = normType \<and>
                         normalizeRecordValueKey (dr_Type r) (dr_Value r) = targetValue) dnsRecords)
        in case existing of
             None \<Rightarrow> (dnsRecords,
               [Msg LevelWarn (''No record found for ['' @ name @ '' '' @ recordType @ '' '' @ value @ ''].'')] @ usageRemove,
               Some ErrInvalidArgs)
           | Some i \<Rightarrow> (remove_at i dnsRecords,
               [Msg LevelInfo (''Removed: '' @ recToPrint (dnsRecords ! i))], None))"

definition Records_Remove :: "dnslib \<Rightarrow> gostr list \<Rightarrow> dns_record list \<Rightarrow> records_result" where
  "Records_Remove L fullCommand dnsRecords =
     (if IsHelpRequest fullCommand then (dnsRecords, usageRemove, Some ErrHelpRequested)
      else case fullCommand of
        [] \<Rightarrow> (dnsRecords, [Msg LevelError ''remove requires at least a record name.''] @ usageRemove, Some ErrInvalidArgs)
      | [a] \<Rightarrow>
          (let name = TrimSpace a in
           if name = [] then (dnsRecords, [Msg LevelError ''record name cannot be empty.''] @ usageRemove, Some ErrInvalidArgs)
           else
             let targetName = normalizeRecordNameKey name;
                 hits = filter (\<lambda>i. normalizeRecordNameKey (dr_Name (dnsRecords ! i)) = targetName) [0..<length dnsRecords]
             in case hits of
                  [] \<Rightarrow> removeFound name [] [] None dnsRecords
                | [i] \<Rightarrow> removeFound name (dr_Type (dnsRecords ! i)) (dr_Value (dnsRecords ! i)) (Some i) dnsRecords
                | _ \<Rightarrow> (dnsRecords,
                    [Msg LevelWarn (''Multiple records match '' @ name @ ''. Please include type and value.'')] @ usageRemove,
                    Some ErrInvalidArgs))
      | [a, b] \<Rightarrow>
          (let (name, value, detectedType) = validateIPAndDomain L a b in
           if name = [] \<or> detectedType = [] then (dnsRecords, removeFormat, Some ErrInvalidArgs)
           else removeFound name detectedType value None dnsRecords)
      | [a, b, c] \<Rightarrow> removeFound (TrimSpace a) b c None dnsRecords
      | _ \<Rightarrow> (dnsRecords, removeFormat, Some ErrInvalidArgs))"

definition UpdateRecordByID ::
    "dnslib \<Rightarrow> op_env \<Rightarrow> gostr \<Rightarrow> dns_record \<Rightarrow> dns_record list \<Rightarrow> records_result" where
  "UpdateRecordByID L e id0 in0 dnsRecords =
     (let id = TrimSpace id0; fail = (\<lambda>l t. (dnsRecords, [Msg l t], Some ErrInvalidArgs)) in
      if id = [] then fail LevelError ''id is required''
      else case findDNSRecordIndexByID dnsRecords id of
        None \<Rightarrow> fail LevelError ''no record with that id''
      | Some idx \<Rightarrow>
          let r = in0\<lparr>dr_Name := canonicalizeRecordNameForStorage (dr_Name in0),
                      dr_Value := TrimSpace (dr_Value in0),
                      dr_Type := normalizeRecordType (dr_Type in0)\<rparr> in
          if dr_Name r = [] \<or> dr_Type r = [] \<or> dr_Value r = [] then fail LevelError ''name, type, and value are required''
          else if lib_StringToType L (dr_Type r) = None then fail LevelError (''invalid DNS record type: '' @ dr_Type r)
          else
            let r = (if dr_TTL r = 0 then r\<lparr>dr_TTL := 3600\<rparr> else r) in
            case validateRecordValue L (dr_Type r) (dr_Value r) of
              Some err \<Rightarrow> fail LevelError err
            | None \<Rightarrow>
                let other = findDNSRecordIndex dnsRecords (dr_Name r) (dr_Type r) (dr_Value r) in
                if other \<noteq> None \<and> other \<noteq> Some idx then
                  fail LevelWarn ''A record already exists with the same name, type, and value.''
                else
                  let old = dnsRecords ! idx;
                      r = r\<lparr>dr_ID := id, dr_AddedOn := dr_AddedOn old,
                            dr_MACAddress := (if dr_MACAddress r = [] then dr_MACAddress old else dr_MACAddress r),
                            dr_CacheRecord := dr_CacheRecord old, dr_LastQuery := dr_LastQuery old,
                            dr_UpdatedOn := env_now e\<rparr>
                  in (dnsRecords[idx := r], [Msg LevelInfo (''Updated record id='' @ id)], None))"

definition RemoveRecordByID :: "gostr \<Rightarrow> dns_record list \<Rightarrow> records_result" where
  "RemoveRecordByID id0 dnsRecords =
     (let id = TrimSpace id0 in
      if id = [] then (dnsRecords, [Msg LevelError ''id is required''], Some ErrInvalidArgs)
      else case findDNSRecordIndexByID dnsRecords id of
        None \<Rightarrow> (dnsRecords, [Msg LevelWarn ''no record with that id''], Some ErrInvalidArgs)
      | Some idx \<Rightarrow> (remove_at idx dnsRecords,
          [Msg LevelInfo (''Removed: '' @ recToPrint (dnsRecords ! idx))], None))"

subsection \<open>Answering queries from the records\<close>

definition rr_line :: "gostr \<Rightarrow> u32 \<Rightarrow> gostr \<Rightarrow> gostr \<Rightarrow> gostr" where
  "rr_line name ttl typ value = name @ '' '' @ dec (unat ttl) @ '' IN '' @ typ @ '' '' @ value"

definition ptr_target :: "gostr \<Rightarrow> gostr" where
  "ptr_target s = (let d = TrimRightDots s in if \<not> HasSuffix d ''.'' then d @ ''.'' else d)"

text \<open>One iteration of the loop of \<^verbatim>\<open>FindAllRecords\<close>: the resource records it appends.\<close>

definition findRecordStep :: "dnslib \<Rightarrow> gostr \<Rightarrow> gostr \<Rightarrow> bool \<Rightarrow> dns_record \<Rightarrow> rr list" where
  "findRecordStep L lookupRecord recordType autoBuildPTRFromA r =
     (let keep = (\<lambda>line. case lib_NewRR L line of None \<Rightarrow> [] | Some x \<Rightarrow> [x]) in
      if recordType = ''PTR'' then
        (let lookupIP = ConvertReverseDNSToIP lookupRecord in
         (if autoBuildPTRFromA \<and> (dr_Type r = ''A'' \<or> dr_Type r = ''AAAA'') \<and>
             lookupIP \<noteq> [] \<and> normalizeRecordValueKey (dr_Type r) (dr_Value r) = ToLower lookupIP
          then keep (rr_line lookupRecord (dr_TTL r) ''PTR'' (ptr_target (dr_Name r))) else []) @
         (if dr_Type r = ''PTR'' \<and> lookupIP \<noteq> [] \<and> normalizeRecordNameKey (dr_Name r) = ToLower lookupIP
          then keep (rr_line lookupRecord (dr_TTL r) ''PTR'' (ptr_target (dr_Value r))) else []))
      else if normalizeRecordNameKey (dr_Name r) = normalizeRecordNameKey lookupRecord \<and>
              normalizeRecordType (dr_Type r) = normalizeRecordType recordType
      then keep (rr_line (dr_Name r) (dr_TTL r) (dr_Type r) (dr_Value r))
      else [])"

definition FindAllRecords :: "dnslib \<Rightarrow> dns_record list \<Rightarrow> gostr \<Rightarrow> gostr \<Rightarrow> bool \<Rightarrow> rr list" where
  "FindAllRecords L dnsRecords lookupRecord recordType autoBuildPTRFromA =
     concat (map (findRecordStep L lookupRecord recordType autoBuildPTRFromA) dnsRecords)"

definition FindRecord :: "dnslib \<Rightarrow> dns_record list \<Rightarrow> gostr \<Rightarrow> gostr \<Rightarrow> bool \<Rightarrow> rr option" where
  "FindRecord L dnsRecords lookupRecord recordType autoBuildPTRFromA =
     (case FindAllRecords L dnsRecords lookupRecord recordType autoBuildPTRFromA of
        [] \<Rightarrow> None | x # _ \<Rightarrow> Some x)"

subsection \<open>Keys and identifiers of the stored records\<close>

definition rec_key :: "dns_record \<Rightarrow> gostr \<times> gostr \<times> gostr" where
  "rec_key r = (normalizeRecordNameKey (dr_Name r), normalizeRecordType (dr_Type r),
                normalizeRecordValueKey (dr_Type r) (dr_Value r))"

definition keys_unique :: "dns_record list \<Rightarrow> bool" where
  "keys_unique rs \<longleftrightarrow> distinct (map rec_key rs)"

definition rec_ids :: "dns_record list \<Rightarrow> gostr list" where
  "rec_ids rs = filter (\<lambda>i. i \<noteq> []) (map (\<lambda>r. TrimSpace (dr_ID r)) rs)"

definition ids_unique :: "dns_record list \<Rightarrow> bool" where
  "ids_unique rs \<longleftrightarrow> distinct (rec_ids rs)"

lemma normalizeRecordType_idem [simp]: "normalizeRecordType (normalizeRecordType t) = normalizeRecordType t"
  by (simp add: normalizeRecordType_def TrimSpace_ToUpper)

lemma normalizeRecordValueKey_type [simp]:
  "normalizeRecordValueKey (normalizeRecordType t) v = normalizeRecordValueKey t v"
  by (simp add: normalizeRecordValueKey_def)

lemma findDNSRecordIndex_key:
  "findDNSRecordIndex rs (dr_Name r) (dr_Type r) (dr_Value r) = find_idx (\<lambda>x. rec_key x = rec_key r) rs"
  by (auto simp: findDNSRecordIndex_def rec_key_def intro: find_idx_cong)

lemma rec_key_update [simp]:
  "rec_key (r\<lparr>dr_ID := i\<rparr>) = rec_key r"
  "rec_key (r\<lparr>dr_UpdatedOn := t\<rparr>) = rec_key r"
  "rec_key (r\<lparr>dr_AddedOn := t\<rparr>) = rec_key r"
  "rec_key (r\<lparr>dr_TTL := n\<rparr>) = rec_key r"
  "rec_key (r\<lparr>dr_MACAddress := m\<rparr>) = rec_key r"
  "rec_key (r\<lparr>dr_CacheRecord := b\<rparr>) = rec_key r"
  "rec_key (r\<lparr>dr_LastQuery := t\<rparr>) = rec_key r"
  by (simp_all add: rec_key_def)

lemma rec_key_merge [simp]: "rec_key (merge_record e r old) = rec_key r"
  by (simp add: merge_record_def Let_def)

lemma stored_fields [simp]:
  "dr_Name (stored_record e r) = canonicalizeRecordNameForStorage (dr_Name r)"
  "dr_Type (stored_record e r) = normalizeRecordType (dr_Type r)"
  "dr_Value (stored_record e r) = dr_Value r"
  "dr_TTL (stored_record e r) = dr_TTL r"
  "dr_ID (stored_record e r) = dr_ID r"
  by (simp_all add: stored_record_def Let_def)

lemma merge_fields [simp]:
  "dr_Name (merge_record e r old) = dr_Name r"
  "dr_Type (merge_record e r old) = dr_Type r"
  "dr_Value (merge_record e r old) = dr_Value r"
  "dr_TTL (merge_record e r old) = dr_TTL r"
  by (simp_all add: merge_record_def Let_def)

lemma with_id_fields [simp]:
  "dr_Name (with_id e r) = dr_Name r"
  "dr_Type (with_id e r) = dr_Type r"
  "dr_Value (with_id e r) = dr_Value r"
  "dr_TTL (with_id e r) = dr_TTL r"
  by (simp_all add: with_id_def)

interpretation rs: keyed_slice "\<lambda>x y. rec_key y = rec_key x"
    "\<lambda>x old. merge_record e (x\<lparr>dr_ID := i\<rparr>) old" rec_key for e i
  by unfold_locales simp_all

lemma rec_key_with_id [simp]: "rec_key (with_id e r) = rec_key r"
  by (simp add: with_id_def)

text \<open>What \<^verbatim>\<open>addRecordInternal\<close> does to the slice, on its four paths.\<close>

lemma addRecordInternal_cases:
  fixes e rec0 rs au
  defines "r \<equiv> stored_record e rec0"
  obtains
    (update) i m where "au" "find_idx (\<lambda>x. rec_key x = rec_key r) rs = Some i"
      "addRecordInternal e rec0 rs au = (rs[i := merge_record e r (rs ! i)], m, None)"
  | (exists) i m where "\<not> au" "find_idx (\<lambda>x. rec_key x = rec_key r) rs = Some i"
      "addRecordInternal e rec0 rs au = (rs, m, None)"
  | (dup_id) m where "find_idx (\<lambda>x. rec_key x = rec_key r) rs = None" "TrimSpace (dr_ID r) \<noteq> []"
      "findDNSRecordIndexByID rs (TrimSpace (dr_ID r)) \<noteq> None"
      "addRecordInternal e rec0 rs au = (rs, m, Some ErrInvalidArgs)"
  | (append) m where "find_idx (\<lambda>x. rec_key x = rec_key r) rs = None"
      "TrimSpace (dr_ID r) \<noteq> [] \<Longrightarrow> findDNSRecordIndexByID rs (TrimSpace (dr_ID r)) = None"
      "addRecordInternal e rec0 rs au = (rs @ [with_id e r], m, None)"
proof (cases "find_idx (\<lambda>x. rec_key x = rec_key r) rs")
  case None
  then show ?thesis
    by (cases "TrimSpace (dr_ID r) \<noteq> [] \<and> findDNSRecordIndexByID rs (TrimSpace (dr_ID r)) \<noteq> None")
      (auto simp: addRecordInternal_def findDNSRecordIndex_key r_def Let_def intro: dup_id append)
next
  case (Some i)
  then show ?thesis
    by (cases au) (auto simp: addRecordInternal_def findDNSRecordIndex_key r_def Let_def intro: update exists)
qed

text \<open>With updates allowed a successful add is the insert-or-replace step of the table.\<close>

lemma addRecordInternal_upsert:
  assumes "addRecordInternal e rec0 rs True = (rs', m, None)"
  defines "r \<equiv> stored_record e rec0"
  shows "rs' = upsert (\<lambda>x y. rec_key y = rec_key x) (\<lambda>x old. merge_record e (x\<lparr>dr_ID := dr_ID r\<rparr>) old)
                 (with_id e r) rs"
proof -
  have "(with_id e r)\<lparr>dr_ID := dr_ID r\<rparr> = r" by (simp add: with_id_def)
  then show ?thesis using assms(1) unfolding r_def
    by (cases rule: addRecordInternal_cases [where e = e and ?rec0.0 = rec0 and rs = rs and au = True]) (auto simp: upsert_def)
qed

lemma addRecordInternal_keys:
  "map rec_key (fst (addRecordInternal e rec0 rs au)) =
     (let r = stored_record e rec0; (rs', m, err) = addRecordInternal e rec0 rs au in
      if err \<noteq> None \<or> rec_key r \<in> rec_key ` set rs then map rec_key rs else map rec_key rs @ [rec_key r])"
proof (cases rule: addRecordInternal_cases [where e = e and ?rec0.0 = rec0 and rs = rs and au = au])
  case (update i m)
  note i = find_idx_SomeD [OF update(2)]
  then have "rec_key (stored_record e rec0) \<in> rec_key ` set rs" by (metis imageI nth_mem)
  moreover have "map rec_key (rs[i := merge_record e (stored_record e rec0) (rs ! i)]) = map rec_key rs"
    using i by (metis list_update_id map_update nth_map rec_key_merge)
  ultimately show ?thesis by (simp add: update(3) Let_def)
next
  case (exists i m)
  then have "rec_key (stored_record e rec0) \<in> rec_key ` set rs"
    using find_idx_SomeD [OF exists(2)] by (metis imageI nth_mem)
  then show ?thesis by (simp add: exists(3) Let_def)
qed (auto simp: Let_def find_idx_None)

lemma addRecordInternal_distinct: "keys_unique rs \<Longrightarrow> keys_unique (fst (addRecordInternal e rec0 rs au))"
  by (auto simp: keys_unique_def addRecordInternal_keys Let_def split: prod.splits)

lemma addRecordInternal_error: "snd (snd (addRecordInternal e rec0 rs au)) \<noteq> None \<Longrightarrow> fst (addRecordInternal e rec0 rs au) = rs"
  by (cases rule: addRecordInternal_cases [where e = e and ?rec0.0 = rec0 and rs = rs and au = au]) auto

subsection \<open>The operations as commands\<close>

text \<open>The five state-changing operations of the package, so that sequences of them can be run.\<close>

datatype record_op =
    OpAdd "gostr list" bool
  | OpAddRecord dns_record bool
  | OpRemove "gostr list"
  | OpUpdate gostr dns_record
  | OpRemoveID gostr

fun run_record_op :: "dnslib \<Rightarrow> op_env \<times> record_op \<Rightarrow> dns_record list \<Rightarrow> records_result" where
  "run_record_op L (e, OpAdd args au) rs = Records_Add L e args rs au"
| "run_record_op L (e, OpAddRecord r au) rs = AddRecord L e r rs au"
| "run_record_op L (e, OpRemove args) rs = Records_Remove L args rs"
| "run_record_op L (e, OpUpdate i r) rs = UpdateRecordByID L e i r rs"
| "run_record_op L (e, OpRemoveID i) rs = RemoveRecordByID i rs"

definition run_record_ops :: "dnslib \<Rightarrow> (op_env \<times> record_op) list \<Rightarrow> dns_record list \<Rightarrow> dns_record list" where
  "run_record_ops L ops rs = fold (\<lambda>c rs. fst (run_record_op L c rs)) ops rs"

lemma find_idx_nth_lt: "find_idx P xs = Some i \<Longrightarrow> i < length xs"
  by (simp add: find_idx_Some)

lemma keys_unique_remove_at: "keys_unique rs \<Longrightarrow> keys_unique (remove_at i rs)"
  unfolding keys_unique_def map_remove_at
  using filter_distinct_remove_at [of "\<lambda>_. True" "map rec_key rs" i] by simp

text \<open>What a removal leaves: the slice itself with an error, or the slice without one element whose
  name matches.\<close>

lemma removeFound_cases:
  obtains (error) m where "removeFound n t v ex rs = (rs, m, Some ErrInvalidArgs)"
  | (removed) i where "removeFound n t v ex rs =
        (remove_at i rs, [Msg LevelInfo (''Removed: '' @ recToPrint (rs ! i))], None)"
      "ex = Some i \<or> ex = None \<and>
       find_idx (\<lambda>r. rec_key r = (normalizeRecordNameKey n, normalizeRecordType t, normalizeRecordValueKey t v)) rs = Some i"
proof -
  let ?ex = "case ex of Some i \<Rightarrow> Some i
      | None \<Rightarrow> find_idx (\<lambda>r. rec_key r = (normalizeRecordNameKey n, normalizeRecordType t, normalizeRecordValueKey t v)) rs"
  have "removeFound n t v ex rs =
     (if n = [] \<or> t = [] \<or> v = [] then (rs, removeFormat, Some ErrInvalidArgs)
      else case ?ex of
        None \<Rightarrow> (rs, [Msg LevelWarn (''No record found for ['' @ n @ '' '' @ t @ '' '' @ v @ ''].'')] @ usageRemove,
                 Some ErrInvalidArgs)
      | Some i \<Rightarrow> (remove_at i rs, [Msg LevelInfo (''Removed: '' @ recToPrint (rs ! i))], None))"
    by (simp only: removeFound_def rec_key_def Let_def prod.inject normalizeRecordValueKey_type cong: option.case_cong)
  then show ?thesis
    by (cases "n = [] \<or> t = [] \<or> v = []"; cases ?ex) (auto intro: error removed split: option.splits)
qed

lemma Records_Remove_cases:
  obtains (error) m er where "Records_Remove L args rs = (rs, m, Some er)"
  | (removed) i m where "Records_Remove L args rs = (remove_at i rs, m, None)" "i < length rs"
      "args \<noteq> []"
proof -
  have rf: thesis if "Records_Remove L args rs = removeFound n t v ex rs"
      "\<And>i. ex = Some i \<Longrightarrow> i < length rs" "args \<noteq> []" for n t v ex
    using that error removed
    by (cases rule: removeFound_cases [where n = n and t = t and v = v and ex = ex and rs = rs])
      (auto dest: find_idx_nth_lt)
  show thesis
  proof (cases "IsHelpRequest args")
    case True
    then show ?thesis using error by (simp add: Records_Remove_def)
  next
    case nohelp: False
    consider "args = []" | a where "args = [a]" | a b where "args = [a, b]"
      | a b c where "args = [a, b, c]" | a b c d rest where "args = a # b # c # d # rest"
      by (cases args rule: remdups_adj.cases; metis list.exhaust)
    then show ?thesis
    proof cases
      case (2 a)
      let ?hits = "filter (\<lambda>i. normalizeRecordNameKey (dr_Name (rs ! i)) = normalizeRecordNameKey (TrimSpace a)) [0..<length rs]"
      show ?thesis
      proof (cases "TrimSpace a = []")
        case True
        then show ?thesis using nohelp 2 error by (simp add: Records_Remove_def)
      next
        case False
        consider "?hits = []" | i where "?hits = [i]" | i j k where "?hits = i # j # k"
          by (metis list.exhaust)
        then show ?thesis
        proof cases
          case 1
          then show ?thesis using nohelp 2 False by (intro rf [where ex = None]) (simp_all add: Records_Remove_def)
        next
          case (2 i)
          then have "i \<in> set ?hits" by simp
          then have "i < length rs" by simp
          then show ?thesis using nohelp 2 \<open>args = [a]\<close> False
            by (intro rf [where ex = "Some i"]) (simp_all add: Records_Remove_def)
        next
          case 3
          then show ?thesis using nohelp \<open>args = [a]\<close> False error by (simp add: Records_Remove_def)
        qed
      qed
    next
      case (3 a b)
      obtain n v t where q: "validateIPAndDomain L a b = (n, v, t)" by (metis prod_cases3)
      show ?thesis
      proof (cases "n = [] \<or> t = []")
        case True
        then show ?thesis using nohelp 3 q error by (simp add: Records_Remove_def)
      next
        case False
        then show ?thesis using nohelp 3 q
          by (intro rf [where ex = None and n = n and t = t and v = v]) (simp_all add: Records_Remove_def)
      qed
    next
      case (4 a b c)
      then show ?thesis using nohelp rf [where ex = None] by (simp add: Records_Remove_def)
    qed (use nohelp error in \<open>simp_all add: Records_Remove_def\<close>)
  qed
qed

lemma UpdateRecordByID_cases:
  obtains (error) m where "UpdateRecordByID L e i r rs = (rs, m, Some ErrInvalidArgs)"
  | (updated) idx r' m where "UpdateRecordByID L e i r rs = (rs[idx := r'], m, None)"
      "findDNSRecordIndexByID rs (TrimSpace i) = Some idx"
      "dr_ID r' = TrimSpace i"
      "find_idx (\<lambda>x. rec_key x = rec_key r') rs \<in> {None, Some idx}"
proof -
  define q where "q = r\<lparr>dr_Name := canonicalizeRecordNameForStorage (dr_Name r),
                         dr_Value := TrimSpace (dr_Value r), dr_Type := normalizeRecordType (dr_Type r)\<rparr>"
  define q' where "q' = (if dr_TTL q = 0 then q\<lparr>dr_TTL := 3600\<rparr> else q)"
  define u where "u = (\<lambda>idx. q'\<lparr>dr_ID := TrimSpace i, dr_AddedOn := dr_AddedOn (rs ! idx),
      dr_MACAddress := (if dr_MACAddress q' = [] then dr_MACAddress (rs ! idx) else dr_MACAddress q'),
      dr_CacheRecord := dr_CacheRecord (rs ! idx), dr_LastQuery := dr_LastQuery (rs ! idx),
      dr_UpdatedOn := env_now e\<rparr>)"
  let ?oth = "findDNSRecordIndex rs (dr_Name q') (dr_Type q') (dr_Value q')"
  have key: "?oth = find_idx (\<lambda>x. rec_key x = rec_key q') rs" by (rule findDNSRecordIndex_key)
  have eq: "UpdateRecordByID L e i r rs =
     (if TrimSpace i = [] then (rs, [Msg LevelError ''id is required''], Some ErrInvalidArgs)
      else case findDNSRecordIndexByID rs (TrimSpace i) of
        None \<Rightarrow> (rs, [Msg LevelError ''no record with that id''], Some ErrInvalidArgs)
      | Some idx \<Rightarrow>
          if dr_Name q = [] \<or> dr_Type q = [] \<or> dr_Value q = []
          then (rs, [Msg LevelError ''name, type, and value are required''], Some ErrInvalidArgs)
          else if lib_StringToType L (dr_Type q) = None
          then (rs, [Msg LevelError (''invalid DNS record type: '' @ dr_Type q)], Some ErrInvalidArgs)
          else case validateRecordValue L (dr_Type q') (dr_Value q') of
              Some err \<Rightarrow> (rs, [Msg LevelError err], Some ErrInvalidArgs)
            | None \<Rightarrow>
                if ?oth \<noteq> None \<and> ?oth \<noteq> Some idx
                then (rs, [Msg LevelWarn ''A record already exists with the same name, type, and value.''], Some ErrInvalidArgs)
                else (rs[idx := u idx], [Msg LevelInfo (''Updated record id='' @ TrimSpace i)], None))"
    by (simp only: UpdateRecordByID_def Let_def q_def q'_def u_def)
  have u: "dr_ID (u idx) = TrimSpace i" "rec_key (u idx) = rec_key q'" for idx by (simp_all add: u_def)
  show thesis
  proof (cases "\<exists>m. UpdateRecordByID L e i r rs = (rs, m, Some ErrInvalidArgs)")
    case False
    then obtain idx where "findDNSRecordIndexByID rs (TrimSpace i) = Some idx" "?oth \<in> {None, Some idx}"
      by (auto simp: eq split: if_splits option.splits)
    with False show ?thesis
      by (intro updated [of idx "u idx" "[Msg LevelInfo (''Updated record id='' @ TrimSpace i)]"])
        (auto simp: eq key u split: if_splits option.splits)
  qed (use error in blast)
qed

subsection \<open>Invariants of the operations\<close>

lemma keys_unique_update:
  assumes "keys_unique rs" "find_idx (\<lambda>x. rec_key x = rec_key r) rs \<in> {None, Some i}"
  shows "keys_unique (rs[i := r])"
proof -
  have "rec_key r \<notin> set (map rec_key rs) - {map rec_key rs ! i}" if i: "i < length rs"
  proof (cases "find_idx (\<lambda>x. rec_key x = rec_key r) rs")
    case None
    then show ?thesis by (auto simp: find_idx_None)
  next
    case (Some j)
    then have "j = i" using assms(2) by simp
    then show ?thesis using find_idx_SomeD [OF Some] i by auto
  qed
  then show ?thesis using assms(1)
    by (cases "i < length rs") (auto simp: keys_unique_def map_update distinct_list_update list_update_beyond)
qed

lemma AddRecord_cases:
  obtains (error) m where "AddRecord L e r rs au = (rs, m, Some ErrInvalidArgs)"
  | (added) r' where "AddRecord L e r rs au = addRecordInternal e r' rs au"
      "r' = r\<lparr>dr_Name := canonicalizeRecordNameForStorage (dr_Name r), dr_Value := TrimSpace (dr_Value r),
              dr_Type := normalizeRecordType (dr_Type r),
              dr_TTL := (if dr_TTL r = 0 then 3600 else dr_TTL r), dr_AddedOn := env_now e\<rparr>"
      "normalizeRecordType (dr_Type r) \<noteq> []" "TrimSpace (dr_Value r) \<noteq> []"
proof (cases "\<exists>m. AddRecord L e r rs au = (rs, m, Some ErrInvalidArgs)")
  case False
  then show ?thesis
    by (intro added [OF _ refl]) (auto simp: AddRecord_def Let_def split: option.splits if_splits)
qed (use error in blast)

lemma Records_Add_cases:
  obtains (error) m er where "Records_Add L e args rs au = (rs, m, Some er)"
  | (added) r' where "Records_Add L e args rs au = addRecordInternal e r' rs au"
      "parseDNSRecordArgs L args = Inr r'"
  using that by (fastforce simp: Records_Add_def split: sum.splits if_splits)

lemma RemoveRecordByID_cases:
  obtains (error) m where "RemoveRecordByID i rs = (rs, m, Some ErrInvalidArgs)"
  | (removed) idx m where "RemoveRecordByID i rs = (remove_at idx rs, m, None)"
      "findDNSRecordIndexByID rs (TrimSpace i) = Some idx" "idx < length rs"
proof (cases "TrimSpace i = [] \<or> findDNSRecordIndexByID rs (TrimSpace i) = None")
  case True
  then have "\<exists>m. RemoveRecordByID i rs = (rs, m, Some ErrInvalidArgs)"
    by (auto simp: RemoveRecordByID_def Let_def)
  then show ?thesis using error by blast
next
  case False
  then obtain idx where "findDNSRecordIndexByID rs (TrimSpace i) = Some idx" by blast
  then show ?thesis using removed [of idx] False
    by (auto simp: RemoveRecordByID_def findDNSRecordIndexByID_def Let_def dest: find_idx_nth_lt)
qed

lemma run_record_op_unique:
  assumes "keys_unique rs"
  shows "keys_unique (fst (run_record_op L c rs))"
proof (cases "(L, c, rs)" rule: run_record_op.cases)
  case (1 L' e args au rs')
  then show ?thesis using assms addRecordInternal_distinct
    by (cases rule: Records_Add_cases [where L = L and e = e and args = args and rs = rs and au = au]) auto
next
  case (2 L' e r au rs')
  then show ?thesis using assms addRecordInternal_distinct
    by (cases rule: AddRecord_cases [where L = L and e = e and r = r and rs = rs and au = au]) auto
next
  case (3 L' e args rs')
  then show ?thesis using assms keys_unique_remove_at
    by (cases rule: Records_Remove_cases [where L = L and args = args and rs = rs]) auto
next
  case (4 L' e i r rs')
  then show ?thesis using assms keys_unique_update
    by (cases rule: UpdateRecordByID_cases [where L = L and e = e and i = i and r = r and rs = rs]) auto
next
  case (5 L' e i rs')
  then show ?thesis using assms keys_unique_remove_at
    by (cases rule: RemoveRecordByID_cases [where i = i and rs = rs]) auto
qed

subsection \<open>Look-ups after the operations\<close>

text \<open>A record that answers no query for this name and type.\<close>

lemma findRecordStep_other:
  assumes "q_t \<noteq> ''PTR''"
    "(normalizeRecordNameKey (dr_Name r), normalizeRecordType (dr_Type r)) \<noteq> (normalizeRecordNameKey q_n, normalizeRecordType q_t)"
  shows "findRecordStep L q_n q_t b r = []"
  using assms by (auto simp: findRecordStep_def Let_def)

lemma findRecordStep_match:
  assumes "q_t \<noteq> ''PTR''" "normalizeRecordNameKey (dr_Name r) = normalizeRecordNameKey q_n"
    "normalizeRecordType (dr_Type r) = normalizeRecordType q_t"
    "lib_NewRR L (rr_line (dr_Name r) (dr_TTL r) (dr_Type r) (dr_Value r)) = Some x"
  shows "findRecordStep L q_n q_t b r = [x]"
  using assms by (simp add: findRecordStep_def Let_def)

lemma FindAllRecords_member:
  "r \<in> set rs \<Longrightarrow> findRecordStep L q_n q_t b r = [x] \<Longrightarrow> x \<in> set (FindAllRecords L rs q_n q_t b)"
  by (force simp: FindAllRecords_def)

lemma FindAllRecords_append:
  "FindAllRecords L (rs @ rs') q_n q_t b = FindAllRecords L rs q_n q_t b @ FindAllRecords L rs' q_n q_t b"
  by (simp add: FindAllRecords_def)

lemma FindAllRecords_replace:
  assumes "i < length rs" "findRecordStep L q_n q_t b (rs ! i) = []" "findRecordStep L q_n q_t b r = []"
  shows "FindAllRecords L (rs[i := r]) q_n q_t b = FindAllRecords L rs q_n q_t b"
proof -
  have "FindAllRecords L rs q_n q_t b = FindAllRecords L (take i rs @ rs ! i # drop (Suc i) rs) q_n q_t b"
    using assms(1) by (simp add: id_take_nth_drop [symmetric])
  then show ?thesis using assms
    by (simp add: upd_conv_take_nth_drop FindAllRecords_def)
qed

text \<open>What a successful add with updates allowed stores.\<close>

lemma AddRecord_stored:
  assumes "AddRecord L e r rs True = (rs', m, None)"
  obtains y where "y \<in> set rs'" "dr_Name y = canonicalizeRecordNameForStorage (canonicalizeRecordNameForStorage (dr_Name r))"
    "dr_Type y = normalizeRecordType (dr_Type r)" "dr_Value y = TrimSpace (dr_Value r)"
    "dr_TTL y = (if dr_TTL r = 0 then 3600 else dr_TTL r)"
    "rs' = rs @ [y] \<and> rec_key y \<notin> rec_key ` set rs \<or>
     (\<exists>i < length rs. rs' = rs[i := y] \<and> rec_key (rs ! i) = rec_key y)"
proof (cases rule: AddRecord_cases [where L = L and e = e and r = r and rs = rs and au = True])
  case (added r')
  let ?s = "stored_record e r'"
  have s: "dr_Name ?s = canonicalizeRecordNameForStorage (canonicalizeRecordNameForStorage (dr_Name r))"
    "dr_Type ?s = normalizeRecordType (dr_Type r)" "dr_Value ?s = TrimSpace (dr_Value r)"
    "dr_TTL ?s = (if dr_TTL r = 0 then 3600 else dr_TTL r)"
    by (simp_all add: added(2))
  show ?thesis
  proof (cases rule: addRecordInternal_cases [where e = e and ?rec0.0 = r' and rs = rs and au = True])
    case (update i m')
    note i = find_idx_SomeD [OF update(2)]
    have "rs' = rs[i := merge_record e ?s (rs ! i)]" using assms added(1) update(3) by simp
    then show ?thesis
      using i s that [of "merge_record e ?s (rs ! i)"] by (auto simp: set_update_memI)
  next
    case (append m')
    then have "rs' = rs @ [with_id e ?s]" using assms added(1) by simp
    moreover have "rec_key ?s \<notin> rec_key ` set rs" using append(1) by (auto simp: find_idx_None)
    ultimately show ?thesis using s that [of "with_id e ?s"] by auto
  qed (use assms added(1) in auto)
qed (use assms in simp)

lemma normalizeRecordNameKey_TrimSpace [simp]: "normalizeRecordNameKey (TrimSpace n) = normalizeRecordNameKey n"
  by (simp add: normalizeRecordNameKey_def canonicalizeRecordNameForStorage_def)

lemma find_idx_snoc: "find_idx P xs = None \<Longrightarrow> P x \<Longrightarrow> find_idx P (xs @ [x]) = Some (length xs)"
  by (auto simp: find_idx_Some find_idx_None nth_append)

lemma remove_at_snoc [simp]: "remove_at (length xs) (xs @ [x]) = xs"
  by (simp add: remove_at_def)

lemma Records_Remove_three:
  assumes "\<not> IsHelpRequest [n, t, v]" "TrimSpace n \<noteq> []" "t \<noteq> []" "v \<noteq> []"
    "find_idx (\<lambda>r. rec_key r = (normalizeRecordNameKey n, normalizeRecordType t, normalizeRecordValueKey t v)) rs = Some i"
  shows "Records_Remove L [n, t, v] rs =
    (remove_at i rs, [Msg LevelInfo (''Removed: '' @ recToPrint (rs ! i))], None)"
  using assms by (simp add: Records_Remove_def removeFound_def rec_key_def Let_def)

lemma unat_div_16: "unat (x :: u8) div 16 = unat (drop_bit 4 x)"
  by (simp add: drop_bit_eq_div unat_div)

lemma version_nibble: "unat (((x :: u8) AND 0x0f) OR 0x40) div 16 = 4"
  unfolding unat_div_16 drop_bit_or drop_bit_and by simp

lemma variant_nibble: "unat (((x :: u8) AND 0x3f) OR 0x80) div 16 \<in> {8, 9, 10, 11}"
proof -
  have "unat (((drop_bit 4 x) AND 3) OR 8) \<in> {8, 9, 10, 11}"
  proof -
    have "drop_bit 4 x AND 3 \<le> 3" by (rule word_and_le1)
    then have "unat (drop_bit 4 x AND 3) \<le> 3" by (simp add: word_le_nat_alt)
    then have "unat (drop_bit 4 x AND 3) \<in> {0, 1, 2, 3}" by auto
    then have "drop_bit 4 x AND 3 \<in> {0, 1, 2, 3}"
      using word_unat_eq_iff [of "drop_bit 4 x AND 3"] by auto
    then show ?thesis by auto
  qed
  then show ?thesis unfolding unat_div_16 drop_bit_or drop_bit_and by simp
qed

lemma length_id_bytes: "length (id_bytes e) = 16"
  by (auto simp: id_bytes_def Let_def min_def split: entropy.split)

subsection \<open>Properties\<close>

text \<open>C18.  Whatever sequence of adds (from the command line or from the API, with or without
  update), removals and updates runs on a slice in which no two records agree in normalised name,
  type and value, no two records of the result do.\<close>

theorem records_keys_unique:
  assumes "keys_unique rs"
  shows "keys_unique (run_record_ops L ops rs)"
  using assms unfolding run_record_ops_def
  by (induction ops arbitrary: rs) (simp_all add: run_record_op_unique)

definition sample_env :: op_env where
  "sample_env = \<lparr>env_now = 63000000000 * Second, env_entropy = RandOK (replicate 16 0xAB)\<rparr>"

definition sample_record :: dns_record where
  "sample_record = empty_record\<lparr>dr_ID := ''id-1'', dr_Name := ''host.lan'', dr_Type := ''A'',
     dr_Value := ''10.0.0.1'', dr_TTL := 60\<rparr>"

definition sample_alias :: dns_record where
  "sample_alias = empty_record\<lparr>dr_ID := ''id-2'', dr_Name := '' New.lan. '', dr_Type := ''cname'', dr_Value := ''host.lan''\<rparr>"

theorem records_keys_unique_witness:
  "keys_unique [sample_record] \<and>
   keys_unique (run_record_ops sample_lib
     [(sample_env, OpAdd [''HOST.lan.'', ''a'', ''10.0.0.1'', ''5''] True),
      (sample_env, OpAdd [''other.lan'', ''10.0.0.2''] False),
      (sample_env, OpRemoveID ''id-1'')] [sample_record])"
  using records_keys_unique [of "[sample_record]"] by (simp add: keys_unique_def)

text \<open>An operation that reports an error (bad arguments, help, unknown identifier, duplicate
  identifier, no such record) leaves the slice of records exactly as it was.\<close>

theorem records_error_unchanged:
  "snd (snd (run_record_op L c rs)) \<noteq> None \<Longrightarrow> fst (run_record_op L c rs) = rs"
proof (cases "(L, c, rs)" rule: run_record_op.cases)
  case (1 L' e args au rs')
  then show "snd (snd (run_record_op L c rs)) \<noteq> None \<Longrightarrow> ?thesis" using addRecordInternal_error
    by (cases rule: Records_Add_cases [where L = L and e = e and args = args and rs = rs and au = au]) auto
next
  case (2 L' e r au rs')
  then show "snd (snd (run_record_op L c rs)) \<noteq> None \<Longrightarrow> ?thesis" using addRecordInternal_error
    by (cases rule: AddRecord_cases [where L = L and e = e and r = r and rs = rs and au = au]) auto
next
  case (3 L' e args rs')
  then show "snd (snd (run_record_op L c rs)) \<noteq> None \<Longrightarrow> ?thesis"
    by (cases rule: Records_Remove_cases [where L = L and args = args and rs = rs]) auto
next
  case (4 L' e i r rs')
  then show "snd (snd (run_record_op L c rs)) \<noteq> None \<Longrightarrow> ?thesis"
    by (cases rule: UpdateRecordByID_cases [where L = L and e = e and i = i and r = r and rs = rs]) auto
next
  case (5 L' e i rs')
  then show "snd (snd (run_record_op L c rs)) \<noteq> None \<Longrightarrow> ?thesis"
    by (cases rule: RemoveRecordByID_cases [where i = i and rs = rs]) auto
qed

theorem records_error_unchanged_witness:
  "fst (run_record_op sample_lib (sample_env, OpRemove [''nohost.lan'', ''A'', ''10.0.0.9'']) [sample_record]) = [sample_record]"
proof -
  have "snd (snd (run_record_op sample_lib (sample_env, OpRemove [''nohost.lan'', ''A'', ''10.0.0.9'']) [sample_record])) \<noteq> None"
    by code_simp
  then show ?thesis by (rule records_error_unchanged)
qed

text \<open>After a successful \<^verbatim>\<open>AddRecord\<close> with updates allowed, a query for any spelling of the
  name (letter case, surrounding space, trailing dots) and for the type is answered with the
  record, with the default TTL of 3600 for a zero TTL; and the answer to every query for another
  name or another type is what it was before.\<close>

theorem add_then_lookup:
  assumes add: "AddRecord L e r rs True = (rs', m, None)"
    and line: "lib_NewRR L (rr_line (canonicalizeRecordNameForStorage (canonicalizeRecordNameForStorage (dr_Name r)))
        (if dr_TTL r = 0 then 3600 else dr_TTL r) (normalizeRecordType (dr_Type r)) (TrimSpace (dr_Value r))) = Some x"
    and name: "normalizeRecordNameKey n =
        normalizeRecordNameKey (canonicalizeRecordNameForStorage (canonicalizeRecordNameForStorage (dr_Name r)))"
    and ty: "normalizeRecordType t = normalizeRecordType (dr_Type r)" "t \<noteq> ''PTR''"
  shows "x \<in> set (FindAllRecords L rs' n t auto_ptr) \<and>
    (\<forall>n' t'. t' \<noteq> ''PTR'' \<longrightarrow>
       (normalizeRecordNameKey n', normalizeRecordType t') \<noteq> (normalizeRecordNameKey n, normalizeRecordType t) \<longrightarrow>
       FindAllRecords L rs' n' t' auto_ptr = FindAllRecords L rs n' t' auto_ptr)"
proof -
  obtain y where y: "y \<in> set rs'"
      "dr_Name y = canonicalizeRecordNameForStorage (canonicalizeRecordNameForStorage (dr_Name r))"
      "dr_Type y = normalizeRecordType (dr_Type r)" "dr_Value y = TrimSpace (dr_Value r)"
      "dr_TTL y = (if dr_TTL r = 0 then 3600 else dr_TTL r)"
    and shape: "rs' = rs @ [y] \<and> rec_key y \<notin> rec_key ` set rs \<or>
        (\<exists>i < length rs. rs' = rs[i := y] \<and> rec_key (rs ! i) = rec_key y)"
    using add by (rule AddRecord_stored)
  have "findRecordStep L n t auto_ptr y = [x]"
    using y line name ty by (intro findRecordStep_match) simp_all
  then have "x \<in> set (FindAllRecords L rs' n t auto_ptr)" using y(1) by (rule FindAllRecords_member [rotated])
  moreover have "FindAllRecords L rs' n' t' auto_ptr = FindAllRecords L rs n' t' auto_ptr"
    if "t' \<noteq> ''PTR''"
      "(normalizeRecordNameKey n', normalizeRecordType t') \<noteq> (normalizeRecordNameKey n, normalizeRecordType t)" for n' t'
  proof -
    have oth: "findRecordStep L n' t' auto_ptr z = []" if "rec_key z = rec_key y" for z
      using that \<open>t' \<noteq> ''PTR''\<close> \<open>(normalizeRecordNameKey n', _) \<noteq> _\<close> y name ty
      by (intro findRecordStep_other) (auto simp: rec_key_def)
    from shape show ?thesis
      using oth by (auto simp: FindAllRecords_replace FindAllRecords_append) (simp add: FindAllRecords_def)
  qed
  ultimately show ?thesis by blast
qed

theorem add_then_lookup_witness:
  "\<exists>rs' m. AddRecord sample_lib sample_env sample_alias [sample_record] True = (rs', m, None) \<and>
     RR \<lparr>h_Name = ''New.lan'', h_Rrtype = 5, h_Class = 1, h_Ttl = 3600\<rparr> (RD_Other ''host.lan'')
       \<in> set (FindAllRecords sample_lib rs' ''NEW.lan.'' ''CNAME'' False)"
proof -
  have "snd (snd (AddRecord sample_lib sample_env sample_alias [sample_record] True)) = None" by code_simp
  then obtain rs' m where add: "AddRecord sample_lib sample_env sample_alias [sample_record] True = (rs', m, None)"
    by (metis prod.collapse)
  have u: "unat (3600 :: u32) = 3600" by simp
  have l: "rr_line ''New.lan'' 3600 ''CNAME'' ''host.lan'' = ''New.lan 3600 IN CNAME host.lan''"
    unfolding rr_line_def u by code_simp
  have "Fields ''New.lan 3600 IN CNAME host.lan'' = [''New.lan'', ''3600'', ''IN'', ''CNAME'', ''host.lan'']"
    by code_simp
  moreover have "ParseUint32 ''3600'' = Some 3600"
    by (simp add: ParseUint32_def is_digit_def digit_val_def)
  ultimately have p: "lib_NewRR sample_lib ''New.lan 3600 IN CNAME host.lan'' =
      Some (RR \<lparr>h_Name = ''New.lan'', h_Rrtype = 5, h_Class = 1, h_Ttl = 3600\<rparr> (RD_Other ''host.lan''))" by simp
  have "canonicalizeRecordNameForStorage '' New.lan. '' = ''New.lan''" "canonicalizeRecordNameForStorage ''New.lan'' = ''New.lan''"
      "normalizeRecordType ''cname'' = ''CNAME''" "TrimSpace ''host.lan'' = ''host.lan''" by code_simp+
  then have "lib_NewRR sample_lib (rr_line (canonicalizeRecordNameForStorage (canonicalizeRecordNameForStorage (dr_Name sample_alias)))
        (if dr_TTL sample_alias = 0 then 3600 else dr_TTL sample_alias)
        (normalizeRecordType (dr_Type sample_alias)) (TrimSpace (dr_Value sample_alias))) =
      Some (RR \<lparr>h_Name = ''New.lan'', h_Rrtype = 5, h_Class = 1, h_Ttl = 3600\<rparr> (RD_Other ''host.lan''))"
    using l p by (simp add: sample_alias_def empty_record_def)
  moreover have "normalizeRecordNameKey ''NEW.lan.'' = normalizeRecordNameKey
      (canonicalizeRecordNameForStorage (canonicalizeRecordNameForStorage (dr_Name sample_alias)))" by code_simp
  moreover have "normalizeRecordType ''CNAME'' = normalizeRecordType (dr_Type sample_alias)" by code_simp
  ultimately show ?thesis using add_then_lookup [OF add, of _ "''NEW.lan.''" "''CNAME''" False] add by auto
qed

text \<open>Adding a record that no record matches in name, type and value, and then removing it by
  the name, type and value it was stored under, restores the slice.\<close>

theorem add_remove_round_trip:
  assumes add: "AddRecord L e r rs au = (rs @ [y], m, None)"
    and args: "\<not> IsHelpRequest [dr_Name y, dr_Type y, dr_Value y]" "TrimSpace (dr_Name y) \<noteq> []"
  shows "Records_Remove L [dr_Name y, dr_Type y, dr_Value y] (rs @ [y]) =
           (rs, [Msg LevelInfo (''Removed: '' @ recToPrint y)], None)"
proof (cases rule: AddRecord_cases [where L = L and e = e and r = r and rs = rs and au = au])
  case (added r')
  let ?s = "stored_record e r'"
  show ?thesis
  proof (cases rule: addRecordInternal_cases [where e = e and ?rec0.0 = r' and rs = rs and au = au])
    case (append m')
    have y: "y = with_id e ?s" using append(3) added(1) add by simp
    have ne: "dr_Type y \<noteq> []" "dr_Value y \<noteq> []" using added(2-4) by (simp_all add: y)
    have "find_idx (\<lambda>x. rec_key x = rec_key y) (rs @ [y]) = Some (length rs)"
      using append(1) by (intro find_idx_snoc) (simp_all add: y)
    then show ?thesis
      using Records_Remove_three [OF args(1) args(2) ne] by (simp add: rec_key_def)
  next
    case (update i m')
    then have "length (rs @ [y]) = length rs" using add added(1) by (metis fst_conv length_list_update)
    then show ?thesis by simp
  qed (use add added(1) in auto)
qed (use add in simp)

theorem add_remove_round_trip_witness:
  "\<exists>y m. AddRecord sample_lib sample_env sample_alias [sample_record] False = ([sample_record] @ [y], m, None) \<and>
     fst (Records_Remove sample_lib [dr_Name y, dr_Type y, dr_Value y] ([sample_record] @ [y])) = [sample_record]"
proof -
  let ?y = "sample_alias\<lparr>dr_Name := ''New.lan'', dr_Type := ''CNAME'', dr_TTL := 3600, dr_AddedOn := env_now sample_env\<rparr>"
  have "fst (AddRecord sample_lib sample_env sample_alias [sample_record] False) = [sample_record] @ [?y]"
    "snd (snd (AddRecord sample_lib sample_env sample_alias [sample_record] False)) = None"
    by code_simp+
  then obtain m where add: "AddRecord sample_lib sample_env sample_alias [sample_record] False = ([sample_record] @ [?y], m, None)"
    by (metis prod.collapse)
  have "\<not> IsHelpRequest [dr_Name ?y, dr_Type ?y, dr_Value ?y]" "TrimSpace (dr_Name ?y) \<noteq> []" by code_simp+
  then show ?thesis using add_remove_round_trip [OF add] add by (intro exI [of _ ?y] exI [of _ m]) auto
qed

text \<open>A successful \<^verbatim>\<open>UpdateRecordByID\<close> changes one position only: the first record with the
  identifier, which keeps the identifier; keys that were distinct stay distinct, and so do
  identifiers.\<close>

theorem UpdateRecordByID_one_position:
  assumes upd: "UpdateRecordByID L e i r rs = (rs', m, None)" and "keys_unique rs"
  shows "keys_unique rs' \<and> rec_ids rs' = rec_ids rs \<and>
    (\<exists>idx r'. findDNSRecordIndexByID rs i = Some idx \<and> rs' = rs[idx := r'] \<and> dr_ID r' = TrimSpace i)"
proof (cases rule: UpdateRecordByID_cases [where L = L and e = e and i = i and r = r and rs = rs])
  case (updated idx r' m')
  then have idx: "findDNSRecordIndexByID rs i = Some idx" by (simp add: findDNSRecordIndexByID_def Let_def)
  then have "TrimSpace (dr_ID (rs ! idx)) = TrimSpace i" "idx < length rs"
    by (auto simp: findDNSRecordIndexByID_def Let_def find_idx_Some split: if_splits)
  then have "map (\<lambda>r. TrimSpace (dr_ID r)) (rs[idx := r']) = map (\<lambda>r. TrimSpace (dr_ID r)) rs"
    using updated(3) by (simp add: map_update list_update_same_conv)
  then have "rec_ids (rs[idx := r']) = rec_ids rs" by (simp only: rec_ids_def)
  moreover have "keys_unique (rs[idx := r'])" using assms(2) updated(4) by (rule keys_unique_update)
  ultimately show ?thesis using upd updated idx by auto
qed (use upd in simp)

theorem UpdateRecordByID_one_position_witness:
  "\<exists>rs' m. UpdateRecordByID sample_lib sample_env '' id-1 '' sample_alias [sample_record] = (rs', m, None) \<and>
     keys_unique rs' \<and> rec_ids rs' = [''id-1'']"
proof -
  have "snd (snd (UpdateRecordByID sample_lib sample_env '' id-1 '' sample_alias [sample_record])) = None" by code_simp
  then obtain rs' m where u: "UpdateRecordByID sample_lib sample_env '' id-1 '' sample_alias [sample_record] = (rs', m, None)"
    by (metis prod.collapse)
  moreover have "keys_unique [sample_record]" by (simp add: keys_unique_def)
  moreover have "rec_ids [sample_record] = [''id-1'']" by code_simp
  ultimately show ?thesis using UpdateRecordByID_one_position [OF u] by auto
qed

text \<open>\<^verbatim>\<open>NewRecordID\<close> returns a version-4, variant-1 UUID in its textual form: 36 characters, dashes
  at positions 8, 13, 18 and 23, the version digit 4, a variant digit in 8, 9, a, b, whatever the
  random source returned and also when it failed.\<close>

theorem NewRecordID_format:
  "length (NewRecordID e) = 36 \<and>
   NewRecordID e ! 8 = CHR ''-'' \<and> NewRecordID e ! 13 = CHR ''-'' \<and>
   NewRecordID e ! 18 = CHR ''-'' \<and> NewRecordID e ! 23 = CHR ''-'' \<and>
   NewRecordID e ! 14 = CHR ''4'' \<and> NewRecordID e ! 19 \<in> set ''89ab''"
proof -
  obtain b0 b1 b2 b3 b4 b5 b6 b7 b8 b9 b10 b11 b12 b13 b14 b15 where
    b: "id_bytes e = [b0, b1, b2, b3, b4, b5, b6, b7, b8, b9, b10, b11, b12, b13, b14, b15]"
    using length_id_bytes [of e] by (auto simp: numeral_eq_Suc length_Suc_conv)
  have h: "hex_char 4 = CHR ''4''" "hex_char 8 = CHR ''8''" "hex_char 9 = CHR ''9''"
    "hex_char 10 = CHR ''a''" "hex_char 11 = CHR ''b''" unfolding hex_char_def by code_simp+
  have "hex_char (unat ((b8 AND 0x3f) OR 0x80) div 16) \<in> set ''89ab''"
    using variant_nibble [of b8] by (auto simp: h)
  then show ?thesis
    by (simp add: NewRecordID_def b byte_hex_def version_nibble h Let_def)
qed

text \<open>An identifier is checked for uniqueness only when a record is appended: adding with
  updates allowed a record that matches an existing one, under the identifier of a third record,
  leaves two records with one identifier.\<close>

theorem add_update_duplicates_identifier:
  "ids_unique [sample_record, stored_record sample_env sample_alias] \<and>
   \<not> ids_unique (fst (AddRecord sample_lib sample_env (sample_alias\<lparr>dr_ID := ''id-1''\<rparr>)
        [sample_record, stored_record sample_env sample_alias] True))"
  by code_simp

end
