(* ===== verification/RecordCache.thy ===== *)
theory RecordCache
  imports DnsRecords
begin

text \<open>
  The cache of answers, \<^verbatim>\<open>dnsrecordcache/dnsrecordcache.go\<close>: the cache record, \<^verbatim>\<open>Add\<close> (insert or
  refresh, with the minimum TTL) and \<^verbatim>\<open>Remove\<close>.  A cached entry is identified by the exact name,
  type and value; the insert step is the \<open>upsert\<close> of \<open>Upsert\<close> and the locale \<open>keyed_slice\<close>
  is interpreted on it.  The clock is read once per call and is an argument.
\<close>

record cache_record =
  cr_DNSRecord :: dns_record
  cr_Expiry :: gotime
  cr_Timestamp :: gotime
  cr_LastQuery :: gotime

subsection \<open>Adding\<close>

text \<open>The value \<^verbatim>\<open>Add\<close> stores for a resource record.\<close>

definition rr_value :: "dnslib \<Rightarrow> rr \<Rightarrow> gostr" where
  "rr_value L r = (case rr_Data r of
      RD_A ip \<Rightarrow> IP_String ip
    | RD_AAAA ip \<Rightarrow> IP_String ip
    | RD_CNAME target \<Rightarrow> target
    | RD_MX pref mx \<Rightarrow> dec (unat pref) @ '' '' @ mx
    | RD_NS ns \<Rightarrow> ns
    | RD_SOA ns mbox serial refresh retry expire minttl \<Rightarrow>
        ns @ '' '' @ mbox @ '' '' @ dec (unat serial) @ '' '' @ dec (unat refresh) @ '' '' @ dec (unat retry) @ '' '' @
        dec (unat expire) @ '' '' @ dec (unat minttl)
    | RD_TXT txt \<Rightarrow> Join '' '' txt
    | _ \<Rightarrow> lib_RRString L r)"

definition effective_ttl :: "u32 \<Rightarrow> u32 \<Rightarrow> u32" where
  "effective_ttl ttl minTTL = (if minTTL > 0 \<and> ttl < minTTL then minTTL else ttl)"

definition new_cache_record :: "dnslib \<Rightarrow> gotime \<Rightarrow> rr \<Rightarrow> u32 \<Rightarrow> cache_record" where
  "new_cache_record L now r minTTL =
     (let ttl = effective_ttl (rr_Ttl r) minTTL in
      \<lparr>cr_DNSRecord = empty_record\<lparr>dr_Name := h_Name (rr_Hdr r), dr_Type := lib_TypeToString L (h_Rrtype (rr_Hdr r)),
                                   dr_Value := rr_value L r, dr_TTL := ttl\<rparr>,
       cr_Expiry = now + int (unat ttl) * Second, cr_Timestamp = now, cr_LastQuery = now\<rparr>)"

definition same_entry :: "cache_record \<Rightarrow> cache_record \<Rightarrow> bool" where
  "same_entry new existing \<longleftrightarrow>
     dr_Name (cr_DNSRecord existing) = dr_Name (cr_DNSRecord new) \<and>
     dr_Type (cr_DNSRecord existing) = dr_Type (cr_DNSRecord new) \<and>
     dr_Value (cr_DNSRecord existing) = dr_Value (cr_DNSRecord new)"

definition refresh_entry :: "cache_record \<Rightarrow> cache_record \<Rightarrow> cache_record" where
  "refresh_entry new existing =
     existing\<lparr>cr_DNSRecord := (cr_DNSRecord existing)\<lparr>dr_TTL := dr_TTL (cr_DNSRecord new)\<rparr>,
              cr_Expiry := cr_Expiry new, cr_LastQuery := cr_LastQuery new\<rparr>"

definition Cache_Add :: "dnslib \<Rightarrow> gotime \<Rightarrow> cache_record list \<Rightarrow> rr \<Rightarrow> u32 \<Rightarrow> cache_record list" where
  "Cache_Add L now cacheRecordsData r minTTL =
     upsert same_entry refresh_entry (new_cache_record L now r minTTL) cacheRecordsData"

subsection \<open>Removing\<close>

definition usageCacheRemove :: "message list" where
  "usageCacheRemove = [Msg LevelInfo ''Usage: cache remove <Name> [Type] [Value]'',
     Msg LevelInfo ''Description: Remove a cache entry, optionally narrowing by record type and value.''] @ [helpHint]"

definition cacheEntryText :: "cache_record \<Rightarrow> gostr" where
  "cacheEntryText c = (let r = cr_DNSRecord c in
     dr_Name r @ '' '' @ dr_Type r @ '' '' @ dr_Value r @ '' '' @ dec (unat (dr_TTL r)))"

text \<open>The test of the matching loop; an empty type or value key matches everything.\<close>

definition cacheMatches :: "gostr \<Rightarrow> gostr \<Rightarrow> gostr \<Rightarrow> cache_record \<Rightarrow> bool" where
  "cacheMatches nameKey typeKey valueKey c =
     (let r = cr_DNSRecord c; recordType = normalizeRecordType (dr_Type r) in
      normalizeRecordNameKey (dr_Name r) = nameKey \<and>
      \<not> (typeKey \<noteq> [] \<and> recordType \<noteq> typeKey) \<and>
      \<not> (valueKey \<noteq> [] \<and> normalizeRecordValueKey recordType (dr_Value r) \<noteq> valueKey))"

text \<open>The name, type and value keys of a command.\<close>

definition cacheRemoveKeys :: "gostr list \<Rightarrow> gostr \<times> gostr \<times> gostr" where
  "cacheRemoveKeys fullCommand =
     (let nameKey = normalizeRecordNameKey (TrimSpace (hd fullCommand));
          typeKey = normalizeRecordType (if length fullCommand \<ge> 2 then fullCommand ! 1 else []);
          valueArg = (if length fullCommand \<ge> 3 then Join '' '' (drop 2 fullCommand) else [])
      in (nameKey, typeKey, if valueArg \<noteq> [] then normalizeRecordValueKey typeKey valueArg else []))"

definition Cache_Remove :: "gostr list \<Rightarrow> cache_record list \<Rightarrow> cache_record list \<times> message list \<times> op_error option" where
  "Cache_Remove fullCommand cacheRecordsData =
     (if fullCommand = [] \<or> IsHelpRequest fullCommand then (cacheRecordsData, usageCacheRemove, Some ErrHelpRequested)
      else
        let (nameKey, typeKey, valueKey) = cacheRemoveKeys fullCommand;
            matchingIdx = filter (\<lambda>i. cacheMatches nameKey typeKey valueKey (cacheRecordsData ! i)) [0..<length cacheRecordsData]
        in if matchingIdx = [] then
             (cacheRecordsData, [Msg LevelWarn ''No records found with the specified criteria.''] @ usageCacheRemove,
              Some ErrInvalidArgs)
           else if length matchingIdx > 1 \<and> valueKey = [] then
             (cacheRecordsData,
              [Msg LevelWarn ''Multiple records found. Please specify the type and value to remove a specific entry.''] @
              map (\<lambda>i. Msg LevelInfo (''- '' @ cacheEntryText (cacheRecordsData ! i))) matchingIdx @ usageCacheRemove,
              Some ErrInvalidArgs)
           else
             (remove_at (hd matchingIdx) cacheRecordsData,
              [Msg LevelInfo (''Removed: '' @ cacheEntryText (cacheRecordsData ! hd matchingIdx))], None))"

subsection \<open>The cache as a table\<close>

definition cache_key :: "cache_record \<Rightarrow> gostr \<times> gostr \<times> gostr" where
  "cache_key c = (dr_Name (cr_DNSRecord c), dr_Type (cr_DNSRecord c), dr_Value (cr_DNSRecord c))"

interpretation ct: keyed_slice same_entry refresh_entry cache_key
  by unfold_locales (auto simp: same_entry_def refresh_entry_def cache_key_def)

lemma effective_ttl_max: "effective_ttl ttl minTTL = max ttl minTTL"
  by (auto simp: effective_ttl_def max_def word_gt_0)

lemma new_cache_record_expiry:
  "cr_Expiry (new_cache_record L now r minTTL) = now + int (max (unat (rr_Ttl r)) (unat minTTL)) * Second"
  by (simp add: new_cache_record_def effective_ttl_max max_def word_le_nat_alt Let_def)

lemma refresh_entry_fields [simp]:
  "cr_Expiry (refresh_entry new old) = cr_Expiry new"
  "cr_LastQuery (refresh_entry new old) = cr_LastQuery new"
  "dr_TTL (cr_DNSRecord (refresh_entry new old)) = dr_TTL (cr_DNSRecord new)"
  "cr_Timestamp (refresh_entry new old) = cr_Timestamp old"
  by (simp_all add: refresh_entry_def)

text \<open>Adding an answer to a cache without duplicate entries keeps it so; the entry for the
  answer's name, type and value then expires exactly \<open>max(ttl, minTTL)\<close> seconds from now and
  carries that TTL, whether it was inserted or refreshed; every other entry is untouched.\<close>

theorem Cache_Add_entry:
  assumes "distinct (map cache_key cache)"
  shows "distinct (map cache_key (Cache_Add L now cache r minTTL)) \<and>
    (\<exists>c. find (\<lambda>c. cache_key c = cache_key (new_cache_record L now r minTTL)) (Cache_Add L now cache r minTTL) = Some c \<and>
         cr_Expiry c = now + int (max (unat (rr_Ttl r)) (unat minTTL)) * Second \<and>
         dr_TTL (cr_DNSRecord c) = max (rr_Ttl r) minTTL) \<and>
    (\<forall>k. k \<noteq> cache_key (new_cache_record L now r minTTL) \<longrightarrow>
         find (\<lambda>c. cache_key c = k) (Cache_Add L now cache r minTTL) = find (\<lambda>c. cache_key c = k) cache)"
proof (intro conjI)
  let ?new = "new_cache_record L now r minTTL"
  show "distinct (map cache_key (Cache_Add L now cache r minTTL))"
    using assms unfolding Cache_Add_def by (rule ct.distinct_upsert)
  have "dr_TTL (cr_DNSRecord ?new) = max (rr_Ttl r) minTTL"
    by (simp add: new_cache_record_def effective_ttl_max Let_def)
  then show "\<exists>c. find (\<lambda>c. cache_key c = cache_key ?new) (Cache_Add L now cache r minTTL) = Some c \<and>
         cr_Expiry c = now + int (max (unat (rr_Ttl r)) (unat minTTL)) * Second \<and>
         dr_TTL (cr_DNSRecord c) = max (rr_Ttl r) minTTL"
    unfolding Cache_Add_def ct.find_upsert_same new_cache_record_expiry [symmetric, of now r minTTL L]
    by (auto split: option.split)
qed (auto simp: Cache_Add_def intro: ct.find_upsert_other)

definition sample_answer :: "u32 \<Rightarrow> rr" where
  "sample_answer ttl = RR \<lparr>h_Name = ''a.lan.'', h_Rrtype = 5, h_Class = 1, h_Ttl = ttl\<rparr> (RD_CNAME ''b.lan.'')"

theorem Cache_Add_entry_witness:
  "\<exists>c. find (\<lambda>c. cache_key c = (''a.lan.'', ''CNAME'', ''b.lan.''))
         (Cache_Add sample_lib 7 (Cache_Add sample_lib 0 [] (sample_answer 900) 600) (sample_answer 30) 600) = Some c \<and>
       cr_Expiry c = 7 + 600 * Second"
proof -
  have "distinct (map cache_key (Cache_Add sample_lib 0 [] (sample_answer 900) 600))"
    by (simp add: Cache_Add_def upsert_def)
  from Cache_Add_entry [OF this, of sample_lib 7 "sample_answer 30" 600]
  have "\<exists>c. find (\<lambda>c. cache_key c = cache_key (new_cache_record sample_lib 7 (sample_answer 30) 600))
         (Cache_Add sample_lib 7 (Cache_Add sample_lib 0 [] (sample_answer 900) 600) (sample_answer 30) 600) = Some c \<and>
       cr_Expiry c = 7 + int (max (unat (rr_Ttl (sample_answer 30))) (unat (600 :: u32))) * Second" by blast
  moreover have "cache_key (new_cache_record sample_lib 7 (sample_answer 30) 600) = (''a.lan.'', ''CNAME'', ''b.lan.'')"
    by (simp add: cache_key_def new_cache_record_def sample_answer_def rr_value_def empty_record_def Let_def)
  ultimately show ?thesis by (simp add: sample_answer_def)
qed

lemma matching_indices:
  assumes "filter P [0..<n] = i # is"
  shows "i < n" "P i" "\<forall>j<i. \<not> P j"
proof -
  have "i \<in> set (filter P [0..<n])" using assms by simp
  then show i: "i < n" "P i" by auto
  have "sorted (i # is)" using assms by (metis sorted_upt sorted_wrt_filter)
  moreover have "j \<in> set (i # is)" if "j < i" "P j" for j
    using that i by (simp flip: assms)
  ultimately show "\<forall>j<i. \<not> P j" by (force simp: not_less)
qed

text \<open>\<^verbatim>\<open>cache remove\<close> either reports an error and leaves the cache as it was, or removes exactly
  one entry, the first one that matches the given name, type and value keys; without a value it
  removes only an entry that is the only match.\<close>

theorem Cache_Remove_one:
  assumes "Cache_Remove cmd cache = (cache', m, err)" "cacheRemoveKeys cmd = (nk, tk, vk)"
  shows "(case err of
     Some e \<Rightarrow> cache' = cache
   | None \<Rightarrow> \<exists>i<length cache. cache' = remove_at i cache \<and> cacheMatches nk tk vk (cache ! i) \<and>
       (\<forall>j<i. \<not> cacheMatches nk tk vk (cache ! j)) \<and>
       (vk = [] \<longrightarrow> (\<forall>j<length cache. cacheMatches nk tk vk (cache ! j) \<longrightarrow> j = i)))"
proof (cases err)
  case None
  let ?m = "filter (\<lambda>i. cacheMatches nk tk vk (cache ! i)) [0..<length cache]"
  have m: "?m \<noteq> []" "\<not> (length ?m > 1 \<and> vk = [])" "cache' = remove_at (hd ?m) cache"
    using assms None by (auto simp: Cache_Remove_def Let_def split: if_splits)
  then obtain i rest where i: "?m = i # rest" by (cases ?m) auto
  have "j = i" if "vk = []" "j < length cache" "cacheMatches nk tk vk (cache ! j)" for j
  proof -
    have "rest = []" using that i m(2) by simp
    moreover have "j \<in> set ?m" using that by simp
    ultimately show ?thesis using i by simp
  qed
  then show ?thesis using None m(3) i matching_indices [OF i] by auto
qed (use assms in \<open>auto simp: Cache_Remove_def Let_def split: if_splits\<close>)

theorem Cache_Remove_one_witness:
  "\<exists>cache' m. Cache_Remove [''A.lan'', ''cname''] (Cache_Add sample_lib 0 [] (sample_answer 900) 600) = (cache', m, None) \<and>
     cache' = []"
proof -
  let ?cache = "Cache_Add sample_lib 0 [] (sample_answer 900) 600"
  have "snd (snd (Cache_Remove [''A.lan'', ''cname''] ?cache)) = None" by code_simp
  then obtain cache' m where r: "Cache_Remove [''A.lan'', ''cname''] ?cache = (cache', m, None)"
    by (metis prod.collapse)
  obtain nk tk vk where "cacheRemoveKeys [''A.lan'', ''cname''] = (nk, tk, vk)" by (metis prod.collapse)
  from Cache_Remove_one [OF r this] obtain i where "i < length ?cache" "cache' = remove_at i ?cache" by auto
  moreover have "length ?cache = 1" by code_simp
  ultimately show ?thesis using r by (simp add: remove_at_def)
qed

end
