(* ===== verification/Labels.thy ===== *)
theory Labels
  imports GoPrelude "HOL-Library.Sublist"
begin

text \<open>
  Domain names as dotted labels.  The sources compare names as text (\<^verbatim>\<open>q == e\<close> or
  \<^verbatim>\<open>strings.HasSuffix(q, "." + e)\<close>); this theory gives the specification of that comparison, a
  suffix of the list of labels, and shows that the two agree.  It also has the loop
  \<^verbatim>\<open>for strings.HasSuffix(s, ".") { s = strings.TrimSuffix(s, ".") }\<close> and its closed form.
\<close>

definition labels :: "gostr \<Rightarrow> gostr list" where
  "labels s = Split CHR ''.'' s"

definition is_subdomain :: "gostr \<Rightarrow> gostr \<Rightarrow> bool" where
  "is_subdomain q e \<longleftrightarrow> suffix (labels e) (labels q)"

definition text_subdomain :: "gostr \<Rightarrow> gostr \<Rightarrow> bool" where
  "text_subdomain q e \<longleftrightarrow> q = e \<or> HasSuffix q (''.'' @ e)"

function strip_dots :: "gostr \<Rightarrow> gostr" where
  "strip_dots s = (if HasSuffix s ''.'' then strip_dots (TrimSuffix s ''.'') else s)"
  by pat_completeness auto
termination
  by (relation "measure length") (auto simp: TrimSuffix_def HasSuffix_def)

declare strip_dots.simps [simp del]

lemma strip_dots_TrimRightDots: "strip_dots s = TrimRightDots s"
proof (induction s rule: strip_dots.induct)
  case (1 s)
  show ?case
  proof (cases "HasSuffix s ''.''")
    case True
    then obtain t where "s = t @ ''.''" by (auto simp: HasSuffix_iff)
    then show ?thesis using 1 True by (subst strip_dots.simps) (simp add: TrimRightDots_def trimr_snoc)
  next
    case False
    then have "s = [] \<or> last s \<noteq> CHR ''.''"
      by (metis HasSuffix_append append_butlast_last_id)
    then show ?thesis using False by (simp add: strip_dots.simps [of s] TrimRightDots_def trimr_fixed)
  qed
qed

lemma Split_append: "Split sep (a @ sep # b) = Split sep a @ Split sep b"
proof (induction a)
  case (Cons c a)
  then show ?case by (cases "Split sep a") (auto split: list.splits)
qed simp

lemma Join_append: "xs \<noteq> [] \<Longrightarrow> ys \<noteq> [] \<Longrightarrow> Join sep (xs @ ys) = Join sep xs @ sep @ Join sep ys"
proof (induction xs)
  case (Cons x xs)
  then show ?case by (cases "xs = []") (simp_all add: Join_Cons)
qed simp

lemma text_subdomain_iff: "text_subdomain q e \<longleftrightarrow> is_subdomain q e"
proof
  assume "text_subdomain q e"
  then show "is_subdomain q e"
    by (auto simp: text_subdomain_def is_subdomain_def labels_def HasSuffix_iff Split_append suffix_def)
next
  assume "is_subdomain q e"
  then obtain xs where xs: "Split CHR ''.'' q = xs @ Split CHR ''.'' e"
    by (auto simp: is_subdomain_def labels_def suffix_def)
  then have q: "q = Join ''.'' (xs @ Split CHR ''.'' e)" by (metis Join_Split)
  show "text_subdomain q e"
  proof (cases "xs = []")
    case True
    then show ?thesis using q by (simp add: text_subdomain_def Join_Split)
  next
    case False
    then have "q = Join ''.'' xs @ ''.'' @ e" using q by (simp add: Join_append Join_Split)
    then show ?thesis unfolding text_subdomain_def HasSuffix_iff by blast
  qed
qed

lemma is_subdomain_refl [simp]: "is_subdomain q q"
  by (simp add: is_subdomain_def)

lemma is_subdomain_trans: "is_subdomain a b \<Longrightarrow> is_subdomain b c \<Longrightarrow> is_subdomain a c"
  by (auto simp: is_subdomain_def intro: suffix_order.trans)

end
