(* ===== verification/DnsServers.thy ===== *)
theory DnsServers
  imports Labels IPAddr Util Upsert
begin

text \<open>
  Upstream servers, \<^verbatim>\<open>dnsservers/dnsservers.go\<close> and \<^verbatim>\<open>dnsservers/endpoint.go\<close>: the server rows and
  the commands that add, remove and update them, the choice of the endpoints for a query (domain
  whitelists are exclusive), and the fallback endpoints of the chosen rows.
\<close>

record dns_server =
  srv_Address :: gostr
  srv_Port :: gostr
  srv_Transport :: gostr
  srv_DoHURL :: gostr
  srv_Active :: bool
  srv_LocalResolver :: bool
  srv_AdBlocker :: bool
  srv_DomainWhitelist :: "gostr list"
  srv_FallbackAddress :: gostr
  srv_FallbackPort :: gostr
  srv_FallbackTransport :: gostr
  srv_FallbackDoHURL :: gostr
  srv_LastUsed :: gotime
  srv_LastSuccess :: gotime

definition empty_server :: dns_server where
  "empty_server = \<lparr>srv_Address = [], srv_Port = [], srv_Transport = [], srv_DoHURL = [], srv_Active = False,
     srv_LocalResolver = False, srv_AdBlocker = False, srv_DomainWhitelist = [], srv_FallbackAddress = [],
     srv_FallbackPort = [], srv_FallbackTransport = [], srv_FallbackDoHURL = [], srv_LastUsed = 0, srv_LastSuccess = 0\<rparr>"

record endpoint =
  ep_Addr :: gostr
  ep_Transport :: gostr

subsection \<open>Endpoints\<close>

definition HealthKey :: "endpoint \<Rightarrow> gostr" where
  "HealthKey e = TrimSpace (ep_Addr e)"

definition endpoint_String :: "endpoint \<Rightarrow> gostr" where
  "endpoint_String e =
     (let a = TrimSpace (ep_Addr e); t = ToLower (TrimSpace (ep_Transport e));
          t = (if t = [] then ''udp'' else t)
      in if t = ''doh'' then a else a @ '' ['' @ t @ '']'')"

definition orDefault :: "gostr \<Rightarrow> gostr \<Rightarrow> gostr" where
  "orDefault s d = (if s = [] then d else s)"

definition ServerToEndpoint :: "dns_server \<Rightarrow> endpoint" where
  "ServerToEndpoint s =
     (let t = orDefault (ToLower (TrimSpace (srv_Transport s))) ''udp'' in
      if t = ''doh'' then
        \<lparr>ep_Addr = orDefault (TrimSpace (srv_DoHURL s)) (TrimSpace (srv_Address s)), ep_Transport = ''doh''\<rparr>
      else if t = ''dot'' then
        \<lparr>ep_Addr = JoinHostPort (TrimSpace (srv_Address s)) (orDefault (TrimSpace (srv_Port s)) ''853''), ep_Transport = ''dot''\<rparr>
      else
        \<lparr>ep_Addr = JoinHostPort (TrimSpace (srv_Address s)) (orDefault (TrimSpace (srv_Port s)) ''53''),
         ep_Transport = (if t \<noteq> ''tcp'' \<and> t \<noteq> ''udp'' then ''udp'' else t)\<rparr>)"

definition ServerFallbackEndpoint :: "dns_server \<Rightarrow> endpoint option" where
  "ServerFallbackEndpoint s =
     (let addr = TrimSpace (srv_FallbackAddress s); dohURL = TrimSpace (srv_FallbackDoHURL s) in
      if addr = [] \<and> dohURL = [] then None
      else
        let port = orDefault (TrimSpace (srv_FallbackPort s)) ''53'';
            t = orDefault (ToLower (TrimSpace (srv_FallbackTransport s))) (ToLower (TrimSpace (srv_Transport s)));
            t = orDefault t ''udp''
        in Some (ServerToEndpoint (empty_server\<lparr>srv_Address := addr, srv_Port := port, srv_Transport := t, srv_DoHURL := dohURL\<rparr>)))"

definition endpointInPrimaries :: "endpoint \<Rightarrow> endpoint list \<Rightarrow> bool" where
  "endpointInPrimaries ep primaries \<longleftrightarrow>
     (\<exists>p \<in> set primaries. ep_Addr p = ep_Addr ep \<and> EqualFold (TrimSpace (ep_Transport p)) (TrimSpace (ep_Transport ep)))"

text \<open>One iteration of the loop of \<^verbatim>\<open>AppendPerServerFallbacks\<close> on \<^verbatim>\<open>(seen, out)\<close>.\<close>

definition fallbackStep ::
    "endpoint list \<Rightarrow> dns_server \<Rightarrow> gostr list \<times> endpoint list \<Rightarrow> gostr list \<times> endpoint list" where
  "fallbackStep primaries s st =
     (let (seen, out) = st in
      if \<not> endpointInPrimaries (ServerToEndpoint s) primaries then st
      else case ServerFallbackEndpoint s of
        None \<Rightarrow> st
      | Some fe \<Rightarrow> let k = HealthKey fe in if k \<in> set seen then st else (k # seen, out @ [fe]))"

definition AppendPerServerFallbacks :: "endpoint list \<Rightarrow> dns_server list \<Rightarrow> endpoint list" where
  "AppendPerServerFallbacks primaries dnsServerData =
     (if primaries = [] then primaries
      else snd (fold (fallbackStep primaries) dnsServerData (map HealthKey primaries, primaries)))"

definition FallbackEndpoint :: "gostr \<Rightarrow> gostr \<Rightarrow> gostr \<Rightarrow> endpoint" where
  "FallbackEndpoint fallbackIP fallbackPort transport =
     (let t = orDefault (ToLower (TrimSpace transport)) ''udp'';
          ip = TrimSpace fallbackIP;
          port = orDefault (TrimSpace fallbackPort) ''53'';
          addr = JoinHostPort ip port
      in if t = ''doh'' then \<lparr>ep_Addr = addr, ep_Transport = ''udp''\<rparr>
         else if t = ''dot'' then
           \<lparr>ep_Addr = (if port = ''53'' then JoinHostPort ip ''853'' else addr), ep_Transport = ''dot''\<rparr>
         else \<lparr>ep_Addr = addr, ep_Transport = (if t \<noteq> ''tcp'' then ''udp'' else t)\<rparr>)"

subsection \<open>Servers for a query\<close>

definition GetDNSArray :: "dns_server list \<Rightarrow> bool \<Rightarrow> gostr list" where
  "GetDNSArray dnsServerData activeOnly =
     map (\<lambda>s. srv_Address s @ '':'' @ srv_Port s) (filter (\<lambda>s. \<not> (activeOnly \<and> \<not> srv_Active s)) dnsServerData)"

definition normalizeQueryNameForWhitelist :: "gostr \<Rightarrow> gostr" where
  "normalizeQueryNameForWhitelist queryName = ToLower (strip_dots (TrimSpace queryName))"

definition normalizeWhitelistEntry :: "gostr \<Rightarrow> gostr" where
  "normalizeWhitelistEntry entry = strip_dots (ToLower (TrimSpace entry))"

definition ServerMatchesQuery :: "dns_server \<Rightarrow> gostr \<Rightarrow> bool" where
  "ServerMatchesQuery server queryName =
     (if srv_DomainWhitelist server = [] then False
      else
        let q = normalizeQueryNameForWhitelist queryName in
        if q = [] then False
        else list_ex (\<lambda>entry. let e = normalizeWhitelistEntry entry in
                e \<noteq> [] \<and> (q = e \<or> HasSuffix q (''.'' @ e))) (srv_DomainWhitelist server))"

definition GetUpstreamEndpointsForQuery :: "dns_server list \<Rightarrow> gostr \<Rightarrow> bool \<Rightarrow> endpoint list" where
  "GetUpstreamEndpointsForQuery dnsServerData queryName activeOnly =
     (let usable = (\<lambda>s. \<not> (activeOnly \<and> \<not> srv_Active s));
          whitelisted = map ServerToEndpoint (filter (\<lambda>s. usable s \<and> ServerMatchesQuery s queryName) dnsServerData)
      in if length whitelisted > 0 then whitelisted
         else if list_ex (\<lambda>s. ServerMatchesQuery s queryName) dnsServerData then []
         else map ServerToEndpoint (filter (\<lambda>s. usable s \<and> srv_DomainWhitelist s = []) dnsServerData))"

subsection \<open>Commands\<close>

definition srvHelpHint :: message where
  "srvHelpHint = Msg LevelInfo ''Hint: append '?', 'help', or 'h' after the command to view this usage.''"

definition srvUsageAdd :: "message list" where
  "srvUsageAdd = [Msg LevelInfo ''Usage  : add <Address> [Port] [active:true|false] [localresolver:true|false] [adblocker:true|false] [whitelist:suffix1,suffix2,...] [fallback_address:IP] [fallback_port:53] [fallback_transport:udp|tcp|dot|doh] [fallback_doh_url:https://...]'',
     Msg LevelInfo ''Example: add 1.1.1.1 53'',
     Msg LevelInfo ''Example: add 192.168.5.5 53 active:true localresolver:true adblocker:false whitelist:example.com,example.org''] @ [srvHelpHint]"

definition srvUsageRemove :: "message list" where
  "srvUsageRemove = [Msg LevelInfo ''Usage  : remove <Address>'', Msg LevelInfo ''Example: remove 127.0.0.1''] @ [srvHelpHint]"

definition srvUsageUpdate :: "message list" where
  "srvUsageUpdate = [Msg LevelInfo ''Usage  : update <Address> [Port] [active:true|false] [localresolver:true|false] [adblocker:true|false] [whitelist:suffix1,suffix2,...] [fallback_address:IP] [fallback_port:53] ...'',
     Msg LevelInfo ''Example: update 1.1.1.1 53 active:false'',
     Msg LevelInfo ''Example: update 192.168.5.5 adblocker:true whitelist:example.com,example.org''] @ [srvHelpHint]"

text \<open>One named parameter \<^verbatim>\<open>key:value\<close>.\<close>

definition applyNamedArg :: "dns_server \<Rightarrow> gostr \<Rightarrow> gostr + dns_server" where
  "applyNamedArg server arg =
     (case Index arg '':'' of
        None \<Rightarrow> Inl (''unexpected argument '' @ Quote arg @ ''; use named parameters (e.g. active:true whitelist:example.com)'')
      | Some idx \<Rightarrow>
          if idx = 0 then
            Inl (''unexpected argument '' @ Quote arg @ ''; use named parameters (e.g. active:true whitelist:example.com)'')
          else
            let key = ToLower (TrimSpace (take idx arg)); val = TrimSpace (drop (idx + 1) arg);
                bool = (\<lambda>upd. case ParseBool val of
                          None \<Rightarrow> Inl (''invalid '' @ key @ '' value: '' @ val) | Some b \<Rightarrow> Inr (upd b))
            in if key = ''active'' then bool (\<lambda>b. server\<lparr>srv_Active := b\<rparr>)
               else if key = ''localresolver'' then bool (\<lambda>b. server\<lparr>srv_LocalResolver := b\<rparr>)
               else if key = ''adblocker'' then bool (\<lambda>b. server\<lparr>srv_AdBlocker := b\<rparr>)
               else if key = ''whitelist'' then
                 Inr (server\<lparr>srv_DomainWhitelist :=
                   (if val = [] then [] else filter (\<lambda>p. p \<noteq> []) (map TrimSpace (Split CHR '','' val)))\<rparr>)
               else if key = ''transport'' then Inr (server\<lparr>srv_Transport := ToLower (TrimSpace val)\<rparr>)
               else if key = ''doh_url'' then Inr (server\<lparr>srv_DoHURL := val\<rparr>)
               else if key = ''fallback_address'' then
                 Inr (if val = [] then server\<lparr>srv_FallbackAddress := [], srv_FallbackPort := [],
                                              srv_FallbackTransport := [], srv_FallbackDoHURL := []\<rparr>
                      else server\<lparr>srv_FallbackAddress := val\<rparr>)
               else if key = ''fallback_port'' then Inr (server\<lparr>srv_FallbackPort := val\<rparr>)
               else if key = ''fallback_transport'' then Inr (server\<lparr>srv_FallbackTransport := ToLower (TrimSpace val)\<rparr>)
               else if key = ''fallback_doh_url'' then Inr (server\<lparr>srv_FallbackDoHURL := val\<rparr>)
               else Inl (''unknown parameter '' @ Quote key @ ''; allowed: active, localresolver, adblocker, whitelist, transport, doh_url, fallback_address, fallback_port, fallback_transport, fallback_doh_url''))"

fun applyNamedArgs :: "dns_server \<Rightarrow> gostr list \<Rightarrow> gostr + dns_server" where
  "applyNamedArgs server [] = Inr server"
| "applyNamedArgs server (arg # rest) =
     (case applyNamedArg server arg of Inl err \<Rightarrow> Inl err | Inr s \<Rightarrow> applyNamedArgs s rest)"

definition applyArgsToDNSServer :: "dns_server \<Rightarrow> gostr list \<Rightarrow> gostr + dns_server" where
  "applyArgsToDNSServer server args =
     (case args of
        [] \<Rightarrow> Inl ''address is required''
      | a # rest \<Rightarrow>
          let server = server\<lparr>srv_Address := a\<rparr> in
          if ParseIP a = None then Inl (''invalid IP address: '' @ a)
          else case rest of
            [] \<Rightarrow> Inr server
          | port # rest' \<Rightarrow>
              if \<not> Contains port '':'' then
                (if Atoi port = None then Inl (''invalid port: '' @ port)
                 else applyNamedArgs (server\<lparr>srv_Port := port\<rparr>) rest')
              else applyNamedArgs server rest)"

definition findDNSServerIndex :: "dns_server list \<Rightarrow> gostr \<Rightarrow> nat option" where
  "findDNSServerIndex dnsServers address = find_idx (\<lambda>s. srv_Address s = address) dnsServers"

type_synonym servers_result = "dns_server list \<times> message list \<times> op_error option"

definition Servers_Add :: "gostr list \<Rightarrow> dns_server list \<Rightarrow> servers_result" where
  "Servers_Add fullCommand dnsServers =
     (if IsHelpRequest fullCommand then (dnsServers, srvUsageAdd, Some ErrHelpRequested)
      else case applyArgsToDNSServer
                  (empty_server\<lparr>srv_Port := ''53'', srv_Active := True, srv_LocalResolver := True, srv_AdBlocker := False\<rparr>) fullCommand of
        Inl err \<Rightarrow> (dnsServers, [Msg LevelError err] @ srvUsageAdd, Some ErrInvalidArgs)
      | Inr server \<Rightarrow> (dnsServers @ [server],
          [Msg LevelInfo (''Added DNS server: '' @ srv_Address server @ '':'' @ srv_Port server)], None))"

definition Servers_Remove :: "gostr list \<Rightarrow> dns_server list \<Rightarrow> servers_result" where
  "Servers_Remove fullCommand dnsServerData =
     (if IsHelpRequest fullCommand then (dnsServerData, srvUsageRemove, Some ErrHelpRequested)
      else case fullCommand of
        [address] \<Rightarrow>
          (case findDNSServerIndex dnsServerData address of
             None \<Rightarrow> (dnsServerData, [Msg LevelWarn (''No DNS server found with the address: '' @ address)] @ srvUsageRemove,
                      Some ErrInvalidArgs)
           | Some i \<Rightarrow> (remove_at i dnsServerData, [Msg LevelInfo (''Removed DNS server: '' @ address)], None))
      | _ \<Rightarrow> (dnsServerData, [Msg LevelError ''address is required''] @ srvUsageRemove, Some ErrInvalidArgs))"

definition Servers_Update :: "gostr list \<Rightarrow> dns_server list \<Rightarrow> servers_result" where
  "Servers_Update fullCommand dnsServerData =
     (if IsHelpRequest fullCommand then (dnsServerData, srvUsageUpdate, Some ErrHelpRequested)
      else case fullCommand of
        [] \<Rightarrow> (dnsServerData, [Msg LevelError ''address is required.''] @ srvUsageUpdate, Some ErrInvalidArgs)
      | address # _ \<Rightarrow>
          (case findDNSServerIndex dnsServerData address of
             None \<Rightarrow> (dnsServerData, [Msg LevelWarn (''DNS server not found: '' @ address)] @ srvUsageUpdate, Some ErrInvalidArgs)
           | Some i \<Rightarrow>
               (case applyArgsToDNSServer (dnsServerData ! i) fullCommand of
                  Inl err \<Rightarrow> (dnsServerData, [Msg LevelError err] @ srvUsageUpdate, Some ErrInvalidArgs)
                | Inr server \<Rightarrow> (dnsServerData[i := server], [Msg LevelInfo (''Updated DNS server: '' @ address)], None))))"

definition Servers_List :: "dns_server list \<Rightarrow> dns_server list \<times> message list" where
  "Servers_List dnsServerData =
     (dnsServerData, if dnsServerData = [] then [Msg LevelInfo ''No DNS servers found.''] else [])"

subsection \<open>Whitelists\<close>

text \<open>The whitelist entry \<open>e\<close> covers the query name, label by label.\<close>

definition covered_by :: "gostr \<Rightarrow> gostr \<Rightarrow> bool" where
  "covered_by queryName entry \<longleftrightarrow>
     (let q = ToLower (TrimRightDots (TrimSpace queryName)); e = ToLower (TrimRightDots (TrimSpace entry)) in
      q \<noteq> [] \<and> e \<noteq> [] \<and> is_subdomain q e)"

lemma ServerMatchesQuery_iff:
  "ServerMatchesQuery s q \<longleftrightarrow> (\<exists>e \<in> set (srv_DomainWhitelist s). covered_by q e)"
  by (auto simp: ServerMatchesQuery_def covered_by_def list_ex_iff normalizeQueryNameForWhitelist_def
      normalizeWhitelistEntry_def strip_dots_TrimRightDots TrimRightDots_ToLower Let_def
      text_subdomain_iff [symmetric] text_subdomain_def)

text \<open>Domain whitelists are exclusive.  Every endpoint chosen for a query belongs to a row that is
  active (when only active rows are asked for); if some row's whitelist covers the name, label by
  label, the row is one of those, otherwise the row has no whitelist at all.  So a name covered by a
  whitelist never reaches a global server, and a whitelisted server never sees a foreign name.\<close>

theorem whitelist_exclusive:
  assumes "ep \<in> set (GetUpstreamEndpointsForQuery servers q activeOnly)"
  shows "\<exists>s \<in> set servers. ep = ServerToEndpoint s \<and> (activeOnly \<longrightarrow> srv_Active s) \<and>
    (if \<exists>t \<in> set servers. \<exists>e \<in> set (srv_DomainWhitelist t). covered_by q e
     then \<exists>e \<in> set (srv_DomainWhitelist s). covered_by q e
     else srv_DomainWhitelist s = [])"
  using assms
  by (auto simp: GetUpstreamEndpointsForQuery_def ServerMatchesQuery_iff list_ex_iff Let_def
      filter_empty_conv split: if_splits)

text \<open>The choice is complete: every active row that covers the name is used, and when no row
  (active or not) covers it, every active row without a whitelist is used.\<close>

theorem endpoints_complete:
  assumes "s \<in> set servers" "srv_Active s"
    "(\<exists>e \<in> set (srv_DomainWhitelist s). covered_by q e) \<or>
     srv_DomainWhitelist s = [] \<and> (\<forall>t \<in> set servers. \<forall>e \<in> set (srv_DomainWhitelist t). \<not> covered_by q e)"
  shows "ServerToEndpoint s \<in> set (GetUpstreamEndpointsForQuery servers q activeOnly)"
  using assms
  by (auto simp: GetUpstreamEndpointsForQuery_def ServerMatchesQuery_iff list_ex_iff Let_def filter_empty_conv)

definition sample_servers :: "dns_server list" where
  "sample_servers =
     [empty_server\<lparr>srv_Address := ''1.1.1.1'', srv_Port := ''53'', srv_Active := True\<rparr>,
      empty_server\<lparr>srv_Address := ''10.0.0.53'', srv_Port := ''53'', srv_Active := True,
                   srv_DomainWhitelist := [''Corp.example.''], srv_FallbackAddress := ''10.0.0.54''\<rparr>]"

definition sample_endpoint :: endpoint where
  "sample_endpoint = \<lparr>ep_Addr = ''10.0.0.53:53'', ep_Transport = ''udp''\<rparr>"

lemma sample_endpoint_server: "ServerToEndpoint (sample_servers ! 1) = sample_endpoint"
  by code_simp

lemma sample_covered: "covered_by ''api.corp.example'' ''Corp.example.''"
  by code_simp

theorem whitelist_exclusive_witness:
  "GetUpstreamEndpointsForQuery sample_servers ''api.corp.example'' True = [sample_endpoint] \<and>
   (\<exists>s \<in> set sample_servers. sample_endpoint = ServerToEndpoint s \<and> srv_Active s)"
proof -
  have ep: "GetUpstreamEndpointsForQuery sample_servers ''api.corp.example'' True = [sample_endpoint]" by code_simp
  then have "sample_endpoint \<in> set (GetUpstreamEndpointsForQuery sample_servers ''api.corp.example'' True)" by simp
  from whitelist_exclusive [OF this] ep show ?thesis by blast
qed

theorem endpoints_complete_witness:
  "sample_endpoint \<in> set (GetUpstreamEndpointsForQuery sample_servers ''api.corp.example'' True)"
proof -
  have "sample_servers ! 1 \<in> set sample_servers" "srv_Active (sample_servers ! 1)"
    "''Corp.example.'' \<in> set (srv_DomainWhitelist (sample_servers ! 1))"
    by (simp_all add: sample_servers_def)
  then show ?thesis using endpoints_complete [of "sample_servers ! 1"] sample_covered
    by (metis sample_endpoint_server)
qed

subsection \<open>Fallbacks\<close>

text \<open>The loop invariant: \<open>seen\<close> is the set of the health keys of \<open>out\<close>.\<close>

definition fallback_inv :: "endpoint list \<Rightarrow> dns_server list \<Rightarrow> gostr list \<times> endpoint list \<Rightarrow> bool" where
  "fallback_inv primaries servers st \<longleftrightarrow>
     set (fst st) = HealthKey ` set (snd st) \<and>
     (\<exists>extra. snd st = primaries @ extra \<and> distinct (map HealthKey extra) \<and>
        HealthKey ` set extra \<inter> HealthKey ` set primaries = {} \<and>
        (\<forall>fe \<in> set extra. \<exists>s \<in> set servers.
            endpointInPrimaries (ServerToEndpoint s) primaries \<and> ServerFallbackEndpoint s = Some fe)) \<and>
     (\<forall>s \<in> set servers. \<forall>fe. endpointInPrimaries (ServerToEndpoint s) primaries \<longrightarrow>
        ServerFallbackEndpoint s = Some fe \<longrightarrow> HealthKey fe \<in> HealthKey ` set (snd st))"

lemma fallback_inv_step:
  assumes inv: "fallback_inv primaries servers st"
  shows "fallback_inv primaries (servers @ [s]) (fallbackStep primaries s st)"
proof (cases "endpointInPrimaries (ServerToEndpoint s) primaries")
  case False
  then show ?thesis using inv by (auto simp: fallback_inv_def fallbackStep_def split: prod.splits)
next
  case sel: True
  obtain seen out where st: "st = (seen, out)" by force
  show ?thesis
  proof (cases "ServerFallbackEndpoint s")
    case None
    then show ?thesis using inv sel by (auto simp: fallback_inv_def fallbackStep_def st)
  next
    case (Some fe)
    show ?thesis
    proof (cases "HealthKey fe \<in> set seen")
      case True
      then show ?thesis using inv sel Some by (auto simp: fallback_inv_def fallbackStep_def st Let_def)
    next
      case False
      obtain extra where ex: "out = primaries @ extra" "distinct (map HealthKey extra)"
          "HealthKey ` set extra \<inter> HealthKey ` set primaries = {}"
          "\<forall>fe \<in> set extra. \<exists>s \<in> set servers.
             endpointInPrimaries (ServerToEndpoint s) primaries \<and> ServerFallbackEndpoint s = Some fe"
        and seen: "set seen = HealthKey ` set out"
        using inv by (auto simp: fallback_inv_def st)
      have "HealthKey fe \<notin> HealthKey ` set extra" "HealthKey fe \<notin> HealthKey ` set primaries"
        using False seen ex(1) by auto
      then show ?thesis
        using inv sel Some False ex seen
        by (auto simp: fallback_inv_def fallbackStep_def st Let_def intro!: exI [of _ "extra @ [fe]"])
    qed
  qed
qed

lemma fallback_inv_fold:
  "fallback_inv primaries ss st \<Longrightarrow> fallback_inv primaries (ss @ servers) (fold (fallbackStep primaries) servers st)"
proof (induction servers arbitrary: ss st)
  case (Cons s servers)
  from Cons.IH [OF fallback_inv_step [OF Cons.prems]] show ?case by simp
qed simp

text \<open>Appending the per-row fallbacks keeps the primaries in front and unchanged; what follows
  are fallback endpoints of rows that were selected, no two with one health key and none with the
  key of a primary; and no selected row's fallback is missing.  Without primaries nothing is
  appended.\<close>

theorem fallbacks_appended:
  "\<exists>extra. AppendPerServerFallbacks primaries servers = primaries @ extra \<and>
     (primaries = [] \<longrightarrow> extra = []) \<and> distinct (map HealthKey extra) \<and>
     HealthKey ` set extra \<inter> HealthKey ` set primaries = {} \<and>
     (\<forall>fe \<in> set extra. \<exists>s \<in> set servers.
        endpointInPrimaries (ServerToEndpoint s) primaries \<and> ServerFallbackEndpoint s = Some fe) \<and>
     (\<forall>s \<in> set servers. \<forall>fe. endpointInPrimaries (ServerToEndpoint s) primaries \<longrightarrow> ServerFallbackEndpoint s = Some fe \<longrightarrow>
        HealthKey fe \<in> HealthKey ` set (primaries @ extra))"
proof (cases "primaries = []")
  case True
  then show ?thesis by (auto simp: AppendPerServerFallbacks_def endpointInPrimaries_def)
next
  case False
  have "fallback_inv primaries [] (map HealthKey primaries, primaries)" by (simp add: fallback_inv_def)
  from fallback_inv_fold [OF this, of servers]
  have inv: "fallback_inv primaries servers (fold (fallbackStep primaries) servers (map HealthKey primaries, primaries))"
    by simp
  then obtain extra where "AppendPerServerFallbacks primaries servers = primaries @ extra"
      "distinct (map HealthKey extra)" "HealthKey ` set extra \<inter> HealthKey ` set primaries = {}"
      "\<forall>fe \<in> set extra. \<exists>s \<in> set servers.
         endpointInPrimaries (ServerToEndpoint s) primaries \<and> ServerFallbackEndpoint s = Some fe"
    using False by (auto simp: fallback_inv_def AppendPerServerFallbacks_def)
  moreover have "\<forall>s \<in> set servers. \<forall>fe. endpointInPrimaries (ServerToEndpoint s) primaries \<longrightarrow>
      ServerFallbackEndpoint s = Some fe \<longrightarrow> HealthKey fe \<in> HealthKey ` set (AppendPerServerFallbacks primaries servers)"
    using inv False by (auto simp: fallback_inv_def AppendPerServerFallbacks_def)
  ultimately show ?thesis using False by (intro exI [of _ extra]) simp
qed

theorem fallbacks_appended_witness:
  "\<exists>extra. AppendPerServerFallbacks [sample_endpoint] sample_servers = [sample_endpoint] @ extra \<and> extra \<noteq> []"
proof -
  have s: "sample_servers ! 1 \<in> set sample_servers" by (simp add: sample_servers_def)
  have p: "endpointInPrimaries (ServerToEndpoint (sample_servers ! 1)) [sample_endpoint]"
    unfolding sample_endpoint_server by (simp add: endpointInPrimaries_def EqualFold_def)
  have fe: "ServerFallbackEndpoint (sample_servers ! 1) = Some \<lparr>ep_Addr = ''10.0.0.54:53'', ep_Transport = ''udp''\<rparr>"
    and k: "HealthKey \<lparr>ep_Addr = ''10.0.0.54:53'', ep_Transport = ''udp''\<rparr> \<noteq> HealthKey sample_endpoint" by code_simp+
  obtain extra where ex: "AppendPerServerFallbacks [sample_endpoint] sample_servers = [sample_endpoint] @ extra"
    "\<forall>s \<in> set sample_servers. \<forall>fe. endpointInPrimaries (ServerToEndpoint s) [sample_endpoint] \<longrightarrow>
       ServerFallbackEndpoint s = Some fe \<longrightarrow> HealthKey fe \<in> HealthKey ` set ([sample_endpoint] @ extra)"
    using fallbacks_appended [of "[sample_endpoint]" sample_servers] by blast
  from ex(2) s p fe have "HealthKey \<lparr>ep_Addr = ''10.0.0.54:53'', ep_Transport = ''udp''\<rparr> \<in> HealthKey ` set ([sample_endpoint] @ extra)"
    by blast
  with k have "extra \<noteq> []" by auto
  with ex(1) show ?thesis by blast
qed

subsection \<open>The server commands\<close>

datatype server_op = SrvAdd "gostr list" | SrvRemove "gostr list" | SrvUpdate "gostr list"

fun run_server_op :: "server_op \<Rightarrow> dns_server list \<Rightarrow> servers_result" where
  "run_server_op (SrvAdd args) ss = Servers_Add args ss"
| "run_server_op (SrvRemove args) ss = Servers_Remove args ss"
| "run_server_op (SrvUpdate args) ss = Servers_Update args ss"

text \<open>A row whose address is an IP address and whose port is a number.\<close>

definition server_ok :: "dns_server \<Rightarrow> bool" where
  "server_ok s \<longleftrightarrow> ParseIP (srv_Address s) \<noteq> None \<and> Atoi (srv_Port s) \<noteq> None"

lemma applyNamedArg_address:
  "applyNamedArg s a = Inr s' \<Longrightarrow> srv_Address s' = srv_Address s \<and> srv_Port s' = srv_Port s"
  by (auto simp: applyNamedArg_def Let_def split: option.splits if_splits)

lemma applyNamedArgs_address:
  "applyNamedArgs s args = Inr s' \<Longrightarrow> srv_Address s' = srv_Address s \<and> srv_Port s' = srv_Port s"
  by (induction args arbitrary: s) (auto split: sum.splits dest: applyNamedArg_address)

lemma applyArgs_ok:
  assumes "applyArgsToDNSServer s args = Inr s'" "Atoi (srv_Port s) \<noteq> None"
  shows "server_ok s'" "args \<noteq> []" "srv_Address s' = hd args"
  using assms
  by (auto simp: applyArgsToDNSServer_def server_ok_def Let_def simp del: applyNamedArgs.simps(2)
      split: list.splits if_splits dest!: applyNamedArgs_address)

lemma default_port_ok: "Atoi ''53'' = Some 53"
  by code_simp

lemma run_server_op_ok:
  assumes "\<forall>s \<in> set ss. server_ok s"
  shows "(\<forall>s \<in> set (fst (run_server_op c ss)). server_ok s) \<and>
    (snd (snd (run_server_op c ss)) \<noteq> None \<longrightarrow> fst (run_server_op c ss) = ss) \<and>
    (\<forall>args. c = SrvUpdate args \<longrightarrow> map srv_Address (fst (run_server_op c ss)) = map srv_Address ss)"
proof (cases c)
  case (SrvAdd args)
  show ?thesis using assms default_port_ok
    by (auto simp: SrvAdd Servers_Add_def split: sum.splits dest: applyArgs_ok(1))
next
  case (SrvRemove args)
  have "fst (Servers_Remove args ss) = ss \<or> (\<exists>i m. Servers_Remove args ss = (remove_at i ss, m, None))"
    by (auto simp: Servers_Remove_def split: list.split option.split)
  moreover have "\<forall>s \<in> set (remove_at i ss). server_ok s" for i
    using assms set_remove_at_subset [of i ss] by blast
  ultimately show ?thesis using assms by (auto simp: SrvRemove)
next
  case (SrvUpdate args)
  have upd: "server_ok s' \<and> map srv_Address (ss[i := s']) = map srv_Address ss"
    if "findDNSServerIndex ss (hd args) = Some i" "applyArgsToDNSServer (ss ! i) args = Inr s'" for i s'
  proof -
    have i: "i < length ss" "srv_Address (ss ! i) = hd args"
      using that(1) by (auto simp: findDNSServerIndex_def dest: find_idx_SomeD)
    then have "Atoi (srv_Port (ss ! i)) \<noteq> None" using assms by (auto simp: server_ok_def)
    from applyArgs_ok [OF that(2) this] show ?thesis using i
      by (simp add: map_update list_update_same_conv)
  qed
  show ?thesis using assms upd
    by (auto simp: SrvUpdate Servers_Update_def split: list.splits option.splits sum.splits
        dest!: set_update_subset_insert [THEN subsetD])
qed

text \<open>The commands that add, remove and update servers keep every row well formed (an IP
  address and a numeric port), change nothing when they report an error, and an update keeps the
  list of addresses.\<close>

theorem server_commands:
  assumes "\<forall>s \<in> set ss. server_ok s"
  shows "(\<forall>s \<in> set (fst (run_server_op c ss)). server_ok s) \<and>
    (snd (snd (run_server_op c ss)) \<noteq> None \<longrightarrow> fst (run_server_op c ss) = ss) \<and>
    (\<forall>args. c = SrvUpdate args \<longrightarrow> map srv_Address (fst (run_server_op c ss)) = map srv_Address ss)"
  using assms by (rule run_server_op_ok)

theorem server_commands_witness:
  "list_all server_ok sample_servers \<and>
   map srv_Address (fst (run_server_op (SrvUpdate [''1.1.1.1'', ''active:false'']) sample_servers)) = [''1.1.1.1'', ''10.0.0.53'']"
proof -
  have "list_all server_ok sample_servers" by code_simp
  then have ok: "\<forall>s \<in> set sample_servers. server_ok s" by (simp add: list_all_iff)
  then show ?thesis using \<open>list_all server_ok sample_servers\<close> server_commands [OF ok, of "SrvUpdate [''1.1.1.1'', ''active:false'']"]
    by (simp add: sample_servers_def)
qed

end
