(* ===== verification/Adblock.thy ===== *)
theory Adblock
  imports Labels
begin

text \<open>
  The block list, \<^verbatim>\<open>adblock/adblock.go\<close>: a set of normalised domain names, the parser of hosts-style
  lines and the look-up that walks the parents of a name.  The map \<^verbatim>\<open>domains map[string]bool\<close>, whose
  values are always true, is a list of distinct keys; the nil block list is handled by the callers
  of this theory with an option.  Files and HTTP bodies are the list of their lines.
\<close>

type_synonym block_list = "gostr list"

definition normalizeDomain :: "gostr \<Rightarrow> gostr" where
  "normalizeDomain domain = TrimSuffix (ToLower (TrimSpace domain)) ''.''"

definition NewBlockList :: block_list where
  "NewBlockList = []"

definition IsBlocked :: "block_list \<Rightarrow> gostr \<Rightarrow> bool" where
  "IsBlocked bl domain =
     (let normalized = normalizeDomain domain; parts = Split CHR ''.'' normalized in
      normalized \<in> set bl \<or>
      list_ex (\<lambda>i. Join ''.'' (drop i parts) \<in> set bl) [0..<length parts])"

definition AddDomain :: "gostr \<Rightarrow> block_list \<Rightarrow> block_list" where
  "AddDomain domain bl = List.insert (normalizeDomain domain) bl"

definition AddDomains :: "gostr list \<Rightarrow> block_list \<Rightarrow> block_list" where
  "AddDomains domains bl = fold (\<lambda>d bl. List.insert (normalizeDomain d) bl) domains bl"

definition RemoveDomain :: "gostr \<Rightarrow> block_list \<Rightarrow> block_list" where
  "RemoveDomain domain bl = filter (\<lambda>d. d \<noteq> normalizeDomain domain) bl"

definition ClearBlockList :: "block_list \<Rightarrow> block_list" where
  "ClearBlockList bl = []"

definition CountBlocked :: "block_list \<Rightarrow> nat" where
  "CountBlocked bl = length bl"

definition isBlockIP :: "gostr \<Rightarrow> bool" where
  "isBlockIP ip \<longleftrightarrow> TrimSpace ip \<in> set [''0.0.0.0'', ''127.0.0.1'', ''::'', ''::1'']"

text \<open>The loop over the remaining fields: blank fields are skipped, a comment ends the line.\<close>

fun adblockFields :: "gostr list \<Rightarrow> gostr list" where
  "adblockFields [] = []"
| "adblockFields (f # fs) =
     (let domain = TrimSpace f in
      if domain = [] then adblockFields fs
      else if HasPrefix domain ''#'' then []
      else domain # adblockFields fs)"

definition parseAdblockLine :: "gostr \<Rightarrow> gostr list" where
  "parseAdblockLine line0 =
     (let line = (case Index line0 ''#'' of None \<Rightarrow> line0 | Some i \<Rightarrow> take i line0);
          line = TrimSpace line
      in if line = [] then []
         else case Fields line of
           first # (d # ds) \<Rightarrow> if isBlockIP (TrimSpace first) then adblockFields (d # ds) else []
         | _ \<Rightarrow> [])"

text \<open>The loop of \<^verbatim>\<open>LoadFromFile\<close> and \<^verbatim>\<open>LoadFromURL\<close> over the lines.\<close>

definition loadLine :: "gostr \<Rightarrow> block_list \<Rightarrow> block_list" where
  "loadLine line bl =
     (let trimmed = TrimSpace line in
      if trimmed = [] \<or> HasPrefix trimmed ''#'' then bl
      else let domains = parseAdblockLine line in if domains \<noteq> [] then AddDomains domains bl else bl)"

text \<open>\<^verbatim>\<open>LoadFromFile\<close>: the file cannot be opened (\<open>Inl\<close> the error), or it has lines and perhaps a read
  error after them.  The lines before a read error have been added.\<close>

definition LoadFromFile :: "gostr + (gostr list \<times> gostr option) \<Rightarrow> block_list \<Rightarrow> block_list \<times> gostr option" where
  "LoadFromFile file bl = (case file of
      Inl err \<Rightarrow> (bl, Some (''open file: '' @ err))
    | Inr (lines, readErr) \<Rightarrow> (fold loadLine lines bl, map_option (\<lambda>e. ''read file: '' @ e) readErr))"

text \<open>\<^verbatim>\<open>LoadFromURL\<close>: the fetch fails, or it returns a status code with its text, the lines of the body
  and perhaps a read error after them.\<close>

definition LoadFromURL ::
    "gostr + ((nat \<times> gostr) \<times> gostr list \<times> gostr option) \<Rightarrow> block_list \<Rightarrow> block_list \<times> gostr option" where
  "LoadFromURL resp bl = (case resp of
      Inl err \<Rightarrow> (bl, Some (''fetch URL: '' @ err))
    | Inr ((code, status), lines, readErr) \<Rightarrow>
        if code \<noteq> 200 then (bl, Some (''fetch URL: status '' @ status))
        else (fold loadLine lines bl, map_option (\<lambda>e. ''read response: '' @ e) readErr))"

subsection \<open>The block list as a set of names\<close>

lemma AddDomains_set: "set (AddDomains ds bl) = normalizeDomain ` set ds \<union> set bl"
  unfolding AddDomains_def by (induction ds arbitrary: bl) auto

lemma AddDomains_distinct: "distinct bl \<Longrightarrow> distinct (AddDomains ds bl)"
  unfolding AddDomains_def by (induction ds arbitrary: bl) auto

lemma suffix_iff_drop: "suffix ys xs \<longleftrightarrow> (\<exists>i\<le>length xs. ys = drop i xs)"
proof
  assume "suffix ys xs"
  then obtain zs where "xs = zs @ ys" by (auto simp: suffix_def)
  then show "\<exists>i\<le>length xs. ys = drop i xs" by (intro exI [of _ "length zs"]) simp
qed (auto simp: suffix_drop)

lemma IsBlocked_subdomain:
  "IsBlocked bl domain \<longleftrightarrow> (\<exists>d \<in> set bl. is_subdomain (normalizeDomain domain) d)"
proof -
  let ?q = "normalizeDomain domain"
  have nonempty: "labels d \<noteq> []" for d by (simp add: labels_def)
  have sub: "is_subdomain ?q d \<longleftrightarrow> (\<exists>i < length (labels ?q). d = Join ''.'' (drop i (labels ?q)))" for d
  proof
    assume "is_subdomain ?q d"
    then obtain i where i: "labels d = drop i (labels ?q)"
      by (auto simp: is_subdomain_def suffix_iff_drop)
    then have "i < length (labels ?q)" using nonempty [of d] by (metis drop_all not_less)
    moreover have "d = Join ''.'' (labels d)" by (simp add: labels_def Join_Split)
    ultimately show "\<exists>i < length (labels ?q). d = Join ''.'' (drop i (labels ?q))" using i by metis
  next
    assume "\<exists>i < length (labels ?q). d = Join ''.'' (drop i (labels ?q))"
    then obtain i where i: "i < length (labels ?q)" "d = Join ''.'' (drop i (labels ?q))" by blast
    have "CHR ''.'' \<notin> set w" if "w \<in> set (labels ?q)" for w
      using that by (simp add: labels_def Split_parts_no_sep)
    then have "labels d = drop i (labels ?q)"
      using i by (simp add: labels_def Split_Join in_set_dropD)
    then show "is_subdomain ?q d" by (simp add: is_subdomain_def suffix_drop)
  qed
  have "Join ''.'' (drop 0 (labels ?q)) = ?q" "0 < length (labels ?q)"
    using nonempty [of ?q] by (simp_all add: labels_def Join_Split)
  then have "IsBlocked bl domain \<longleftrightarrow> (\<exists>i < length (labels ?q). Join ''.'' (drop i (labels ?q)) \<in> set bl)"
    unfolding IsBlocked_def Let_def list_ex_iff labels_def by (metis atLeastLessThan_iff le0 set_upt)
  then show ?thesis unfolding sub by blast
qed

text \<open>A name is blocked exactly when the normalised name or one of its parent domains, label by
  label, is in the list.\<close>

theorem IsBlocked_iff:
  "IsBlocked bl domain \<longleftrightarrow> (\<exists>d \<in> set bl. is_subdomain (normalizeDomain domain) d)"
  by (rule IsBlocked_subdomain)

lemma Index_first: "c \<notin> set a \<Longrightarrow> Index (a @ c # b) [c] = Some (length a)"
  by (induction a) (auto simp: HasPrefix_def)

lemma TrimSpace_split: "\<exists>a b. s = a @ TrimSpace s @ b \<and> (\<forall>c \<in> set a. is_space c) \<and> (\<forall>c \<in> set b. is_space c)"
proof -
  obtain b where b: "dropWhile is_space s = TrimSpace s @ b" "\<forall>c \<in> set b. is_space c"
    using trimr_prefix [of "dropWhile is_space s" is_space] by (auto simp: TrimSpace_def)
  have "s = takeWhile is_space s @ TrimSpace s @ b"
    unfolding b(1) [symmetric] by (rule takeWhile_dropWhile_id [symmetric])
  moreover have "\<forall>c \<in> set (takeWhile is_space s). is_space c" by (meson set_takeWhileD)
  ultimately show ?thesis using b(2) by blast
qed

lemma TrimSpace_all_space: "\<forall>c \<in> set s. is_space c \<Longrightarrow> TrimSpace s = []"
  by (simp add: TrimSpace_def dropWhile_eq_Nil_conv [THEN iffD2])

text \<open>The guard against comment lines is redundant: the parser finds no domain on such a line.\<close>

lemma loadLine_AddDomains: "loadLine line bl = AddDomains (parseAdblockLine line) bl"
proof (cases "TrimSpace line = [] \<or> HasPrefix (TrimSpace line) ''#''")
  case True
  obtain a b where ab: "line = a @ TrimSpace line @ b" "\<forall>c \<in> set a. is_space c" "\<forall>c \<in> set b. is_space c"
    using TrimSpace_split by blast
  have hash: "\<not> is_space CHR ''#''" by (simp add: is_space_def)
  have "parseAdblockLine line = []"
  proof (cases "TrimSpace line = []")
    case blank: True
    then have "line = a @ b" using ab(1) by simp
    then have "\<forall>c \<in> set line. is_space c" using ab(2,3) by auto
    moreover from this have "\<forall>c \<in> set (take i line). is_space c" for i by (meson in_set_takeD)
    ultimately show ?thesis
      by (simp add: parseAdblockLine_def TrimSpace_all_space Let_def split: option.split)
  next
    case False
    then obtain r where "TrimSpace line = CHR ''#'' # r" using True by (auto simp: HasPrefix_iff)
    then have l: "line = a @ CHR ''#'' # (r @ b)" using ab(1) by simp
    have "Index line ''#'' = Some (length a)" unfolding l using ab(2) hash by (intro Index_first) blast
    then show ?thesis using ab(2) by (simp add: parseAdblockLine_def l TrimSpace_all_space)
  qed
  then show ?thesis using True by (simp add: loadLine_def AddDomains_def)
qed (simp add: loadLine_def AddDomains_def Let_def)

lemma load_lines_set:
  "set (fold loadLine lines bl) = (\<Union>line \<in> set lines. normalizeDomain ` set (parseAdblockLine line)) \<union> set bl"
  by (induction lines arbitrary: bl) (auto simp: loadLine_AddDomains AddDomains_set)

text \<open>After a list has been loaded from a file, a name is blocked exactly when it was blocked
  before or when it is, label by label, a subdomain of a domain on one of the lines.\<close>

theorem load_blocks:
  "IsBlocked (fst (LoadFromFile (Inr (lines, readErr)) bl)) name \<longleftrightarrow>
     IsBlocked bl name \<or>
     (\<exists>line \<in> set lines. \<exists>d \<in> set (parseAdblockLine line). is_subdomain (normalizeDomain name) (normalizeDomain d))"
  by (auto simp: LoadFromFile_def IsBlocked_subdomain load_lines_set)

end
