(* ===== verification/Config.thy ===== *)
theory Config
  imports GoPrelude Complex_Main
begin

text \<open>
  The configuration, \<^verbatim>\<open>config/config.go\<close>: the persisted settings (all fields of the structs, the
  struct \<^verbatim>\<open>Config\<close> in three layers), the default configuration, the normalisation \<^verbatim>\<open>applyDefaults\<close>
  and the path functions of \<^verbatim>\<open>path/filepath\<close> (on a Unix system) it uses.  A \<^verbatim>\<open>float64\<close> setting is a
  rational number (the special values are not modelled).  The environment that
  \<^verbatim>\<open>defaultSocketPath\<close> consults is an argument.
\<close>

subsection \<open>Paths\<close>

text \<open>\<^verbatim>\<open>filepath.IsAbs\<close>, \<^verbatim>\<open>filepath.Clean\<close> and \<^verbatim>\<open>filepath.Join\<close>.  \<^verbatim>\<open>Clean\<close> keeps a stack of
  elements: empty ones and dots are dropped, a double dot removes the element before it, stays at the
  start of a relative path and disappears at the root.\<close>

definition IsAbs :: "gostr \<Rightarrow> bool" where
  "IsAbs p \<longleftrightarrow> HasPrefix p ''/''"

fun clean_elems :: "bool \<Rightarrow> gostr list \<Rightarrow> gostr list \<Rightarrow> gostr list" where
  "clean_elems rooted stack [] = rev stack"
| "clean_elems rooted stack (e # es) =
     (if e = [] \<or> e = ''.'' then clean_elems rooted stack es
      else if e = ''..'' then
        (case stack of
           [] \<Rightarrow> if rooted then clean_elems rooted [] es else clean_elems rooted [''..''] es
         | upper # below \<Rightarrow> if upper = ''..'' then clean_elems rooted (''..'' # stack) es else clean_elems rooted below es)
      else clean_elems rooted (e # stack) es)"

definition Clean :: "gostr \<Rightarrow> gostr" where
  "Clean p =
     (let rooted = IsAbs p; body = Join ''/'' (clean_elems rooted [] (Split CHR ''/'' p)) in
      if rooted then ''/'' @ body else if body = [] then ''.'' else body)"

definition JoinPath :: "gostr list \<Rightarrow> gostr" where
  "JoinPath elems =
     (let parts = dropWhile (\<lambda>e. e = []) elems in if parts = [] then [] else Clean (Join ''/'' parts))"

definition ensureAbsolutePath :: "gostr \<Rightarrow> gostr \<Rightarrow> gostr \<Rightarrow> gostr" where
  "ensureAbsolutePath configDir value0 fallbackName =
     (let value = TrimSpace value0 in
      if value = [] then JoinPath [configDir, fallbackName]
      else if IsAbs value then Clean value
      else JoinPath [configDir, value])"

definition isSystemConfigDir :: "gostr \<Rightarrow> bool" where
  "isSystemConfigDir configDir = (let clean = Clean configDir in clean = ''/etc'' \<or> HasPrefix clean ''/etc/'')"

record os_env =
  os_Root :: bool
  os_TempDir :: gostr
  os_XDGRuntimeDir :: gostr
  os_UserConfigDir :: "gostr option"

definition defaultSocketPath :: "os_env \<Rightarrow> gostr" where
  "defaultSocketPath os =
     (if os_Root os then JoinPath [os_TempDir os, ''dnsplane.socket'']
      else if os_XDGRuntimeDir os \<noteq> [] then JoinPath [os_XDGRuntimeDir os, ''dnsplane.socket'']
      else case os_UserConfigDir os of
        Some dir \<Rightarrow> if dir \<noteq> [] then JoinPath [dir, ''dnsplane'', ''dnsplane.socket'']
                    else JoinPath [os_TempDir os, ''dnsplane.socket'']
      | None \<Rightarrow> JoinPath [os_TempDir os, ''dnsplane.socket''])"

definition appendIfMissing :: "gostr list \<Rightarrow> gostr \<Rightarrow> gostr list" where
  "appendIfMissing paths candidate = (if candidate \<in> set paths then paths else paths @ [candidate])"

subsection \<open>Settings\<close>

record RecordsSourceConfig =
  rsc_Type :: gostr
  rsc_Location :: gostr
  rsc_RefreshIntervalSeconds :: int
  rsc_IncludePattern :: gostr
  rsc_NamedConf :: gostr
  rsc_Watch :: bool

definition RecordsSourceFile :: gostr where "RecordsSourceFile = ''file''"
definition RecordsSourceURL :: gostr where "RecordsSourceURL = ''url''"
definition RecordsSourceGit :: gostr where "RecordsSourceGit = ''git''"
definition RecordsSourceBindDir :: gostr where "RecordsSourceBindDir = ''bind_dir''"

lemmas records_source_defs =
  RecordsSourceFile_def RecordsSourceURL_def RecordsSourceGit_def RecordsSourceBindDir_def

definition file_source :: "gostr \<Rightarrow> RecordsSourceConfig" where
  "file_source loc = \<lparr>rsc_Type = RecordsSourceFile, rsc_Location = loc, rsc_RefreshIntervalSeconds = 0,
     rsc_IncludePattern = [], rsc_NamedConf = [], rsc_Watch = False\<rparr>"

record FileLocations =
  fl_DNSServerFile :: gostr
  fl_CacheFile :: gostr
  fl_RecordsSource :: "RecordsSourceConfig option"

record DNSRecordSettings =
  drs_AutoBuildPTRFromA :: bool
  drs_ForwardPTRQueries :: bool
  drs_AddUpdatesRecords :: bool

record LogConfig =
  log_Dir :: gostr
  log_Severity :: gostr
  log_Rotation :: gostr
  log_RotationSizeMB :: int
  log_RotationDays :: int

definition empty_FileLocations :: FileLocations where
  "empty_FileLocations = \<lparr>fl_DNSServerFile = [], fl_CacheFile = [], fl_RecordsSource = None\<rparr>"

definition empty_DNSRecordSettings :: DNSRecordSettings where
  "empty_DNSRecordSettings = \<lparr>drs_AutoBuildPTRFromA = False, drs_ForwardPTRQueries = False, drs_AddUpdatesRecords = False\<rparr>"

definition empty_LogConfig :: LogConfig where
  "empty_LogConfig = \<lparr>log_Dir = [], log_Severity = [], log_Rotation = [], log_RotationSizeMB = 0, log_RotationDays = 0\<rparr>"

record ConfigA =
  cf_FallbackServerIP :: gostr
  cf_FallbackServerPort :: gostr
  cf_Timeout :: int
  cf_DNSPort :: gostr
  cf_RESTPort :: gostr
  cf_APIEnabled :: bool
  cf_APIAuthToken :: gostr
  cf_DNSBind :: gostr
  cf_APIBind :: gostr
  cf_APITLSCertFile :: gostr
  cf_APITLSKeyFile :: gostr
  cf_APIRateLimitPerIP :: rat
  cf_APIRateLimitBurst :: int
  cf_DNSRateLimitPerIP :: rat
  cf_DNSRateLimitBurst :: int
  cf_DNSAmplificationMaxRatio :: int
  cf_FallbackServerTransport :: gostr
  cf_DOTEnabled :: bool
  cf_DOTBind :: gostr
  cf_DOTPort :: gostr
  cf_DOTCertFile :: gostr
  cf_DOTKeyFile :: gostr
  cf_DOHEnabled :: bool
  cf_DOHBind :: gostr
  cf_DOHPort :: gostr
  cf_DOHPath :: gostr
  cf_DOHCertFile :: gostr
  cf_DOHKeyFile :: gostr
  cf_DNSResponseLimitMode :: gostr
  cf_DNSSlidingWindowSeconds :: int
  cf_DNSMaxResponsesPerIPWindow :: int
  cf_DNSRRLMaxPerBucket :: int
  cf_DNSRRLWindowSeconds :: int

record ConfigB = ConfigA +
  cf_DNSRRLSlip :: rat
  cf_DNSSECValidate :: bool
  cf_DNSSECValidateStrict :: bool
  cf_DNSSECTrustAnchorFile :: gostr
  cf_DNSSECSignEnabled :: bool
  cf_DNSSECSignZone :: gostr
  cf_DNSSECSignKeyFile :: gostr
  cf_DNSSECSignPrivateKeyFile :: gostr
  cf_DNSRefuseANY :: bool
  cf_DNSMaxEDNSUDPPayload :: u16
  cf_CacheRecords :: bool
  cf_LocalRecordsEnabled :: bool
  cf_FullStats :: bool
  cf_FullStatsDir :: gostr
  cf_ClientSocketPath :: gostr
  cf_ClientTCPAddress :: gostr
  cf_FileLocations :: FileLocations
  cf_DNSRecordSettings :: DNSRecordSettings
  cf_Log :: LogConfig
  cf_AdblockListFiles :: "gostr list"
  cf_UpstreamHealthCheckEnabled :: bool
  cf_UpstreamHealthCheckFailures :: int
  cf_UpstreamHealthCheckIntervalSeconds :: int
  cf_UpstreamHealthCheckQueryName :: gostr
  cf_MinCacheTTLSeconds :: int
  cf_StaleWhileRevalidate :: bool
  cf_CacheWarmEnabled :: bool
  cf_CacheWarmIntervalSeconds :: int
  cf_CacheCompactEnabled :: bool
  cf_CacheCompactIntervalSeconds :: int
  cf_StatsDashboardEnabled :: bool
  cf_DashboardResolutionLogCap :: int
  cf_PprofEnabled :: bool

record Config = ConfigB +
  cf_PprofListen :: gostr
  cf_PrettyJSON :: bool
  cf_ClusterEnabled :: bool
  cf_ClusterListenAddr :: gostr
  cf_ClusterPeers :: "gostr list"
  cf_ClusterAuthToken :: gostr
  cf_ClusterNodeID :: gostr
  cf_ClusterSyncIntervalSeconds :: int
  cf_ClusterAdvertiseAddr :: gostr
  cf_ClusterReplicaOnly :: bool
  cf_ClusterRejectLocalWrites :: bool
  cf_ClusterAdmin :: bool
  cf_ClusterAdminToken :: gostr
  cf_ClusterSyncPolicy :: gostr
  cf_ClusterAllowedWriterNodeIDs :: "gostr list"
  cf_ClusterDiscoverySRV :: gostr
  cf_ClusterDiscoveryIntervalSeconds :: int
  cf_AXFREnabled :: bool
  cf_AXFRAllowedNetworks :: "gostr list"

definition empty_Config :: Config where
  "empty_Config = \<lparr>cf_FallbackServerIP = [], cf_FallbackServerPort = [], cf_Timeout = 0, cf_DNSPort = [], cf_RESTPort = [], cf_APIEnabled = False, cf_APIAuthToken = [], cf_DNSBind = [], cf_APIBind = [], cf_APITLSCertFile = [], cf_APITLSKeyFile = [], cf_APIRateLimitPerIP = 0, cf_APIRateLimitBurst = 0, cf_DNSRateLimitPerIP = 0, cf_DNSRateLimitBurst = 0, cf_DNSAmplificationMaxRatio = 0, cf_FallbackServerTransport = [], cf_DOTEnabled = False, cf_DOTBind = [], cf_DOTPort = [], cf_DOTCertFile = [], cf_DOTKeyFile = [], cf_DOHEnabled = False, cf_DOHBind = [], cf_DOHPort = [], cf_DOHPath = [], cf_DOHCertFile = [], cf_DOHKeyFile = [], cf_DNSResponseLimitMode = [], cf_DNSSlidingWindowSeconds = 0, cf_DNSMaxResponsesPerIPWindow = 0, cf_DNSRRLMaxPerBucket = 0, cf_DNSRRLWindowSeconds = 0, cf_DNSRRLSlip = 0, cf_DNSSECValidate = False, cf_DNSSECValidateStrict = False, cf_DNSSECTrustAnchorFile = [], cf_DNSSECSignEnabled = False, cf_DNSSECSignZone = [], cf_DNSSECSignKeyFile = [], cf_DNSSECSignPrivateKeyFile = [], cf_DNSRefuseANY = False, cf_DNSMaxEDNSUDPPayload = 0, cf_CacheRecords = False, cf_LocalRecordsEnabled = False, cf_FullStats = False, cf_FullStatsDir = [], cf_ClientSocketPath = [], cf_ClientTCPAddress = [], cf_FileLocations = empty_FileLocations, cf_DNSRecordSettings = empty_DNSRecordSettings, cf_Log = empty_LogConfig, cf_AdblockListFiles = [], cf_UpstreamHealthCheckEnabled = False, cf_UpstreamHealthCheckFailures = 0, cf_UpstreamHealthCheckIntervalSeconds = 0, cf_UpstreamHealthCheckQueryName = [], cf_MinCacheTTLSeconds = 0, cf_StaleWhileRevalidate = False, cf_CacheWarmEnabled = False, cf_CacheWarmIntervalSeconds = 0, cf_CacheCompactEnabled = False, cf_CacheCompactIntervalSeconds = 0, cf_StatsDashboardEnabled = False, cf_DashboardResolutionLogCap = 0, cf_PprofEnabled = False, cf_PprofListen = [], cf_PrettyJSON = False, cf_ClusterEnabled = False, cf_ClusterListenAddr = [], cf_ClusterPeers = [], cf_ClusterAuthToken = [], cf_ClusterNodeID = [], cf_ClusterSyncIntervalSeconds = 0, cf_ClusterAdvertiseAddr = [], cf_ClusterReplicaOnly = False, cf_ClusterRejectLocalWrites = False, cf_ClusterAdmin = False, cf_ClusterAdminToken = [], cf_ClusterSyncPolicy = [], cf_ClusterAllowedWriterNodeIDs = [], cf_ClusterDiscoverySRV = [], cf_ClusterDiscoveryIntervalSeconds = 0, cf_AXFREnabled = False, cf_AXFRAllowedNetworks = []\<rparr>"

subsection \<open>Defaults\<close>

definition defaultConfig :: "os_env \<Rightarrow> gostr \<Rightarrow> Config" where
  "defaultConfig os baseDir = empty_Config\<lparr>
     cf_FallbackServerIP := ''1.1.1.1'', cf_FallbackServerPort := ''53'', cf_Timeout := 2, cf_DNSPort := ''53'',
     cf_RESTPort := ''8080'', cf_APIEnabled := False, cf_CacheRecords := True, cf_LocalRecordsEnabled := True,
     cf_FullStats := False, cf_FullStatsDir := JoinPath [baseDir, ''fullstats''],
     cf_ClientSocketPath := defaultSocketPath os, cf_ClientTCPAddress := ''0.0.0.0:8053'',
     cf_FileLocations := \<lparr>fl_DNSServerFile = JoinPath [baseDir, ''dnsservers.json''],
        fl_CacheFile = JoinPath [baseDir, ''dnscache.json''],
        fl_RecordsSource = Some (file_source (JoinPath [baseDir, ''dnsrecords.json'']))\<rparr>,
     cf_DNSRecordSettings := empty_DNSRecordSettings\<lparr>drs_AutoBuildPTRFromA := True, drs_ForwardPTRQueries := False\<rparr>,
     cf_MinCacheTTLSeconds := 600, cf_StaleWhileRevalidate := True, cf_CacheWarmEnabled := True,
     cf_CacheWarmIntervalSeconds := 10, cf_CacheCompactEnabled := True, cf_CacheCompactIntervalSeconds := 1800,
     cf_StatsDashboardEnabled := True, cf_DashboardResolutionLogCap := 1000, cf_PrettyJSON := False,
     cf_PprofEnabled := False, cf_PprofListen := [],
     cf_Log := \<lparr>log_Dir = (if \<not> isSystemConfigDir baseDir then JoinPath [baseDir, ''log''] else ''/var/log/dnsplane''),
        log_Severity = ''none'', log_Rotation = ''size'', log_RotationSizeMB = 100, log_RotationDays = 7\<rparr>,
     cf_AdblockListFiles := []\<rparr>"

definition ifEmpty :: "gostr \<Rightarrow> gostr \<Rightarrow> gostr" where
  "ifEmpty s d = (if s = [] then d else s)"

definition notNeg :: "'a::linordered_idom \<Rightarrow> 'a" where
  "notNeg n = (if n < 0 then 0 else n)"

text \<open>The scalar settings at the start of \<^verbatim>\<open>applyDefaults\<close>; the assignments touch different fields.\<close>

definition applyScalarDefaults :: "os_env \<Rightarrow> gostr \<Rightarrow> Config \<Rightarrow> Config" where
  "applyScalarDefaults os configDir c = c\<lparr>
     cf_FallbackServerIP := ifEmpty (cf_FallbackServerIP c) ''1.1.1.1'',
     cf_FallbackServerPort := ifEmpty (cf_FallbackServerPort c) ''53'',
     cf_DNSPort := ifEmpty (cf_DNSPort c) ''53'',
     cf_RESTPort := ifEmpty (cf_RESTPort c) ''8080'',
     cf_ClientSocketPath := ifEmpty (cf_ClientSocketPath c) (defaultSocketPath os),
     cf_ClientTCPAddress := ifEmpty (cf_ClientTCPAddress c) ''0.0.0.0:8053'',
     cf_FullStatsDir := (if cf_FullStatsDir c = [] then JoinPath [configDir, ''fullstats'']
                         else ensureAbsolutePath configDir (cf_FullStatsDir c) ''fullstats''),
     cf_UpstreamHealthCheckFailures := notNeg (cf_UpstreamHealthCheckFailures c),
     cf_UpstreamHealthCheckIntervalSeconds := notNeg (cf_UpstreamHealthCheckIntervalSeconds c),
     cf_MinCacheTTLSeconds := notNeg (cf_MinCacheTTLSeconds c),
     cf_CacheWarmIntervalSeconds := (if cf_CacheWarmIntervalSeconds c < 1 then 10 else cf_CacheWarmIntervalSeconds c),
     cf_CacheCompactIntervalSeconds :=
       (if cf_CacheCompactIntervalSeconds c \<le> 0 then 1800
        else if cf_CacheCompactIntervalSeconds c < 60 then 60 else cf_CacheCompactIntervalSeconds c),
     cf_DashboardResolutionLogCap :=
       (let cap = (if cf_DashboardResolutionLogCap c \<le> 0 then 1000 else cf_DashboardResolutionLogCap c)
        in if cap > 1000000 then 1000000 else cap),
     cf_ClusterSyncIntervalSeconds := notNeg (cf_ClusterSyncIntervalSeconds c),
     cf_ClusterDiscoveryIntervalSeconds := notNeg (cf_ClusterDiscoveryIntervalSeconds c),
     cf_APIRateLimitBurst := notNeg (cf_APIRateLimitBurst c),
     cf_DNSRateLimitBurst := notNeg (cf_DNSRateLimitBurst c),
     cf_DNSAmplificationMaxRatio := notNeg (cf_DNSAmplificationMaxRatio c),
     cf_DNSResponseLimitMode :=
       (if TrimSpace (cf_DNSResponseLimitMode c) = [] then ''sliding_window'' else cf_DNSResponseLimitMode c),
     cf_DNSRRLWindowSeconds := notNeg (cf_DNSRRLWindowSeconds c),
     cf_DNSRRLSlip := notNeg (cf_DNSRRLSlip c),
     cf_DNSSlidingWindowSeconds := notNeg (cf_DNSSlidingWindowSeconds c),
     cf_PprofListen := (if cf_PprofEnabled c \<and> TrimSpace (cf_PprofListen c) = [] then ''127.0.0.1:6060'' else cf_PprofListen c),
     cf_DOTPort := (if cf_DOTPort c = [] \<and> cf_DOTEnabled c then ''853'' else cf_DOTPort c),
     cf_DOHPort := (if cf_DOHPort c = [] \<and> cf_DOHEnabled c then ''8443'' else cf_DOHPort c),
     cf_DOHPath := (if cf_DOHPath c = [] \<and> cf_DOHEnabled c then ''/dns-query'' else cf_DOHPath c)\<rparr>"

text \<open>The key files of the signer, the data files, the records source and the log.\<close>

definition keyFilePath :: "gostr \<Rightarrow> gostr \<Rightarrow> gostr" where
  "keyFilePath configDir f =
     (let k = TrimSpace f in if k = [] then f else if IsAbs k then Clean k else JoinPath [configDir, k])"

definition sourceDefaults :: "gostr \<Rightarrow> RecordsSourceConfig option \<Rightarrow> RecordsSourceConfig" where
  "sourceDefaults configDir rso =
     (let rs = (case rso of None \<Rightarrow> file_source (JoinPath [configDir, ''dnsrecords.json'']) | Some rs \<Rightarrow> rs) in
      if rsc_Type rs = RecordsSourceURL \<or> rsc_Type rs = RecordsSourceGit then
        (if rsc_RefreshIntervalSeconds rs \<le> 0 then rs\<lparr>rsc_RefreshIntervalSeconds := 60\<rparr> else rs)
      else if EqualFold (TrimSpace (rsc_Type rs)) RecordsSourceBindDir then
        (let nc = TrimSpace (rsc_NamedConf rs) in
         rs\<lparr>rsc_Type := RecordsSourceBindDir, rsc_Location := ensureAbsolutePath configDir (rsc_Location rs) ''zones'',
            rsc_NamedConf := (if nc \<noteq> [] then ensureAbsolutePath configDir nc [] else rsc_NamedConf rs)\<rparr>)
      else
        rs\<lparr>rsc_Type := RecordsSourceFile, rsc_Location := ensureAbsolutePath configDir (rsc_Location rs) ''dnsrecords.json''\<rparr>)"

definition logDefaults :: "gostr \<Rightarrow> LogConfig \<Rightarrow> LogConfig" where
  "logDefaults configDir l = l\<lparr>
     log_Dir := (if log_Dir l = [] then (if isSystemConfigDir configDir then ''/var/log/dnsplane'' else JoinPath [configDir, ''log''])
                 else log_Dir l),
     log_Severity := ifEmpty (log_Severity l) ''none'',
     log_Rotation := ifEmpty (log_Rotation l) ''size'',
     log_RotationSizeMB := (if log_RotationSizeMB l \<le> 0 then 100 else log_RotationSizeMB l),
     log_RotationDays := (if log_RotationDays l \<le> 0 then 7 else log_RotationDays l)\<rparr>"

definition applyDefaults :: "os_env \<Rightarrow> gostr \<Rightarrow> Config \<Rightarrow> Config" where
  "applyDefaults os configDir c0 =
     (let c = applyScalarDefaults os configDir c0; fl = cf_FileLocations c in
      c\<lparr>cf_DNSSECSignKeyFile := keyFilePath configDir (cf_DNSSECSignKeyFile c),
        cf_DNSSECSignPrivateKeyFile := keyFilePath configDir (cf_DNSSECSignPrivateKeyFile c),
        cf_FileLocations := \<lparr>fl_DNSServerFile = ensureAbsolutePath configDir (fl_DNSServerFile fl) ''dnsservers.json'',
          fl_CacheFile = ensureAbsolutePath configDir (fl_CacheFile fl) ''dnscache.json'',
          fl_RecordsSource = Some (sourceDefaults configDir (fl_RecordsSource fl))\<rparr>,
        cf_Log := logDefaults configDir (cf_Log c)\<rparr>)"

subsection \<open>What the normalisation guarantees\<close>

lemma Clean_IsAbs: "IsAbs p \<Longrightarrow> IsAbs (Clean p)"
  by (simp add: Clean_def IsAbs_def HasPrefix_def)

lemma IsAbs_Join: "IsAbs d \<Longrightarrow> IsAbs (Join ''/'' (d # es))"
  by (cases es) (auto simp: IsAbs_def HasPrefix_iff)

lemma JoinPath_IsAbs: "IsAbs d \<Longrightarrow> IsAbs (JoinPath (d # es))"
  by (cases "d = []") (simp_all add: JoinPath_def Clean_IsAbs IsAbs_Join, simp add: IsAbs_def HasPrefix_def)

lemma ensureAbsolutePath_IsAbs: "IsAbs d \<Longrightarrow> IsAbs (ensureAbsolutePath d v f)"
  by (simp add: ensureAbsolutePath_def Clean_IsAbs JoinPath_IsAbs Let_def)

lemma applyDefaults_source:
  "fl_RecordsSource (cf_FileLocations (applyDefaults os d c)) =
     Some (sourceDefaults d (fl_RecordsSource (cf_FileLocations c)))"
  by (simp add: applyDefaults_def applyScalarDefaults_def Let_def)

lemma sourceDefaults_type:
  "rsc_Type (sourceDefaults d rso) \<in> {RecordsSourceFile, RecordsSourceURL, RecordsSourceGit, RecordsSourceBindDir}"
  by (auto simp: sourceDefaults_def Let_def)

lemma sourceDefaults_path:
  assumes "IsAbs d" "rsc_Type (sourceDefaults d rso) \<in> {RecordsSourceFile, RecordsSourceBindDir}"
  shows "IsAbs (rsc_Location (sourceDefaults d rso))"
  using assms
  by (auto simp: sourceDefaults_def ensureAbsolutePath_IsAbs Let_def records_source_defs split: if_splits)

lemma sourceDefaults_refresh:
  assumes "rsc_Type (sourceDefaults d rso) \<in> {RecordsSourceURL, RecordsSourceGit}"
  shows "0 < rsc_RefreshIntervalSeconds (sourceDefaults d rso)"
  using assms by (auto simp: sourceDefaults_def Let_def records_source_defs split: if_splits)

text \<open>After \<^verbatim>\<open>applyDefaults\<close> relative to an absolute directory, whatever the configuration file
  said: the intervals, caps and counters are in their documented ranges, ports and fallback are not
  empty, the data files and a file or zone source are absolute paths, the records source has one of
  the four known types and a remote source a positive refresh interval.\<close>

theorem applyDefaults_normal:
  assumes "IsAbs configDir"
  shows "cf_CacheWarmIntervalSeconds (applyDefaults os configDir c) \<ge> 1 \<and>
    cf_CacheCompactIntervalSeconds (applyDefaults os configDir c) \<ge> 60 \<and>
    cf_DashboardResolutionLogCap (applyDefaults os configDir c) \<in> {1..1000000} \<and>
    cf_MinCacheTTLSeconds (applyDefaults os configDir c) \<ge> 0 \<and>
    cf_DNSAmplificationMaxRatio (applyDefaults os configDir c) \<ge> 0 \<and>
    cf_DNSRRLSlip (applyDefaults os configDir c) \<ge> 0 \<and>
    cf_DNSPort (applyDefaults os configDir c) \<noteq> [] \<and> cf_FallbackServerIP (applyDefaults os configDir c) \<noteq> [] \<and>
    IsAbs (cf_FullStatsDir (applyDefaults os configDir c)) \<and>
    IsAbs (fl_DNSServerFile (cf_FileLocations (applyDefaults os configDir c))) \<and>
    IsAbs (fl_CacheFile (cf_FileLocations (applyDefaults os configDir c))) \<and>
    (\<exists>rs. fl_RecordsSource (cf_FileLocations (applyDefaults os configDir c)) = Some rs \<and>
       rsc_Type rs \<in> {RecordsSourceFile, RecordsSourceURL, RecordsSourceGit, RecordsSourceBindDir} \<and>
       (rsc_Type rs \<in> {RecordsSourceFile, RecordsSourceBindDir} \<longrightarrow> IsAbs (rsc_Location rs)) \<and>
       (rsc_Type rs \<in> {RecordsSourceURL, RecordsSourceGit} \<longrightarrow> 0 < rsc_RefreshIntervalSeconds rs))"
proof -
  have paths: "IsAbs (cf_FullStatsDir (applyDefaults os configDir c))"
      "IsAbs (fl_DNSServerFile (cf_FileLocations (applyDefaults os configDir c)))"
      "IsAbs (fl_CacheFile (cf_FileLocations (applyDefaults os configDir c)))"
    using assms by (simp_all add: applyDefaults_def applyScalarDefaults_def ensureAbsolutePath_IsAbs JoinPath_IsAbs Let_def)
  moreover have "\<exists>rs. fl_RecordsSource (cf_FileLocations (applyDefaults os configDir c)) = Some rs \<and>
       rsc_Type rs \<in> {RecordsSourceFile, RecordsSourceURL, RecordsSourceGit, RecordsSourceBindDir} \<and>
       (rsc_Type rs \<in> {RecordsSourceFile, RecordsSourceBindDir} \<longrightarrow> IsAbs (rsc_Location rs)) \<and>
       (rsc_Type rs \<in> {RecordsSourceURL, RecordsSourceGit} \<longrightarrow> 0 < rsc_RefreshIntervalSeconds rs)"
    using sourceDefaults_type sourceDefaults_path [OF assms] sourceDefaults_refresh applyDefaults_source by blast
  ultimately show ?thesis
    by (simp add: applyDefaults_def applyScalarDefaults_def ifEmpty_def notNeg_def Let_def)
qed

theorem applyDefaults_normal_witness:
  "IsAbs ''/etc/dnsplane'' \<and>
   IsAbs (fl_CacheFile (cf_FileLocations (applyDefaults
      \<lparr>os_Root = True, os_TempDir = ''/tmp'', os_XDGRuntimeDir = [], os_UserConfigDir = None\<rparr> ''/etc/dnsplane''
      (empty_Config\<lparr>cf_CacheCompactIntervalSeconds := 5\<rparr>))))"
proof -
  have "IsAbs ''/etc/dnsplane''" by (simp add: IsAbs_def HasPrefix_def)
  then show ?thesis using applyDefaults_normal by blast
qed

end
