(* ===== verification/UpstreamHealth.thy ===== *)
theory UpstreamHealth
  imports DnsServers Config
begin

text \<open>
  Health of the upstream servers, \<^verbatim>\<open>data/upstream_health.go\<close>: the tracker with one entry per health
  key, the outcome of probes and of forwarded queries, the threshold after which a server counts as
  unhealthy, and the filter that removes unhealthy servers from the candidates without ever removing
  all of them.  The nil tracker is \<open>None\<close>; the clock is an argument; an instant that the API prints
  is left as the instant.
\<close>

record health_entry =
  he_unhealthy :: bool
  he_failures :: int
  he_lastProbe :: gotime
  he_lastErr :: gostr
  he_lastOK :: gotime

type_synonym health_tracker = "gostr \<rightharpoonup> health_entry"

definition empty_entry :: health_entry where
  "empty_entry = \<lparr>he_unhealthy = False, he_failures = 0, he_lastProbe = 0, he_lastErr = [], he_lastOK = 0\<rparr>"

definition NewUpstreamHealthTracker :: health_tracker where
  "NewUpstreamHealthTracker = Map.empty"

definition ensure :: "health_tracker \<Rightarrow> gostr \<Rightarrow> health_entry" where
  "ensure t key = (case t key of None \<Rightarrow> empty_entry | Some e \<Rightarrow> e)"

definition HealthFilter :: "health_tracker option \<Rightarrow> Config \<Rightarrow> gostr list \<Rightarrow> gostr list" where
  "HealthFilter t cfg addrs = (case t of
      None \<Rightarrow> addrs
    | Some by \<Rightarrow>
        if \<not> cf_UpstreamHealthCheckEnabled cfg \<or> addrs = [] then addrs
        else let out = filter (\<lambda>a. case by a of None \<Rightarrow> True | Some e \<Rightarrow> \<not> he_unhealthy e) addrs in
             if out = [] then addrs else out)"

definition RecordForwardSuccess :: "gotime \<Rightarrow> gostr \<Rightarrow> health_tracker \<Rightarrow> health_tracker" where
  "RecordForwardSuccess now key t =
     (if key = [] then t
      else t(key \<mapsto> (ensure t key)\<lparr>he_unhealthy := False, he_failures := 0, he_lastErr := [], he_lastOK := now\<rparr>))"

definition ProbeOK :: "gotime \<Rightarrow> gostr \<Rightarrow> health_tracker \<Rightarrow> health_tracker" where
  "ProbeOK now key t = RecordForwardSuccess now key t"

definition ProbeFail :: "gotime \<Rightarrow> gostr \<Rightarrow> gostr \<Rightarrow> int \<Rightarrow> health_tracker \<Rightarrow> health_tracker \<times> bool" where
  "ProbeFail now key errStr threshold0 t =
     (if key = [] then (t, False)
      else
        let threshold = (if threshold0 \<le> 0 then 3 else threshold0);
            e = ensure t key;
            was = he_unhealthy e;
            e = e\<lparr>he_failures := he_failures e + 1, he_lastProbe := now, he_lastErr := errStr\<rparr>;
            e = (if he_failures e \<ge> threshold then e\<lparr>he_unhealthy := True\<rparr> else e)
        in (t(key \<mapsto> e), he_unhealthy e \<and> \<not> was))"

definition IsUnhealthy :: "health_tracker \<Rightarrow> gostr \<Rightarrow> bool" where
  "IsUnhealthy t key = (case t key of None \<Rightarrow> False | Some e \<Rightarrow> he_unhealthy e)"

record health_status =
  hs_AddressPort :: gostr
  hs_Unhealthy :: bool
  hs_ConsecutiveFailures :: int
  hs_LastProbeAt :: "gotime option"
  hs_LastProbeError :: gostr
  hs_LastSuccessAt :: "gotime option"

definition empty_status :: "gostr \<Rightarrow> health_status" where
  "empty_status k = \<lparr>hs_AddressPort = k, hs_Unhealthy = False, hs_ConsecutiveFailures = 0, hs_LastProbeAt = None,
     hs_LastProbeError = [], hs_LastSuccessAt = None\<rparr>"

definition HealthSnapshot :: "health_tracker \<Rightarrow> gostr list \<Rightarrow> health_status list" where
  "HealthSnapshot t keys = map (\<lambda>k. case t k of
      None \<Rightarrow> empty_status k
    | Some e \<Rightarrow> \<lparr>hs_AddressPort = k, hs_Unhealthy = he_unhealthy e, hs_ConsecutiveFailures = he_failures e,
        hs_LastProbeAt = (if time_IsZero (he_lastProbe e) then None else Some (he_lastProbe e)),
        hs_LastProbeError = he_lastErr e,
        hs_LastSuccessAt = (if time_IsZero (he_lastOK e) then None else Some (he_lastOK e))\<rparr>) keys"

subsection \<open>The operations of the resolver data\<close>

definition FilterHealthyUpstreamEndpoints :: "health_tracker option \<Rightarrow> Config \<Rightarrow> endpoint list \<Rightarrow> endpoint list" where
  "FilterHealthyUpstreamEndpoints h cfg eps =
     (if eps = [] \<or> h = None then eps
      else
        let filtered = HealthFilter h cfg (map HealthKey eps);
            out = filter (\<lambda>ep. HealthKey ep \<in> set filtered) eps
        in if out = [] then eps else out)"

definition UpstreamHealthStatuses :: "health_tracker option \<Rightarrow> Config \<Rightarrow> dns_server list \<Rightarrow> health_status list \<times> bool" where
  "UpstreamHealthStatuses h cfg servers =
     (let enabled = cf_UpstreamHealthCheckEnabled cfg;
          keys = map (\<lambda>s. HealthKey (ServerToEndpoint s)) (filter srv_Active servers)
      in case h of
           None \<Rightarrow> (map empty_status keys, enabled)
         | Some t \<Rightarrow>
             let st = HealthSnapshot t keys in
             (if enabled then st
              else map (\<lambda>s. s\<lparr>hs_Unhealthy := False, hs_ConsecutiveFailures := 0, hs_LastProbeError := []\<rparr>) st, enabled))"

text \<open>The second component is the warning raised when a server becomes unhealthy.\<close>

definition ApplyUpstreamProbeResult ::
    "gotime \<Rightarrow> Config \<Rightarrow> gostr \<Rightarrow> bool \<Rightarrow> gostr \<Rightarrow> health_tracker option \<Rightarrow> health_tracker option \<times> bool" where
  "ApplyUpstreamProbeResult now cfg key ok errStr h = (case h of
      None \<Rightarrow> (None, False)
    | Some t \<Rightarrow>
        if \<not> cf_UpstreamHealthCheckEnabled cfg then (Some t, False)
        else
          let th = (if cf_UpstreamHealthCheckFailures cfg \<le> 0 then 3 else cf_UpstreamHealthCheckFailures cfg) in
          if ok then (Some (ProbeOK now key t), False)
          else let (t', becameUnhealthy) = ProbeFail now key errStr th t in (Some t', becameUnhealthy))"

subsection \<open>The filter\<close>

lemma HealthFilter_healthy:
  "cf_UpstreamHealthCheckEnabled cfg \<Longrightarrow>
   HealthFilter (Some t) cfg keys =
     (let out = filter (\<lambda>k. \<not> IsUnhealthy t k) keys in if out = [] then keys else out)"
proof -
  have "(case t a of None \<Rightarrow> True | Some e \<Rightarrow> \<not> he_unhealthy e) = (\<not> IsUnhealthy t a)" for a
    by (simp add: IsUnhealthy_def split: option.split)
  then show "cf_UpstreamHealthCheckEnabled cfg \<Longrightarrow> ?thesis" by (simp add: HealthFilter_def Let_def)
qed

text \<open>The filter keeps the order and drops only unhealthy servers: with health checks enabled, it
  returns exactly the healthy endpoints if there is one, and otherwise (or with checks disabled, or
  without a tracker) all endpoints; so forwarding is never left without a candidate.\<close>

theorem health_filter_spec:
  "FilterHealthyUpstreamEndpoints h cfg eps =
     (case h of
        None \<Rightarrow> eps
      | Some t \<Rightarrow>
          if cf_UpstreamHealthCheckEnabled cfg \<and> (\<exists>ep \<in> set eps. \<not> IsUnhealthy t (HealthKey ep))
          then filter (\<lambda>ep. \<not> IsUnhealthy t (HealthKey ep)) eps else eps)"
proof (cases h)
  case (Some t)
  show ?thesis
  proof (cases "cf_UpstreamHealthCheckEnabled cfg")
    case True
    let ?ok = "\<lambda>ep. \<not> IsUnhealthy t (HealthKey ep)"
    have keys: "set (HealthFilter h cfg (map HealthKey eps)) =
        (if \<exists>ep \<in> set eps. ?ok ep then HealthKey ` {ep \<in> set eps. ?ok ep} else HealthKey ` set eps)"
      by (auto simp: Some HealthFilter_healthy True Let_def filter_map filter_empty_conv)
    have out: "filter (\<lambda>ep. HealthKey ep \<in> set (HealthFilter h cfg (map HealthKey eps))) eps =
        (if \<exists>ep \<in> set eps. ?ok ep then filter ?ok eps else eps)"
      unfolding keys by (auto intro!: filter_cong filter_True)
    have "FilterHealthyUpstreamEndpoints h cfg eps = (if \<exists>ep \<in> set eps. ?ok ep then filter ?ok eps else eps)"
      unfolding FilterHealthyUpstreamEndpoints_def Let_def out by (auto simp: Some filter_empty_conv)
    then show ?thesis by (simp add: Some True)
  next
    case False
    then have "HealthFilter h cfg ks = ks" for ks by (simp add: HealthFilter_def Some)
    then show ?thesis using False by (simp add: FilterHealthyUpstreamEndpoints_def Some Let_def)
  qed
qed (simp add: FilterHealthyUpstreamEndpoints_def)

subsection \<open>The threshold\<close>

text \<open>What happens to a tracker: a probe or a forwarded query succeeds, or a probe fails.\<close>

datatype health_event = EvSuccess gotime gostr | EvFail gotime gostr gostr

fun health_step :: "int \<Rightarrow> health_event \<Rightarrow> health_tracker \<Rightarrow> health_tracker" where
  "health_step th (EvSuccess now key) t = RecordForwardSuccess now key t"
| "health_step th (EvFail now key err) t = fst (ProbeFail now key err th t)"

fun ev_key :: "health_event \<Rightarrow> gostr" where
  "ev_key (EvSuccess now key) = key"
| "ev_key (EvFail now key err) = key"

fun is_fail :: "health_event \<Rightarrow> bool" where
  "is_fail (EvFail now key err) = True"
| "is_fail (EvSuccess now key) = False"

text \<open>The number of failures of a key since its last success.\<close>

definition trailing_failures :: "gostr \<Rightarrow> health_event list \<Rightarrow> nat" where
  "trailing_failures key evs = length (takeWhile is_fail (rev (filter (\<lambda>ev. ev_key ev = key) evs)))"

lemma trailing_failures_snoc:
  "trailing_failures key (evs @ [ev]) =
     (if ev_key ev \<noteq> key then trailing_failures key evs
      else if is_fail ev then Suc (trailing_failures key evs) else 0)"
  by (simp add: trailing_failures_def)

lemma health_run_entry:
  fixes th :: int
  assumes "key \<noteq> []"
  defines "th' \<equiv> (if th \<le> 0 then 3 else th)"
  shows "he_failures (ensure (fold (health_step th) evs NewUpstreamHealthTracker) key) = int (trailing_failures key evs) \<and>
    (he_unhealthy (ensure (fold (health_step th) evs NewUpstreamHealthTracker) key) \<longleftrightarrow> int (trailing_failures key evs) \<ge> th')"
proof (induction evs rule: rev_induct)
  case Nil
  then show ?case by (simp add: ensure_def NewUpstreamHealthTracker_def empty_entry_def trailing_failures_def th'_def)
next
  case (snoc ev evs)
  have pos: "0 < th'" by (simp add: th'_def)
  show ?case
  proof (cases ev)
    case (EvSuccess now k)
    then show ?thesis using snoc assms(1) pos
      by (auto simp: trailing_failures_snoc RecordForwardSuccess_def ensure_def)
  next
    case (EvFail now k err)
    then show ?thesis using snoc assms(1) pos
      by (auto simp: trailing_failures_snoc ProbeFail_def ensure_def Let_def th'_def [symmetric])
  qed
qed

text \<open>C16.  After any interleaving of probe failures and successes of any servers, where a success is a successful probe
  or a client's query that the server has answered, a server is marked
  unhealthy exactly when the number of its probe failures since its last success has reached the
  threshold (3 when the threshold is not positive): one success resets the count, and other servers do
  not matter.\<close>

theorem unhealthy_iff_trailing_failures:
  assumes "key \<noteq> []"
  shows "IsUnhealthy (fold (health_step th) evs NewUpstreamHealthTracker) key \<longleftrightarrow>
    int (trailing_failures key evs) \<ge> (if th \<le> 0 then 3 else th)"
proof -
  have "IsUnhealthy t key \<longleftrightarrow> he_unhealthy (ensure t key)" for t
    by (simp add: IsUnhealthy_def ensure_def empty_entry_def split: option.split)
  then show ?thesis using health_run_entry [OF assms] by simp
qed

theorem unhealthy_iff_trailing_failures_witness:
  "IsUnhealthy (fold (health_step 2) [EvFail 1 ''a'' ''x'', EvSuccess 2 ''a'', EvFail 3 ''a'' ''x'', EvFail 4 ''b'' ''x'', EvFail 5 ''a'' ''x'']
     NewUpstreamHealthTracker) ''a''"
  using unhealthy_iff_trailing_failures [of "''a''" 2 "[EvFail 1 ''a'' ''x'', EvSuccess 2 ''a'', EvFail 3 ''a'' ''x'', EvFail 4 ''b'' ''x'', EvFail 5 ''a'' ''x'']"]
  by (simp add: trailing_failures_def)

end
