(* ===== verification/GoFloat.thy ===== *)
theory GoFloat
  imports GoPrelude Complex_Main
begin

text \<open>
  The floating-point arithmetic that the sources apply to durations.  A finite \<^verbatim>\<open>float64\<close> is a
  rational number; an operation computes the exact result and rounds it to 53 significant bits,
  to nearest, ties to even (the range of the exponents is not exceeded by the values at hand).
  \<^verbatim>\<open>Duration.Seconds\<close> adds the whole seconds and the rounded fraction, so the sum can round up to
  the next second; the lemmas bound the result.
\<close>

fun ilog2 :: "nat \<Rightarrow> nat" where
  "ilog2 n = (if n < 2 then 0 else Suc (ilog2 (n div 2)))"

declare ilog2.simps [simp del]

text \<open>The exponent \<open>e\<close> with \<open>2 ^ e \<le> x < 2 ^ (e + 1)\<close> for a positive \<open>x\<close>.\<close>

definition f64_exponent :: "rat \<Rightarrow> int" where
  "f64_exponent x =
     (let (p, q) = quotient_of x; e = int (ilog2 (nat p)) - int (ilog2 (nat q)) in
      if 2 powi e \<le> x then e else e - 1)"

definition round_half_even :: "rat \<Rightarrow> int" where
  "round_half_even k =
     (let f = \<lfloor>k\<rfloor>; d = k - of_int f in
      if d < 1 / 2 then f else if d > 1 / 2 then f + 1 else if even f then f else f + 1)"

definition f64_round :: "rat \<Rightarrow> rat" where
  "f64_round x =
     (if x = 0 then 0
      else let u = 2 powi (f64_exponent \<bar>x\<bar> - 52) in of_int (round_half_even (x / u)) * u)"

definition f64_add :: "rat \<Rightarrow> rat \<Rightarrow> rat" where "f64_add a b = f64_round (a + b)"
definition f64_sub :: "rat \<Rightarrow> rat \<Rightarrow> rat" where "f64_sub a b = f64_round (a - b)"
definition f64_mul :: "rat \<Rightarrow> rat \<Rightarrow> rat" where "f64_mul a b = f64_round (a * b)"
definition f64_div :: "rat \<Rightarrow> rat \<Rightarrow> rat" where "f64_div a b = f64_round (a / b)"

text \<open>\<^verbatim>\<open>d.Seconds()\<close> (Go's division truncates), and \<^verbatim>\<open>uint32(d.Seconds())\<close> for a duration of at least
  zero on a 64-bit platform.\<close>

definition duration_Seconds :: "duration \<Rightarrow> rat" where
  "duration_Seconds d =
     f64_add (f64_round (of_int (sgn d * (\<bar>d\<bar> div Second)))) (f64_div (of_int (sgn d * (\<bar>d\<bar> mod Second))) 1000000000)"

definition seconds_u32 :: "duration \<Rightarrow> u32" where
  "seconds_u32 d = word_of_int \<lfloor>duration_Seconds d\<rfloor>"

subsection \<open>Bounds of the rounding\<close>

lemma ilog2_bounds: "0 < n \<Longrightarrow> 2 ^ ilog2 n \<le> n \<and> n < 2 ^ Suc (ilog2 n)"
proof (induction n rule: ilog2.induct)
  case (1 n)
  show ?case
  proof (cases "n < 2")
    case True
    then show ?thesis using 1 by (simp add: ilog2.simps [of n])
  next
    case False
    then have "2 ^ ilog2 (n div 2) \<le> n div 2 \<and> n div 2 < 2 ^ Suc (ilog2 (n div 2))" using 1 by simp
    moreover have "ilog2 n = Suc (ilog2 (n div 2))" using False by (simp add: ilog2.simps [of n])
    ultimately show ?thesis by simp linarith
  qed
qed

lemma f64_exponent_le:
  assumes "0 < x"
  shows "2 powi (f64_exponent x) \<le> x"
proof -
  obtain p q where pq: "quotient_of x = (p, q)" by force
  have q: "0 < q" and xq: "x = of_int p / of_int q"
    using quotient_of_denom_pos [OF pq] quotient_of_div [OF pq] by simp_all
  have p: "0 < p" using assms q by (simp add: xq zero_less_divide_iff)
  let ?e = "int (ilog2 (nat p)) - int (ilog2 (nat q))"
  have lp: "(2::rat) ^ ilog2 (nat p) \<le> of_int p"
    using ilog2_bounds [of "nat p"] p by (simp add: of_nat_le_iff [where 'a = rat, symmetric])
  have "nat q < 2 ^ Suc (ilog2 (nat q))" using ilog2_bounds [of "nat q"] q by simp
  then have "of_nat (nat q) < (of_nat (2 ^ Suc (ilog2 (nat q))) :: rat)" by (simp only: of_nat_less_iff)
  then have lq: "of_int q < (2::rat) ^ Suc (ilog2 (nat q))" using q by simp
  have "(2::rat) powi (?e - 1) = 2 ^ ilog2 (nat p) / 2 ^ Suc (ilog2 (nat q))"
    by (simp add: power_int_diff)
  also have "\<dots> \<le> of_int p / of_int q"
    using lp lq q p by (intro frac_le) simp_all
  finally have "(2::rat) powi (?e - 1) \<le> x" unfolding xq .
  then show ?thesis unfolding f64_exponent_def pq by (simp add: Let_def)
qed

lemma round_half_even_ge: "of_int m \<le> k \<Longrightarrow> m \<le> round_half_even k"
proof -
  assume "of_int m \<le> k"
  then have "m \<le> \<lfloor>k\<rfloor>" by (simp add: le_floor_iff)
  then show ?thesis by (auto simp: round_half_even_def Let_def)
qed

lemma round_half_even_le:
  assumes "k \<le> of_int m"
  shows "round_half_even k \<le> m"
proof (cases "k = of_int m")
  case True
  then show ?thesis by (simp add: round_half_even_def)
next
  case False
  then have "\<lfloor>k\<rfloor> < m" using assms by (simp add: floor_less_iff)
  then show ?thesis by (auto simp: round_half_even_def Let_def)
qed

text \<open>Rounding stays between two integers that enclose the value (integers below \<open>2 ^ 53\<close> are
  representable).\<close>

lemma f64_round_between:
  assumes "0 \<le> x" "x < 2 ^ 53" "of_int a \<le> x" "x \<le> of_int b"
  shows "of_int a \<le> f64_round x \<and> f64_round x \<le> of_int b"
proof (cases "x = 0")
  case True
  then show ?thesis using assms by (simp add: f64_round_def)
next
  case False
  let ?e = "f64_exponent x" and ?s = "52 - f64_exponent x"
  have pos: "0 < x" using assms False by simp
  have "(2::rat) powi ?e < 2 powi 53" using f64_exponent_le [OF pos] assms(2) by (simp add: le_less_trans)
  then have "?e < 53" using power_int_increasing [of 53 ?e "2::rat"] by force
  then have s: "0 \<le> ?s" by simp
  define n where "n = nat ?s"
  have u: "(2::rat) powi (?e - 52) = 1 / 2 ^ n"
    using s by (simp add: n_def power_int_def field_simps split: if_splits)
  have r: "f64_round x = of_int (round_half_even (x * 2 ^ n)) / 2 ^ n"
    using pos by (simp add: f64_round_def u Let_def)
  have "a * 2 ^ n \<le> round_half_even (x * 2 ^ n)" "round_half_even (x * 2 ^ n) \<le> b * 2 ^ n"
    using assms by (auto intro!: round_half_even_ge round_half_even_le)
  then have "(of_int (a * 2 ^ n) :: rat) \<le> of_int (round_half_even (x * 2 ^ n))"
      "of_int (round_half_even (x * 2 ^ n)) \<le> (of_int (b * 2 ^ n) :: rat)" by (simp_all only: of_int_le_iff)
  then show ?thesis by (simp add: r field_simps)
qed

lemma f64_round_int: "0 \<le> n \<Longrightarrow> n < 2 ^ 53 \<Longrightarrow> f64_round (of_int n) = of_int n"
proof -
  assume n: "0 \<le> n" "n < 2 ^ 53"
  then have "(of_int n :: rat) < of_int (2 ^ 53)" by (simp only: of_int_less_iff)
  then show ?thesis using n f64_round_between [of "of_int n" n n] by (intro order_antisym) simp_all
qed

lemma duration_Seconds_nonneg:
  "0 \<le> d \<Longrightarrow> duration_Seconds d = f64_add (f64_round (of_int (d div Second))) (f64_div (of_int (d mod Second)) 1000000000)"
  by (cases "d = 0") (simp_all add: duration_Seconds_def)

lemma f64_round_nonneg: "0 \<le> x \<Longrightarrow> 0 \<le> f64_round x"
  using round_half_even_ge [of 0 "x / 2 powi (f64_exponent \<bar>x\<bar> - 52)"]
  by (auto simp: f64_round_def Let_def)

lemma duration_Seconds_bounds:
  assumes "0 \<le> d" "d < 2 ^ 63"
  shows "of_int (d div Second) \<le> duration_Seconds d" "duration_Seconds d \<le> of_int (d div Second + 1)"
proof -
  let ?s = "d div Second" and ?n = "d mod Second"
  have s: "0 \<le> ?s" "?s < 2 ^ 52" using assms by simp_all
  have n: "0 \<le> ?n" "?n < Second" by simp_all
  have fs: "f64_round (of_int ?s) = of_int ?s" using s by (intro f64_round_int) simp_all
  have q: "0 \<le> f64_div (of_int ?n) 1000000000" "f64_div (of_int ?n) 1000000000 \<le> 1"
    using f64_round_between [of "of_int ?n / 1000000000" 0 1] n by (simp_all add: f64_div_def divide_le_eq)
  have "of_int ?s + f64_div (of_int ?n) 1000000000 < (2 ^ 53 :: rat)"
  proof -
    have "(of_int ?s :: rat) < of_int (2 ^ 52)" using s(2) by (simp only: of_int_less_iff)
    then show ?thesis using q by simp
  qed
  then show "of_int ?s \<le> duration_Seconds d" "duration_Seconds d \<le> of_int (?s + 1)"
    using f64_round_between [of "of_int ?s + f64_div (of_int ?n) 1000000000" ?s "?s + 1"] s q
    using assms(1) by (simp_all add: duration_Seconds_nonneg f64_add_def fs)
qed

lemma seconds_u32_cases:
  assumes "0 \<le> d" "d < 2 ^ 32 * Second"
  shows "seconds_u32 d \<in> {word_of_int (d div Second), word_of_int (d div Second + 1)}"
proof -
  have "d < 2 ^ 63" using assms by simp
  note b = duration_Seconds_bounds [OF assms(1) this]
  have "\<lfloor>duration_Seconds d\<rfloor> = d div Second \<or> \<lfloor>duration_Seconds d\<rfloor> = d div Second + 1"
  proof -
    have "d div Second \<le> \<lfloor>duration_Seconds d\<rfloor>" using b(1) by (simp only: le_floor_iff)
    moreover have "\<lfloor>duration_Seconds d\<rfloor> \<le> d div Second + 1" using floor_mono [OF b(2)] by (simp only: floor_of_int)
    ultimately show ?thesis by linarith
  qed
  then show ?thesis by (auto simp: seconds_u32_def)
qed

end
