(* ===== verification/ResolverData.thy ===== *)
theory ResolverData
  imports RecordCache DnsServers Adblock UpstreamHealth GoFloat
begin

text \<open>
  The shared data of the resolver, \<^verbatim>\<open>data/data.go\<close>, \<^verbatim>\<open>data/lookup_index.go\<close> and
  \<^verbatim>\<open>data/cache_compact.go\<close>: the state, the operations that replace the records, the cache, the servers
  and the counters, the name/type indexes, the look-ups that go through them, and the compaction of
  the cache.

  Every operation holds the lock of the data for its whole body, so it is one step on the state.  An
  index maps a key to positions; a missing key is the empty list.  The channel of capacity one that
  wakes the persist worker is the flag \<open>rd_persistPending\<close>.  What an operation asks of the outside
  world (saving a file, telling the cluster) is a list of effects; whether a save succeeds is an
  argument.
\<close>

record DNSStats =
  st_TotalQueries :: int
  st_TotalCacheHits :: int
  st_TotalBlocks :: int
  st_TotalQueriesForwarded :: int
  st_TotalQueriesAnswered :: int
  st_ServerStartTime :: gotime

type_synonym position_index = "gostr \<Rightarrow> nat list"

record resolver_data =
  rd_Settings :: Config
  rd_Stats :: DNSStats
  rd_DNSServers :: "dns_server list"
  rd_DNSRecords :: "dns_record list"
  rd_CacheRecords :: "cache_record list"
  rd_cacheRecordIdx :: position_index
  rd_dnsRecordIdx :: position_index
  rd_BlockList :: "block_list option"
  rd_AdblockSources :: "(gostr \<times> int) list"
  rd_persistPending :: bool
  rd_upstreamHealth :: "health_tracker option"
  rd_nextCacheCompactAt :: gotime
  rd_lastCacheCompactAt :: gotime
  rd_lastCacheCompactRemoved :: int
  rd_cacheCompactBump :: bool

subsection \<open>Cached answers of several records\<close>

definition RRSetCachePrefix :: gostr where
  "RRSetCachePrefix = ''__RRSET_v1__'' @ [CHR 0x0A]"

definition BuildRRSetCacheValue :: "dnslib \<Rightarrow> rr list \<Rightarrow> gostr" where
  "BuildRRSetCacheValue L rrs = RRSetCachePrefix @ concat (map (\<lambda>r. lib_RRString L r @ [CHR 0x0A]) rrs)"

fun parseRRLines :: "dnslib \<Rightarrow> gostr list \<Rightarrow> rr list option" where
  "parseRRLines L [] = Some []"
| "parseRRLines L (l # ls) =
     (let line = TrimSpace l in
      if line = [] then parseRRLines L ls
      else case lib_NewRR L line of
        None \<Rightarrow> None
      | Some r \<Rightarrow> map_option ((#) r) (parseRRLines L ls))"

definition parseRRSetCacheValue :: "dnslib \<Rightarrow> gostr \<Rightarrow> rr list option" where
  "parseRRSetCacheValue L v =
     (if \<not> HasPrefix v RRSetCachePrefix then None
      else let rest = TrimSpace (TrimPrefix v RRSetCachePrefix) in
           if rest = [] then None
           else case parseRRLines L (Split CHR 0x0A rest) of
             None \<Rightarrow> None | Some out \<Rightarrow> if length out > 0 then Some out else None)"

definition clipTTL :: "u32 \<Rightarrow> bool \<Rightarrow> u32 \<Rightarrow> u32" where
  "clipTTL remainingSec stale ttl =
     (let t = (if stale then 1 else if remainingSec < ttl then remainingSec else ttl) in if t = 0 then 1 else t)"

definition clipRRSetTTLs :: "rr list \<Rightarrow> u32 \<Rightarrow> bool \<Rightarrow> rr list" where
  "clipRRSetTTLs rrs remainingSec stale = map (\<lambda>r. set_rr_Ttl (clipTTL remainingSec stale (rr_Ttl r)) r) rrs"

subsection \<open>Indexes\<close>

definition dnsCacheIdxKey :: "gostr \<Rightarrow> gostr \<Rightarrow> gostr" where
  "dnsCacheIdxKey name recordType = normalizeRecordNameKey name @ [CHR 0x00] @ normalizeRecordType recordType"

definition build_index :: "('a \<Rightarrow> gostr) \<Rightarrow> 'a list \<Rightarrow> position_index" where
  "build_index key xs = fold (\<lambda>i idx. idx(key (xs ! i) := idx (key (xs ! i)) @ [i])) [0..<length xs] (\<lambda>_. [])"

definition record_idx_key :: "dns_record \<Rightarrow> gostr" where
  "record_idx_key r = dnsCacheIdxKey (dr_Name r) (dr_Type r)"

definition buildDNSRecordIndex :: "dns_record list \<Rightarrow> position_index" where
  "buildDNSRecordIndex records = build_index record_idx_key records"

definition buildCacheRecordIndex :: "cache_record list \<Rightarrow> position_index" where
  "buildCacheRecordIndex records = build_index (\<lambda>c. record_idx_key (cr_DNSRecord c)) records"

definition WarmIndexes :: "resolver_data \<Rightarrow> resolver_data" where
  "WarmIndexes d = d\<lparr>rd_dnsRecordIdx := buildDNSRecordIndex (rd_DNSRecords d),
                     rd_cacheRecordIdx := buildCacheRecordIndex (rd_CacheRecords d)\<rparr>"

text \<open>The entries at the positions an index gives, positions out of range being skipped.\<close>

definition at_positions :: "'a list \<Rightarrow> nat list \<Rightarrow> 'a list" where
  "at_positions xs is = map ((!) xs) (filter (\<lambda>i. i < length xs) is)"

subsection \<open>Look-ups\<close>

definition dnsRecordToRRForLookup :: "dnslib \<Rightarrow> dns_record \<Rightarrow> u32 \<Rightarrow> rr option" where
  "dnsRecordToRRForLookup L r ttl = lib_NewRR L (rr_line (dr_Name r) ttl (dr_Type r) (dr_Value r))"

text \<open>The two loops of \<^verbatim>\<open>lookupCacheRRLocked\<close> have one body.  A loop ends with an answer (\<open>Inl\<close>, perhaps
  nil) or with the first stale candidate seen so far.\<close>

fun cacheLoop ::
    "dnslib \<Rightarrow> gotime \<Rightarrow> bool \<Rightarrow> cache_record list \<Rightarrow> dns_record option \<Rightarrow> (rr option) + (dns_record option)" where
  "cacheLoop L now stale [] bestStale = Inr bestStale"
| "cacheLoop L now stale (c # cs) bestStale =
     (if HasPrefix (dr_Value (cr_DNSRecord c)) RRSetCachePrefix then cacheLoop L now stale cs bestStale
      else if now < cr_Expiry c then
        Inl (dnsRecordToRRForLookup L (cr_DNSRecord c) (seconds_u32 (time_Sub (cr_Expiry c) now)))
      else cacheLoop L now stale cs (if stale \<and> bestStale = None then Some (cr_DNSRecord c) else bestStale))"

definition name_type_match :: "gostr \<Rightarrow> gostr \<Rightarrow> dns_record \<Rightarrow> bool" where
  "name_type_match qname recordType r \<longleftrightarrow>
     normalizeRecordNameKey (dr_Name r) = normalizeRecordNameKey qname \<and>
     normalizeRecordType (dr_Type r) = normalizeRecordType recordType"

definition lookupCacheRRLocked ::
    "dnslib \<Rightarrow> resolver_data \<Rightarrow> gostr \<Rightarrow> gostr \<Rightarrow> gotime \<Rightarrow> bool \<Rightarrow> rr option \<times> bool" where
  "lookupCacheRRLocked L d qname recordType now stale =
     (if rd_CacheRecords d = [] then (None, False)
      else case cacheLoop L now stale (at_positions (rd_CacheRecords d) (rd_cacheRecordIdx d (dnsCacheIdxKey qname recordType))) None of
        Inl answer \<Rightarrow> (answer, False)
      | Inr best \<Rightarrow>
          (case cacheLoop L now stale (filter (\<lambda>c. name_type_match qname recordType (cr_DNSRecord c)) (rd_CacheRecords d)) best of
             Inl answer \<Rightarrow> (answer, False)
           | Inr None \<Rightarrow> (None, False)
           | Inr (Some r) \<Rightarrow> (dnsRecordToRRForLookup L r 1, True)))"

text \<open>The same for the synthetic answers of \<^verbatim>\<open>lookupRRSetCacheLocked\<close>.\<close>

fun rrsetLoop ::
    "dnslib \<Rightarrow> gotime \<Rightarrow> bool \<Rightarrow> cache_record list \<Rightarrow> cache_record option \<Rightarrow> (rr list) + (cache_record option)" where
  "rrsetLoop L now stale [] bestStale = Inr bestStale"
| "rrsetLoop L now stale (c # cs) bestStale =
     (if \<not> HasPrefix (dr_Value (cr_DNSRecord c)) RRSetCachePrefix then rrsetLoop L now stale cs bestStale
      else case parseRRSetCacheValue L (dr_Value (cr_DNSRecord c)) of
        None \<Rightarrow> rrsetLoop L now stale cs bestStale
      | Some rrs \<Rightarrow>
          if now < cr_Expiry c then
            (let ttl = seconds_u32 (time_Sub (cr_Expiry c) now); ttl = (if ttl = 0 then 1 else ttl)
             in Inl (clipRRSetTTLs rrs ttl False))
          else rrsetLoop L now stale cs (if stale \<and> bestStale = None then Some c else bestStale))"

definition lookupRRSetCacheLocked ::
    "dnslib \<Rightarrow> resolver_data \<Rightarrow> gostr \<Rightarrow> gostr \<Rightarrow> gotime \<Rightarrow> bool \<Rightarrow> rr list \<times> bool" where
  "lookupRRSetCacheLocked L d qname recordType now stale =
     (if normalizeRecordType recordType \<notin> set [''A'', ''AAAA'', ''HTTPS'', ''SVCB''] then ([], False)
      else if rd_CacheRecords d = [] then ([], False)
      else case rrsetLoop L now stale (at_positions (rd_CacheRecords d) (rd_cacheRecordIdx d (dnsCacheIdxKey qname recordType))) None of
        Inl rrs \<Rightarrow> (rrs, False)
      | Inr best \<Rightarrow>
          (case rrsetLoop L now stale (filter (\<lambda>c. name_type_match qname recordType (cr_DNSRecord c)) (rd_CacheRecords d)) best of
             Inl rrs \<Rightarrow> (rrs, False)
           | Inr None \<Rightarrow> ([], False)
           | Inr (Some c) \<Rightarrow>
               (case parseRRSetCacheValue L (dr_Value (cr_DNSRecord c)) of
                  None \<Rightarrow> ([], False)
                | Some rrs \<Rightarrow> if length rrs = 0 then ([], False) else (clipRRSetTTLs rrs 1 True, True))))"

definition LookupCacheRR :: "dnslib \<Rightarrow> resolver_data \<Rightarrow> gotime \<Rightarrow> gostr \<Rightarrow> gostr \<Rightarrow> rr option" where
  "LookupCacheRR L d now qname recordType = fst (lookupCacheRRLocked L d qname recordType now False)"

definition lookupLocalNonPTRLocked :: "dnslib \<Rightarrow> resolver_data \<Rightarrow> gostr \<Rightarrow> gostr \<Rightarrow> rr list" where
  "lookupLocalNonPTRLocked L d qname recordType =
     (if rd_DNSRecords d = [] then []
      else concat (map (\<lambda>r. case lib_NewRR L (rr_line (dr_Name r) (dr_TTL r) (dr_Type r) (dr_Value r)) of
                              None \<Rightarrow> [] | Some x \<Rightarrow> [x])
             (at_positions (rd_DNSRecords d) (rd_dnsRecordIdx d (dnsCacheIdxKey qname recordType)))))"

text \<open>The five results of \<^verbatim>\<open>TryFastLocalOrCache\<close>.\<close>

record fast_result =
  fr_handled :: bool
  fr_local :: "rr list"
  fr_cache :: "rr option"
  fr_cacheRRs :: "rr list"
  fr_isStale :: bool

definition not_handled :: fast_result where
  "not_handled = \<lparr>fr_handled = False, fr_local = [], fr_cache = None, fr_cacheRRs = [], fr_isStale = False\<rparr>"

text \<open>The part of \<^verbatim>\<open>TryFastLocalOrCache\<close> after the local records.\<close>

definition tryCache :: "dnslib \<Rightarrow> resolver_data \<Rightarrow> gotime \<Rightarrow> gostr \<Rightarrow> gostr \<Rightarrow> fast_result" where
  "tryCache L d now qname recordType =
     (if \<not> cf_CacheRecords (rd_Settings d) \<or> rd_CacheRecords d = [] then not_handled
      else
        let allowStale = cf_StaleWhileRevalidate (rd_Settings d);
            rt = ToUpper (TrimSpace recordType);
            rrset = (if rt \<in> set [''A'', ''AAAA'', ''HTTPS'', ''SVCB'']
                     then lookupRRSetCacheLocked L d qname recordType now allowStale else ([], False))
        in if length (fst rrset) > 0
           then not_handled\<lparr>fr_handled := True, fr_cacheRRs := fst rrset, fr_isStale := snd rrset\<rparr>
           else
             let c = lookupCacheRRLocked L d qname recordType now allowStale in
             if fst c \<noteq> None then not_handled\<lparr>fr_handled := True, fr_cache := fst c, fr_isStale := snd c\<rparr>
             else not_handled)"

definition TryFastLocalOrCache :: "dnslib \<Rightarrow> resolver_data \<Rightarrow> gotime \<Rightarrow> gostr \<Rightarrow> gostr \<Rightarrow> bool \<Rightarrow> fast_result" where
  "TryFastLocalOrCache L d now qname recordType qtypePTR =
     (if qtypePTR then not_handled
      else
        let local = (if cf_LocalRecordsEnabled (rd_Settings d) \<and> length (rd_DNSRecords d) > 0
                     then lookupLocalNonPTRLocked L d qname recordType else [])
        in if length local > 0 then not_handled\<lparr>fr_handled := True, fr_local := local\<rparr>
           else tryCache L d now qname recordType)"

definition LookupLocalRRs :: "dnslib \<Rightarrow> resolver_data \<Rightarrow> gostr \<Rightarrow> gostr \<Rightarrow> bool \<Rightarrow> rr list" where
  "LookupLocalRRs L d qname recordType autoBuildPTRFromA =
     (if \<not> cf_LocalRecordsEnabled (rd_Settings d) then []
      else if ToUpper (TrimSpace recordType) = ''PTR''
      then FindAllRecords L (rd_DNSRecords d) qname recordType autoBuildPTRFromA
      else lookupLocalNonPTRLocked L d qname recordType)"

definition HasAnyLocalRecords :: "resolver_data \<Rightarrow> bool" where
  "HasAnyLocalRecords d \<longleftrightarrow> cf_LocalRecordsEnabled (rd_Settings d) \<and> length (rd_DNSRecords d) > 0"

definition HasAnyCachedRecords :: "resolver_data \<Rightarrow> bool" where
  "HasAnyCachedRecords d \<longleftrightarrow> length (rd_CacheRecords d) > 0"

subsection \<open>Operations that change the data\<close>

datatype effect = SaveRecords "dns_record list" | SaveServers "dns_server list" | SaveSettings Config | NotifyCluster

definition RecordsSourceIsReadOnly :: "Config \<Rightarrow> bool" where
  "RecordsSourceIsReadOnly cfg = (case fl_RecordsSource (cf_FileLocations cfg) of
      None \<Rightarrow> False
    | Some rs \<Rightarrow> let t = ToLower (TrimSpace (rsc_Type rs)) in
        t = RecordsSourceURL \<or> t = RecordsSourceGit \<or> t = RecordsSourceBindDir)"

text \<open>\<^verbatim>\<open>SaveDNSRecords\<close> under the stored configuration \<open>cfg\<close>: the attempted write and whether the call
  returns nil; \<open>io\<close> says whether the write succeeds.\<close>

definition SaveDNSRecords :: "Config \<Rightarrow> bool \<Rightarrow> dns_record list \<Rightarrow> effect list \<times> bool" where
  "SaveDNSRecords cfg io records =
     (if RecordsSourceIsReadOnly cfg then ([], True)
      else if fl_RecordsSource (cf_FileLocations cfg) = None then ([], False)
      else ([SaveRecords records], io))"

definition storeRecords ::
    "Config \<Rightarrow> bool \<Rightarrow> bool \<Rightarrow> dns_record list \<Rightarrow> bool \<Rightarrow> resolver_data \<Rightarrow> resolver_data \<times> effect list" where
  "storeRecords cfg io clusterSkipNotify records persist d =
     (let d' = d\<lparr>rd_DNSRecords := records, rd_dnsRecordIdx := buildDNSRecordIndex records\<rparr> in
      if persist then
        (let (eff, ok) = SaveDNSRecords cfg io records
         in (d', eff @ (if ok \<and> \<not> clusterSkipNotify then [NotifyCluster] else [])))
      else (d', []))"

definition UpdateRecords ::
    "Config \<Rightarrow> bool \<Rightarrow> dns_record list \<Rightarrow> resolver_data \<Rightarrow> gostr + (resolver_data \<times> effect list)" where
  "UpdateRecords cfg io records d =
     (if cf_ClusterRejectLocalWrites (rd_Settings d)
      then Inl ''cluster: local record writes are disabled on this node (cluster_reject_local_writes)''
      else if RecordsSourceIsReadOnly cfg then Inl ''records source is read-only''
      else Inr (storeRecords cfg io False records True d))"

definition UpdateRecordsInMemory ::
    "Config \<Rightarrow> dns_record list \<Rightarrow> resolver_data \<Rightarrow> gostr + (resolver_data \<times> effect list)" where
  "UpdateRecordsInMemory cfg records d =
     (if cf_ClusterRejectLocalWrites (rd_Settings d)
      then Inl ''cluster: local record writes are disabled on this node (cluster_reject_local_writes)''
      else if RecordsSourceIsReadOnly cfg then Inl ''records source is read-only''
      else Inr (storeRecords cfg True False records False d))"

definition ApplyClusterRecords ::
    "Config \<Rightarrow> bool \<Rightarrow> dns_record list \<Rightarrow> resolver_data \<Rightarrow> gostr + (resolver_data \<times> effect list)" where
  "ApplyClusterRecords cfg io records d =
     (if RecordsSourceIsReadOnly cfg then Inl ''cluster: records source is read-only''
      else Inr (storeRecords cfg io True
                 (map (\<lambda>r. r\<lparr>dr_Name := canonicalizeRecordNameForStorage (dr_Name r)\<rparr>) records) True d))"

definition ReloadRecordsFromSource :: "Config \<Rightarrow> gostr + dns_record list \<Rightarrow> resolver_data \<Rightarrow> (gostr + nat) \<times> resolver_data" where
  "ReloadRecordsFromSource cfg loaded d = (case loaded of
      Inl err \<Rightarrow> (Inl err, d)
    | Inr records \<Rightarrow> (Inr (length records), fst (storeRecords cfg True False records False d)))"

definition storeCacheRecords :: "cache_record list \<Rightarrow> bool \<Rightarrow> resolver_data \<Rightarrow> resolver_data" where
  "storeCacheRecords records persist d =
     d\<lparr>rd_CacheRecords := records, rd_cacheRecordIdx := buildCacheRecordIndex records,
       rd_persistPending := (rd_persistPending d \<or> persist)\<rparr>"

definition UpdateCacheRecords :: "cache_record list \<Rightarrow> resolver_data \<Rightarrow> resolver_data" where
  "UpdateCacheRecords records d = storeCacheRecords records True d"

definition UpdateCacheRecordsInMemory :: "cache_record list \<Rightarrow> resolver_data \<Rightarrow> resolver_data" where
  "UpdateCacheRecordsInMemory records d = storeCacheRecords records False d"

definition UpdateServers :: "dns_server list \<Rightarrow> resolver_data \<Rightarrow> resolver_data \<times> effect list" where
  "UpdateServers servers d = (d\<lparr>rd_DNSServers := servers\<rparr>, [SaveServers servers])"

definition UpdateSettings :: "Config \<Rightarrow> resolver_data \<Rightarrow> resolver_data \<times> effect list" where
  "UpdateSettings settings d = (d\<lparr>rd_Settings := settings\<rparr>, [SaveSettings settings])"

definition UpdateSettingsInMemory :: "Config \<Rightarrow> resolver_data \<Rightarrow> resolver_data" where
  "UpdateSettingsInMemory settings d = d\<lparr>rd_Settings := settings\<rparr>"

definition UpdateStats :: "DNSStats \<Rightarrow> resolver_data \<Rightarrow> resolver_data" where
  "UpdateStats stats d = d\<lparr>rd_Stats := stats\<rparr>"

definition IncrementTotalQueries :: "resolver_data \<Rightarrow> resolver_data" where
  "IncrementTotalQueries d = d\<lparr>rd_Stats := (rd_Stats d)\<lparr>st_TotalQueries := st_TotalQueries (rd_Stats d) + 1\<rparr>\<rparr>"

definition IncrementCacheHits :: "resolver_data \<Rightarrow> resolver_data" where
  "IncrementCacheHits d = d\<lparr>rd_Stats := (rd_Stats d)\<lparr>st_TotalCacheHits := st_TotalCacheHits (rd_Stats d) + 1\<rparr>\<rparr>"

definition IncrementTotalBlocks :: "resolver_data \<Rightarrow> resolver_data" where
  "IncrementTotalBlocks d = d\<lparr>rd_Stats := (rd_Stats d)\<lparr>st_TotalBlocks := st_TotalBlocks (rd_Stats d) + 1\<rparr>\<rparr>"

definition IncrementQueriesForwarded :: "resolver_data \<Rightarrow> resolver_data" where
  "IncrementQueriesForwarded d = d\<lparr>rd_Stats := (rd_Stats d)\<lparr>st_TotalQueriesForwarded := st_TotalQueriesForwarded (rd_Stats d) + 1\<rparr>\<rparr>"

definition IncrementQueriesAnswered :: "resolver_data \<Rightarrow> resolver_data" where
  "IncrementQueriesAnswered d = d\<lparr>rd_Stats := (rd_Stats d)\<lparr>st_TotalQueriesAnswered := st_TotalQueriesAnswered (rd_Stats d) + 1\<rparr>\<rparr>"

definition RecordAdblockSource :: "gostr \<Rightarrow> int \<Rightarrow> resolver_data \<Rightarrow> resolver_data" where
  "RecordAdblockSource source count d = d\<lparr>rd_AdblockSources := rd_AdblockSources d @ [(source, count)]\<rparr>"

definition ClearAdblockSources :: "resolver_data \<Rightarrow> resolver_data" where
  "ClearAdblockSources d = d\<lparr>rd_AdblockSources := []\<rparr>"

definition RecordUpstreamForwardSuccess :: "gotime \<Rightarrow> gostr \<Rightarrow> resolver_data \<Rightarrow> resolver_data" where
  "RecordUpstreamForwardSuccess now key d = d\<lparr>rd_upstreamHealth := map_option (RecordForwardSuccess now key) (rd_upstreamHealth d)\<rparr>"

subsection \<open>Compaction of the cache\<close>

definition CacheCompactInterval :: "int \<Rightarrow> duration" where
  "CacheCompactInterval intervalSeconds = (if intervalSeconds < 60 then 1800 else intervalSeconds) * Second"

definition expired :: "gotime \<Rightarrow> cache_record \<Rightarrow> bool" where
  "expired now c \<longleftrightarrow> time_IsZero (cr_Expiry c) \<or> \<not> now < cr_Expiry c"

definition CompactExpiredCacheRecords :: "gotime \<Rightarrow> resolver_data \<Rightarrow> resolver_data \<times> nat" where
  "CompactExpiredCacheRecords now d =
     (if rd_CacheRecords d = [] then (d, 0)
      else
        let kept = filter (\<lambda>c. \<not> expired now c) (rd_CacheRecords d);
            removed = length (filter (expired now) (rd_CacheRecords d))
        in if removed = 0 then (d, 0)
           else (d\<lparr>rd_CacheRecords := kept, rd_cacheRecordIdx := buildCacheRecordIndex kept, rd_persistPending := True\<rparr>, removed))"

definition SetNextCacheCompactAt :: "gotime \<Rightarrow> resolver_data \<Rightarrow> resolver_data" where
  "SetNextCacheCompactAt t d = d\<lparr>rd_nextCacheCompactAt := t\<rparr>"

definition NoteCacheCompactRun :: "gotime \<Rightarrow> int \<Rightarrow> resolver_data \<Rightarrow> resolver_data" where
  "NoteCacheCompactRun now removed d = d\<lparr>rd_lastCacheCompactAt := now, rd_lastCacheCompactRemoved := removed\<rparr>"

definition BumpCacheCompactScheduleAfterManual :: "gotime \<Rightarrow> resolver_data \<Rightarrow> resolver_data" where
  "BumpCacheCompactScheduleAfterManual now d =
     (let cfg = rd_Settings d in
      if \<not> cf_CacheRecords cfg \<or> \<not> cf_CacheCompactEnabled cfg then d
      else (SetNextCacheCompactAt (now + CacheCompactInterval (cf_CacheCompactIntervalSeconds cfg)) d)\<lparr>rd_cacheCompactBump := True\<rparr>)"

subsection \<open>Indexes agree with a scan\<close>

lemma build_index_fold:
  "fold (\<lambda>i idx. idx(key (xs ! i) := idx (key (xs ! i)) @ [i])) is idx0 k =
     idx0 k @ filter (\<lambda>i. key (xs ! i) = k) is"
  by (induction "is" arbitrary: idx0) auto

lemma build_index_eq: "build_index key xs k = filter (\<lambda>i. key (xs ! i) = k) [0..<length xs]"
  by (simp add: build_index_def build_index_fold)

lemma at_positions_index: "at_positions xs (build_index key xs k) = filter (\<lambda>x. key x = k) xs"
proof -
  have "filter (\<lambda>i. i < length xs) (filter (\<lambda>i. key (xs ! i) = k) [0..<length xs]) =
      filter (\<lambda>i. key (xs ! i) = k) [0..<length xs]"
    by (rule filter_True) simp
  moreover have "map ((!) xs) (filter (\<lambda>i. key (xs ! i) = k) [0..<length xs]) = filter (\<lambda>x. key x = k) (map ((!) xs) [0..<length xs])"
    by (simp add: filter_map comp_def)
  ultimately show ?thesis by (simp add: at_positions_def build_index_eq map_nth)
qed

text \<open>Both indexes are those of the current slices.\<close>

definition indexed :: "resolver_data \<Rightarrow> bool" where
  "indexed d \<longleftrightarrow> rd_dnsRecordIdx d = buildDNSRecordIndex (rd_DNSRecords d) \<and>
                 rd_cacheRecordIdx d = buildCacheRecordIndex (rd_CacheRecords d)"

text \<open>The interface a look-up relies on: equal keys mean a match.  It holds where no type has a zero
  byte, the separator of the key.\<close>

locale keyed_lookup =
  fixes key :: "'a \<Rightarrow> gostr" and matches :: "gostr \<Rightarrow> gostr \<Rightarrow> 'a \<Rightarrow> bool"
    and ok :: "'a \<Rightarrow> bool" and qok :: "gostr \<Rightarrow> bool"
  assumes key_match: "ok x \<Longrightarrow> qok t \<Longrightarrow> key x = dnsCacheIdxKey n t \<longleftrightarrow> matches n t x"
begin

lemma index_scan:
  assumes "\<forall>x \<in> set xs. ok x" "qok t"
  shows "at_positions xs (build_index key xs (dnsCacheIdxKey n t)) = filter (matches n t) xs"
  unfolding at_positions_index using assms key_match by (intro filter_cong) auto

end

definition nul_free :: "gostr \<Rightarrow> bool" where
  "nul_free t \<longleftrightarrow> CHR 0x00 \<notin> set t"

lemma nul_code: "c = CHR 0x00 \<longleftrightarrow> (of_char c :: nat) = 0"
proof -
  have "char_of (0::nat) = CHR 0x00" by code_simp
  then show ?thesis using of_char_eq_iff [of 0 c] by simp
qed

lemma upper_char_nul: "upper_char c = CHR 0x00 \<longleftrightarrow> c = CHR 0x00"
  by (auto simp: nul_code of_char_upper Let_def)

lemma nul_free_upper: "nul_free t \<Longrightarrow> nul_free (normalizeRecordType t)"
proof -
  assume t: "nul_free t"
  have "upper_char c \<noteq> CHR 0x00" if "c \<in> set (TrimSpace t)" for c
    using that t set_TrimSpace_subset [of t] unfolding upper_char_nul nul_free_def by blast
  then show ?thesis unfolding nul_free_def normalizeRecordType_def ToUpper_def set_map by (metis imageE)
qed

lemma split_at_last_unique:
  assumes "a @ [c] @ b = a' @ [c] @ b'" "c \<notin> set b" "c \<notin> set b'"
  shows "a = a' \<and> b = b'"
proof -
  have tw: "takeWhile (\<lambda>x. x \<noteq> c) (rev (x @ [c] @ y)) = rev y" if "c \<notin> set y" for x y
    using that by (auto simp: takeWhile_append)
  have "rev b = rev b'" using tw [OF assms(2), of a] tw [OF assms(3), of a'] unfolding assms(1) by (rule trans [OF sym])
  then show ?thesis using assms(1) by simp
qed

lemma dnsCacheIdxKey_inj:
  assumes "nul_free t" "nul_free t'"
  shows "dnsCacheIdxKey n t = dnsCacheIdxKey n' t' \<longleftrightarrow>
    normalizeRecordNameKey n = normalizeRecordNameKey n' \<and> normalizeRecordType t = normalizeRecordType t'"
  using assms [THEN nul_free_upper] split_at_last_unique
  unfolding dnsCacheIdxKey_def nul_free_def by metis

interpretation ri: keyed_lookup record_idx_key name_type_match "\<lambda>r. nul_free (dr_Type r)" nul_free
  by unfold_locales (simp add: record_idx_key_def dnsCacheIdxKey_inj name_type_match_def)

interpretation ci: keyed_lookup "\<lambda>c. record_idx_key (cr_DNSRecord c)" "\<lambda>n t c. name_type_match n t (cr_DNSRecord c)"
    "\<lambda>c. nul_free (dr_Type (cr_DNSRecord c))" nul_free
  by unfold_locales (simp add: record_idx_key_def dnsCacheIdxKey_inj name_type_match_def)

subsection \<open>The data as a state machine\<close>

text \<open>The steps of the shared data, one per operation that changes it.\<close>

inductive data_step :: "resolver_data \<Rightarrow> resolver_data \<Rightarrow> bool" where
  step_records: "UpdateRecords cfg io records d = Inr (d', eff) \<Longrightarrow> data_step d d'"
| step_records_mem: "UpdateRecordsInMemory cfg records d = Inr (d', eff) \<Longrightarrow> data_step d d'"
| step_cluster: "ApplyClusterRecords cfg io records d = Inr (d', eff) \<Longrightarrow> data_step d d'"
| step_reload: "ReloadRecordsFromSource cfg loaded d = (res, d') \<Longrightarrow> data_step d d'"
| step_cache: "data_step d (UpdateCacheRecords cache d)"
| step_cache_mem: "data_step d (UpdateCacheRecordsInMemory cache d)"
| step_compact: "CompactExpiredCacheRecords now d = (d', n) \<Longrightarrow> data_step d d'"
| step_servers: "UpdateServers servers d = (d', eff) \<Longrightarrow> data_step d d'"
| step_settings: "UpdateSettings cfg d = (d', eff) \<Longrightarrow> data_step d d'"
| step_settings_mem: "data_step d (UpdateSettingsInMemory cfg d)"
| step_stats: "data_step d (UpdateStats st d)"
| step_queries: "data_step d (IncrementTotalQueries d)"
| step_hits: "data_step d (IncrementCacheHits d)"
| step_blocks: "data_step d (IncrementTotalBlocks d)"
| step_forwarded: "data_step d (IncrementQueriesForwarded d)"
| step_answered: "data_step d (IncrementQueriesAnswered d)"
| step_source: "data_step d (RecordAdblockSource src n d)"
| step_clear_sources: "data_step d (ClearAdblockSources d)"
| step_forward_ok: "data_step d (RecordUpstreamForwardSuccess now key d)"
| step_next_compact: "data_step d (SetNextCacheCompactAt t d)"
| step_note_compact: "data_step d (NoteCacheCompactRun now n d)"
| step_bump: "data_step d (BumpCacheCompactScheduleAfterManual now d)"

named_theorems data_op_defs

declare UpdateRecords_def [data_op_defs] UpdateRecordsInMemory_def [data_op_defs] ApplyClusterRecords_def [data_op_defs]
  ReloadRecordsFromSource_def [data_op_defs] UpdateCacheRecords_def [data_op_defs] UpdateCacheRecordsInMemory_def [data_op_defs]
  storeRecords_def [data_op_defs] storeCacheRecords_def [data_op_defs] CompactExpiredCacheRecords_def [data_op_defs]
  UpdateServers_def [data_op_defs] UpdateSettings_def [data_op_defs] UpdateSettingsInMemory_def [data_op_defs]
  UpdateStats_def [data_op_defs] IncrementTotalQueries_def [data_op_defs] IncrementCacheHits_def [data_op_defs]
  IncrementTotalBlocks_def [data_op_defs] IncrementQueriesForwarded_def [data_op_defs]
  IncrementQueriesAnswered_def [data_op_defs] RecordAdblockSource_def [data_op_defs] ClearAdblockSources_def [data_op_defs]
  RecordUpstreamForwardSuccess_def [data_op_defs] SetNextCacheCompactAt_def [data_op_defs]
  NoteCacheCompactRun_def [data_op_defs] BumpCacheCompactScheduleAfterManual_def [data_op_defs]

lemma data_step_indexed: "data_step d d' \<Longrightarrow> indexed d \<Longrightarrow> indexed d'"
  by (induction rule: data_step.induct)
    (auto simp: data_op_defs indexed_def Let_def split: if_splits prod.splits sum.splits)

text \<open>C12.  The position indexes are always those of the current slices: building them at start-up and
  then running any sequence of the operations on the shared data, in any order, leaves both indexes
  equal to freshly built ones.\<close>

theorem indexes_current:
  assumes "data_step\<^sup>*\<^sup>* (WarmIndexes d) d'"
  shows "rd_dnsRecordIdx d' = buildDNSRecordIndex (rd_DNSRecords d') \<and>
         rd_cacheRecordIdx d' = buildCacheRecordIndex (rd_CacheRecords d')"
proof -
  have "indexed (WarmIndexes d)" by (simp add: indexed_def WarmIndexes_def)
  with assms have "indexed d'" by (induction rule: rtranclp_induct) (auto intro: data_step_indexed)
  then show ?thesis by (simp add: indexed_def)
qed

definition empty_data :: resolver_data where
  "empty_data = \<lparr>rd_Settings = empty_Config\<lparr>cf_LocalRecordsEnabled := True, cf_CacheRecords := True\<rparr>,
     rd_Stats = \<lparr>st_TotalQueries = 0, st_TotalCacheHits = 0, st_TotalBlocks = 0, st_TotalQueriesForwarded = 0,
                 st_TotalQueriesAnswered = 0, st_ServerStartTime = 0\<rparr>,
     rd_DNSServers = [], rd_DNSRecords = [], rd_CacheRecords = [], rd_cacheRecordIdx = (\<lambda>_. []), rd_dnsRecordIdx = (\<lambda>_. []),
     rd_BlockList = Some [], rd_AdblockSources = [], rd_persistPending = False,
     rd_upstreamHealth = Some NewUpstreamHealthTracker, rd_nextCacheCompactAt = 0, rd_lastCacheCompactAt = 0,
     rd_lastCacheCompactRemoved = 0, rd_cacheCompactBump = False\<rparr>"

definition sample_cached :: cache_record where
  "sample_cached = \<lparr>cr_DNSRecord = sample_alias, cr_Expiry = 100 * Second, cr_Timestamp = 0, cr_LastQuery = 0\<rparr>"

theorem indexes_current_witness:
  "rd_cacheRecordIdx (UpdateCacheRecords [sample_cached] (WarmIndexes empty_data)) =
     buildCacheRecordIndex (rd_CacheRecords (UpdateCacheRecords [sample_cached] (WarmIndexes empty_data)))"
  using indexes_current [OF r_into_rtranclp [of data_step, OF step_cache [of "WarmIndexes empty_data" "[sample_cached]"]]] by blast

subsection \<open>Local look-ups\<close>

lemma FindAllRecords_scan:
  assumes "t \<noteq> ''PTR''"
  shows "FindAllRecords L rs n t b =
    concat (map (\<lambda>r. case lib_NewRR L (rr_line (dr_Name r) (dr_TTL r) (dr_Type r) (dr_Value r)) of None \<Rightarrow> [] | Some x \<Rightarrow> [x])
      (filter (name_type_match n t) rs))"
  using assms
  by (induction rs) (auto simp: FindAllRecords_def findRecordStep_def name_type_match_def Let_def)

text \<open>C13.  The look-up through the index is an optimisation only: while the index is current and no
  record type contains a zero byte, it returns exactly what the full scan \<^verbatim>\<open>FindAllRecords\<close> returns,
  for every name and every type but PTR.\<close>

theorem local_lookup_is_scan:
  assumes "indexed d" "\<forall>r \<in> set (rd_DNSRecords d). nul_free (dr_Type r)" "nul_free t" "t \<noteq> ''PTR''"
  shows "lookupLocalNonPTRLocked L d n t = FindAllRecords L (rd_DNSRecords d) n t b"
proof -
  have "at_positions (rd_DNSRecords d) (rd_dnsRecordIdx d (dnsCacheIdxKey n t)) = filter (name_type_match n t) (rd_DNSRecords d)"
    using assms(1) ri.index_scan [OF assms(2,3)] by (simp add: indexed_def buildDNSRecordIndex_def)
  then show ?thesis
    by (simp add: lookupLocalNonPTRLocked_def FindAllRecords_scan [OF assms(4)])
qed

theorem local_lookup_is_scan_witness:
  "lookupLocalNonPTRLocked sample_lib (WarmIndexes (empty_data\<lparr>rd_DNSRecords := [sample_record]\<rparr>)) ''host.lan'' ''A'' =
   FindAllRecords sample_lib [sample_record] ''host.lan'' ''A'' False"
  using local_lookup_is_scan [of "WarmIndexes (empty_data\<lparr>rd_DNSRecords := [sample_record]\<rparr>)" "''A''" sample_lib "''host.lan''" False]
  by (simp add: indexed_def WarmIndexes_def empty_data_def nul_free_def sample_record_def empty_record_def)

subsection \<open>Cache look-ups\<close>

text \<open>An entry of one record, and an entry that is not yet expired.\<close>

definition plain :: "cache_record \<Rightarrow> bool" where
  "plain c \<longleftrightarrow> \<not> HasPrefix (dr_Value (cr_DNSRecord c)) RRSetCachePrefix"

definition fresh :: "gotime \<Rightarrow> cache_record \<Rightarrow> bool" where
  "fresh now c \<longleftrightarrow> now < cr_Expiry c"

lemma cacheLoop_eq:
  "cacheLoop L now stale cs best =
     (case find (\<lambda>c. plain c \<and> fresh now c) cs of
        Some c \<Rightarrow> Inl (dnsRecordToRRForLookup L (cr_DNSRecord c) (seconds_u32 (time_Sub (cr_Expiry c) now)))
      | None \<Rightarrow> Inr (if best = None \<and> stale then map_option cr_DNSRecord (find plain cs) else best))"
  by (induction cs arbitrary: best) (auto simp: plain_def fresh_def split: option.splits)

text \<open>The specification of the cache look-up: the first matching entry that is fresh, with its remaining
  time as TTL; otherwise, when stale answers are allowed, the first matching entry with TTL 1.\<close>

definition cache_lookup :: "dnslib \<Rightarrow> cache_record list \<Rightarrow> gostr \<Rightarrow> gostr \<Rightarrow> gotime \<Rightarrow> bool \<Rightarrow> rr option \<times> bool" where
  "cache_lookup L cache n t now stale =
     (let ms = filter (\<lambda>c. plain c \<and> name_type_match n t (cr_DNSRecord c)) cache in
      case find (fresh now) ms of
        Some c \<Rightarrow> (dnsRecordToRRForLookup L (cr_DNSRecord c) (seconds_u32 (time_Sub (cr_Expiry c) now)), False)
      | None \<Rightarrow>
          (case (if stale then ms else []) of
             [] \<Rightarrow> (None, False)
           | c # _ \<Rightarrow> (dnsRecordToRRForLookup L (cr_DNSRecord c) 1, True)))"

lemma find_conj_filter: "find (\<lambda>x. P x \<and> Q x) xs = find Q (filter P xs)"
  by (induction xs) auto

lemma find_hd_filter: "find P xs = (case filter P xs of [] \<Rightarrow> None | x # _ \<Rightarrow> Some x)"
  by (induction xs) auto

text \<open>C14.  The cache look-up with its two loops, the second of which scans the whole cache, computes the
  specification above while the index is current and no type contains a zero byte.\<close>

theorem cache_lookup_refines:
  assumes "indexed d" "\<forall>c \<in> set (rd_CacheRecords d). nul_free (dr_Type (cr_DNSRecord c))" "nul_free t"
  shows "lookupCacheRRLocked L d n t now stale = cache_lookup L (rd_CacheRecords d) n t now stale"
proof -
  let ?ms = "filter (\<lambda>c. name_type_match n t (cr_DNSRecord c)) (rd_CacheRecords d)"
  let ?ps = "filter (\<lambda>c. plain c \<and> name_type_match n t (cr_DNSRecord c)) (rd_CacheRecords d)"
  have idx: "at_positions (rd_CacheRecords d) (rd_cacheRecordIdx d (dnsCacheIdxKey n t)) = ?ms"
    using assms(1) ci.index_scan [OF assms(2,3)] by (simp add: indexed_def buildCacheRecordIndex_def)
  have ps: "?ps = filter plain ?ms" by (simp add: filter_filter conj_commute)
  have f: "find (\<lambda>c. plain c \<and> fresh now c) ?ms = find (fresh now) ?ps"
    unfolding ps by (rule find_conj_filter)
  have p: "find plain ?ms = (case ?ps of [] \<Rightarrow> None | c # _ \<Rightarrow> Some c)"
    unfolding ps by (rule find_hd_filter)
  show ?thesis
  proof (cases "find (fresh now) ?ps")
    case (Some c)
    then have "rd_CacheRecords d \<noteq> []" by auto
    then show ?thesis using Some unfolding lookupCacheRRLocked_def cacheLoop_eq idx f by (simp add: cache_lookup_def)
  next
    case None
    then show ?thesis
      unfolding lookupCacheRRLocked_def cacheLoop_eq idx f p
      by (cases ?ps) (auto simp: cache_lookup_def)
  qed
qed

theorem cache_lookup_refines_witness:
  "lookupCacheRRLocked sample_lib (UpdateCacheRecords [sample_cached] (WarmIndexes empty_data)) ''new.lan'' ''CNAME'' 5 True =
   cache_lookup sample_lib [sample_cached] ''new.lan'' ''CNAME'' 5 True"
proof -
  let ?d = "UpdateCacheRecords [sample_cached] (WarmIndexes empty_data)"
  have "indexed ?d" by (simp add: indexed_def UpdateCacheRecords_def storeCacheRecords_def WarmIndexes_def)
  moreover have "rd_CacheRecords ?d = [sample_cached]" by (simp add: UpdateCacheRecords_def storeCacheRecords_def)
  moreover have "nul_free (dr_Type (cr_DNSRecord sample_cached))" "nul_free ''CNAME''"
    by (simp_all add: nul_free_def sample_cached_def sample_alias_def)
  ultimately show ?thesis using cache_lookup_refines [of ?d "''CNAME''" sample_lib "''new.lan''" 5 True] by simp
qed

subsection \<open>Compaction\<close>

lemma CompactExpired_records:
  "rd_CacheRecords (fst (CompactExpiredCacheRecords now d)) = filter (\<lambda>c. \<not> expired now c) (rd_CacheRecords d)"
proof -
  have "filter (\<lambda>c. \<not> expired now c) xs = xs" if "filter (expired now) xs = []" for xs
    using that by (auto simp: filter_empty_conv intro: filter_True)
  then show ?thesis by (auto simp: CompactExpiredCacheRecords_def Let_def)
qed

lemma find_filter_irrelevant: "(\<And>x. x \<in> set xs \<Longrightarrow> P x \<Longrightarrow> Q x) \<Longrightarrow> find P (filter Q xs) = find P xs"
  by (induction xs) auto

text \<open>Compaction is invisible to queries: removing the expired entries at one instant changes no
  look-up of a fresh entry at that or any later instant, and the number it returns is the number of
  entries removed.\<close>

theorem compaction_invisible:
  assumes "indexed d" "\<forall>c \<in> set (rd_CacheRecords d). nul_free (dr_Type (cr_DNSRecord c))" "nul_free t"
    and "0 \<le> now" "now \<le> later"
  shows "lookupCacheRRLocked L (fst (CompactExpiredCacheRecords now d)) n t later False = lookupCacheRRLocked L d n t later False \<and>
    length (rd_CacheRecords (fst (CompactExpiredCacheRecords now d))) + snd (CompactExpiredCacheRecords now d) = length (rd_CacheRecords d)"
proof
  let ?d' = "fst (CompactExpiredCacheRecords now d)"
  have "data_step d ?d'" by (rule step_compact [of now d ?d' "snd (CompactExpiredCacheRecords now d)"]) simp
  then have ix: "indexed ?d'" using assms(1) by (rule data_step_indexed)
  have nf: "\<forall>c \<in> set (rd_CacheRecords ?d'). nul_free (dr_Type (cr_DNSRecord c))"
    using assms(2) by (simp add: CompactExpired_records)
  have "find (fresh later) (filter (\<lambda>c. plain c \<and> name_type_match n t (cr_DNSRecord c)) (filter (\<lambda>c. \<not> expired now c) cs)) =
      find (fresh later) (filter (\<lambda>c. plain c \<and> name_type_match n t (cr_DNSRecord c)) cs)" for cs
  proof -
    have "\<not> expired now c" if "fresh later c" for c
      using that assms(4,5) by (auto simp: fresh_def expired_def time_IsZero_def)
    then show ?thesis by (subst filter_filter) (induction cs; auto)
  qed
  then show "lookupCacheRRLocked L ?d' n t later False = lookupCacheRRLocked L d n t later False"
    unfolding cache_lookup_refines [OF ix nf assms(3)] cache_lookup_refines [OF assms(1,2,3)]
    by (simp add: cache_lookup_def CompactExpired_records Let_def)
  have "length (filter (\<lambda>c. \<not> expired now c) cs) + length (filter (expired now) cs) = length cs" for cs
    using sum_length_filter_compl [of "expired now" cs] by simp
  then show "length (rd_CacheRecords ?d') + snd (CompactExpiredCacheRecords now d) = length (rd_CacheRecords d)"
    by (auto simp: CompactExpiredCacheRecords_def Let_def)
qed

theorem compaction_invisible_witness:
  "lookupCacheRRLocked sample_lib (fst (CompactExpiredCacheRecords 3 (UpdateCacheRecords [sample_cached] (WarmIndexes empty_data)))) ''new.lan'' ''CNAME'' 5 False =
   lookupCacheRRLocked sample_lib (UpdateCacheRecords [sample_cached] (WarmIndexes empty_data)) ''new.lan'' ''CNAME'' 5 False"
proof -
  let ?d = "UpdateCacheRecords [sample_cached] (WarmIndexes empty_data)"
  have "indexed ?d" by (simp add: indexed_def UpdateCacheRecords_def storeCacheRecords_def WarmIndexes_def)
  moreover have "\<forall>c \<in> set (rd_CacheRecords ?d). nul_free (dr_Type (cr_DNSRecord c))" "nul_free ''CNAME''"
    by (simp_all add: UpdateCacheRecords_def storeCacheRecords_def nul_free_def sample_cached_def sample_alias_def)
  ultimately show ?thesis using compaction_invisible [of ?d "''CNAME''" 3 5 sample_lib "''new.lan''"] by simp
qed

subsection \<open>Synthetic answers\<close>

lemma word_ge_1: "x \<noteq> 0 \<Longrightarrow> 1 \<le> (x :: u32)"
  by (simp add: word_le_nat_alt Suc_le_eq unat_gt_0)

lemma clipTTL_ge: "1 \<le> clipTTL rem stale ttl"
  by (simp add: clipTTL_def Let_def word_ge_1)

lemma clipTTL_stale: "clipTTL rem True ttl = 1"
  by (simp add: clipTTL_def)

lemma clipTTL_le: "clipTTL rem stale ttl \<le> max 1 rem"
  by (cases "rem = 0") (auto simp: clipTTL_def Let_def word_ge_1 max_def not_less)

lemmas clipTTL_bounds = clipTTL_ge clipTTL_stale clipTTL_le

lemma rrsetLoop_Inl:
  "rrsetLoop L now stale cs best = Inl rrs \<Longrightarrow>
   \<exists>c \<in> set cs. \<exists>rrs0. parseRRSetCacheValue L (dr_Value (cr_DNSRecord c)) = Some rrs0 \<and> fresh now c \<and>
     rrs = clipRRSetTTLs rrs0 (max 1 (seconds_u32 (time_Sub (cr_Expiry c) now))) False"
proof (induction cs arbitrary: best)
  case (Cons c cs)
  have m: "(if x = 0 then 1 else x) = max 1 (x :: u32)" for x
    by (auto simp: max_def word_le_nat_alt unat_eq_zero Suc_le_eq unat_gt_0)
  show ?case using Cons by (auto simp: fresh_def Let_def m split: if_splits option.splits)
qed simp

lemma rrsetLoop_Inr:
  "rrsetLoop L now stale cs best = Inr (Some c) \<Longrightarrow>
   best = Some c \<or> (c \<in> set cs \<and> stale \<and> \<not> fresh now c)"
  by (induction cs arbitrary: best) (auto simp: fresh_def Let_def split: if_splits option.splits)

lemma at_positions_subset: "set (at_positions xs is) \<subseteq> set xs"
  by (auto simp: at_positions_def)

text \<open>An answer assembled from a cached record set never has TTL 0.  A stale one has TTL 1
  throughout and is returned only when stale answers are allowed; a fresh one comes from an entry that
  has not expired, and no TTL exceeds the (rounded) seconds until that entry expires.\<close>

theorem rrset_ttl_bounds:
  assumes "lookupRRSetCacheLocked L d n t now stale = (rrs, st)" "r \<in> set rrs"
  shows "1 \<le> rr_Ttl r \<and> (st \<longrightarrow> stale \<and> rr_Ttl r = 1) \<and>
    (\<not> st \<longrightarrow> (\<exists>c \<in> set (rd_CacheRecords d). now < cr_Expiry c \<and>
               rr_Ttl r \<le> max 1 (seconds_u32 (time_Sub (cr_Expiry c) now))))"
proof -
  let ?idx = "at_positions (rd_CacheRecords d) (rd_cacheRecordIdx d (dnsCacheIdxKey n t))"
  let ?ms = "filter (\<lambda>c. name_type_match n t (cr_DNSRecord c)) (rd_CacheRecords d)"
  have fr: ?thesis if l: "rrsetLoop L now stale cs best = Inl rrs" and ns: "\<not> st" and cs: "set cs \<subseteq> set (rd_CacheRecords d)" for cs best
  proof -
    obtain c rrs0 where c: "c \<in> set cs" "fresh now c"
        "rrs = clipRRSetTTLs rrs0 (max 1 (seconds_u32 (time_Sub (cr_Expiry c) now))) False"
      using rrsetLoop_Inl [OF l] by blast
    then obtain ttl where "rr_Ttl r = clipTTL (max 1 (seconds_u32 (time_Sub (cr_Expiry c) now))) False ttl"
      using assms(2) by (auto simp: clipRRSetTTLs_def)
    moreover have "max 1 (max 1 x) = max 1 (x :: u32)" for x by simp
    ultimately have "1 \<le> rr_Ttl r" "rr_Ttl r \<le> max 1 (seconds_u32 (time_Sub (cr_Expiry c) now))"
      using clipTTL_ge clipTTL_le by metis+
    then show ?thesis using c(1,2) ns cs by (auto simp: fresh_def)
  qed
  have sub: "set ?idx \<subseteq> set (rd_CacheRecords d)" "set ?ms \<subseteq> set (rd_CacheRecords d)"
    using at_positions_subset by fastforce+
  show ?thesis
  proof (cases "rrsetLoop L now stale ?idx None")
    case (Inl x)
    then have "x = rrs \<and> \<not> st \<or> rrs = []"
      using assms(1) by (auto simp: lookupRRSetCacheLocked_def split: if_splits)
    then show ?thesis using fr [OF _ _ sub(1)] Inl assms(2) by auto
  next
    case (Inr best)
    show ?thesis
    proof (cases "rrsetLoop L now stale ?ms best")
      case (Inl x)
      then have "x = rrs \<and> \<not> st \<or> rrs = []"
        using assms(1) Inr by (auto simp: lookupRRSetCacheLocked_def split: if_splits)
      then show ?thesis using fr [OF _ _ sub(2)] Inl assms(2) by auto
    next
      case two: (Inr best')
      obtain c rrs0 where c: "best' = Some c" "rrs = clipRRSetTTLs rrs0 1 True" "st"
        using assms Inr two
        by (auto simp: lookupRRSetCacheLocked_def split: if_splits option.splits)
      have "stale" using rrsetLoop_Inr [of L now stale ?ms best c] rrsetLoop_Inr [of L now stale ?idx None c] two Inr c(1) by auto
      moreover obtain ttl where "rr_Ttl r = clipTTL 1 True ttl" using c(2) assms(2) by (auto simp: clipRRSetTTLs_def)
      ultimately show ?thesis using c(3) clipTTL_bounds by simp
    qed
  qed
qed

lemma concat_lines: "ls \<noteq> [] \<Longrightarrow> concat (map (\<lambda>l. l @ [c]) ls) = Join [c] ls @ [c]"
proof (induction ls)
  case (Cons l ls)
  then show ?case by (cases "ls = []") (simp_all add: Join_Cons)
qed simp

text \<open>A line as the library prints it: no newline, no surrounding space, and read back as the record.\<close>

definition printable :: "dnslib \<Rightarrow> rr \<Rightarrow> bool" where
  "printable L r \<longleftrightarrow> lib_RRString L r \<noteq> [] \<and> CHR 0x0A \<notin> set (lib_RRString L r) \<and>
     \<not> is_space (hd (lib_RRString L r)) \<and> \<not> is_space (last (lib_RRString L r)) \<and>
     lib_NewRR L (lib_RRString L r) = Some r"

lemma TrimSpace_tight: "s \<noteq> [] \<Longrightarrow> \<not> is_space (hd s) \<Longrightarrow> \<not> is_space (last s) \<Longrightarrow> TrimSpace s = s"
  by (cases s) (simp_all add: TrimSpace_def trimr_fixed)

lemma TrimSpace_newline: "s \<noteq> [] \<Longrightarrow> \<not> is_space (hd s) \<Longrightarrow> \<not> is_space (last s) \<Longrightarrow> TrimSpace (s @ [CHR 0x0A]) = s"
proof -
  assume s: "s \<noteq> []" "\<not> is_space (hd s)" "\<not> is_space (last s)"
  then have "dropWhile is_space (s @ [CHR 0x0A]) = s @ [CHR 0x0A]" by (cases s) simp_all
  then show ?thesis using s by (simp add: TrimSpace_def trimr_snoc trimr_fixed is_space_def [of "CHR 0x0A"])
qed

lemma parseRRLines_printable:
  "\<forall>r \<in> set rrs. printable L r \<Longrightarrow> parseRRLines L (map (lib_RRString L) rrs) = Some rrs"
  by (induction rrs) (auto simp: printable_def TrimSpace_tight Let_def)

text \<open>Encoding an answer for the cache and decoding it returns the answer, if the library reads back
  what it prints.\<close>

theorem rrset_round_trip:
  assumes "rrs \<noteq> []" "\<forall>r \<in> set rrs. printable L r"
  shows "parseRRSetCacheValue L (BuildRRSetCacheValue L rrs) = Some rrs"
proof -
  let ?ls = "map (lib_RRString L) rrs"
  have ne: "?ls \<noteq> []" using assms(1) by simp
  have hd: "Join s ls \<noteq> [] \<and> \<not> is_space (hd (Join s ls)) \<and> \<not> is_space (last (Join s ls))"
    if "ls \<noteq> []" "\<forall>l \<in> set ls. l \<noteq> [] \<and> \<not> is_space (hd l) \<and> \<not> is_space (last l)" for s ls
    using that
  proof (induction ls)
    case (Cons l ls)
    then show ?case by (cases "ls = []") (auto simp: Join_Cons)
  qed simp
  have "\<forall>l \<in> set ?ls. l \<noteq> [] \<and> \<not> is_space (hd l) \<and> \<not> is_space (last l)"
    using assms(2) by (simp add: printable_def)
  note j = hd [OF ne this, of "[CHR 0x0A]"]
  have "BuildRRSetCacheValue L rrs = RRSetCachePrefix @ Join [CHR 0x0A] ?ls @ [CHR 0x0A]"
    using concat_lines [OF ne, of "CHR 0x0A"] by (simp add: BuildRRSetCacheValue_def comp_def)
  moreover have "TrimSpace (Join [CHR 0x0A] ?ls @ [CHR 0x0A]) = Join [CHR 0x0A] ?ls"
    using j by (intro TrimSpace_newline) auto
  moreover have "Split CHR 0x0A (Join [CHR 0x0A] ?ls) = ?ls"
    using ne assms(2) by (intro Split_Join) (auto simp: printable_def)
  ultimately show ?thesis
    using j parseRRLines_printable [OF assms(2)] assms(1) by (simp add: parseRRSetCacheValue_def)
qed

text \<open>A library that prints and reads one record, for the witnesses.\<close>

definition sample_rr :: rr where
  "sample_rr = RR \<lparr>h_Name = ''a.lan.'', h_Rrtype = 1, h_Class = 1, h_Ttl = 300\<rparr> (RD_Other ''x'')"

definition echo_lib :: dnslib where
  "echo_lib = sample_lib\<lparr>lib_RRString := (\<lambda>r. ''line''), lib_NewRR := (\<lambda>s. if s = ''line'' then Some sample_rr else None)\<rparr>"

lemma echo_printable: "printable echo_lib sample_rr"
  by (simp add: printable_def echo_lib_def is_space_def)

theorem rrset_round_trip_witness:
  "parseRRSetCacheValue echo_lib (BuildRRSetCacheValue echo_lib [sample_rr, sample_rr]) = Some [sample_rr, sample_rr]"
  using echo_printable by (intro rrset_round_trip) simp_all

definition sample_rrset :: cache_record where
  "sample_rrset = \<lparr>cr_DNSRecord = empty_record\<lparr>dr_Name := ''a.lan'', dr_Type := ''A'', dr_Value := BuildRRSetCacheValue echo_lib [sample_rr]\<rparr>,
     cr_Expiry = 100, cr_Timestamp = 0, cr_LastQuery = 0\<rparr>"

theorem rrset_ttl_bounds_witness:
  "\<exists>rrs. lookupRRSetCacheLocked echo_lib (UpdateCacheRecords [sample_rrset] empty_data) ''a.lan'' ''A'' 200 True = (rrs, True) \<and>
     rrs \<noteq> [] \<and> rr_Ttl (hd rrs) = 1"
proof -
  have p: "parseRRSetCacheValue echo_lib (BuildRRSetCacheValue echo_lib [sample_rr]) = Some [sample_rr]"
    "HasPrefix (BuildRRSetCacheValue echo_lib [sample_rr]) RRSetCachePrefix"
    by (simp_all add: parseRRSetCacheValue_def BuildRRSetCacheValue_def RRSetCachePrefix_def echo_lib_def TrimSpace_def
        trimr_def is_space_def HasPrefix_def TrimPrefix_def Let_def)
  have "normalizeRecordType ''A'' = ''A''" by code_simp
  moreover have "at_positions [sample_rrset] (build_index key [sample_rrset] k) = (if key sample_rrset = k then [sample_rrset] else [])" for key k
    by (simp add: at_positions_index)
  moreover have "name_type_match ''a.lan'' ''A'' (cr_DNSRecord sample_rrset)"
    by (simp add: name_type_match_def sample_rrset_def)
  ultimately have l: "lookupRRSetCacheLocked echo_lib (UpdateCacheRecords [sample_rrset] empty_data) ''a.lan'' ''A'' 200 True =
      (clipRRSetTTLs [sample_rr] 1 True, True)"
    using p by (simp add: lookupRRSetCacheLocked_def UpdateCacheRecords_def storeCacheRecords_def buildCacheRecordIndex_def sample_rrset_def)
  have "set_rr_Ttl (clipTTL 1 True (rr_Ttl sample_rr)) sample_rr \<in> set (clipRRSetTTLs [sample_rr] 1 True)"
    by (simp add: clipRRSetTTLs_def)
  from rrset_ttl_bounds [OF l this] l show ?thesis by (auto simp: clipRRSetTTLs_def)
qed

end
