(* ===== verification/Dnssec.thy ===== *)
theory Dnssec
  imports DnsLib Util Config
begin

text \<open>
  DNSSEC: the check of the signatures in an upstream answer, \<^verbatim>\<open>dnssecvalidate/validate.go\<close>, and the
  signing of local answers, \<^verbatim>\<open>dnssecsign/signer.go\<close>.  The cryptography and the name functions of the DNS
  library are parameters (the record \<open>dnssec_lib\<close> extends \<open>dnslib\<close>).  The sources recognise a
  signature in a section by pointer identity; signatures are taken from the authority section only
  when the answer section has none, so membership by value decides the same.
\<close>

record dnssec_lib = dnslib +
  lib_KeyTag :: "rr \<Rightarrow> u16"
  lib_Verify :: "rr \<Rightarrow> rr \<Rightarrow> rr list \<Rightarrow> bool"
  lib_Sign :: "gostr \<Rightarrow> rr \<Rightarrow> rr list \<Rightarrow> rr option"
  lib_Fqdn :: "gostr \<Rightarrow> gostr"
  lib_IsSubDomain :: "gostr \<Rightarrow> gostr \<Rightarrow> bool"
  lib_IsRRset :: "rr list \<Rightarrow> bool"
  lib_ReadPrivateKey :: "rr \<Rightarrow> gostr \<Rightarrow> gostr option"

definition time_Unix :: "gotime \<Rightarrow> int" where
  "time_Unix t = t div Second - 62135596800"

subsection \<open>Validation\<close>

datatype dnssec_outcome = OutcomeOff | OutcomeInsecure | OutcomeVerified | OutcomeBogus | OutcomeSkipped

fun is_RRSIG :: "rr \<Rightarrow> bool" where
  "is_RRSIG (RR h (RD_RRSIG s)) = True"
| "is_RRSIG _ = False"

fun is_DNSKEY :: "rr \<Rightarrow> bool" where
  "is_DNSKEY (RR h (RD_DNSKEY k)) = True"
| "is_DNSKEY _ = False"

definition sig_of :: "rr \<Rightarrow> rrsig_data" where
  "sig_of r = (case rr_Data r of RD_RRSIG s \<Rightarrow> s
     | _ \<Rightarrow> \<lparr>sig_TypeCovered = 0, sig_Algorithm = 0, sig_Expiration = 0, sig_Inception = 0, sig_KeyTag = 0, sig_SignerName = []\<rparr>)"

definition rrsigTimeValid :: "rr \<Rightarrow> gotime \<Rightarrow> bool" where
  "rrsigTimeValid sig now =
     (let now32 = UnixSecondsToDNSUint32 (time_Unix now) in
      sig_Inception (sig_of sig) \<le> now32 \<and> now32 \<le> sig_Expiration (sig_of sig))"

definition collectRRSIGs :: "rr list \<Rightarrow> rr list" where
  "collectRRSIGs rrs = filter is_RRSIG rrs"

definition collectDNSKEYs :: "rr list list \<Rightarrow> rr list" where
  "collectDNSKEYs blocks = filter is_DNSKEY (concat blocks)"

definition findDNSKEY :: "'a dnssec_lib_scheme \<Rightarrow> rr list \<Rightarrow> rr \<Rightarrow> rr option" where
  "findDNSKEY L keys sig =
     find (\<lambda>k. lib_KeyTag L k = sig_KeyTag (sig_of sig) \<and> EqualFold (h_Name (rr_Hdr k)) (sig_SignerName (sig_of sig))) keys"

definition rrsetForSignature :: "dns_msg \<Rightarrow> rr \<Rightarrow> rr list" where
  "rrsetForSignature msg sig =
     (let block = (if sig \<in> set (m_Answer msg) then m_Answer msg
                   else if sig \<in> set (m_Ns msg) then m_Ns msg else m_Answer msg)
      in filter (\<lambda>r. h_Rrtype (rr_Hdr r) \<noteq> TypeRRSIG \<and>
                     h_Name (rr_Hdr r) = h_Name (rr_Hdr sig) \<and> h_Rrtype (rr_Hdr r) = sig_TypeCovered (sig_of sig)) block)"

text \<open>The body of the loop over the signatures.\<close>

definition sig_ok :: "'a dnssec_lib_scheme \<Rightarrow> gotime \<Rightarrow> dns_msg \<Rightarrow> rr list \<Rightarrow> rr \<Rightarrow> bool" where
  "sig_ok L now answer keys sig =
     (rrsigTimeValid sig now \<and>
      (let rrset = rrsetForSignature answer sig in
       rrset \<noteq> [] \<and>
       (case findDNSKEY L keys sig of None \<Rightarrow> False | Some k \<Rightarrow> lib_Verify L sig k rrset)))"

text \<open>The outcome, whether to answer SERVFAIL, and the answer with its AD bit.\<close>

definition ApplyToUpstreamAnswer ::
    "'a dnssec_lib_scheme \<Rightarrow> gotime \<Rightarrow> dns_msg option \<Rightarrow> dns_msg \<Rightarrow> Config \<Rightarrow> dnssec_outcome \<times> bool \<times> dns_msg" where
  "ApplyToUpstreamAnswer L now req answer0 cfg =
     (if \<not> cf_DNSSECValidate cfg then (OutcomeOff, False, answer0)
      else
        let answer = answer0\<lparr>m_AuthenticatedData := False\<rparr>;
            rrsigs = collectRRSIGs (m_Answer answer);
            rrsigs = (if rrsigs = [] \<and> collectRRSIGs (m_Ns answer) \<noteq> [] then collectRRSIGs (m_Ns answer) else rrsigs)
        in if rrsigs = [] then (OutcomeInsecure, False, answer)
           else
             let keys = collectDNSKEYs [m_Answer answer, m_Ns answer, m_Extra answer] in
             if keys = [] then
               (if cf_DNSSECValidateStrict cfg then (OutcomeBogus, True, answer) else (OutcomeInsecure, False, answer))
             else if \<not> list_all (sig_ok L now answer keys) rrsigs then (OutcomeBogus, cf_DNSSECValidateStrict cfg, answer)
             else (OutcomeVerified, False,
                   case req of
                     None \<Rightarrow> answer
                   | Some q \<Rightarrow> (case m_Edns0 q of
                       None \<Rightarrow> answer
                     | Some opt \<Rightarrow> if opt_Do opt then answer\<lparr>m_AuthenticatedData := True\<rparr> else answer)))"

subsection \<open>Signing\<close>

record Signer =
  sg_zone :: gostr
  sg_key :: rr
  sg_priv :: gostr

text \<open>\<^verbatim>\<open>LoadSigner\<close> on the contents of the two files (\<open>None\<close>: the file cannot be read).\<close>

definition LoadSigner :: "'a dnssec_lib_scheme \<Rightarrow> gostr \<Rightarrow> gostr option \<Rightarrow> gostr option \<Rightarrow> gostr + Signer" where
  "LoadSigner L zone0 keyFile privFile =
     (let zone = lib_Fqdn L (TrimSpace zone0) in
      if zone = ''.'' then Inl ''dnssecsign: invalid zone''
      else case (keyFile, privFile) of
        (None, _) \<Rightarrow> Inl ''dnssecsign: read key file''
      | (Some kb, None) \<Rightarrow> Inl ''dnssecsign: read private key file''
      | (Some kb, Some pb) \<Rightarrow>
          (case lib_NewRR L (TrimSpace kb) of
             None \<Rightarrow> Inl ''dnssecsign: parse DNSKEY''
           | Some dk \<Rightarrow>
               if \<not> is_DNSKEY dk then Inl ''dnssecsign: file does not contain a DNSKEY record''
               else case lib_ReadPrivateKey L dk pb of
                 None \<Rightarrow> Inl ''dnssecsign: parse private key''
               | Some priv \<Rightarrow> Inr \<lparr>sg_zone = lib_Fqdn L zone, sg_key = dk, sg_priv = priv\<rparr>))"

definition CoversName :: "'a dnssec_lib_scheme \<Rightarrow> Signer \<Rightarrow> gostr \<Rightarrow> bool" where
  "CoversName L s qname = lib_IsSubDomain L (sg_zone s) (lib_Fqdn L qname)"

definition hasDNSKEYForZone :: "'a dnssec_lib_scheme \<Rightarrow> rr list \<Rightarrow> gostr \<Rightarrow> bool" where
  "hasDNSKEYForZone L extra zone =
     list_ex (\<lambda>r. is_DNSKEY r \<and> lib_Fqdn L (h_Name (rr_Hdr r)) = lib_Fqdn L zone) extra"

definition new_sig :: "'a dnssec_lib_scheme \<Rightarrow> gotime \<Rightarrow> Signer \<Rightarrow> question \<Rightarrow> rr list \<Rightarrow> rr" where
  "new_sig L now s q rrset =
     (let now32 = UnixSecondsToDNSUint32 (time_Unix now);
          alg = (case rr_Data (sg_key s) of RD_DNSKEY k \<Rightarrow> key_Algorithm k | _ \<Rightarrow> 0)
      in RR \<lparr>h_Name = [], h_Rrtype = TypeRRSIG, h_Class = q_Qclass q, h_Ttl = rr_Ttl (hd rrset)\<rparr>
           (RD_RRSIG \<lparr>sig_TypeCovered = 0, sig_Algorithm = alg, sig_Expiration = now32 + 30 * 86400,
                      sig_Inception = now32 - 3600, sig_KeyTag = lib_KeyTag L (sg_key s), sig_SignerName = sg_zone s\<rparr>))"

definition SignLocalAnswerIfDO ::
    "'a dnssec_lib_scheme \<Rightarrow> gotime \<Rightarrow> Signer option \<Rightarrow> dns_msg option \<Rightarrow> question \<Rightarrow> rr list \<Rightarrow> dns_msg \<Rightarrow> dns_msg" where
  "SignLocalAnswerIfDO L now signer req q rrset resp =
     (case (signer, req) of
        (Some s, Some rq) \<Rightarrow>
          if rrset = [] then resp
          else (case m_Edns0 rq of
            None \<Rightarrow> resp
          | Some opt \<Rightarrow>
              if \<not> opt_Do opt \<or> \<not> CoversName L s (q_Name q) \<or> \<not> lib_IsRRset L rrset then resp
              else (case lib_Sign L (sg_priv s) (new_sig L now s q rrset) rrset of
                None \<Rightarrow> resp
              | Some sig \<Rightarrow>
                  let resp1 = resp\<lparr>m_Answer := m_Answer resp @ [sig]\<rparr>;
                      resp2 = (if hasDNSKEYForZone L (m_Extra resp1) (sg_zone s) then resp1
                               else resp1\<lparr>m_Extra := m_Extra resp1 @
                                 [RR \<lparr>h_Name = sg_zone s, h_Rrtype = TypeDNSKEY, h_Class = ClassINET, h_Ttl = 3600\<rparr> (rr_Data (sg_key s))]\<rparr>)
                  in resp2\<lparr>m_AuthenticatedData := True\<rparr>))
      | _ \<Rightarrow> resp)"

subsection \<open>What the outcomes mean\<close>

text \<open>C17.  With validation on, the AD bit of the upstream is never passed on: AD is set only for outcome
  verified and a client that set DO.  Verified means that the message carries signatures and that every
  signature of the examined section is in its validity period and verifies, with a key carried by the
  message, over a non-empty set of records.  SERVFAIL is asked for only in strict mode and only for
  bogus answers.  With validation off the answer of the upstream is passed on as it is, with its AD bit.\<close>

theorem dnssec_outcomes:
  assumes "ApplyToUpstreamAnswer L now req answer cfg = (outcome, servfail, answer')"
  shows "(m_AuthenticatedData answer' \<and> cf_DNSSECValidate cfg \<longrightarrow> outcome = OutcomeVerified \<and>
            (\<exists>q opt. req = Some q \<and> m_Edns0 q = Some opt \<and> opt_Do opt)) \<and>
    (\<not> cf_DNSSECValidate cfg \<longrightarrow> outcome = OutcomeOff \<and> \<not> servfail \<and> answer' = answer) \<and>
    (outcome = OutcomeVerified \<longrightarrow>
       (\<exists>sigs. sigs \<noteq> [] \<and> (sigs = collectRRSIGs (m_Answer answer) \<or> sigs = collectRRSIGs (m_Ns answer)) \<and>
          (\<forall>sig \<in> set sigs. rrsigTimeValid sig now \<and>
             (\<exists>k \<in> set (m_Answer answer @ m_Ns answer @ m_Extra answer). is_DNSKEY k \<and>
                lib_KeyTag L k = sig_KeyTag (sig_of sig) \<and> rrsetForSignature answer sig \<noteq> [] \<and>
                lib_Verify L sig k (rrsetForSignature answer sig))))) \<and>
    (servfail \<longrightarrow> cf_DNSSECValidateStrict cfg \<and> outcome = OutcomeBogus) \<and>
    m_Answer answer' = m_Answer answer"
proof -
  let ?a = "answer\<lparr>m_AuthenticatedData := False\<rparr>"
  let ?sigs = "if collectRRSIGs (m_Answer answer) = [] \<and> collectRRSIGs (m_Ns answer) \<noteq> []
    then collectRRSIGs (m_Ns answer) else collectRRSIGs (m_Answer answer)"
  let ?keys = "collectDNSKEYs [m_Answer answer, m_Ns answer, m_Extra answer]"
  have rr: "rrsetForSignature ?a sig = rrsetForSignature answer sig" for sig by (simp add: rrsetForSignature_def)
  have ver: "rrsigTimeValid sig now \<and> (\<exists>k \<in> set (m_Answer answer @ m_Ns answer @ m_Extra answer). is_DNSKEY k \<and>
        lib_KeyTag L k = sig_KeyTag (sig_of sig) \<and> rrsetForSignature answer sig \<noteq> [] \<and>
        lib_Verify L sig k (rrsetForSignature answer sig))" if s: "sig_ok L now ?a ?keys sig" for sig
  proof -
    obtain k where k: "findDNSKEY L ?keys sig = Some k" "lib_Verify L sig k (rrsetForSignature answer sig)"
        "rrsetForSignature answer sig \<noteq> []" "rrsigTimeValid sig now"
      using s by (auto simp: sig_ok_def rr Let_def split: option.splits)
    then have "k \<in> set ?keys \<and> lib_KeyTag L k = sig_KeyTag (sig_of sig)"
      by (auto simp: findDNSKEY_def find_Some_iff)
    then show ?thesis using k by (auto simp: collectDNSKEYs_def)
  qed
  have "outcome = OutcomeVerified \<Longrightarrow> ?sigs \<noteq> [] \<and> list_all (sig_ok L now ?a ?keys) ?sigs"
    using assms by (auto simp: ApplyToUpstreamAnswer_def Let_def split: if_splits)
  then have "outcome = OutcomeVerified \<Longrightarrow> \<exists>sigs. sigs \<noteq> [] \<and>
      (sigs = collectRRSIGs (m_Answer answer) \<or> sigs = collectRRSIGs (m_Ns answer)) \<and> (\<forall>sig \<in> set sigs. sig_ok L now ?a ?keys sig)"
    by (intro exI [of _ ?sigs]) (auto simp: list_all_iff)
  moreover have "\<not> cf_DNSSECValidate cfg \<Longrightarrow> outcome = OutcomeOff \<and> \<not> servfail \<and> answer' = answer"
    using assms by (simp add: ApplyToUpstreamAnswer_def)
  moreover have "m_AuthenticatedData answer' \<Longrightarrow> cf_DNSSECValidate cfg \<Longrightarrow> outcome = OutcomeVerified \<and>
      (\<exists>q opt. req = Some q \<and> m_Edns0 q = Some opt \<and> opt_Do opt)"
    using assms by (auto simp: ApplyToUpstreamAnswer_def Let_def split: if_splits option.splits)
  moreover have "(servfail \<longrightarrow> cf_DNSSECValidateStrict cfg \<and> outcome = OutcomeBogus) \<and> m_Answer answer' = m_Answer answer"
    using assms by (auto simp: ApplyToUpstreamAnswer_def Let_def split: if_splits option.splits)
  ultimately show ?thesis using ver by meson
qed

text \<open>A concrete instance of the cryptography (every signature verifies, every key has tag 7), an answer
  with one signed TXT record and one A record that no signature covers, and a request with DO.\<close>

definition sample_crypto :: dnssec_lib where
  "sample_crypto = \<lparr>lib_NewRR = sample_NewRR, lib_RRString = sample_RRString, lib_IsDomainName = (\<lambda>s. s \<noteq> []),
     lib_StringToType = map_of sample_types, lib_TypeToString = sample_type_name,
     lib_SetRcode = (\<lambda>resp req c. resp\<lparr>m_Id := m_Id req, m_Rcode := c, m_Question := m_Question req\<rparr>),
     lib_KeyTag = (\<lambda>k. 7), lib_Verify = (\<lambda>sig k rs. True), lib_Sign = (\<lambda>p sig rs. Some sig),
     lib_Fqdn = (\<lambda>s. if HasSuffix s ''.'' then s else s @ ''.''),
     lib_IsSubDomain = (\<lambda>parent child. HasSuffix child parent), lib_IsRRset = (\<lambda>rs. rs \<noteq> []),
     lib_ReadPrivateKey = (\<lambda>k p. Some p)\<rparr>"

definition sample_msg :: dns_msg where
  "sample_msg = \<lparr>m_Id = 0, m_Opcode = 0, m_Authoritative = False, m_AuthenticatedData = False, m_Rcode = 0,
     m_Question = [], m_Answer = [], m_Ns = [], m_Extra = [], m_Edns0 = Some \<lparr>opt_Do = True, opt_UDPSize = 1232\<rparr>\<rparr>"

definition sample_hdr :: "gostr \<Rightarrow> u16 \<Rightarrow> rr_header" where
  "sample_hdr n t = \<lparr>h_Name = n, h_Rrtype = t, h_Class = 1, h_Ttl = 60\<rparr>"

definition unsigned_A :: rr where
  "unsigned_A = RR (sample_hdr ''www.lan.'' 1) (RD_A [10, 0, 0, 1])"

definition signed_answer :: dns_msg where
  "signed_answer = sample_msg\<lparr>m_Answer :=
     [unsigned_A, RR (sample_hdr ''t.lan.'' 16) (RD_TXT [''x'']),
      RR (sample_hdr ''t.lan.'' 46) (RD_RRSIG \<lparr>sig_TypeCovered = 16, sig_Algorithm = 8, sig_Expiration = - 1,
        sig_Inception = 0, sig_KeyTag = 7, sig_SignerName = ''lan.''\<rparr>),
      RR (sample_hdr ''lan.'' 48) (RD_DNSKEY \<lparr>key_Flags = 256, key_Protocol = 3, key_Algorithm = 8, key_PublicKey = ''k''\<rparr>)]\<rparr>"

lemma signed_answer_verified:
  "ApplyToUpstreamAnswer sample_crypto now (Some sample_msg) signed_answer (empty_Config\<lparr>cf_DNSSECValidate := True\<rparr>) =
     (OutcomeVerified, False, signed_answer\<lparr>m_AuthenticatedData := True\<rparr>)"
  by (simp add: ApplyToUpstreamAnswer_def signed_answer_def sample_msg_def sample_crypto_def collectRRSIGs_def
      collectDNSKEYs_def sig_ok_def rrsigTimeValid_def rrsetForSignature_def findDNSKEY_def sig_of_def sample_hdr_def
      unsigned_A_def TypeRRSIG_def EqualFold_def Let_def)

theorem dnssec_outcomes_witness:
  "\<exists>answer'. ApplyToUpstreamAnswer sample_crypto 0 (Some sample_msg) signed_answer (empty_Config\<lparr>cf_DNSSECValidate := True\<rparr>) =
      (OutcomeVerified, False, answer') \<and> m_Answer answer' = m_Answer signed_answer"
  using dnssec_outcomes [OF signed_answer_verified [of 0]] signed_answer_verified [of 0] by auto

text \<open>Verified does not say that the whole answer is signed: an answer with a record that no
  signature covers is verified and gets the AD bit as soon as some other record set is signed.\<close>

theorem verified_answer_with_unsigned_record:
  "ApplyToUpstreamAnswer sample_crypto now (Some sample_msg) signed_answer
       (empty_Config\<lparr>cf_DNSSECValidate := True, cf_DNSSECValidateStrict := True\<rparr>) =
     (OutcomeVerified, False, signed_answer\<lparr>m_AuthenticatedData := True\<rparr>) \<and>
   unsigned_A \<in> set (m_Answer signed_answer) \<and>
   filter (\<lambda>r. is_RRSIG r \<and> sig_TypeCovered (sig_of r) = h_Rrtype (rr_Hdr unsigned_A)) (m_Answer signed_answer) = []"
  by (simp add: ApplyToUpstreamAnswer_def signed_answer_def sample_msg_def sample_crypto_def collectRRSIGs_def
      collectDNSKEYs_def sig_ok_def rrsigTimeValid_def rrsetForSignature_def findDNSKEY_def sig_of_def sample_hdr_def
      unsigned_A_def TypeRRSIG_def EqualFold_def Let_def)

end
