(* ===== verification/Resolver.thy ===== *)
theory Resolver
  imports ResolverData Dnssec
begin

text \<open>
  The resolver, \<^verbatim>\<open>resolver/resolver.go\<close>: caching of answers, local, cached, blocked and built-in answers,
  the choice of the upstream servers, the parallel phase in which the answers of the upstream servers
  (and, for PTR, of the local and cache look-ups) race, and the refresh of stale entries.

  The state is the shared data and the response under construction.  The answers of the upstream
  servers are a function \<open>query\<close>; the order in which the concurrent parts deliver their messages is
  a schedule, a list of sources, and a source missing from it never delivers.  A result \<open>None\<close> says
  that the handler waits forever.  Logging, the performance counters and the query observer have no
  influence on the answer and are left out, except for the outcome that is reported to the observer.
\<close>

record resolver_env =
  rv_lib :: dnssec_lib
  rv_signer :: "Signer option"
  rv_req :: "dns_msg option"
  rv_now :: gotime

abbreviation rlib :: "resolver_env \<Rightarrow> dnslib" where
  "rlib env \<equiv> dnslib.truncate (rv_lib env)"

type_synonym query_state = "resolver_data \<times> dns_msg"

text \<open>\<^verbatim>\<open>UpstreamClient.Query\<close>: the reply, if any, and whether an error was returned.\<close>

type_synonym upstream = "question \<Rightarrow> endpoint \<Rightarrow> dns_msg option \<times> bool"

datatype query_outcome = OutLocal | OutCache | OutBlocked | OutUpstream gostr | OutNone

subsection \<open>Caching answers\<close>

definition minCacheTTL :: "Config \<Rightarrow> u32" where
  "minCacheTTL settings =
     (if cf_MinCacheTTLSeconds settings = 0 then 600 else IntToUint32Clamp (cf_MinCacheTTLSeconds settings))"

definition cacheDNSResponse :: "resolver_env \<Rightarrow> rr list \<Rightarrow> resolver_data \<Rightarrow> resolver_data" where
  "cacheDNSResponse env rrs d =
     (if rrs = [] \<or> \<not> cf_CacheRecords (rd_Settings d) then d
      else UpdateCacheRecords
             (fold (\<lambda>r cache. Cache_Add (rlib env) (rv_now env) cache r (minCacheTTL (rd_Settings d))) rrs (rd_CacheRecords d)) d)"

definition is_CNAME :: "rr \<Rightarrow> bool" where
  "is_CNAME r = (case rr_Data r of RD_CNAME _ \<Rightarrow> True | _ \<Rightarrow> False)"

definition shouldCacheRRSetForQuestion :: "question \<Rightarrow> rr list \<Rightarrow> bool" where
  "shouldCacheRRSetForQuestion q answer =
     (if q_Qtype q \<notin> {TypeA, TypeAAAA, TypeHTTPS, TypeSVCB} then False
      else if answer = [] then False
      else if length answer > 1 then True
      else is_CNAME (hd answer))"

definition rrset_min_ttl :: "rr list \<Rightarrow> u32" where
  "rrset_min_ttl answer = fold (\<lambda>r ttl. if ttl = 0 \<or> rr_Ttl r < ttl then rr_Ttl r else ttl) answer 0"

definition rrset_ttl :: "u32 \<Rightarrow> rr list \<Rightarrow> u32" where
  "rrset_ttl minTTL answer =
     (let ttl = rrset_min_ttl answer; ttl = (if ttl = 0 then minTTL else ttl)
      in if minTTL > 0 \<and> ttl < minTTL then minTTL else ttl)"

definition cacheSyntheticRRSetAnswer :: "resolver_env \<Rightarrow> question \<Rightarrow> rr list \<Rightarrow> resolver_data \<Rightarrow> resolver_data" where
  "cacheSyntheticRRSetAnswer env q answer d =
     (if answer = [] \<or> \<not> cf_CacheRecords (rd_Settings d) then d
      else
        let ttl = rrset_ttl (minCacheTTL (rd_Settings d)) answer;
            rt = lib_TypeToString (rlib env) (q_Qtype q);
            now = rv_now env;
            cr = \<lparr>cr_DNSRecord = empty_record\<lparr>dr_Name := q_Name q, dr_Type := rt,
                     dr_Value := BuildRRSetCacheValue (rlib env) answer, dr_TTL := ttl\<rparr>,
                  cr_Expiry = now + int (unat ttl) * Second, cr_Timestamp = now, cr_LastQuery = now\<rparr>;
            cache = rd_CacheRecords d;
            idx = find_idx (\<lambda>c. normalizeRecordNameKey (dr_Name (cr_DNSRecord c)) = normalizeRecordNameKey (q_Name q) \<and>
                                dr_Type (cr_DNSRecord c) = rt \<and> HasPrefix (dr_Value (cr_DNSRecord c)) RRSetCachePrefix) cache
        in UpdateCacheRecords
             (case idx of
                Some i \<Rightarrow> cache[i := (cache ! i)\<lparr>cr_DNSRecord := cr_DNSRecord cr, cr_Expiry := cr_Expiry cr, cr_LastQuery := cr_LastQuery cr\<rparr>]
              | None \<Rightarrow> cache @ [cr]) d)"

definition cacheUpstreamAnswerAfterSuccess :: "resolver_env \<Rightarrow> question \<Rightarrow> rr list \<Rightarrow> resolver_data \<Rightarrow> resolver_data" where
  "cacheUpstreamAnswerAfterSuccess env q answer d =
     (let d' = cacheDNSResponse env answer d in
      if shouldCacheRRSetForQuestion q answer then cacheSyntheticRRSetAnswer env q answer d' else d')"

subsection \<open>Answers\<close>

definition processCachedRecords :: "resolver_env \<Rightarrow> question \<Rightarrow> rr list \<Rightarrow> query_state \<Rightarrow> query_state" where
  "processCachedRecords env q rrs st =
     (let (d, resp) = st in
      if rrs = [] then st
      else
        let resp = resp\<lparr>m_Answer := m_Answer resp @ rrs\<rparr>;
            resp = SignLocalAnswerIfDO (rv_lib env) (rv_now env) (rv_signer env) (rv_req env) q rrs resp
        in (cacheDNSResponse env rrs d, resp\<lparr>m_Authoritative := True\<rparr>))"

definition processCacheRecord :: "rr \<Rightarrow> query_state \<Rightarrow> query_state" where
  "processCacheRecord r st = (let (d, resp) = st in (d, resp\<lparr>m_Answer := m_Answer resp @ [r]\<rparr>))"

definition processCachedUpstreamRRs :: "rr list \<Rightarrow> query_state \<Rightarrow> query_state" where
  "processCachedUpstreamRRs rrs st = (let (d, resp) = st in (d, resp\<lparr>m_Answer := m_Answer resp @ rrs\<rparr>))"

definition processUpstreamAnswer :: "resolver_env \<Rightarrow> question \<Rightarrow> dns_msg \<Rightarrow> query_state \<Rightarrow> query_state" where
  "processUpstreamAnswer env q answer0 st =
     (let (d, resp) = st;
          (outcome, servfail, answer) = ApplyToUpstreamAnswer (rv_lib env) (rv_now env) (rv_req env) answer0 (rd_Settings d)
      in if servfail then
           (d, case rv_req env of
                 Some req \<Rightarrow> lib_SetRcode (rlib env) resp req RcodeServerFailure
               | None \<Rightarrow> resp\<lparr>m_Rcode := RcodeServerFailure\<rparr>)
         else
           (cacheUpstreamAnswerAfterSuccess env q (m_Answer answer) d,
            resp\<lparr>m_Answer := m_Answer resp @ m_Answer answer, m_Authoritative := m_Authoritative answer,
                 m_Rcode := m_Rcode answer, m_AuthenticatedData := m_AuthenticatedData answer\<rparr>))"

definition isLocalhostQNAME :: "gostr \<Rightarrow> bool" where
  "isLocalhostQNAME name \<longleftrightarrow> TrimSuffix (ToLower (TrimSpace name)) ''.'' = ''localhost''"

definition builtinLocalhostRRs :: "dnslib \<Rightarrow> question \<Rightarrow> rr list" where
  "builtinLocalhostRRs L q =
     (let one = (\<lambda>line. case lib_NewRR L line of None \<Rightarrow> [] | Some r \<Rightarrow> [r]) in
      if \<not> isLocalhostQNAME (q_Name q) then []
      else if q_Qtype q = TypeA then one ''localhost. 604800 IN A 127.0.0.1''
      else if q_Qtype q = TypeAAAA then one ''localhost. 604800 IN AAAA ::1''
      else [])"

definition checkBlocked :: "resolver_data \<Rightarrow> question \<Rightarrow> bool" where
  "checkBlocked d q = (case rd_BlockList d of None \<Rightarrow> False | Some bl \<Rightarrow> IsBlocked bl (TrimSuffix (q_Name q) ''.''))"

definition processBlockedDomain :: "resolver_env \<Rightarrow> question \<Rightarrow> query_state \<Rightarrow> query_state" where
  "processBlockedDomain env q st =
     (let (d, resp) = st; d = IncrementTotalBlocks d; resp = resp\<lparr>m_Authoritative := True\<rparr>;
          blocked = (\<lambda>t ip. case lib_NewRR (rlib env) (q_Name q @ '' 300 IN '' @ lib_TypeToString (rlib env) t @ '' '' @ ip) of
                              None \<Rightarrow> (d, resp) | Some r \<Rightarrow> (d, resp\<lparr>m_Answer := m_Answer resp @ [r]\<rparr>))
      in if q_Qtype q = TypeA then blocked TypeA ''0.0.0.0''
         else if q_Qtype q = TypeAAAA then blocked TypeAAAA ''::''
         else (d, resp\<lparr>m_Rcode := RcodeNameError\<rparr>))"

definition perfQTypeString :: "dnslib \<Rightarrow> question \<Rightarrow> gostr" where
  "perfQTypeString L q =
     (if lib_TypeToString L (q_Qtype q) \<noteq> [] then lib_TypeToString L (q_Qtype q) else ''T'' @ dec (unat (q_Qtype q)))"

subsection \<open>Upstream servers for a query\<close>

definition serversToQuery :: "resolver_data \<Rightarrow> question \<Rightarrow> endpoint list" where
  "serversToQuery d q =
     (let settings = rd_Settings d; allServers = rd_DNSServers d;
          dnsServers = GetUpstreamEndpointsForQuery allServers (q_Name q) True;
          dnsServers = (if length dnsServers > 0 then AppendPerServerFallbacks dnsServers allServers else dnsServers);
          useWhitelist = list_ex (\<lambda>s. srv_Active s \<and> ServerMatchesQuery s (q_Name q)) allServers;
          fallbackEp = (if \<not> useWhitelist \<and> cf_FallbackServerIP settings \<noteq> [] \<and> cf_FallbackServerPort settings \<noteq> []
                        then FallbackEndpoint (cf_FallbackServerIP settings) (cf_FallbackServerPort settings) (cf_FallbackServerTransport settings)
                        else \<lparr>ep_Addr = [], ep_Transport = []\<rparr>);
          servers = (if ep_Addr fallbackEp \<noteq> [] \<and> \<not> list_ex (\<lambda>s. HealthKey s = HealthKey fallbackEp) dnsServers
                     then dnsServers @ [fallbackEp] else dnsServers)
      in FilterHealthyUpstreamEndpoints (rd_upstreamHealth d) settings servers)"

subsection \<open>The parallel phase\<close>

datatype par_src = SLocal | SCache | SUp nat

datatype par_msg = MLocal "rr list" | MCache "rr option" | MUp endpoint "dns_msg option" bool

record main_state =
  ms_localDone :: bool
  ms_cacheDone :: bool
  ms_cacheHit :: "rr option"
  ms_firstUp :: "(endpoint \<times> dns_msg) option"
  ms_upstreamSeen :: nat

definition main_start :: main_state where
  "main_start = \<lparr>ms_localDone = False, ms_cacheDone = False, ms_cacheHit = None, ms_firstUp = None, ms_upstreamSeen = 0\<rparr>"

datatype par_result = PLocal "rr list" | PCache rr | PUp endpoint dns_msg | PNone

text \<open>An upstream reply counts when it has no error, code NOERROR and a non-empty answer.\<close>

definition usable :: "dns_msg option \<times> bool \<Rightarrow> dns_msg option" where
  "usable reply = (case reply of
      (Some msg, False) \<Rightarrow> if m_Rcode msg = RcodeSuccess \<and> length (m_Answer msg) > 0 then Some msg else None
    | _ \<Rightarrow> None)"

text \<open>The three tests at the end of the loop body.\<close>

definition decide :: "nat \<Rightarrow> main_state \<Rightarrow> par_result + main_state" where
  "decide upTotal s =
     (if ms_localDone s \<and> ms_cacheDone s then
        (case ms_cacheHit s of
           Some r \<Rightarrow> Inl (PCache r)
         | None \<Rightarrow>
             (case ms_firstUp s of
                Some (ep, msg) \<Rightarrow> Inl (PUp ep msg)
              | None \<Rightarrow> if ms_upstreamSeen s = upTotal then Inl PNone else Inr s))
      else Inr s)"

text \<open>One iteration of the receive loop.\<close>

definition receive :: "nat \<Rightarrow> par_msg \<Rightarrow> main_state \<Rightarrow> par_result + main_state" where
  "receive upTotal m s = (case m of
      MLocal rrs \<Rightarrow> if length rrs > 0 then Inl (PLocal rrs) else decide upTotal (s\<lparr>ms_localDone := True\<rparr>)
    | MCache c \<Rightarrow> decide upTotal (s\<lparr>ms_cacheDone := True, ms_cacheHit := (if c \<noteq> None then c else ms_cacheHit s)\<rparr>)
    | MUp ep reply err \<Rightarrow>
        decide upTotal (s\<lparr>ms_upstreamSeen := ms_upstreamSeen s + 1,
          ms_firstUp := (case ms_firstUp s of
             None \<Rightarrow> (case usable (reply, err) of None \<Rightarrow> None | Some msg \<Rightarrow> Some (ep, msg))
           | Some u \<Rightarrow> Some u)\<rparr>))"

text \<open>The receive loop on the messages in the order of their arrival; \<open>None\<close>: it waits for another
  message.\<close>

fun par_loop :: "nat \<Rightarrow> par_msg list \<Rightarrow> main_state \<Rightarrow> par_result option" where
  "par_loop upTotal [] s = None"
| "par_loop upTotal (m # ms) s = (case receive upTotal m s of Inl r \<Rightarrow> Some r | Inr s' \<Rightarrow> par_loop upTotal ms s')"

definition isPTR :: "question \<Rightarrow> bool" where
  "isPTR q \<longleftrightarrow> q_Qtype q = TypePTR"

text \<open>The message of a source.\<close>

definition message_of ::
    "resolver_env \<Rightarrow> upstream \<Rightarrow> resolver_data \<Rightarrow> question \<Rightarrow> endpoint list \<Rightarrow> par_src \<Rightarrow> par_msg" where
  "message_of env query d q servers src = (case src of
      SLocal \<Rightarrow> MLocal (if isPTR q then LookupLocalRRs (rlib env) d (q_Name q) (perfQTypeString (rlib env) q)
                                       (drs_AutoBuildPTRFromA (cf_DNSRecordSettings (rd_Settings d))) else [])
    | SCache \<Rightarrow> MCache (if isPTR q \<and> cf_CacheRecords (rd_Settings d) \<and> HasAnyCachedRecords d
                         then LookupCacheRR (rlib env) d (rv_now env) (q_Name q) (perfQTypeString (rlib env) q) else None)
    | SUp i \<Rightarrow> MUp (servers ! i) (fst (query q (servers ! i))) (snd (query q (servers ! i))))"

text \<open>The messages that are in the channel before any goroutine runs.\<close>

definition prefilled :: "resolver_data \<Rightarrow> question \<Rightarrow> par_src list" where
  "prefilled d q =
     (if \<not> isPTR q then [SLocal, SCache]
      else if \<not> cf_CacheRecords (rd_Settings d) \<or> \<not> HasAnyCachedRecords d then [SCache] else [])"

definition finishPar :: "resolver_env \<Rightarrow> question \<Rightarrow> par_result \<Rightarrow> query_state \<Rightarrow> query_outcome \<times> query_state" where
  "finishPar env q r st = (case r of
      PLocal rrs \<Rightarrow> (OutLocal, processCachedRecords env q rrs st)
    | PCache c \<Rightarrow> (OutCache, processCacheRecord c (IncrementCacheHits (fst st), snd st))
    | PUp ep msg \<Rightarrow>
        (OutUpstream (HealthKey ep),
         processUpstreamAnswer env q msg (RecordUpstreamForwardSuccess (rv_now env) (HealthKey ep) (fst st), snd st))
    | PNone \<Rightarrow> (OutNone, st))"

text \<open>\<^verbatim>\<open>resolveFastPath\<close> before the parallel phase: an answer from memory, with the flag that asks for a
  background refresh.\<close>

definition fromMemory :: "resolver_env \<Rightarrow> question \<Rightarrow> query_state \<Rightarrow> (query_outcome \<times> query_state \<times> bool) option" where
  "fromMemory env q st =
     (let (d, resp) = st;
          fr = (if \<not> isPTR q then TryFastLocalOrCache (rlib env) d (rv_now env) (q_Name q) (perfQTypeString (rlib env) q) False
                else not_handled);
          loc = (if \<not> isPTR q then builtinLocalhostRRs (rlib env) q else [])
      in if fr_handled fr \<and> length (fr_local fr) > 0 then Some (OutLocal, processCachedRecords env q (fr_local fr) st, False)
         else if fr_handled fr \<and> length (fr_cacheRRs fr) > 0
         then Some (OutCache, processCachedUpstreamRRs (fr_cacheRRs fr) (IncrementCacheHits d, resp), fr_isStale fr)
         else (case (if fr_handled fr then fr_cache fr else None) of
           Some r \<Rightarrow> Some (OutCache, processCacheRecord r (IncrementCacheHits d, resp), fr_isStale fr)
         | None \<Rightarrow>
             if length loc > 0 then Some (OutLocal, (d, resp\<lparr>m_Answer := m_Answer resp @ loc, m_Rcode := RcodeSuccess\<rparr>), False)
             else if (q_Qtype q = TypeA \<or> q_Qtype q = TypeAAAA) \<and> checkBlocked d q
             then Some (OutBlocked, processBlockedDomain env q st, False)
             else None))"

definition resolveFastPath ::
    "resolver_env \<Rightarrow> upstream \<Rightarrow> par_src list \<Rightarrow> question \<Rightarrow> query_state \<Rightarrow> (query_outcome \<times> query_state \<times> bool) option" where
  "resolveFastPath env query sched q st =
     (case fromMemory env q st of
        Some r \<Rightarrow> Some r
      | None \<Rightarrow>
          let servers = serversToQuery (fst st) q;
              msgs = map (message_of env query (fst st) q servers) (prefilled (fst st) q @ sched)
          in map_option (\<lambda>r. (fst (finishPar env q r st), snd (finishPar env q r st), False))
               (par_loop (length servers) msgs main_start))"

definition handlePTRQuestion ::
    "resolver_env \<Rightarrow> upstream \<Rightarrow> par_src list \<Rightarrow> question \<Rightarrow> query_state \<Rightarrow> (query_outcome \<times> query_state \<times> bool) option" where
  "handlePTRQuestion env query sched q st =
     (let d = fst st;
          ptrRecords = LookupLocalRRs (rlib env) d (q_Name q) ''PTR'' (drs_AutoBuildPTRFromA (cf_DNSRecordSettings (rd_Settings d)))
      in if length ptrRecords > 0 then Some (OutLocal, processCachedRecords env q ptrRecords st, False)
         else resolveFastPath env query sched q st)"

definition HandleQuestion ::
    "resolver_env \<Rightarrow> upstream \<Rightarrow> par_src list \<Rightarrow> question \<Rightarrow> query_state \<Rightarrow> (query_outcome \<times> query_state \<times> bool) option" where
  "HandleQuestion env query sched q st =
     map_option (\<lambda>(out, (d, resp), stale). (out, (IncrementQueriesAnswered d, resp), stale))
       (if q_Qtype q = TypePTR then handlePTRQuestion env query sched q st else resolveFastPath env query sched q st)"

subsection \<open>Refreshing stale entries\<close>

fun refreshLoop :: "resolver_env \<Rightarrow> upstream \<Rightarrow> question \<Rightarrow> endpoint list \<Rightarrow> resolver_data \<Rightarrow> resolver_data" where
  "refreshLoop env query q [] d = d"
| "refreshLoop env query q (srv # servers) d =
     (case usable (query q srv) of
        Some msg \<Rightarrow> cacheUpstreamAnswerAfterSuccess env q (m_Answer msg) d
      | None \<Rightarrow> refreshLoop env query q servers d)"

definition backgroundRefresh :: "resolver_env \<Rightarrow> upstream \<Rightarrow> question \<Rightarrow> resolver_data \<Rightarrow> resolver_data" where
  "backgroundRefresh env query q d =
     (let settings = rd_Settings d;
          servers = GetUpstreamEndpointsForQuery (rd_DNSServers d) (q_Name q) True;
          servers = (if length servers = 0 \<and> cf_FallbackServerIP settings \<noteq> [] \<and> cf_FallbackServerPort settings \<noteq> []
                     then [FallbackEndpoint (cf_FallbackServerIP settings) (cf_FallbackServerPort settings) (cf_FallbackServerTransport settings)]
                     else servers)
      in refreshLoop env query q (FilterHealthyUpstreamEndpoints (rd_upstreamHealth d) settings servers) d)"

subsection \<open>The receive loop\<close>

text \<open>What the sources hold: the local and the cache answer, and the usable replies.\<close>

definition par_local :: "(par_src \<Rightarrow> par_msg) \<Rightarrow> rr list" where
  "par_local f = (case f SLocal of MLocal rrs \<Rightarrow> rrs | _ \<Rightarrow> [])"

definition par_cache :: "(par_src \<Rightarrow> par_msg) \<Rightarrow> rr option" where
  "par_cache f = (case f SCache of MCache c \<Rightarrow> c | _ \<Rightarrow> None)"

definition par_up :: "(par_src \<Rightarrow> par_msg) \<Rightarrow> nat \<Rightarrow> (endpoint \<times> dns_msg) option" where
  "par_up f i = (case f (SUp i) of MUp ep reply err \<Rightarrow> map_option (Pair ep) (usable (reply, err)) | _ \<Rightarrow> None)"

text \<open>Every source sends the message of its kind.\<close>

definition well_typed :: "(par_src \<Rightarrow> par_msg) \<Rightarrow> bool" where
  "well_typed f \<longleftrightarrow> (\<exists>rrs. f SLocal = MLocal rrs) \<and> (\<exists>c. f SCache = MCache c) \<and>
     (\<forall>i. \<exists>ep reply err. f (SUp i) = MUp ep reply err)"

lemma well_typed_message_of: "well_typed (message_of env query d q servers)"
  by (simp add: well_typed_def message_of_def)

text \<open>The specification of a result: local answers first, then the cache, then an upstream server with a
  usable reply, and no answer only if no server has one.\<close>

definition par_spec :: "nat \<Rightarrow> (par_src \<Rightarrow> par_msg) \<Rightarrow> par_result \<Rightarrow> bool" where
  "par_spec n f r = (case r of
      PLocal rrs \<Rightarrow> rrs = par_local f \<and> rrs \<noteq> []
    | PCache c \<Rightarrow> par_local f = [] \<and> par_cache f = Some c
    | PUp ep msg \<Rightarrow> par_local f = [] \<and> par_cache f = None \<and> (\<exists>i<n. par_up f i = Some (ep, msg))
    | PNone \<Rightarrow> par_local f = [] \<and> par_cache f = None \<and> (\<forall>i<n. par_up f i = None))"

text \<open>The loop invariant; \<open>R\<close> is the set of servers whose message has been received.\<close>

definition loop_inv :: "nat \<Rightarrow> (par_src \<Rightarrow> par_msg) \<Rightarrow> nat set \<Rightarrow> main_state \<Rightarrow> bool" where
  "loop_inv n f R s \<longleftrightarrow>
     R \<subseteq> {..<n} \<and> ms_upstreamSeen s = card R \<and>
     (ms_localDone s \<longrightarrow> par_local f = []) \<and>
     (if ms_cacheDone s then ms_cacheHit s = par_cache f else ms_cacheHit s = None) \<and>
     (case ms_firstUp s of None \<Rightarrow> \<forall>i\<in>R. par_up f i = None | Some u \<Rightarrow> \<exists>i\<in>R. par_up f i = Some u)"

lemma loop_inv_start: "loop_inv n f {} main_start"
  by (simp add: loop_inv_def main_start_def)

lemma decide_spec:
  assumes "loop_inv n f R s"
  shows "case decide n s of Inl r \<Rightarrow> par_spec n f r | Inr s' \<Rightarrow> s' = s"
proof -
  have "R = {..<n}" if "card R = n" using that assms card_subset_eq [of "{..<n}" R] by (simp add: loop_inv_def)
  then show ?thesis using assms
    by (auto simp: decide_def loop_inv_def par_spec_def subset_iff split: if_splits option.splits)
qed

definition received :: "par_src \<Rightarrow> nat set" where
  "received src = (case src of SUp i \<Rightarrow> {i} | _ \<Rightarrow> {})"

lemma receive_spec:
  assumes inv: "loop_inv n f R s" and f: "well_typed f" and src: "case src of SUp i \<Rightarrow> i < n \<and> i \<notin> R | _ \<Rightarrow> True"
  shows "case receive n (f src) s of Inl r \<Rightarrow> par_spec n f r | Inr s' \<Rightarrow> loop_inv n f (R \<union> received src) s'"
proof -
  have fin: "finite R" using inv finite_subset by (auto simp: loop_inv_def)
  have dec: "case decide n s' of Inl r \<Rightarrow> par_spec n f r | Inr s'' \<Rightarrow> loop_inv n f R' s''"
    if "loop_inv n f R' s'" for R' s'
    using decide_spec [OF that] that by (auto split: sum.splits)
  show ?thesis
  proof (cases src)
    case SLocal
    obtain rrs where rrs: "f SLocal = MLocal rrs" using f by (auto simp: well_typed_def)
    have "loop_inv n f R (s\<lparr>ms_localDone := True\<rparr>)" if "rrs = []"
      using inv that rrs by (simp add: loop_inv_def par_local_def)
    moreover have r: "R \<union> received src = R" by (simp add: SLocal received_def)
    ultimately show ?thesis using dec [of R "s\<lparr>ms_localDone := True\<rparr>"] unfolding r
      by (auto simp: SLocal rrs receive_def par_spec_def par_local_def)
  next
    case SCache
    obtain c where c: "f SCache = MCache c" using f by (auto simp: well_typed_def)
    let ?s = "s\<lparr>ms_cacheDone := True, ms_cacheHit := (if c \<noteq> None then c else ms_cacheHit s)\<rparr>"
    have rec: "receive n (f src) s = decide n ?s" by (simp only: SCache c receive_def par_msg.case)
    have r: "R \<union> received src = R" by (simp add: SCache received_def)
    have "loop_inv n f R ?s" using inv c by (auto simp: loop_inv_def par_cache_def split: if_splits)
    then show ?thesis unfolding rec r by (rule dec)
  next
    case (SUp i)
    obtain ep reply err where u: "f (SUp i) = MUp ep reply err" using f unfolding well_typed_def by blast
    let ?s = "s\<lparr>ms_upstreamSeen := ms_upstreamSeen s + 1,
        ms_firstUp := (case ms_firstUp s of
           None \<Rightarrow> (case usable (reply, err) of None \<Rightarrow> None | Some msg \<Rightarrow> Some (ep, msg)) | Some u \<Rightarrow> Some u)\<rparr>"
    have pu: "par_up f i = (case usable (reply, err) of None \<Rightarrow> None | Some msg \<Rightarrow> Some (ep, msg))"
      by (simp add: par_up_def u map_option_case)
    have rec: "receive n (f src) s = decide n ?s" by (simp only: SUp u receive_def par_msg.case)
    have r: "R \<union> received src = insert i R" by (simp add: SUp received_def)
    have "loop_inv n f (insert i R) ?s"
      using inv src fin pu by (auto simp: loop_inv_def SUp split: option.splits)
    then show ?thesis unfolding rec r by (rule dec)
  qed
qed

text \<open>A schedule delivers from each source at most once and only from servers that were asked.\<close>

definition valid_sched :: "nat \<Rightarrow> par_src list \<Rightarrow> bool" where
  "valid_sched n srcs \<longleftrightarrow> distinct srcs \<and> (\<forall>i. SUp i \<in> set srcs \<longrightarrow> i < n)"

lemma par_loop_spec_inv:
  assumes "loop_inv n f R s" "well_typed f" "distinct srcs" "\<forall>i. SUp i \<in> set srcs \<longrightarrow> i < n \<and> i \<notin> R"
    "par_loop n (map f srcs) s = Some r"
  shows "par_spec n f r"
  using assms
proof (induction srcs arbitrary: R s)
  case (Cons src srcs)
  have src: "case src of SUp i \<Rightarrow> i < n \<and> i \<notin> R | _ \<Rightarrow> True" using Cons.prems(4) by (auto split: par_src.split)
  note rs = receive_spec [OF Cons.prems(1,2) src]
  show ?case
  proof (cases "receive n (f src) s")
    case (Inl x)
    then show ?thesis using rs Cons.prems(5) by simp
  next
    case (Inr s')
    have "\<forall>i. SUp i \<in> set srcs \<longrightarrow> i < n \<and> i \<notin> R \<union> received src"
      using Cons.prems(3,4) by (auto simp: received_def split: par_src.splits)
    then show ?thesis using Cons.IH [of "R \<union> received src" s'] rs Inr Cons.prems by simp
  qed
qed simp

lemma par_loop_spec:
  assumes "well_typed f" "valid_sched n srcs" "par_loop n (map f srcs) main_start = Some r"
  shows "par_spec n f r"
  using assms by (intro par_loop_spec_inv [OF loop_inv_start _ _ _ assms(3)]) (auto simp: valid_sched_def)

subsection \<open>Every message arrives: the loop returns\<close>

text \<open>A state from which the loop goes on has not yet received everything.\<close>

definition undecided :: "nat \<Rightarrow> par_src set \<Rightarrow> main_state \<Rightarrow> bool" where
  "undecided n S s \<longleftrightarrow> (SLocal \<in> S \<longrightarrow> ms_localDone s) \<and> (SCache \<in> S \<longrightarrow> ms_cacheDone s) \<and>
     ms_upstreamSeen s = card {i. SUp i \<in> S} \<and>
     (ms_localDone s \<and> ms_cacheDone s \<longrightarrow> ms_cacheHit s = None \<and> ms_firstUp s = None \<and> ms_upstreamSeen s \<noteq> n)"

lemma decide_undecided:
  "decide n s = Inr s' \<Longrightarrow> s' = s \<and>
     (ms_localDone s \<and> ms_cacheDone s \<longrightarrow> ms_cacheHit s = None \<and> ms_firstUp s = None \<and> ms_upstreamSeen s \<noteq> n)"
  by (auto simp: decide_def split: if_splits option.splits)

lemma SUp_insert: "{i. SUp i \<in> insert src S} = (case src of SUp j \<Rightarrow> insert j {i. SUp i \<in> S} | _ \<Rightarrow> {i. SUp i \<in> S})"
  by (auto split: par_src.splits)

lemma receive_undecided:
  assumes "undecided n S s" "well_typed f" "src \<notin> S" "finite S" "receive n (f src) s = Inr s'"
  shows "undecided n (insert src S) s'"
proof -
  have "{i. SUp i \<in> S} = SUp -` S" by auto
  then have fin: "finite {i. SUp i \<in> S}" using assms(4) by (simp add: finite_vimageI inj_on_def)
  show ?thesis
  proof (cases src)
    case SLocal
    obtain rrs where "f SLocal = MLocal rrs" using assms(2) unfolding well_typed_def by blast
    then show ?thesis using assms(1,5) SLocal
      by (auto simp: undecided_def receive_def SUp_insert split: if_splits dest!: decide_undecided)
  next
    case SCache
    obtain c where "f SCache = MCache c" using assms(2) unfolding well_typed_def by blast
    then show ?thesis using assms(1,5) SCache
      by (auto simp: undecided_def receive_def SUp_insert dest!: decide_undecided)
  next
    case (SUp i)
    obtain ep reply err where u: "f (SUp i) = MUp ep reply err" using assms(2) unfolding well_typed_def by blast
    define s1 where "s1 = s\<lparr>ms_upstreamSeen := ms_upstreamSeen s + 1,
        ms_firstUp := (case ms_firstUp s of
           None \<Rightarrow> (case usable (reply, err) of None \<Rightarrow> None | Some msg \<Rightarrow> Some (ep, msg)) | Some u \<Rightarrow> Some u)\<rparr>"
    have "decide n s1 = Inr s'" using assms(5) by (simp only: SUp u receive_def par_msg.case s1_def)
    note d = decide_undecided [OF this]
    have s1: "ms_localDone s1 = ms_localDone s" "ms_cacheDone s1 = ms_cacheDone s" "ms_upstreamSeen s1 = Suc (ms_upstreamSeen s)"
      by (simp_all add: s1_def)
    have "i \<notin> {j. SUp j \<in> S}" using assms(3) SUp by simp
    then have "card {j. SUp j \<in> insert src S} = Suc (card {j. SUp j \<in> S})"
      using card_insert_disjoint [OF fin] by (simp only: SUp_insert SUp par_src.case)
    moreover have "SLocal \<in> insert src S \<longleftrightarrow> SLocal \<in> S" "SCache \<in> insert src S \<longleftrightarrow> SCache \<in> S" by (simp_all add: SUp)
    moreover have "s' = s1" using d by (rule conjunct1)
    ultimately show ?thesis using assms(1) d s1 unfolding undecided_def by simp
  qed
qed

lemma par_loop_returns:
  assumes "undecided n S s" "well_typed f" "finite S" "distinct srcs" "S \<inter> set srcs = {}"
    "S \<union> set srcs = {SLocal, SCache} \<union> SUp ` {..<n}" "srcs \<noteq> []"
  shows "par_loop n (map f srcs) s \<noteq> None"
  using assms
proof (induction srcs arbitrary: S s)
  case (Cons src srcs)
  show ?case
  proof (cases "receive n (f src) s")
    case (Inr s')
    have u: "undecided n (insert src S) s'"
      using receive_undecided [OF Cons.prems(1,2) _ Cons.prems(3) Inr] Cons.prems(5) by simp
    show ?thesis
    proof (cases "srcs = []")
      case True
      have all: "insert src S = {SLocal, SCache} \<union> SUp ` {..<n}" using Cons.prems(6) True by auto
      have "{i. SUp i \<in> insert src S} = {..<n}" unfolding all by auto
      then show ?thesis using u all by (auto simp: undecided_def)
    next
      case False
      then show ?thesis
        using Cons.IH [OF u Cons.prems(2)] Cons.prems(3-6) Inr by auto
    qed
  qed simp
qed simp

lemma undecided_start: "undecided n {} main_start"
  by (simp add: undecided_def main_start_def)

subsection \<open>Properties of a query\<close>

definition complete_sched :: "resolver_data \<Rightarrow> question \<Rightarrow> nat \<Rightarrow> par_src list \<Rightarrow> bool" where
  "complete_sched d q n sched \<longleftrightarrow> distinct (prefilled d q @ sched) \<and>
     set (prefilled d q @ sched) = {SLocal, SCache} \<union> SUp ` {..<n}"

lemma resolveFastPath_parallel:
  assumes "fromMemory env q st = None" "resolveFastPath env query sched q st = Some (out, st', stale)"
  shows "\<exists>r. par_loop (length (serversToQuery (fst st) q))
      (map (message_of env query (fst st) q (serversToQuery (fst st) q)) (prefilled (fst st) q @ sched)) main_start = Some r \<and>
    finishPar env q r st = (out, st')"
  using assms by (auto simp: resolveFastPath_def Let_def)

text \<open>In the parallel phase the outcome respects the priorities for every order of arrival and every
  loss of messages: a local PTR answer wins over everything, a cached one over the upstream servers, an
  upstream answer comes from a server that was asked and whose reply is error-free, NOERROR and
  non-empty, and "no answer" is reported only if no server has such a reply.\<close>

theorem parallel_priority:
  assumes "fromMemory env q (d, resp) = None" "resolveFastPath env query sched q (d, resp) = Some (out, st', stale)"
    and "valid_sched (length (serversToQuery d q)) (prefilled d q @ sched)"
  shows "\<exists>r. finishPar env q r (d, resp) = (out, st') \<and>
    par_spec (length (serversToQuery d q)) (message_of env query d q (serversToQuery d q)) r"
proof -
  obtain r where r: "par_loop (length (serversToQuery d q))
      (map (message_of env query d q (serversToQuery d q)) (prefilled d q @ sched)) main_start = Some r"
      "finishPar env q r (d, resp) = (out, st')"
    using resolveFastPath_parallel [OF assms(1,2)] by auto
  from par_loop_spec [OF well_typed_message_of assms(3) r(1)] r(2) show ?thesis by blast
qed

lemma HandleQuestion_returns:
  assumes "complete_sched d q (length (serversToQuery d q)) sched"
  shows "HandleQuestion env query sched q (d, resp) \<noteq> None"
proof -
  let ?n = "length (serversToQuery d q)" and ?f = "message_of env query d q (serversToQuery d q)"
  have "par_loop ?n (map ?f (prefilled d q @ sched)) main_start \<noteq> None"
    using assms by (intro par_loop_returns [OF undecided_start well_typed_message_of]) (auto simp: complete_sched_def)
  then have "resolveFastPath env query sched q (d, resp) \<noteq> None"
    unfolding resolveFastPath_def Let_def by (simp split: option.split del: not_None_eq)
  then show ?thesis by (auto simp: HandleQuestion_def handlePTRQuestion_def Let_def)
qed

text \<open>If every concurrent part delivers its message, in whatever order, the query is answered: the
  handler returns.\<close>

theorem complete_schedule_returns:
  assumes "complete_sched d q (length (serversToQuery d q)) sched"
  shows "HandleQuestion env query sched q (d, resp) \<noteq> None"
  using assms by (rule HandleQuestion_returns)

text \<open>"No answer" takes the messages of all servers.\<close>

lemma decide_PNone: "decide n s = Inl PNone \<Longrightarrow> ms_upstreamSeen s = n"
  by (auto simp: decide_def split: if_splits option.splits)

lemma receive_PNone:
  assumes "receive n (f src) s = Inl PNone" "well_typed f"
  shows "ms_upstreamSeen s + card (received src) = n"
proof (cases src)
  case SLocal
  obtain rrs where "f SLocal = MLocal rrs" using assms(2) unfolding well_typed_def by blast
  then show ?thesis using assms(1) SLocal by (auto simp: receive_def received_def split: if_splits dest: decide_PNone)
next
  case SCache
  obtain c where "f SCache = MCache c" using assms(2) unfolding well_typed_def by blast
  then show ?thesis using assms(1) SCache by (auto simp: receive_def received_def dest: decide_PNone)
next
  case (SUp i)
  obtain ep reply err where "f (SUp i) = MUp ep reply err" using assms(2) unfolding well_typed_def by blast
  then show ?thesis using assms(1) SUp by (auto simp: receive_def received_def dest: decide_PNone)
qed

lemma receive_seen:
  assumes "receive n (f src) s = Inr s'" "well_typed f"
  shows "ms_upstreamSeen s' = ms_upstreamSeen s + card (received src)"
proof (cases src)
  case SLocal
  obtain rrs where "f SLocal = MLocal rrs" using assms(2) unfolding well_typed_def by blast
  then show ?thesis using assms(1) SLocal by (auto simp: receive_def received_def split: if_splits dest: decide_undecided)
next
  case SCache
  obtain c where "f SCache = MCache c" using assms(2) unfolding well_typed_def by blast
  then show ?thesis using assms(1) SCache by (auto simp: receive_def received_def dest: decide_undecided)
next
  case (SUp i)
  obtain ep reply err where "f (SUp i) = MUp ep reply err" using assms(2) unfolding well_typed_def by blast
  then show ?thesis using assms(1) SUp by (auto simp: receive_def received_def dest: decide_undecided)
qed

definition is_SUp :: "par_src \<Rightarrow> bool" where
  "is_SUp src = (case src of SUp _ \<Rightarrow> True | _ \<Rightarrow> False)"

lemma par_loop_PNone:
  "par_loop n (map f srcs) s = Some PNone \<Longrightarrow> well_typed f \<Longrightarrow>
   n \<le> ms_upstreamSeen s + length (filter is_SUp srcs)"
proof (induction srcs arbitrary: s)
  case (Cons src srcs)
  have c: "card (received src) = (if is_SUp src then 1 else 0)"
    by (simp add: received_def is_SUp_def split: par_src.split)
  show ?case
  proof (cases "receive n (f src) s")
    case (Inl r)
    then show ?thesis using Cons.prems receive_PNone [of n f src s] c by auto
  next
    case (Inr s')
    then show ?thesis using Cons.prems Cons.IH [of s'] receive_seen [OF Inr Cons.prems(2)] c by auto
  qed
qed simp

lemma missing_server_count:
  assumes "valid_sched n srcs" "i < n" "SUp i \<notin> set srcs"
  shows "length (filter is_SUp srcs) < n"
proof -
  have "src \<in> SUp ` ({..<n} - {i})" if "src \<in> set srcs" "is_SUp src" for src
    by (cases src) (use that assms in \<open>auto simp: valid_sched_def is_SUp_def\<close>)
  then have "set (filter is_SUp srcs) \<subseteq> SUp ` ({..<n} - {i})" by auto
  then have "card (set (filter is_SUp srcs)) \<le> card (SUp ` ({..<n} - {i}))" by (intro card_mono) simp_all
  also have "\<dots> \<le> card ({..<n} - {i})" by (rule card_image_le) simp
  also have "\<dots> < n" using assms(2) by simp
  finally have "card (set (filter is_SUp srcs)) < n" .
  moreover have "card (set (filter is_SUp srcs)) = length (filter is_SUp srcs)"
    using assms(1) by (intro distinct_card) (simp add: valid_sched_def)
  ultimately show ?thesis by (simp only:)
qed

lemma par_loop_lost:
  assumes "well_typed f" "valid_sched n srcs" "par_local f = []" "par_cache f = None" "\<forall>j<n. par_up f j = None"
    "i < n" "SUp i \<notin> set srcs"
  shows "par_loop n (map f srcs) main_start = None"
proof (cases "par_loop n (map f srcs) main_start")
  case (Some r)
  from par_loop_spec [OF assms(1,2) Some] have "r = PNone"
    using assms(3,4,5) by (cases r) (auto simp: par_spec_def)
  with Some have "n \<le> length (filter is_SUp srcs)"
    using par_loop_PNone [of n f srcs main_start] assms(1) by (simp add: main_start_def)
  then show ?thesis using missing_server_count [OF assms(2,6,7)] by simp
qed simp

text \<open>A lost message blocks the query: when the message of one server never arrives (its goroutine
  chose the expired context instead of the channel), no server has a usable reply and the answer is not
  in memory, the handler waits forever.\<close>

theorem lost_message_blocks:
  assumes "q_Qtype q \<noteq> TypePTR" "fromMemory env q (d, resp) = None"
    and "valid_sched (length (serversToQuery d q)) ([SLocal, SCache] @ sched)"
    and "i < length (serversToQuery d q)" "SUp i \<notin> set sched"
    and "\<forall>j < length (serversToQuery d q). usable (query q (serversToQuery d q ! j)) = None"
  shows "HandleQuestion env query sched q (d, resp) = None"
proof -
  let ?n = "length (serversToQuery d q)" and ?f = "message_of env query d q (serversToQuery d q)"
  have pre: "prefilled d q = [SLocal, SCache]" using assms(1) by (simp add: prefilled_def isPTR_def)
  have "par_local ?f = []" "par_cache ?f = None" "\<forall>j<?n. par_up ?f j = None"
    using assms(1,6) by (simp_all add: par_local_def par_cache_def par_up_def message_of_def isPTR_def)
  from par_loop_lost [OF well_typed_message_of assms(3) this assms(4)] assms(5)
  have "par_loop ?n (map ?f (prefilled d q @ sched)) main_start = None" by (simp add: pre)
  then show ?thesis using assms(1,2) by (simp add: HandleQuestion_def resolveFastPath_def Let_def)
qed

subsection \<open>A concrete instance\<close>

definition sample_renv :: resolver_env where
  "sample_renv = \<lparr>rv_lib = sample_crypto, rv_signer = None, rv_req = Some sample_msg, rv_now = 0\<rparr>"

definition fallback_data :: resolver_data where
  "fallback_data = empty_data\<lparr>rd_Settings := (rd_Settings empty_data)\<lparr>cf_FallbackServerIP := ''9.9.9.9'', cf_FallbackServerPort := ''53''\<rparr>\<rparr>"

definition sample_q :: question where
  "sample_q = \<lparr>q_Name = ''www.lan.'', q_Qtype = 1, q_Qclass = 1\<rparr>"

definition no_reply :: upstream where
  "no_reply q ep = (None, True)"

definition signed_reply :: upstream where
  "signed_reply q ep = (Some signed_answer, False)"

lemma fallback_servers: "serversToQuery fallback_data sample_q = [\<lparr>ep_Addr = ''9.9.9.9:53'', ep_Transport = ''udp''\<rparr>]"
  by code_simp

lemma fallback_not_in_memory: "fromMemory sample_renv sample_q (fallback_data, sample_msg) = None"
  by code_simp

lemma sample_q_A: "q_Qtype sample_q \<noteq> TypePTR" "prefilled fallback_data sample_q = [SLocal, SCache]"
  by (simp_all add: sample_q_def prefilled_def isPTR_def TypePTR_def)

theorem parallel_priority_witness:
  "\<exists>r. map_option fst (resolveFastPath sample_renv signed_reply [SUp 0] sample_q (fallback_data, sample_msg)) =
       Some (fst (finishPar sample_renv sample_q r (fallback_data, sample_msg))) \<and>
     par_spec 1 (message_of sample_renv signed_reply fallback_data sample_q (serversToQuery fallback_data sample_q)) r"
proof -
  have "resolveFastPath sample_renv signed_reply [SUp 0] sample_q (fallback_data, sample_msg) \<noteq> None"
    unfolding resolveFastPath_def fallback_not_in_memory
    by (simp add: fallback_servers sample_q_A message_of_def isPTR_def receive_def decide_def main_start_def
        signed_reply_def usable_def Let_def split: if_splits)
  then obtain out st' stale where
    r: "resolveFastPath sample_renv signed_reply [SUp 0] sample_q (fallback_data, sample_msg) = Some (out, st', stale)" by auto
  have "valid_sched (length (serversToQuery fallback_data sample_q)) (prefilled fallback_data sample_q @ [SUp 0])"
    by (simp add: fallback_servers sample_q_A valid_sched_def)
  from parallel_priority [OF fallback_not_in_memory r this] obtain x where
    x: "finishPar sample_renv sample_q x (fallback_data, sample_msg) = (out, st')"
      "par_spec (length (serversToQuery fallback_data sample_q))
         (message_of sample_renv signed_reply fallback_data sample_q (serversToQuery fallback_data sample_q)) x" by (elim exE conjE)
  moreover have "length (serversToQuery fallback_data sample_q) = 1" by (simp add: fallback_servers)
  ultimately show ?thesis by (intro exI [of _ x] conjI) (simp_all only: r option.map fst_conv)
qed

theorem complete_schedule_returns_witness:
  "HandleQuestion sample_renv no_reply [SUp 0] sample_q (fallback_data, sample_msg) \<noteq> None"
  by (rule complete_schedule_returns) (auto simp: complete_sched_def sample_q_A fallback_servers)

theorem lost_message_blocks_witness:
  "HandleQuestion sample_renv no_reply [] sample_q (fallback_data, sample_msg) = None"
  by (rule lost_message_blocks [OF sample_q_A(1) fallback_not_in_memory, of "[]" 0])
    (auto simp: fallback_servers valid_sched_def no_reply_def usable_def)
end
