(* ===== verification/ResolverAnswers.thy ===== *)
theory ResolverAnswers
  imports Resolver
begin

text \<open>
  What a query does to the shared data and what answer it gives: the frame and the counters of
  \<^verbatim>\<open>HandleQuestion\<close>, the priority of local records, blocking, validated and bogus upstream answers, the
  confinement of whitelisted names, the lower bound of the lifetime of cached answers, and the
  background refresh.
\<close>

subsection \<open>Frame of the caching functions\<close>

text \<open>The data change by a new cache at most.\<close>

definition cache_update :: "resolver_data \<Rightarrow> resolver_data \<Rightarrow> bool" where
  "cache_update d d' \<longleftrightarrow> d' = d \<or> (\<exists>cache. d' = UpdateCacheRecords cache d)"

lemma UpdateCacheRecords_twice [simp]:
  "UpdateCacheRecords c (UpdateCacheRecords c' d) = UpdateCacheRecords c d"
  by (simp add: UpdateCacheRecords_def storeCacheRecords_def)

lemma cache_update_refl [simp]: "cache_update d d"
  by (simp add: cache_update_def)

lemma cache_update_trans: "cache_update d d' \<Longrightarrow> cache_update d' d'' \<Longrightarrow> cache_update d d''"
  by (auto simp: cache_update_def)

lemma cacheDNSResponse_update: "cache_update d (cacheDNSResponse env rrs d)"
  by (auto simp: cache_update_def cacheDNSResponse_def)

lemma cacheSyntheticRRSetAnswer_update: "cache_update d (cacheSyntheticRRSetAnswer env q answer d)"
  by (auto simp: cache_update_def cacheSyntheticRRSetAnswer_def Let_def)

lemma cacheUpstreamAnswer_update: "cache_update d (cacheUpstreamAnswerAfterSuccess env q answer d)"
  using cache_update_trans [OF cacheDNSResponse_update cacheSyntheticRRSetAnswer_update]
  by (simp add: cacheUpstreamAnswerAfterSuccess_def Let_def cacheDNSResponse_update)

lemma cache_update_steps: "cache_update d d' \<Longrightarrow> data_step\<^sup>*\<^sup>* d d'"
  by (auto simp: cache_update_def intro: step_cache)

text \<open>What a query leaves alone.\<close>

definition same_config :: "resolver_data \<Rightarrow> resolver_data \<Rightarrow> bool" where
  "same_config d d' \<longleftrightarrow> rd_Settings d' = rd_Settings d \<and> rd_DNSServers d' = rd_DNSServers d \<and>
     rd_DNSRecords d' = rd_DNSRecords d \<and> rd_BlockList d' = rd_BlockList d"

lemma same_config_refl [simp]: "same_config d d"
  by (simp add: same_config_def)

lemma cache_update_frame:
  "cache_update d d' \<Longrightarrow> same_config d d' \<and> rd_Stats d' = rd_Stats d \<and> rd_upstreamHealth d' = rd_upstreamHealth d"
  by (auto simp: cache_update_def same_config_def UpdateCacheRecords_def storeCacheRecords_def)

lemma increments_frame [simp]:
  "same_config d (IncrementCacheHits d')= same_config d d'"
  "same_config d (IncrementTotalBlocks d') = same_config d d'"
  "same_config d (IncrementQueriesAnswered d') = same_config d d'"
  "same_config d (RecordUpstreamForwardSuccess now k d') = same_config d d'"
  by (simp_all add: same_config_def data_op_defs)

text \<open>The counters a query may move: answered, cache hits, blocks.\<close>

definition counters :: "resolver_data \<Rightarrow> int \<times> int \<times> int" where
  "counters d = (st_TotalQueriesAnswered (rd_Stats d), st_TotalCacheHits (rd_Stats d), st_TotalBlocks (rd_Stats d))"

lemma counters_simps [simp]:
  "counters (IncrementCacheHits d) = (let (a, h, b) = counters d in (a, h + 1, b))"
  "counters (IncrementTotalBlocks d) = (let (a, h, b) = counters d in (a, h, b + 1))"
  "counters (IncrementQueriesAnswered d) = (let (a, h, b) = counters d in (a + 1, h, b))"
  "counters (RecordUpstreamForwardSuccess now k d) = counters d"
  by (simp_all add: counters_def data_op_defs)

definition step_ok :: "resolver_data \<Rightarrow> query_outcome \<Rightarrow> resolver_data \<Rightarrow> bool" where
  "step_ok d out d' \<longleftrightarrow> data_step\<^sup>*\<^sup>* d d' \<and> same_config d d' \<and>
     counters d' = (let (a, h, b) = counters d in
       (a, h + (if out = OutCache then 1 else 0), b + (if out = OutBlocked then 1 else 0)))"

lemma step_okI:
  assumes "data_step\<^sup>*\<^sup>* d d1" "same_config d d1" "cache_update d1 d'"
    "counters d1 = (let (a, h, b) = counters d in
       (a, h + (if out = OutCache then 1 else 0), b + (if out = OutBlocked then 1 else 0)))"
  shows "step_ok d out d'"
proof -
  have "same_config d1 d'" "counters d' = counters d1" using cache_update_frame [OF assms(3)] by (simp_all add: counters_def)
  then show ?thesis using assms cache_update_steps [OF assms(3)] by (auto simp: step_ok_def same_config_def)
qed

lemma step_ok_refl: "out \<noteq> OutCache \<Longrightarrow> out \<noteq> OutBlocked \<Longrightarrow> cache_update d d' \<Longrightarrow> step_ok d out d'"
  by (rule step_okI) (auto split: prod.split)

lemma step_ok_hit: "step_ok d OutCache (IncrementCacheHits d)"
  by (rule step_okI [of d "IncrementCacheHits d"]) (auto simp: cache_update_def intro: step_hits split: prod.split)

lemma step_ok_block: "step_ok d OutBlocked (IncrementTotalBlocks d)"
  by (rule step_okI [of d "IncrementTotalBlocks d"]) (auto simp: cache_update_def intro: step_blocks split: prod.split)

lemma step_ok_upstream:
  "cache_update (RecordUpstreamForwardSuccess now k d) d' \<Longrightarrow> step_ok d (OutUpstream k') d'"
  by (rule step_okI [of d "RecordUpstreamForwardSuccess now k d"]) (auto intro: step_forward_ok split: prod.split)

lemma processCachedRecords_step: "step_ok d OutLocal (fst (processCachedRecords env q rrs (d, resp)))"
  by (rule step_ok_refl)
    (simp_all add: processCachedRecords_def Let_def cacheDNSResponse_update)

lemma processBlockedDomain_data: "fst (processBlockedDomain env q (d, resp)) = IncrementTotalBlocks d"
  by (simp add: processBlockedDomain_def Let_def split: option.split)

lemma processUpstreamAnswer_data: "cache_update d (fst (processUpstreamAnswer env q msg (d, resp)))"
  by (simp add: processUpstreamAnswer_def Let_def cacheUpstreamAnswer_update split: prod.split)

lemma processCacheRecord_data [simp]: "fst (processCacheRecord r st) = fst st"
  by (simp add: processCacheRecord_def split: prod.split)

lemma processCachedUpstreamRRs_data [simp]: "fst (processCachedUpstreamRRs rrs st) = fst st"
  by (simp add: processCachedUpstreamRRs_def split: prod.split)

lemma finishPar_step:
  assumes "finishPar env q r (d, resp) = (out, st')"
  shows "step_ok d out (fst st')"
proof (cases r)
  case (PLocal rrs)
  then show ?thesis using assms processCachedRecords_step [of d env q rrs resp] by (auto simp: finishPar_def)
next
  case (PCache c)
  then show ?thesis using assms step_ok_hit [of d] by (auto simp: finishPar_def)
next
  case (PUp ep msg)
  then show ?thesis using assms
    by (auto simp: finishPar_def intro: step_ok_upstream processUpstreamAnswer_data)
next
  case PNone
  then show ?thesis using assms by (auto simp: finishPar_def cache_update_def intro: step_ok_refl)
qed

lemma fromMemory_step:
  assumes "fromMemory env q (d, resp) = Some (out, st', stale)"
  shows "step_ok d out (fst st') \<and> (stale \<longrightarrow> out = OutCache)"
  using assms
  by (auto simp: fromMemory_def Let_def processBlockedDomain_data cache_update_def
      intro: processCachedRecords_step step_ok_hit step_ok_block step_ok_refl split: if_splits option.splits)

lemma resolveFastPath_step:
  assumes "resolveFastPath env query sched q (d, resp) = Some (out, st', stale)"
  shows "step_ok d out (fst st') \<and> (stale \<longrightarrow> out = OutCache)"
proof (cases "fromMemory env q (d, resp)")
  case None
  then show ?thesis using assms finishPar_step
    by (auto simp: resolveFastPath_def Let_def) (metis fst_conv prod.collapse)
next
  case (Some x)
  then show ?thesis using assms fromMemory_step by (simp add: resolveFastPath_def)
qed

lemma HandleQuestion_step:
  assumes "HandleQuestion env query sched q (d, resp) = Some (out, (d', resp'), stale)"
  shows "data_step\<^sup>*\<^sup>* d d' \<and> (indexed d \<longrightarrow> indexed d') \<and> same_config d d' \<and>
    counters d' = (st_TotalQueriesAnswered (rd_Stats d) + 1,
      st_TotalCacheHits (rd_Stats d) + (if out = OutCache then 1 else 0),
      st_TotalBlocks (rd_Stats d) + (if out = OutBlocked then 1 else 0)) \<and>
    (stale \<longrightarrow> out = OutCache)"
proof -
  have "\<exists>d1. d' = IncrementQueriesAnswered d1 \<and> step_ok d out d1 \<and> (stale \<longrightarrow> out = OutCache)"
  proof (cases "q_Qtype q = TypePTR")
    case False
    then show ?thesis using assms resolveFastPath_step by (fastforce simp: HandleQuestion_def)
  next
    case True
    show ?thesis
    proof (cases "LookupLocalRRs (rlib env) d (q_Name q) ''PTR'' (drs_AutoBuildPTRFromA (cf_DNSRecordSettings (rd_Settings d)))")
      case Nil
      then show ?thesis using assms True resolveFastPath_step
        by (fastforce simp: HandleQuestion_def handlePTRQuestion_def Let_def)
    next
      case (Cons x xs)
      then have "out = OutLocal" "stale = False"
        "d' = IncrementQueriesAnswered (fst (processCachedRecords env q (x # xs) (d, resp)))"
        using assms True by (auto simp: HandleQuestion_def handlePTRQuestion_def Let_def split: prod.splits)
      then show ?thesis using processCachedRecords_step [of d env q "x # xs" resp] by blast
    qed
  qed
  then obtain d1 where d1: "d' = IncrementQueriesAnswered d1" "step_ok d out d1" "stale \<longrightarrow> out = OutCache" by blast
  then have steps: "data_step\<^sup>*\<^sup>* d d'" by (auto simp: step_ok_def intro: rtranclp.rtrancl_into_rtrancl step_answered)
  then have "indexed d \<longrightarrow> indexed d'" by (induction rule: rtranclp_induct) (auto intro: data_step_indexed)
  moreover have "counters d' = (st_TotalQueriesAnswered (rd_Stats d) + 1,
      st_TotalCacheHits (rd_Stats d) + (if out = OutCache then 1 else 0),
      st_TotalBlocks (rd_Stats d) + (if out = OutBlocked then 1 else 0))"
    using d1(1,2) by (simp add: step_ok_def counters_def IncrementQueriesAnswered_def)
  ultimately show ?thesis using d1 steps by (simp add: step_ok_def)
qed

text \<open>C1.  A query changes the shared data only by steps of the data machine, so the indexes stay
  current; the settings, the servers, the local records and the block list are untouched; exactly
  one query is counted as answered, a hit is counted for exactly the outcome cache and a block for
  exactly the outcome blocked; and a background refresh is asked for only after a cache answer.\<close>

theorem HandleQuestion_frame:
  assumes "HandleQuestion env query sched q (d, resp) = Some (out, (d', resp'), stale)"
  shows "data_step\<^sup>*\<^sup>* d d' \<and> (indexed d \<longrightarrow> indexed d') \<and> same_config d d' \<and>
    counters d' = (st_TotalQueriesAnswered (rd_Stats d) + 1,
      st_TotalCacheHits (rd_Stats d) + (if out = OutCache then 1 else 0),
      st_TotalBlocks (rd_Stats d) + (if out = OutBlocked then 1 else 0)) \<and>
    (stale \<longrightarrow> out = OutCache)"
  using assms by (rule HandleQuestion_step)

lemma no_answer_run:
  "HandleQuestion sample_renv no_reply [SUp 0] sample_q (fallback_data, sample_msg) =
     Some (OutNone, (IncrementQueriesAnswered fallback_data, sample_msg), False)"
  unfolding HandleQuestion_def resolveFastPath_def fallback_not_in_memory
  by (simp add: fallback_servers sample_q_A message_of_def isPTR_def receive_def decide_def main_start_def
      no_reply_def usable_def finishPar_def Let_def)

theorem HandleQuestion_frame_witness:
  "st_TotalQueriesAnswered (rd_Stats (IncrementQueriesAnswered fallback_data)) = st_TotalQueriesAnswered (rd_Stats fallback_data) + 1"
  using HandleQuestion_frame [OF no_answer_run] by (simp add: counters_def)

subsection \<open>Local records come first\<close>

lemma SignLocalAnswer_frame:
  "\<exists>sigs. m_Answer (SignLocalAnswerIfDO L now signer req q rrset resp) = m_Answer resp @ sigs \<and> length sigs \<le> 1"
  by (auto simp: SignLocalAnswerIfDO_def Let_def split: option.split)

text \<open>C2.  Local records win when they are enabled: while the setting \<open>local_records_enabled\<close> is on and the index is
  current, a question (other than PTR) whose name and type have local records is answered with the records
  that the full scan of the records finds, in that order, followed by at most one signature, with the authoritative flag, and no server is asked: the answer is the same
  for every upstream behaviour, every order of arrival, and whatever the cache and the block list hold.\<close>

theorem local_records_win:
  assumes "indexed d" "\<forall>r \<in> set (rd_DNSRecords d). nul_free (dr_Type r)"
    and "nul_free (perfQTypeString (rlib env) q)" "perfQTypeString (rlib env) q \<noteq> ''PTR''" "q_Qtype q \<noteq> TypePTR"
    and "cf_LocalRecordsEnabled (rd_Settings d)"
    and "FindAllRecords (rlib env) (rd_DNSRecords d) (q_Name q) (perfQTypeString (rlib env) q) False = rrs" "rrs \<noteq> []"
  shows "\<exists>d' resp' sigs. HandleQuestion env query sched q (d, resp) = Some (OutLocal, (d', resp'), False) \<and>
    m_Answer resp' = m_Answer resp @ rrs @ sigs \<and> length sigs \<le> 1 \<and> m_Authoritative resp'"
proof -
  have scan: "at_positions (rd_DNSRecords d) (rd_dnsRecordIdx d (dnsCacheIdxKey (q_Name q) (perfQTypeString (rlib env) q))) =
      filter (name_type_match (q_Name q) (perfQTypeString (rlib env) q)) (rd_DNSRecords d)"
    using assms(1) ri.index_scan [OF assms(2,3)] by (simp add: indexed_def buildDNSRecordIndex_def)
  have ne: "rd_DNSRecords d \<noteq> []" using assms(7,8) by (auto simp: FindAllRecords_def)
  then have loc: "lookupLocalNonPTRLocked (rlib env) d (q_Name q) (perfQTypeString (rlib env) q) = rrs"
    using assms(7) by (simp add: lookupLocalNonPTRLocked_def FindAllRecords_scan [OF assms(4)] scan)
  then have fr: "TryFastLocalOrCache (rlib env) d (rv_now env) (q_Name q) (perfQTypeString (rlib env) q) False =
      not_handled\<lparr>fr_handled := True, fr_local := rrs\<rparr>"
    using assms(6,8) ne by (simp add: TryFastLocalOrCache_def)
  obtain sigs where sigs: "m_Answer (SignLocalAnswerIfDO (rv_lib env) (rv_now env) (rv_signer env) (rv_req env) q rrs
      (resp\<lparr>m_Answer := m_Answer resp @ rrs\<rparr>)) = m_Answer resp @ rrs @ sigs" "length sigs \<le> 1"
    using SignLocalAnswer_frame [of "rv_lib env" "rv_now env" "rv_signer env" "rv_req env" q rrs "resp\<lparr>m_Answer := m_Answer resp @ rrs\<rparr>"]
    by auto
  show ?thesis
    unfolding HandleQuestion_def resolveFastPath_def fromMemory_def
    using assms(5,8) sigs by (simp add: fr isPTR_def processCachedRecords_def Let_def)
qed

definition local_data :: resolver_data where
  "local_data = WarmIndexes (fallback_data\<lparr>rd_DNSRecords := [sample_record\<lparr>dr_Name := ''www.lan'', dr_TTL := 60\<rparr>]\<rparr>)"

definition echo_renv :: resolver_env where
  "echo_renv = sample_renv\<lparr>rv_lib := sample_crypto\<lparr>lib_NewRR := (\<lambda>line. Some unsigned_A)\<rparr>\<rparr>"

theorem local_records_win_witness:
  "\<exists>d' resp'. HandleQuestion echo_renv signed_reply [] sample_q (local_data, sample_msg) = Some (OutLocal, (d', resp'), False) \<and>
     m_Answer resp' \<noteq> []"
proof -
  let ?t = "perfQTypeString (rlib echo_renv) sample_q"
  let ?rrs = "FindAllRecords (rlib echo_renv) (rd_DNSRecords local_data) (q_Name sample_q) ?t False"
  have t: "nul_free ?t" "?t \<noteq> ''PTR''" "?rrs \<noteq> []" by code_simp+
  have i: "indexed local_data" by (simp add: local_data_def indexed_def WarmIndexes_def)
  have "\<forall>r \<in> set (rd_DNSRecords local_data). nul_free (dr_Type r)" "cf_LocalRecordsEnabled (rd_Settings local_data)"
    by (simp_all add: local_data_def WarmIndexes_def fallback_data_def empty_data_def sample_record_def empty_record_def nul_free_def)
  from local_records_win [OF i this(1) t(1,2) sample_q_A(1) this(2) refl t(3), of signed_reply "[]" sample_msg]
  obtain d' resp' sigs where r: "HandleQuestion echo_renv signed_reply [] sample_q (local_data, sample_msg) = Some (OutLocal, (d', resp'), False)"
    "m_Answer resp' = m_Answer sample_msg @ ?rrs @ sigs" by (elim exE conjE)
  have "m_Answer resp' \<noteq> []" unfolding r(2) append_is_Nil_conv using t(3) by (simp only: simp_thms)
  with r(1) show ?thesis by (intro exI conjI)
qed

subsection \<open>Blocking\<close>

lemma finishPar_not_blocked: "fst (finishPar env q r st) \<noteq> OutBlocked"
  by (simp add: finishPar_def split: par_result.split)

text \<open>C5.  Blocking is exact: the outcome is blocked precisely when the question is for A or AAAA, neither the
  local records, nor the cache, nor the built-in localhost names answer it, and the name is on the block
  list.  Then no server is asked, the cache is left as it was, and the answer is at most one record.\<close>

theorem blocked_iff:
  assumes "HandleQuestion env query sched q (d, resp) = Some (out, (d', resp'), stale)"
  shows "(out = OutBlocked \<longleftrightarrow>
      q_Qtype q \<in> {TypeA, TypeAAAA} \<and> checkBlocked d q \<and> builtinLocalhostRRs (rlib env) q = [] \<and>
      (let fr = TryFastLocalOrCache (rlib env) d (rv_now env) (q_Name q) (perfQTypeString (rlib env) q) False in
       fr_handled fr \<longrightarrow> fr_local fr = [] \<and> fr_cacheRRs fr = [] \<and> fr_cache fr = None)) \<and>
    (out = OutBlocked \<longrightarrow> rd_CacheRecords d' = rd_CacheRecords d \<and> m_Authoritative resp' \<and>
      (\<exists>rrs. m_Answer resp' = m_Answer resp @ rrs \<and> length rrs \<le> 1) \<and>
      (\<forall>query' sched'. HandleQuestion env query' sched' q (d, resp) = Some (out, (d', resp'), stale)))"
proof (cases "q_Qtype q = TypePTR")
  case True
  then have "out \<noteq> OutBlocked" "q_Qtype q \<notin> {TypeA, TypeAAAA}" using assms finishPar_not_blocked
    by (auto simp: HandleQuestion_def handlePTRQuestion_def resolveFastPath_def fromMemory_def not_handled_def isPTR_def
        TypePTR_def TypeA_def TypeAAAA_def Let_def split: if_splits option.splits)
  then show ?thesis by simp
next
  case False
  show ?thesis
  proof (cases "fromMemory env q (d, resp)")
    case None
    then have "out \<noteq> OutBlocked" using assms False finishPar_not_blocked
      by (auto simp: HandleQuestion_def resolveFastPath_def Let_def)
    moreover have "\<not> (q_Qtype q \<in> {TypeA, TypeAAAA} \<and> checkBlocked d q \<and> builtinLocalhostRRs (rlib env) q = [])"
      using None False by (auto simp: fromMemory_def isPTR_def Let_def split: if_splits option.splits)
    ultimately show ?thesis by blast
  next
    case (Some x)
    have h: "HandleQuestion env query' sched' q (d, resp) = Some (out, (d', resp'), stale)" for query' sched'
      using assms False Some by (simp add: HandleQuestion_def resolveFastPath_def)
    obtain out1 d1 resp1 stale1 where x: "x = (out1, (d1, resp1), stale1)" by (metis surj_pair)
    then have x': "out1 = out" "resp1 = resp'" "stale1 = stale" "d' = IncrementQueriesAnswered d1"
      using assms False Some by (auto simp: HandleQuestion_def resolveFastPath_def)
    show ?thesis using Some False x x' h
      by (auto simp: fromMemory_def isPTR_def processBlockedDomain_def data_op_defs Let_def split: if_splits option.splits)
  qed
qed

theorem blocked_iff_witness:
  "\<exists>d' resp'. HandleQuestion echo_renv no_reply [] sample_q (fallback_data\<lparr>rd_BlockList := Some [''lan'']\<rparr>, sample_msg) =
     Some (OutBlocked, (d', resp'), False) \<and> rd_CacheRecords d' = []"
proof -
  let ?h = "HandleQuestion echo_renv no_reply [] sample_q (fallback_data\<lparr>rd_BlockList := Some [''lan'']\<rparr>, sample_msg)"
  have "map_option (\<lambda>(out, st, stale). (out, stale)) ?h = Some (OutBlocked, False)" by code_simp
  then obtain st where st: "?h = Some (OutBlocked, st, False)" by auto
  obtain d' resp' where "st = (d', resp')" by (cases st)
  note r = st [unfolded this]
  from blocked_iff [OF this] have "rd_CacheRecords d' = rd_CacheRecords (fallback_data\<lparr>rd_BlockList := Some [''lan'']\<rparr>)" by (elim conjE) simp
  then have "rd_CacheRecords d' = []" by (simp add: fallback_data_def empty_data_def)
  with r show ?thesis by (intro exI conjI)
qed

subsection \<open>Upstream answers\<close>

text \<open>C6.  An upstream outcome names a server that was asked and whose reply was usable.  If strict
  validation finds the reply bogus, the client gets SERVFAIL, none of its records, and the cache stays as it
  was; otherwise its records are appended, the code and the AA and AD bits are those of the validated
  message, and the cache is updated from it.\<close>

theorem upstream_outcome:
  assumes "HandleQuestion env query sched q (d, resp) = Some (OutUpstream k, (d', resp'), stale)"
    and "valid_sched (length (serversToQuery d q)) (prefilled d q @ sched)"
  shows "\<exists>ep msg outcome servfail msg'. ep \<in> set (serversToQuery d q) \<and> k = HealthKey ep \<and> usable (query q ep) = Some msg \<and>
    ApplyToUpstreamAnswer (rv_lib env) (rv_now env) (rv_req env) msg (rd_Settings d) = (outcome, servfail, msg') \<and>
    (if servfail
     then rd_CacheRecords d' = rd_CacheRecords d \<and>
          resp' = (case rv_req env of Some req \<Rightarrow> lib_SetRcode (rlib env) resp req RcodeServerFailure
                                    | None \<Rightarrow> resp\<lparr>m_Rcode := RcodeServerFailure\<rparr>)
     else rd_CacheRecords d' = rd_CacheRecords (cacheUpstreamAnswerAfterSuccess env q (m_Answer msg') d) \<and>
          m_Answer resp' = m_Answer resp @ m_Answer msg' \<and> m_Rcode resp' = m_Rcode msg' \<and>
          m_Authoritative resp' = m_Authoritative msg' \<and> m_AuthenticatedData resp' = m_AuthenticatedData msg')"
proof -
  have mem: "fromMemory env q (d, resp) = None"
    using assms(1) by (auto simp: HandleQuestion_def handlePTRQuestion_def resolveFastPath_def fromMemory_def
        Let_def split: if_splits option.splits)
  have "\<exists>stale d1. resolveFastPath env query sched q (d, resp) = Some (OutUpstream k, (d1, resp'), stale) \<and> d' = IncrementQueriesAnswered d1"
    using assms(1) by (auto simp: HandleQuestion_def handlePTRQuestion_def Let_def split: if_splits)
  then obtain d1 stale' where f: "resolveFastPath env query sched q (d, resp) = Some (OutUpstream k, (d1, resp'), stale')"
      and d1: "d' = IncrementQueriesAnswered d1" by blast
  obtain r where r: "par_loop (length (serversToQuery d q))
      (map (message_of env query d q (serversToQuery d q)) (prefilled d q @ sched)) main_start = Some r"
      "finishPar env q r (d, resp) = (OutUpstream k, (d1, resp'))"
    using resolveFastPath_parallel [OF mem f] by auto
  then obtain ep msg where u: "r = PUp ep msg" "k = HealthKey ep"
      "(d1, resp') = processUpstreamAnswer env q msg (RecordUpstreamForwardSuccess (rv_now env) k d, resp)"
    by (auto simp: finishPar_def split: par_result.splits)
  from par_loop_spec [OF well_typed_message_of assms(2) r(1)] u(1)
  have ep: "ep \<in> set (serversToQuery d q)" "usable (query q ep) = Some msg"
    by (auto simp: par_spec_def par_up_def message_of_def)
  obtain outcome servfail msg' where v: "ApplyToUpstreamAnswer (rv_lib env) (rv_now env) (rv_req env) msg (rd_Settings d) = (outcome, servfail, msg')"
    by (metis surj_pair)
  have cache: "rd_CacheRecords (cacheUpstreamAnswerAfterSuccess env q a (RecordUpstreamForwardSuccess now' k' d)) =
      rd_CacheRecords (cacheUpstreamAnswerAfterSuccess env q a d)" for a now' k'
    by (simp add: cacheUpstreamAnswerAfterSuccess_def cacheSyntheticRRSetAnswer_def cacheDNSResponse_def data_op_defs Let_def)
  have fr: "rd_Settings (RecordUpstreamForwardSuccess now' k' d) = rd_Settings d"
    "rd_CacheRecords (RecordUpstreamForwardSuccess now' k' d) = rd_CacheRecords d"
    "rd_CacheRecords (IncrementQueriesAnswered d2) = rd_CacheRecords d2" for now' k' d2
    by (simp_all add: data_op_defs)
  show ?thesis using u(3) ep u(2) v d1
    by (intro exI conjI) (auto simp: processUpstreamAnswer_def fr cache)
qed

lemma signed_reply_run:
  "\<exists>d' resp'. HandleQuestion sample_renv signed_reply [SUp 0] sample_q (fallback_data, sample_msg) =
     Some (OutUpstream (HealthKey \<lparr>ep_Addr = ''9.9.9.9:53'', ep_Transport = ''udp''\<rparr>), (d', resp'), False)"
proof -
  have "m_Rcode signed_answer = RcodeSuccess" "m_Answer signed_answer \<noteq> []"
    by (simp_all add: signed_answer_def sample_msg_def RcodeSuccess_def)
  then show ?thesis
    unfolding HandleQuestion_def resolveFastPath_def fallback_not_in_memory
    by (simp add: fallback_servers sample_q_A message_of_def isPTR_def receive_def decide_def main_start_def
        signed_reply_def usable_def finishPar_def Let_def split: prod.split)
qed

theorem upstream_outcome_witness:
  "\<exists>d' resp' msg. HandleQuestion sample_renv signed_reply [SUp 0] sample_q (fallback_data, sample_msg) =
     Some (OutUpstream (HealthKey \<lparr>ep_Addr = ''9.9.9.9:53'', ep_Transport = ''udp''\<rparr>), (d', resp'), False) \<and>
     usable (signed_reply sample_q \<lparr>ep_Addr = ''9.9.9.9:53'', ep_Transport = ''udp''\<rparr>) = Some msg"
proof -
  obtain d' resp' where r: "HandleQuestion sample_renv signed_reply [SUp 0] sample_q (fallback_data, sample_msg) =
     Some (OutUpstream (HealthKey \<lparr>ep_Addr = ''9.9.9.9:53'', ep_Transport = ''udp''\<rparr>), (d', resp'), False)"
    using signed_reply_run by (elim exE)
  have "valid_sched (length (serversToQuery fallback_data sample_q)) (prefilled fallback_data sample_q @ [SUp 0])"
    by (simp add: fallback_servers sample_q_A valid_sched_def)
  from upstream_outcome [OF r this] obtain ep msg where
    "ep \<in> set (serversToQuery fallback_data sample_q)" "usable (signed_reply sample_q ep) = Some msg" by (elim exE conjE)
  then have "usable (signed_reply sample_q \<lparr>ep_Addr = ''9.9.9.9:53'', ep_Transport = ''udp''\<rparr>) = Some msg"
    by (simp add: fallback_servers)
  with r show ?thesis by (intro exI conjI)
qed

subsection \<open>Whitelisted names\<close>

lemma FilterHealthy_subset: "set (FilterHealthyUpstreamEndpoints h cfg eps) \<subseteq> set eps"
  by (auto simp: FilterHealthyUpstreamEndpoints_def Let_def)

lemma AppendPerServerFallbacks_elem:
  assumes "ep \<in> set (AppendPerServerFallbacks primaries servers)"
  shows "ep \<in> set primaries \<or>
    (\<exists>t \<in> set servers. endpointInPrimaries (ServerToEndpoint t) primaries \<and> ServerFallbackEndpoint t = Some ep)"
proof (cases "primaries = []")
  case True
  then show ?thesis using assms by (simp add: AppendPerServerFallbacks_def)
next
  case False
  have "fallback_inv primaries [] (map HealthKey primaries, primaries)" by (simp add: fallback_inv_def)
  from fallback_inv_fold [OF this, of servers]
  have "fallback_inv primaries servers (fold (fallbackStep primaries) servers (map HealthKey primaries, primaries))" by simp
  then obtain extra where "snd (fold (fallbackStep primaries) servers (map HealthKey primaries, primaries)) = primaries @ extra"
      "\<forall>fe \<in> set extra. \<exists>t \<in> set servers. endpointInPrimaries (ServerToEndpoint t) primaries \<and> ServerFallbackEndpoint t = Some fe"
    unfolding fallback_inv_def by blast
  then show ?thesis using assms False by (auto simp: AppendPerServerFallbacks_def)
qed

text \<open>The row \<open>t\<close> reaches the same address as a row that is active and covers the name.\<close>

definition beside_covering :: "dns_server list \<Rightarrow> gostr \<Rightarrow> dns_server \<Rightarrow> bool" where
  "beside_covering servers name t \<longleftrightarrow>
     (\<exists>s \<in> set servers. srv_Active s \<and> ServerMatchesQuery s name \<and> ep_Addr (ServerToEndpoint t) = ep_Addr (ServerToEndpoint s))"

lemma beside_coveringI:
  "s \<in> set servers \<Longrightarrow> srv_Active s \<Longrightarrow> ServerMatchesQuery s name \<Longrightarrow> beside_covering servers name s"
  by (auto simp: beside_covering_def)

lemma covering_primaries:
  assumes "ep \<in> set (GetUpstreamEndpointsForQuery servers name True)" "s0 \<in> set servers" "ServerMatchesQuery s0 name"
  shows "\<exists>s \<in> set servers. srv_Active s \<and> ServerMatchesQuery s name \<and> ep = ServerToEndpoint s"
  using assms
  by (auto simp: GetUpstreamEndpointsForQuery_def list_ex_iff Let_def filter_empty_conv split: if_splits)

lemma covering_nonempty:
  assumes "s0 \<in> set servers" "srv_Active s0" "ServerMatchesQuery s0 name"
  shows "GetUpstreamEndpointsForQuery servers name True \<noteq> []"
  using assms by (auto simp: GetUpstreamEndpointsForQuery_def list_ex_iff Let_def filter_empty_conv split: if_splits)

text \<open>The servers a covered name may be sent to: an active row that covers the name, or the fallback of a row
  with the address of such a row.\<close>

definition confined :: "dns_server list \<Rightarrow> gostr \<Rightarrow> endpoint \<Rightarrow> bool" where
  "confined servers name ep \<longleftrightarrow>
     (\<exists>s \<in> set servers. srv_Active s \<and> ServerMatchesQuery s name \<and> ep = ServerToEndpoint s) \<or>
     (\<exists>t \<in> set servers. ServerFallbackEndpoint t = Some ep \<and> beside_covering servers name t)"

lemma serversToQuery_confined:
  assumes "s0 \<in> set (rd_DNSServers d)" "srv_Active s0" "ServerMatchesQuery s0 (q_Name q)" "ep \<in> set (serversToQuery d q)"
  shows "confined (rd_DNSServers d) (q_Name q) ep"
proof -
  let ?ss = "rd_DNSServers d" and ?p = "GetUpstreamEndpointsForQuery (rd_DNSServers d) (q_Name q) True"
  have "list_ex (\<lambda>s. srv_Active s \<and> ServerMatchesQuery s (q_Name q)) ?ss" using assms(1-3) by (auto simp: list_ex_iff)
  then have "serversToQuery d q = FilterHealthyUpstreamEndpoints (rd_upstreamHealth d) (rd_Settings d)
      (if length ?p > 0 then AppendPerServerFallbacks ?p ?ss else ?p)"
    by (simp add: serversToQuery_def Let_def)
  then have "ep \<in> set (if length ?p > 0 then AppendPerServerFallbacks ?p ?ss else ?p)"
    using assms(4) FilterHealthy_subset by (metis subsetD)
  then have "ep \<in> set ?p \<or> (\<exists>t \<in> set ?ss. endpointInPrimaries (ServerToEndpoint t) ?p \<and> ServerFallbackEndpoint t = Some ep)"
    using AppendPerServerFallbacks_elem by (auto split: if_splits)
  moreover have "beside_covering ?ss (q_Name q) t" if tp: "endpointInPrimaries (ServerToEndpoint t) ?p" for t
  proof -
    obtain p where p: "p \<in> set ?p" "ep_Addr p = ep_Addr (ServerToEndpoint t)"
      using tp by (auto simp: endpointInPrimaries_def)
    from covering_primaries [OF p(1) assms(1,3)] p(2) show ?thesis by (auto simp: beside_covering_def)
  qed
  ultimately show ?thesis unfolding confined_def using covering_primaries [OF _ assms(1,3)] by blast
qed

lemma message_of_servers:
  assumes "\<forall>ep \<in> set servers. query' q ep = query q ep" "valid_sched (length servers) srcs"
  shows "map (message_of env query' d q servers) srcs = map (message_of env query d q servers) srcs"
  using assms by (auto simp: message_of_def valid_sched_def split: par_src.splits)

lemma HandleQuestion_servers:
  assumes "\<forall>ep \<in> set (serversToQuery d q). query' q ep = query q ep"
    and "valid_sched (length (serversToQuery d q)) (prefilled d q @ sched)"
  shows "HandleQuestion env query' sched q (d, resp) = HandleQuestion env query sched q (d, resp)"
proof -
  have "map (message_of env query' d q (serversToQuery d q)) (prefilled d q @ sched) =
      map (message_of env query d q (serversToQuery d q)) (prefilled d q @ sched)"
    by (rule message_of_servers [where query = query and query' = query', OF assms])
  then have "resolveFastPath env query' sched q (d, resp) = resolveFastPath env query sched q (d, resp)"
    by (simp only: resolveFastPath_def Let_def fst_conv)
  then show ?thesis by (simp add: HandleQuestion_def handlePTRQuestion_def Let_def)
qed

lemma refreshLoop_servers:
  "\<forall>ep \<in> set servers. query' q ep = query q ep \<Longrightarrow> refreshLoop env query' q servers d = refreshLoop env query q servers d"
  by (induction servers) (simp_all split: option.split)

lemma OutUpstream_asked:
  assumes "HandleQuestion env query sched q (d, resp) = Some (OutUpstream k, (d', resp'), stale)"
    and "valid_sched (length (serversToQuery d q)) (prefilled d q @ sched)"
  shows "\<exists>ep \<in> set (serversToQuery d q). k = HealthKey ep"
proof -
  have "fromMemory env q (d, resp) = None"
    using assms(1) by (auto simp: HandleQuestion_def handlePTRQuestion_def resolveFastPath_def fromMemory_def
        Let_def split: if_splits option.splits)
  moreover have "\<exists>st' stale. resolveFastPath env query sched q (d, resp) = Some (OutUpstream k, st', stale)"
    using assms(1) by (auto simp: HandleQuestion_def handlePTRQuestion_def Let_def split: if_splits)
  ultimately obtain r where r: "par_loop (length (serversToQuery d q))
      (map (message_of env query d q (serversToQuery d q)) (prefilled d q @ sched)) main_start = Some r"
      "fst (finishPar env q r (d, resp)) = OutUpstream k"
    by (elim exE) (drule (1) resolveFastPath_parallel, auto)
  then obtain ep msg where u: "r = PUp ep msg" "k = HealthKey ep"
    by (auto simp: finishPar_def Let_def split: par_result.splits prod.splits if_splits option.splits)
  have "par_spec (length (serversToQuery d q)) (message_of env query d q (serversToQuery d q)) r"
    using par_loop_spec [OF well_typed_message_of assms(2) r(1)] .
  then show ?thesis using u by (auto simp: par_spec_def par_up_def message_of_def split: par_msg.splits option.splits if_splits)
qed

text \<open>C15.  A name that the whitelist of an active server covers stays with the servers of its whitelist.  Every
  server that the query asks is an active row that covers the name, or the fallback of a row that has the
  address of such a row; the global fallback server is asked only if it is one of these.  What the other
  servers would answer has no influence on the outcome, the answer and the data of the query, nor on a
  background refresh of the name, and an upstream outcome names one of the servers asked.\<close>

theorem whitelist_confines_query:
  assumes "s0 \<in> set (rd_DNSServers d)" "srv_Active s0" "ServerMatchesQuery s0 (q_Name q)"
    and "valid_sched (length (serversToQuery d q)) (prefilled d q @ sched)"
    and "\<forall>ep. confined (rd_DNSServers d) (q_Name q) ep \<longrightarrow> query' q ep = query q ep"
  shows "(\<forall>ep \<in> set (serversToQuery d q). confined (rd_DNSServers d) (q_Name q) ep) \<and>
    HandleQuestion env query' sched q (d, resp) = HandleQuestion env query sched q (d, resp) \<and>
    backgroundRefresh env query' q d = backgroundRefresh env query q d \<and>
    (\<forall>k d' resp' stale. HandleQuestion env query sched q (d, resp) = Some (OutUpstream k, (d', resp'), stale) \<longrightarrow>
       (\<exists>ep. confined (rd_DNSServers d) (q_Name q) ep \<and> k = HealthKey ep))"
proof -
  let ?p = "GetUpstreamEndpointsForQuery (rd_DNSServers d) (q_Name q) True"
  have asked: "\<forall>ep \<in> set (serversToQuery d q). confined (rd_DNSServers d) (q_Name q) ep"
    using serversToQuery_confined [OF assms(1-3)] by blast
  have "confined (rd_DNSServers d) (q_Name q) ep" if "ep \<in> set ?p" for ep
    using covering_primaries [OF that assms(1,3)] by (auto simp: confined_def)
  moreover have "?p \<noteq> []" using covering_nonempty [OF assms(1-3)] .
  ultimately have "backgroundRefresh env query' q d = backgroundRefresh env query q d"
    using refreshLoop_servers [of "FilterHealthyUpstreamEndpoints (rd_upstreamHealth d) (rd_Settings d) ?p" query' q query env d]
      FilterHealthy_subset [of "rd_upstreamHealth d" "rd_Settings d" ?p] assms(5)
    by (simp add: backgroundRefresh_def Let_def subset_iff)
  moreover have "HandleQuestion env query' sched q (d, resp) = HandleQuestion env query sched q (d, resp)"
    using asked assms(5) by (intro HandleQuestion_servers assms(4)) blast
  ultimately show ?thesis using asked OutUpstream_asked [OF _ assms(4)] by blast
qed

definition corp_data :: resolver_data where
  "corp_data = fallback_data\<lparr>rd_DNSServers := sample_servers\<rparr>"

definition corp_q :: question where
  "corp_q = \<lparr>q_Name = ''api.corp.example'', q_Qtype = 1, q_Qclass = 1\<rparr>"

definition fallback_endpoint :: endpoint where
  "fallback_endpoint = \<lparr>ep_Addr = ''9.9.9.9:53'', ep_Transport = ''udp''\<rparr>"

theorem whitelist_confines_query_witness:
  "sample_endpoint \<in> set (serversToQuery corp_data corp_q) \<and> confined sample_servers ''api.corp.example'' sample_endpoint \<and>
   HandleQuestion sample_renv (\<lambda>q ep. if ep = fallback_endpoint then no_reply q ep else signed_reply q ep) [SUp 0] corp_q (corp_data, sample_msg) =
   HandleQuestion sample_renv signed_reply [SUp 0] corp_q (corp_data, sample_msg)"
proof -
  let ?query' = "\<lambda>q ep. if ep = fallback_endpoint then no_reply q ep else signed_reply q ep"
  have c: "rd_DNSServers corp_data = sample_servers" "q_Name corp_q = ''api.corp.example''"
    by (simp_all add: corp_data_def corp_q_def)
  have s: "sample_servers ! 1 \<in> set (rd_DNSServers corp_data)" by (simp add: c sample_servers_def)
  have h: "srv_Active (sample_servers ! 1)" "ServerMatchesQuery (sample_servers ! 1) (q_Name corp_q)"
    and e: "sample_endpoint \<in> set (serversToQuery corp_data corp_q)"
    and l: "length (serversToQuery corp_data corp_q) = 2"
    and n: "\<not> confined sample_servers ''api.corp.example'' fallback_endpoint" by code_simp+
  have v: "valid_sched (length (serversToQuery corp_data corp_q)) (prefilled corp_data corp_q @ [SUp 0])"
    unfolding l by (simp add: valid_sched_def prefilled_def isPTR_def corp_q_def TypePTR_def)
  have "\<forall>ep. confined (rd_DNSServers corp_data) (q_Name corp_q) ep \<longrightarrow> ?query' corp_q ep = signed_reply corp_q ep"
    using n by (auto simp: c)
  from whitelist_confines_query [where query = signed_reply and query' = ?query', OF s h v this, of sample_renv sample_msg] e
  show ?thesis by (simp add: c)
qed

text \<open>The confinement needs an active row: when the only row whose whitelist covers a name is switched
  off, the row is not asked, but the name is sent to the global fallback server.\<close>

theorem inactive_whitelist_leaks_to_fallback:
  "GetUpstreamEndpointsForQuery [(sample_servers ! 1)\<lparr>srv_Active := False\<rparr>] ''api.corp.example'' True = [] \<and>
   ServerMatchesQuery (sample_servers ! 1) ''api.corp.example'' \<and>
   serversToQuery (fallback_data\<lparr>rd_DNSServers := [(sample_servers ! 1)\<lparr>srv_Active := False\<rparr>]\<rparr>) corp_q =
     [\<lparr>ep_Addr = ''9.9.9.9:53'', ep_Transport = ''udp''\<rparr>]"
  by (intro conjI) code_simp+

subsection \<open>The lifetime of cached answers\<close>

text \<open>Every entry that caching adds or refreshes expires its own TTL after now, and the TTL is at least
  the configured minimum.\<close>

definition ttl_floor :: "gotime \<Rightarrow> u32 \<Rightarrow> cache_record \<Rightarrow> bool" where
  "ttl_floor now minTTL c \<longleftrightarrow>
     minTTL \<le> dr_TTL (cr_DNSRecord c) \<and> cr_Expiry c = now + int (unat (dr_TTL (cr_DNSRecord c))) * Second"

lemma upsert_elem:
  "x \<in> set (upsert same upd new xs) \<Longrightarrow> x \<in> set xs \<or> x = new \<or> (\<exists>y \<in> set xs. same new y \<and> x = upd new y)"
proof (cases "find_idx (same new) xs")
  case (Some i)
  assume "x \<in> set (upsert same upd new xs)"
  then have "x = upd new (xs ! i) \<or> x \<in> set xs"
    using Some by (auto simp: upsert_def dest: set_update_subset_insert [THEN subsetD])
  then show ?thesis using find_idx_SomeD [OF Some] by auto
qed (auto simp: upsert_def)

lemma Cache_Add_floor:
  "c \<in> set (Cache_Add L now cache r minTTL) \<Longrightarrow> c \<in> set cache \<or> ttl_floor now minTTL c"
  unfolding Cache_Add_def
  by (drule upsert_elem) (auto simp: ttl_floor_def new_cache_record_def effective_ttl_max Let_def)

lemma Cache_Add_fold_floor:
  "c \<in> set (fold (\<lambda>r cache. Cache_Add L now cache r minTTL) rrs cache) \<Longrightarrow> c \<in> set cache \<or> ttl_floor now minTTL c"
  by (induction rrs arbitrary: cache) (auto dest: Cache_Add_floor)

lemma rrset_ttl_floor: "minTTL \<le> rrset_ttl minTTL answer"
  by (auto simp: rrset_ttl_def word_gt_0 Let_def)

lemma cacheDNSResponse_floor:
  "c \<in> set (rd_CacheRecords (cacheDNSResponse env rrs d)) \<Longrightarrow>
   c \<in> set (rd_CacheRecords d) \<or> ttl_floor (rv_now env) (minCacheTTL (rd_Settings d)) c"
  by (auto simp: cacheDNSResponse_def data_op_defs split: if_splits dest: Cache_Add_fold_floor)

lemma cacheSynthetic_floor:
  "c \<in> set (rd_CacheRecords (cacheSyntheticRRSetAnswer env q answer d)) \<Longrightarrow>
   c \<in> set (rd_CacheRecords d) \<or> ttl_floor (rv_now env) (minCacheTTL (rd_Settings d)) c"
  by (auto simp: cacheSyntheticRRSetAnswer_def data_op_defs ttl_floor_def rrset_ttl_floor Let_def
      split: if_splits option.splits dest!: set_update_subset_insert [THEN subsetD])

text \<open>Whatever an upstream server answers, a cache entry that caching its answer creates or refreshes
  has a TTL of at least the minimum and expires exactly that TTL from now; all other entries of the new
  cache were there before.  The minimum is 600 seconds when the setting is 0, and the setting, clamped
  to 32 bits, otherwise.\<close>

theorem cached_ttl_floor:
  assumes "c \<in> set (rd_CacheRecords (cacheUpstreamAnswerAfterSuccess env q answer d))" "c \<notin> set (rd_CacheRecords d)"
  shows "minCacheTTL (rd_Settings d) \<le> dr_TTL (cr_DNSRecord c) \<and>
    cr_Expiry c = rv_now env + int (unat (dr_TTL (cr_DNSRecord c))) * Second \<and>
    minCacheTTL (rd_Settings d) = (if cf_MinCacheTTLSeconds (rd_Settings d) = 0 then 600
      else IntToUint32Clamp (cf_MinCacheTTLSeconds (rd_Settings d)))"
proof -
  have s: "rd_Settings (cacheDNSResponse env answer d) = rd_Settings d"
    using cache_update_frame [OF cacheDNSResponse_update] by (auto simp: same_config_def)
  have "ttl_floor (rv_now env) (minCacheTTL (rd_Settings d)) c"
    using assms cacheDNSResponse_floor cacheSynthetic_floor [of c env q answer "cacheDNSResponse env answer d"]
    by (auto simp: cacheUpstreamAnswerAfterSuccess_def s Let_def split: if_splits)
  then show ?thesis by (simp add: ttl_floor_def minCacheTTL_def)
qed

theorem cached_ttl_floor_witness:
  "\<exists>c. c \<in> set (rd_CacheRecords (cacheUpstreamAnswerAfterSuccess sample_renv (corp_q\<lparr>q_Qtype := 16\<rparr>) [sample_answer 30] fallback_data)) \<and>
     600 \<le> dr_TTL (cr_DNSRecord c)"
proof -
  let ?cs = "rd_CacheRecords (cacheUpstreamAnswerAfterSuccess sample_renv (corp_q\<lparr>q_Qtype := 16\<rparr>) [sample_answer 30] fallback_data)"
  have "?cs \<noteq> []" by code_simp
  then have c: "hd ?cs \<in> set ?cs" by (rule hd_in_set)
  have "hd ?cs \<notin> set (rd_CacheRecords fallback_data)" and m: "minCacheTTL (rd_Settings fallback_data) = 600"
    by (simp_all add: fallback_data_def empty_data_def minCacheTTL_def empty_Config_def)
  from cached_ttl_floor [OF c this(1)] have "600 \<le> dr_TTL (cr_DNSRecord (hd ?cs))" unfolding m by (rule conjunct1)
  with c show ?thesis by (intro exI conjI)
qed

text \<open>The TTL under which an answer of several records is cached is not the smallest one when a record
  with TTL 0 is among them: the loop takes a zero for "not yet set" and starts over.\<close>

theorem rrset_ttl_skips_past_zero:
  "rrset_min_ttl [sample_answer 60, sample_answer 0, sample_answer 300] = 300 \<and>
   rrset_ttl 1 [sample_answer 60, sample_answer 0, sample_answer 300] = 300"
  by code_simp

subsection \<open>The background refresh\<close>

lemma upsert_nonempty: "upsert same upd new xs \<noteq> []"
  by (cases xs) (auto simp: upsert_def split: option.split)

lemma Cache_Add_fold_nonempty:
  "rrs \<noteq> [] \<Longrightarrow> fold (\<lambda>r cache. Cache_Add L now cache r minTTL) rrs cache \<noteq> []"
  by (induction rrs arbitrary: cache rule: rev_induct) (auto simp: Cache_Add_def upsert_nonempty)

lemma cacheUpstreamAnswer_nonempty:
  assumes "rrs \<noteq> []" "cf_CacheRecords (rd_Settings d)"
  shows "rd_CacheRecords (cacheUpstreamAnswerAfterSuccess env q rrs d) \<noteq> []"
proof -
  have c: "rd_CacheRecords (cacheDNSResponse env rrs d) \<noteq> []"
    using assms by (simp add: cacheDNSResponse_def data_op_defs Cache_Add_fold_nonempty)
  then have "rd_CacheRecords (cacheSyntheticRRSetAnswer env q rrs (cacheDNSResponse env rrs d)) \<noteq> []"
    by (auto simp: cacheSyntheticRRSetAnswer_def data_op_defs Let_def split: option.split)
  with c show ?thesis by (simp add: cacheUpstreamAnswerAfterSuccess_def Let_def)
qed

definition strict_data :: resolver_data where
  "strict_data = fallback_data\<lparr>rd_Settings := (rd_Settings fallback_data)\<lparr>cf_DNSSECValidate := True, cf_DNSSECValidateStrict := True\<rparr>\<rparr>"

definition forged_renv :: resolver_env where
  "forged_renv = sample_renv\<lparr>rv_lib := sample_crypto\<lparr>lib_Verify := (\<lambda>sig k rs. False)\<rparr>\<rparr>"

lemma forged_answer_bogus:
  "ApplyToUpstreamAnswer (rv_lib forged_renv) (rv_now forged_renv) (rv_req forged_renv) signed_answer (rd_Settings strict_data) =
     (OutcomeBogus, True, signed_answer)"
  by (simp add: ApplyToUpstreamAnswer_def signed_answer_def sample_msg_def sample_crypto_def collectRRSIGs_def
      collectDNSKEYs_def sig_ok_def rrsigTimeValid_def rrsetForSignature_def findDNSKEY_def sig_of_def sample_hdr_def
      unsigned_A_def TypeRRSIG_def EqualFold_def strict_data_def fallback_data_def forged_renv_def sample_renv_def Let_def)

lemma strict_refresh_servers:
  "FilterHealthyUpstreamEndpoints (rd_upstreamHealth strict_data) (rd_Settings strict_data)
     (let servers = GetUpstreamEndpointsForQuery (rd_DNSServers strict_data) (q_Name sample_q) True in
      if length servers = 0 \<and> cf_FallbackServerIP (rd_Settings strict_data) \<noteq> [] \<and> cf_FallbackServerPort (rd_Settings strict_data) \<noteq> []
      then [FallbackEndpoint (cf_FallbackServerIP (rd_Settings strict_data)) (cf_FallbackServerPort (rd_Settings strict_data))
              (cf_FallbackServerTransport (rd_Settings strict_data))] else servers) =
   [\<lparr>ep_Addr = ''9.9.9.9:53'', ep_Transport = ''udp''\<rparr>]"
  by code_simp

text \<open>The background refresh caches answers without validating them: under strict validation an answer
  whose signature does not verify is refused by the query path and leaves the data alone, but the refresh
  stores it in the cache, from where the next query is answered.\<close>

theorem refresh_caches_bogus_answer:
  "ApplyToUpstreamAnswer (rv_lib forged_renv) (rv_now forged_renv) (rv_req forged_renv) signed_answer (rd_Settings strict_data) =
     (OutcomeBogus, True, signed_answer) \<and>
   fst (processUpstreamAnswer forged_renv sample_q signed_answer (strict_data, sample_msg)) = strict_data \<and>
   rd_CacheRecords strict_data = [] \<and>
   backgroundRefresh forged_renv signed_reply sample_q strict_data =
     cacheUpstreamAnswerAfterSuccess forged_renv sample_q (m_Answer signed_answer) strict_data \<and>
   rd_CacheRecords (backgroundRefresh forged_renv signed_reply sample_q strict_data) \<noteq> []"
proof (intro conjI)
  show "fst (processUpstreamAnswer forged_renv sample_q signed_answer (strict_data, sample_msg)) = strict_data"
    by (simp add: processUpstreamAnswer_def forged_answer_bogus)
  show c: "rd_CacheRecords strict_data = []" by (simp add: strict_data_def fallback_data_def empty_data_def)
  have "m_Rcode signed_answer = RcodeSuccess" "m_Answer signed_answer \<noteq> []"
    by (simp_all add: signed_answer_def sample_msg_def RcodeSuccess_def)
  then show r: "backgroundRefresh forged_renv signed_reply sample_q strict_data =
      cacheUpstreamAnswerAfterSuccess forged_renv sample_q (m_Answer signed_answer) strict_data"
    using strict_refresh_servers unfolding backgroundRefresh_def Let_def
    by (simp add: signed_reply_def usable_def del: One_nat_def)
  have "cf_CacheRecords (rd_Settings strict_data)" by (simp add: strict_data_def fallback_data_def empty_data_def)
  then show "rd_CacheRecords (backgroundRefresh forged_renv signed_reply sample_q strict_data) \<noteq> []"
    unfolding r using \<open>m_Answer signed_answer \<noteq> []\<close> by (intro cacheUpstreamAnswer_nonempty)
qed (rule forged_answer_bogus)

end
