(* ===== verification/ResolverRace.thy ===== *)
theory ResolverRace
  imports Resolver
begin

text \<open>
  The goroutines of \<^verbatim>\<open>resolveFastPath\<close> (\<^verbatim>\<open>resolver/resolver.go\<close>) as a state machine: a goroutine per source that
  sends its message into a buffered channel, the expiry of the context, upstream goroutines that may
  choose the expired context instead of the channel, and the receive loop.  Every run of the machine is
  a schedule of the loop of theory \<open>Resolver\<close>; no goroutine ever blocks on the channel; as long as no
  upstream goroutine drops its message every run ends in a decision; otherwise the loop may wait forever.
\<close>

record race_state =
  rs_pending :: "par_src set"
  rs_chan :: "par_src list"
  rs_expired :: bool
  rs_main :: "par_result + main_state"

definition sources :: "nat \<Rightarrow> par_src set" where
  "sources n = {SLocal, SCache} \<union> SUp ` {..<n}"

definition race_start :: "nat \<Rightarrow> par_src list \<Rightarrow> race_state" where
  "race_start n pre = \<lparr>rs_pending = sources n - set pre, rs_chan = pre, rs_expired = False, rs_main = Inr main_start\<rparr>"

text \<open>The capacity of the channel is \<^verbatim>\<open>2 + nUp\<close>.  A result of the loop cancels the context.\<close>

inductive work_step :: "nat \<Rightarrow> (par_src \<Rightarrow> par_msg) \<Rightarrow> race_state \<Rightarrow> race_state \<Rightarrow> bool" for n f where
  send: "src \<in> rs_pending s \<Longrightarrow> length (rs_chan s) < 2 + n \<Longrightarrow>
    work_step n f s (s\<lparr>rs_pending := rs_pending s - {src}, rs_chan := rs_chan s @ [src]\<rparr>)"
| drop: "SUp i \<in> rs_pending s \<Longrightarrow> rs_expired s \<Longrightarrow>
    work_step n f s (s\<lparr>rs_pending := rs_pending s - {SUp i}\<rparr>)"
| recv: "rs_main s = Inr ms \<Longrightarrow> rs_chan s = src # rest \<Longrightarrow>
    work_step n f s (s\<lparr>rs_chan := rest, rs_main := receive n (f src) ms,
      rs_expired := (rs_expired s \<or> (\<exists>r. receive n (f src) ms = Inl r))\<rparr>)"

inductive race_step :: "nat \<Rightarrow> (par_src \<Rightarrow> par_msg) \<Rightarrow> race_state \<Rightarrow> race_state \<Rightarrow> bool" for n f where
  work: "work_step n f s s' \<Longrightarrow> race_step n f s s'"
| timeout: "\<not> rs_expired s \<Longrightarrow> race_step n f s (s\<lparr>rs_expired := True\<rparr>)"

inductive_cases work_stepE: "work_step n f s s'"
inductive_cases race_stepE: "race_step n f s s'"

subsection \<open>The invariant\<close>

text \<open>The loop on the sources whose messages it has received.\<close>

fun par_run :: "nat \<Rightarrow> (par_src \<Rightarrow> par_msg) \<Rightarrow> par_src list \<Rightarrow> main_state \<Rightarrow> par_result + main_state" where
  "par_run n f [] ms = Inr ms"
| "par_run n f (src # srcs) ms = (case receive n (f src) ms of Inl r \<Rightarrow> Inl r | Inr ms' \<Rightarrow> par_run n f srcs ms')"

lemma par_run_snoc:
  "par_run n f srcs ms = Inr ms' \<Longrightarrow> par_run n f (srcs @ [src]) ms = receive n (f src) ms'"
  by (induction srcs arbitrary: ms) (auto split: sum.splits)

lemma par_run_loop: "par_run n f srcs ms = Inl r \<longleftrightarrow> par_loop n (map f srcs) ms = Some r"
  by (induction srcs arbitrary: ms) (auto split: sum.splits)

definition race_inv :: "nat \<Rightarrow> (par_src \<Rightarrow> par_msg) \<Rightarrow> par_src list \<Rightarrow> race_state \<Rightarrow> bool" where
  "race_inv n f got s \<longleftrightarrow>
     par_run n f got main_start = rs_main s \<and> distinct (got @ rs_chan s) \<and>
     set (got @ rs_chan s) \<inter> rs_pending s = {} \<and> set (got @ rs_chan s) \<union> rs_pending s \<subseteq> sources n \<and>
     (\<not> rs_expired s \<longrightarrow> set (got @ rs_chan s) \<union> rs_pending s = sources n)"

lemma race_inv_start: "distinct pre \<Longrightarrow> set pre \<subseteq> sources n \<Longrightarrow> race_inv n f [] (race_start n pre)"
  by (auto simp: race_inv_def race_start_def)

lemma race_inv_work:
  assumes "work_step n f s s'" "race_inv n f got s"
  shows "\<exists>got'. race_inv n f got' s'"
  using assms(1)
proof cases
  case (send src)
  then have "race_inv n f got s'" using assms(2) by (auto simp: race_inv_def)
  then show ?thesis by blast
next
  case (drop i)
  then have "race_inv n f got s'" using assms(2) by (auto simp: race_inv_def)
  then show ?thesis by blast
next
  case (recv ms src rest)
  then have "race_inv n f (got @ [src]) s'" using assms(2)
    by (auto simp: race_inv_def par_run_snoc)
  then show ?thesis by blast
qed

lemma race_inv_step: "race_step n f s s' \<Longrightarrow> race_inv n f got s \<Longrightarrow> \<exists>got'. race_inv n f got' s'"
  by (auto elim!: race_stepE dest: race_inv_work) (auto simp: race_inv_def)

lemma race_inv_reachable:
  assumes "(race_step n f)\<^sup>*\<^sup>* (race_start n pre) s" "distinct pre" "set pre \<subseteq> sources n"
  shows "\<exists>got. race_inv n f got s"
  using assms(1)
proof (induction rule: rtranclp_induct)
  case base
  then show ?case using race_inv_start [OF assms(2,3)] by blast
qed (auto dest: race_inv_step)

lemma finite_sources: "finite (sources n)" and card_sources: "card (sources n) = 2 + n"
proof -
  show "finite (sources n)" by (simp add: sources_def)
  have "card (SUp ` {..<n}) = n" by (simp add: card_image inj_on_def)
  then show "card (sources n) = 2 + n" by (simp add: sources_def image_iff)
qed

lemma prefilled_sources: "distinct (prefilled d q)" "set (prefilled d q) \<subseteq> sources n"
  by (auto simp: prefilled_def sources_def)

lemma race_inv_room:
  assumes "race_inv n f got s" "src \<in> rs_pending s"
  shows "length (rs_chan s) < 2 + n"
proof -
  have "insert src (set (rs_chan s)) \<subseteq> sources n" "src \<notin> set (rs_chan s)" "distinct (rs_chan s)"
    using assms by (auto simp: race_inv_def)
  then have "Suc (card (set (rs_chan s))) \<le> card (sources n)"
    using card_mono [OF finite_sources, of "insert src (set (rs_chan s))" n] by simp
  then show ?thesis using \<open>distinct (rs_chan s)\<close> by (simp add: card_sources distinct_card)
qed

text \<open>As long as nothing is lost, a loop that is still undecided has a message to come.\<close>

lemma par_run_undecided:
  assumes "par_run n f srcs ms = Inr ms'" "well_typed f" "finite S" "distinct srcs" "S \<inter> set srcs = {}" "undecided n S ms"
  shows "undecided n (S \<union> set srcs) ms'"
  using assms
proof (induction srcs arbitrary: S ms)
  case (Cons src srcs)
  then obtain ms1 where r: "receive n (f src) ms = Inr ms1" "par_run n f srcs ms1 = Inr ms'"
    by (auto split: sum.splits)
  have "undecided n (insert src S) ms1"
    using receive_undecided [OF Cons.prems(6,2) _ Cons.prems(3) r(1)] Cons.prems(5) by simp
  then show ?case using Cons.IH [OF r(2) Cons.prems(2), of "insert src S"] Cons.prems(3-5) by simp
qed simp

lemma undecided_not_all: "undecided n (sources n) ms \<Longrightarrow> ms_upstreamSeen ms = n \<and> False"
proof -
  assume u: "undecided n (sources n) ms"
  have "{i. SUp i \<in> sources n} = {..<n}" by (auto simp: sources_def)
  then show ?thesis using u by (auto simp: undecided_def sources_def)
qed

lemma race_inv_progress:
  assumes "race_inv n f got s" "well_typed f" "set (got @ rs_chan s) \<union> rs_pending s = sources n" "rs_main s = Inr ms"
  shows "rs_pending s \<noteq> {} \<or> rs_chan s \<noteq> []"
proof (rule ccontr)
  assume "\<not> ?thesis"
  then have "set got = sources n" "distinct got" "par_run n f got main_start = Inr ms"
    using assms by (auto simp: race_inv_def)
  then show False
    using par_run_undecided [of n f got main_start ms "{}"] assms(2) undecided_start undecided_not_all by auto
qed

subsection \<open>Properties\<close>

text \<open>Every run ends: a step uses up a goroutine, a message, or the timer.\<close>

definition race_measure :: "race_state \<Rightarrow> nat" where
  "race_measure s = 2 * card (rs_pending s) + length (rs_chan s) + (if rs_expired s then 0 else 1)"

lemma race_step_measure:
  assumes "race_step n f s s'" "finite (rs_pending s)"
  shows "race_measure s' < race_measure s"
proof -
  have c: "card (rs_pending s - {x}) < card (rs_pending s)" if "x \<in> rs_pending s" for x
    using assms(2) that by (rule card_Diff1_less)
  from assms(1) show ?thesis
  proof cases
    case work
    then show ?thesis
    proof cases
      case (send src)
      then show ?thesis using c [of src] by (simp add: race_measure_def)
    next
      case (drop i)
      then show ?thesis using c [of "SUp i"] by (simp add: race_measure_def)
    qed (simp add: race_measure_def)
  qed (simp add: race_measure_def)
qed

abbreviation query_race :: "resolver_env \<Rightarrow> upstream \<Rightarrow> resolver_data \<Rightarrow> question \<Rightarrow> race_state \<Rightarrow> race_state \<Rightarrow> bool" where
  "query_race env query d q \<equiv>
     race_step (length (serversToQuery d q)) (message_of env query d q (serversToQuery d q))"

abbreviation query_start :: "resolver_data \<Rightarrow> question \<Rightarrow> race_state" where
  "query_start d q \<equiv> race_start (length (serversToQuery d q)) (prefilled d q)"

text \<open>C3.  For every interleaving of the goroutines, the timer and the loop: a result of the loop is the result
  of the loop on the order in which it received the messages, at most one per source, and so respects the
  priorities; a goroutine with a message to send never blocks; and the run cannot go on forever.\<close>

theorem race_sound:
  assumes "(query_race env query d q)\<^sup>*\<^sup>* (query_start d q) s"
  shows "(\<forall>r. rs_main s = Inl r \<longrightarrow>
      (\<exists>srcs. valid_sched (length (serversToQuery d q)) srcs \<and>
         par_loop (length (serversToQuery d q)) (map (message_of env query d q (serversToQuery d q)) srcs) main_start = Some r) \<and>
      par_spec (length (serversToQuery d q)) (message_of env query d q (serversToQuery d q)) r) \<and>
    (\<forall>src \<in> rs_pending s. length (rs_chan s) < 2 + length (serversToQuery d q)) \<and>
    (\<forall>s'. query_race env query d q s s' \<longrightarrow> race_measure s' < race_measure s)"
proof -
  let ?n = "length (serversToQuery d q)" and ?f = "message_of env query d q (serversToQuery d q)"
  obtain got where inv: "race_inv ?n ?f got s"
    using race_inv_reachable [OF assms prefilled_sources] by blast
  have v: "valid_sched ?n got" using inv by (auto simp: race_inv_def valid_sched_def sources_def)
  have loop: "par_loop ?n (map ?f got) main_start = Some r" if "rs_main s = Inl r" for r
    using inv that by (simp add: race_inv_def flip: par_run_loop)
  have "finite (rs_pending s)" using inv finite_subset [OF _ finite_sources] by (auto simp: race_inv_def)
  then show ?thesis
    using v loop par_loop_spec [OF well_typed_message_of v] race_inv_room [OF inv] race_step_measure by blast
qed

text \<open>A goroutine drops its message when it leaves the pending ones without writing to the channel.  A run
  without such a step may still see the context expire.\<close>

definition drops :: "race_state \<Rightarrow> race_state \<Rightarrow> bool" where
  "drops s s' \<longleftrightarrow> rs_pending s' \<noteq> rs_pending s \<and> rs_chan s' = rs_chan s"

definition lossless_step :: "nat \<Rightarrow> (par_src \<Rightarrow> par_msg) \<Rightarrow> race_state \<Rightarrow> race_state \<Rightarrow> bool" where
  "lossless_step n f s s' \<longleftrightarrow> race_step n f s s' \<and> \<not> drops s s'"

definition lossless_inv :: "nat \<Rightarrow> (par_src \<Rightarrow> par_msg) \<Rightarrow> race_state \<Rightarrow> bool" where
  "lossless_inv n f s \<longleftrightarrow> (\<exists>got. race_inv n f got s \<and> set (got @ rs_chan s) \<union> rs_pending s = sources n)"

lemma lossless_inv_start: "distinct pre \<Longrightarrow> set pre \<subseteq> sources n \<Longrightarrow> lossless_inv n f (race_start n pre)"
  unfolding lossless_inv_def
  by (intro exI [of _ "[]"] conjI race_inv_start) (auto simp: race_start_def)

lemma lossless_inv_step:
  assumes "lossless_step n f s s'" "lossless_inv n f s"
  shows "lossless_inv n f s'"
proof -
  obtain got where inv: "race_inv n f got s" and all: "set (got @ rs_chan s) \<union> rs_pending s = sources n"
    using assms(2) by (auto simp: lossless_inv_def)
  have step: "race_step n f s s'" and keep: "\<not> drops s s'" using assms(1) by (auto simp: lossless_step_def)
  from step show ?thesis
  proof cases
    case work
    then show ?thesis
    proof cases
      case (send src)
      then have "race_inv n f got s' \<and> set (got @ rs_chan s') \<union> rs_pending s' = sources n"
        using inv all by (auto simp: race_inv_def)
      then show ?thesis unfolding lossless_inv_def by blast
    next
      case (drop i)
      then have "rs_pending s' \<noteq> rs_pending s" by auto
      with drop keep show ?thesis by (simp add: drops_def)
    next
      case (recv ms src rest)
      then have "race_inv n f (got @ [src]) s' \<and> set ((got @ [src]) @ rs_chan s') \<union> rs_pending s' = sources n"
        using inv all by (auto simp: race_inv_def par_run_snoc)
      then show ?thesis unfolding lossless_inv_def by blast
    qed
  next
    case timeout
    then have "race_inv n f got s' \<and> set (got @ rs_chan s') \<union> rs_pending s' = sources n"
      using inv all by (auto simp: race_inv_def)
    then show ?thesis unfolding lossless_inv_def by blast
  qed
qed

lemma lossless_inv_finite: "lossless_inv n f s \<Longrightarrow> finite (rs_pending s)"
  using finite_subset [OF _ finite_sources] by (auto simp: lossless_inv_def race_inv_def)

lemma lossless_progress:
  assumes "lossless_inv n f s" "well_typed f" "rs_main s = Inr ms"
  shows "\<exists>s'. work_step n f s s' \<and> \<not> drops s s'"
proof -
  obtain got where inv: "race_inv n f got s" and all: "set (got @ rs_chan s) \<union> rs_pending s = sources n"
    using assms(1) by (auto simp: lossless_inv_def)
  from race_inv_progress [OF inv assms(2) all assms(3)] show ?thesis
  proof
    assume "rs_pending s \<noteq> {}"
    then obtain src where src: "src \<in> rs_pending s" by blast
    from work_step.send [OF this race_inv_room [OF inv this], of f] show ?thesis
      by (intro exI conjI) (assumption, simp add: drops_def)
  next
    assume "rs_chan s \<noteq> []"
    then obtain src rest where c: "rs_chan s = src # rest" by (auto simp: neq_Nil_conv)
    from work_step.recv [OF assms(3) c, of n f] show ?thesis
      by (intro exI conjI) (assumption, simp add: drops_def)
  qed
qed

lemma lossless_run:
  assumes "(lossless_step n f ^^ k) s t" "lossless_inv n f s"
  shows "lossless_inv n f t \<and> k + race_measure t \<le> race_measure s"
  using assms
proof (induction k arbitrary: t)
  case (Suc k)
  then obtain u where u: "(lossless_step n f ^^ k) s u" "lossless_step n f u t" by auto
  have inv: "lossless_inv n f u" and k: "k + race_measure u \<le> race_measure s" using Suc.IH [OF u(1)] Suc.prems(2) by auto
  have "race_measure t < race_measure u"
    using u(2) race_step_measure lossless_inv_finite [OF inv] by (auto simp: lossless_step_def)
  then show ?case using k lossless_inv_step [OF u(2) inv] by simp
qed auto

lemma lossless_decides:
  assumes "lossless_inv n f s" "well_typed f"
  shows "\<exists>t r. (\<lambda>u v. work_step n f u v \<and> \<not> drops u v)\<^sup>*\<^sup>* s t \<and> rs_main t = Inl r"
  using assms(1)
proof (induction "race_measure s" arbitrary: s rule: less_induct)
  case less
  show ?case
  proof (cases "rs_main s")
    case (Inr ms)
    then obtain u where u: "work_step n f s u" "\<not> drops s u" using lossless_progress [OF less.prems assms(2)] by blast
    then have l: "lossless_step n f s u" by (simp add: lossless_step_def race_step.work)
    have "race_measure u < race_measure s"
      using race_step_measure [OF race_step.work [OF u(1)] lossless_inv_finite [OF less.prems]] .
    then obtain t r where "(\<lambda>u v. work_step n f u v \<and> \<not> drops u v)\<^sup>*\<^sup>* u t" "rs_main t = Inl r"
      using less.hyps [of u] lossless_inv_step [OF l less.prems] by blast
    then show ?thesis using u converse_rtranclp_into_rtranclp [of "\<lambda>u v. work_step n f u v \<and> \<not> drops u v" s u t] by blast
  qed blast
qed

lemma race_measure_start: "set pre \<subseteq> sources n \<Longrightarrow> distinct pre \<Longrightarrow> race_measure (race_start n pre) \<le> 2 * n + 5"
  using card_Diff_subset [of "set pre" "sources n"] card_mono [OF finite_sources, of "set pre" n]
  by (simp add: race_measure_def race_start_def card_sources distinct_card)

abbreviation query_lossless :: "resolver_env \<Rightarrow> upstream \<Rightarrow> resolver_data \<Rightarrow> question \<Rightarrow> race_state \<Rightarrow> race_state \<Rightarrow> bool" where
  "query_lossless env query d q \<equiv>
     lossless_step (length (serversToQuery d q)) (message_of env query d q (serversToQuery d q))"

abbreviation query_work :: "resolver_env \<Rightarrow> upstream \<Rightarrow> resolver_data \<Rightarrow> question \<Rightarrow> race_state \<Rightarrow> race_state \<Rightarrow> bool" where
  "query_work env query d q \<equiv>
     work_step (length (serversToQuery d q)) (message_of env query d q (serversToQuery d q))"

text \<open>C4.  Every run in which no upstream goroutine drops its message for the expired context ends in a
  decision of the loop, whether or not the context expires: such a run has at most \<open>2 n + 5\<close> steps for \<open>n\<close>
  servers asked; a run that has stopped has decided; and as long as the loop has not decided, a
  goroutine can send or the loop can receive without help of the timer, and going on like this reaches a
  decision.\<close>

theorem race_progress:
  assumes run: "(query_lossless env query d q ^^ k) (query_start d q) s"
  shows "k \<le> 2 * length (serversToQuery d q) + 5 \<and>
    ((\<forall>s'. \<not> query_lossless env query d q s s') \<longrightarrow> (\<exists>r. rs_main s = Inl r)) \<and>
    (\<forall>ms. rs_main s = Inr ms \<longrightarrow> (\<exists>s'. query_work env query d q s s' \<and> \<not> drops s s')) \<and>
    (\<exists>t r. (\<lambda>u v. query_work env query d q u v \<and> \<not> drops u v)\<^sup>*\<^sup>* s t \<and> rs_main t = Inl r)"
proof -
  let ?n = "length (serversToQuery d q)" and ?f = "message_of env query d q (serversToQuery d q)"
  have inv: "lossless_inv ?n ?f s" and k: "k \<le> race_measure (query_start d q)"
    using lossless_run [OF run] lossless_inv_start [OF prefilled_sources] by force+
  have p: "\<exists>s'. work_step ?n ?f s s' \<and> \<not> drops s s'" if "rs_main s = Inr ms" for ms
    using lossless_progress [OF inv well_typed_message_of that] .
  have "k \<le> 2 * ?n + 5" using k race_measure_start [OF prefilled_sources(2,1)] by (rule order_trans)
  moreover have "\<exists>r. rs_main s = Inl r" if stuck: "\<forall>s'. \<not> lossless_step ?n ?f s s'"
  proof (cases "rs_main s")
    case (Inr ms)
    from p [OF this] stuck show ?thesis by (auto simp: lossless_step_def intro: race_step.work)
  qed blast
  ultimately show ?thesis using p lossless_decides [OF inv well_typed_message_of] by blast
qed

lemma drop_all:
  assumes "finite A" "rs_pending s = SUp ` A" "rs_expired s"
  shows "(race_step n f)\<^sup>*\<^sup>* s (s\<lparr>rs_pending := {}\<rparr>)"
  using assms
proof (induction A arbitrary: s rule: finite_induct)
  case (insert i A)
  let ?s = "s\<lparr>rs_pending := rs_pending s - {SUp i}\<rparr>"
  have "work_step n f s ?s" using insert.prems by (intro work_step.drop) auto
  moreover have "rs_pending ?s = SUp ` A" using insert.prems(1) insert.hyps(2) by auto
  then have "(race_step n f)\<^sup>*\<^sup>* ?s (?s\<lparr>rs_pending := {}\<rparr>)" using insert.IH [of ?s] insert.prems(2) by simp
  ultimately show ?case by (auto intro: converse_rtranclp_into_rtranclp race_step.work)
next
  case empty
  then have "s\<lparr>rs_pending := {}\<rparr> = s" by (cases s) simp
  then show ?case by simp
qed

text \<open>The handler can hang: for a question that is not PTR, whenever at least one server is asked, some
  run that lets the context expire ends in a state in which the loop has not returned and no step is
  possible any more.\<close>

theorem race_deadlock:
  assumes "q_Qtype q \<noteq> TypePTR" "serversToQuery d q \<noteq> []"
  shows "\<exists>s ms. (query_race env query d q)\<^sup>*\<^sup>* (query_start d q) s \<and> rs_main s = Inr ms \<and>
    (\<forall>s'. \<not> query_race env query d q s s')"
proof -
  let ?n = "length (serversToQuery d q)" and ?f = "message_of env query d q (serversToQuery d q)"
  let ?m = "\<lambda>l c. main_start\<lparr>ms_localDone := l, ms_cacheDone := c\<rparr>"
  let ?st = "\<lambda>p ch m. \<lparr>rs_pending = p, rs_chan = ch, rs_expired = True, rs_main = Inr m\<rparr>"
  have pre: "prefilled d q = [SLocal, SCache]" using assms(1) by (simp add: prefilled_def isPTR_def)
  have pend: "sources ?n - set (prefilled d q) = SUp ` {..<?n}" by (auto simp: pre sources_def)
  have "query_race env query d q (query_start d q) (?st (SUp ` {..<?n}) [SLocal, SCache] main_start)"
    using race_step.timeout [of "query_start d q" ?n ?f] by (simp add: race_start_def pend) (simp add: pre)
  moreover have "receive ?n (?f SLocal) main_start = Inr (?m True False)"
    using assms(1) by (simp add: receive_def message_of_def isPTR_def decide_def main_start_def)
  then have "query_race env query d q (?st (SUp ` {..<?n}) [SLocal, SCache] main_start) (?st (SUp ` {..<?n}) [SCache] (?m True False))"
    using work_step.recv [of "?st (SUp ` {..<?n}) [SLocal, SCache] main_start" main_start SLocal "[SCache]" ?n ?f]
    by (intro race_step.work) simp
  moreover have "receive ?n (?f SCache) (?m True False) = Inr (?m True True)"
    using assms by (simp add: receive_def message_of_def isPTR_def decide_def main_start_def)
  then have "query_race env query d q (?st (SUp ` {..<?n}) [SCache] (?m True False)) (?st (SUp ` {..<?n}) [] (?m True True))"
    using work_step.recv [of "?st (SUp ` {..<?n}) [SCache] (?m True False)" "?m True False" SCache "[]" ?n ?f]
    by (intro race_step.work) simp
  moreover have "(query_race env query d q)\<^sup>*\<^sup>* (?st (SUp ` {..<?n}) [] (?m True True)) (?st {} [] (?m True True))"
    using drop_all [of "{..<?n}" "?st (SUp ` {..<?n}) [] (?m True True)" ?n ?f] by simp
  ultimately have "(query_race env query d q)\<^sup>*\<^sup>* (query_start d q) (?st {} [] (?m True True))"
    by (meson converse_rtranclp_into_rtranclp)
  moreover have "\<not> query_race env query d q (?st {} [] (?m True True)) s'" for s'
    by (auto elim!: race_stepE work_stepE)
  ultimately show ?thesis by (intro exI conjI allI) (assumption, simp_all)
qed

lemma signed_usable: "usable (signed_reply q ep) = Some signed_answer"
  by (simp add: usable_def signed_reply_def signed_answer_def sample_msg_def RcodeSuccess_def)

lemma sample_race_recv:
  assumes "receive 1 (message_of sample_renv signed_reply fallback_data sample_q (serversToQuery fallback_data sample_q) src) ms = m"
  shows "work_step 1 (message_of sample_renv signed_reply fallback_data sample_q (serversToQuery fallback_data sample_q))
    \<lparr>rs_pending = {}, rs_chan = src # rest, rs_expired = False, rs_main = Inr ms\<rparr>
    \<lparr>rs_pending = {}, rs_chan = rest, rs_expired = (\<exists>r. m = Inl r), rs_main = m\<rparr>"
  using work_step.recv [of "\<lparr>rs_pending = {}, rs_chan = src # rest, rs_expired = False, rs_main = Inr ms\<rparr>" ms src rest 1
    "message_of sample_renv signed_reply fallback_data sample_q (serversToQuery fallback_data sample_q)"] assms by simp

theorem race_sound_witness:
  "\<exists>s r. (query_race sample_renv signed_reply fallback_data sample_q)\<^sup>*\<^sup>* (query_start fallback_data sample_q) s \<and>
     rs_main s = Inl r \<and> par_spec 1 (message_of sample_renv signed_reply fallback_data sample_q (serversToQuery fallback_data sample_q)) r"
proof -
  let ?f = "message_of sample_renv signed_reply fallback_data sample_q (serversToQuery fallback_data sample_q)"
  let ?m = "\<lambda>l c. main_start\<lparr>ms_localDone := l, ms_cacheDone := c\<rparr>"
  let ?ep = "\<lparr>ep_Addr = ''9.9.9.9:53'', ep_Transport = ''udp''\<rparr>"
  let ?st = "\<lambda>ch m. \<lparr>rs_pending = {}, rs_chan = ch, rs_expired = (\<exists>r. m = Inl r), rs_main = m\<rparr>"
  have n: "length (serversToQuery fallback_data sample_q) = 1" by (simp add: fallback_servers)
  have start: "query_start fallback_data sample_q =
      \<lparr>rs_pending = {SUp 0}, rs_chan = [SLocal, SCache], rs_expired = False, rs_main = Inr main_start\<rparr>"
    by (auto simp: race_start_def n sample_q_A sources_def)
  have "work_step 1 ?f (query_start fallback_data sample_q) (?st [SLocal, SCache, SUp 0] (Inr main_start))"
    using work_step.send [of "SUp 0" "query_start fallback_data sample_q" 1 ?f] unfolding start by simp
  moreover have "receive 1 (?f SLocal) main_start = Inr (?m True False)"
    by (simp add: receive_def message_of_def isPTR_def sample_q_A decide_def main_start_def)
  note r1 = sample_race_recv [OF this, of "[SCache, SUp 0]"]
  moreover have "receive 1 (?f SCache) (?m True False) = Inr (?m True True)"
    by (simp add: receive_def message_of_def isPTR_def sample_q_A decide_def main_start_def)
  note r2 = sample_race_recv [OF this, of "[SUp 0]"]
  moreover have "receive 1 (?f (SUp 0)) (?m True True) = Inl (PUp ?ep signed_answer)"
    by (simp add: receive_def message_of_def decide_def main_start_def fallback_servers signed_usable)
  note r3 = sample_race_recv [OF this, of "[]"]
  ultimately have "(work_step 1 ?f)\<^sup>*\<^sup>* (query_start fallback_data sample_q) (?st [] (Inl (PUp ?ep signed_answer)))"
    by (simp add: converse_rtranclp_into_rtranclp)
  then have run: "(query_race sample_renv signed_reply fallback_data sample_q)\<^sup>*\<^sup>* (query_start fallback_data sample_q)
      (?st [] (Inl (PUp ?ep signed_answer)))"
    unfolding n using mono_rtranclp [of "work_step 1 ?f" "race_step 1 ?f"] race_step.work by blast
  from race_sound [OF run] have "par_spec 1 ?f (PUp ?ep signed_answer)" unfolding n by simp
  with run show ?thesis by (intro exI conjI) (assumption, simp_all)
qed

theorem race_progress_witness:
  "\<exists>t r. (\<lambda>u v. query_work sample_renv no_reply fallback_data sample_q u v \<and> \<not> drops u v)\<^sup>*\<^sup>*
     (query_start fallback_data sample_q) t \<and> rs_main t = Inl r"
  using race_progress [where env = sample_renv and query = no_reply and d = fallback_data and q = sample_q and k = 0
      and s = "query_start fallback_data sample_q"] by simp

theorem race_deadlock_witness:
  "\<exists>s ms. (query_race sample_renv no_reply fallback_data sample_q)\<^sup>*\<^sup>* (query_start fallback_data sample_q) s \<and> rs_main s = Inr ms"
proof -
  have "serversToQuery fallback_data sample_q \<noteq> []" by (simp add: fallback_servers)
  from race_deadlock [OF sample_q_A(1) this, of sample_renv no_reply] show ?thesis by (elim exE conjE) (intro exI conjI)
qed

end
