(* ===== verification/RecordSources.thy ===== *)
theory RecordSources
  imports ResolverData "HOL-Library.Product_Lexorder" "HOL-Library.Multiset" "HOL-Library.AList"
begin

text \<open>
  Where the records come from: zone files (\<^verbatim>\<open>zones/parse.go\<close>), directories of zone files and
  \<^verbatim>\<open>named.conf\<close> (\<^verbatim>\<open>data/zones_load.go\<close>) and the other sources (\<^verbatim>\<open>data/records_source.go\<close>).  The zone parser
  of the DNS library is an argument: it turns a file into a sequence of resource records, some of them nil,
  and possibly an error.  What the file system, an HTTP fetch and the git library answer are arguments too.
\<close>

subsection \<open>Zone files\<close>

record ParseResult =
  pr_Records :: "dns_record list"
  pr_Warnings :: "gostr list"

definition zone_record :: "gostr \<Rightarrow> gostr \<Rightarrow> gostr \<Rightarrow> u32 \<Rightarrow> dns_record" where
  "zone_record name t v ttl = empty_record\<lparr>dr_Name := name, dr_Type := t, dr_Value := v, dr_TTL := ttl\<rparr>"

text \<open>The record, if the type is supported, and a warning (empty for none).\<close>

definition rrToRecord :: "dnslib \<Rightarrow> rr \<Rightarrow> dns_record option \<times> gostr" where
  "rrToRecord L r =
     (let h = rr_Hdr r;
          name = canonicalizeRecordNameForStorage (h_Name h);
          ttl = h_Ttl h;
          ty = lib_TypeToString L (h_Rrtype h);
          good = (\<lambda>t v. (Some (zone_record name t v ttl), []))
      in if ty = [] then (None, ''skip unknown RR type '' @ dec (unat (h_Rrtype h)) @ '' at '' @ name)
         else case rr_Data r of
           RD_A ip \<Rightarrow> if ip = [] then (None, []) else good ''A'' (IP_String ip)
         | RD_AAAA ip \<Rightarrow> if ip = [] then (None, []) else good ''AAAA'' (IP_String ip)
         | RD_CNAME t \<Rightarrow> good ''CNAME'' (TrimSpace t)
         | RD_NS n \<Rightarrow> good ''NS'' (TrimSpace n)
         | RD_PTR p \<Rightarrow> good ''PTR'' (TrimSpace p)
         | RD_MX pref mx \<Rightarrow> good ''MX'' (dec (unat pref) @ '' '' @ TrimSpace mx)
         | RD_TXT txt \<Rightarrow> if txt = [] then (None, []) else good ''TXT'' (Join '' '' (map Quote txt))
         | RD_SOA ns mbox serial refresh retry expire minttl \<Rightarrow>
             good ''SOA'' (Join '' '' ([TrimSpace ns, TrimSpace mbox] @ map (\<lambda>n. dec (unat n)) [serial, refresh, retry, expire, minttl]))
         | _ \<Rightarrow> (None, ''skip unsupported type '' @ ty @ '' at '' @ name))"

type_synonym zone_stream = "rr option list \<times> gostr option"

definition parseStep :: "dnslib \<Rightarrow> rr option \<Rightarrow> ParseResult \<Rightarrow> ParseResult" where
  "parseStep L ro out = (case ro of
      None \<Rightarrow> out
    | Some r \<Rightarrow>
        (case rrToRecord L r of (rec, warn) \<Rightarrow>
           out\<lparr>pr_Records := pr_Records out @ (case rec of Some x \<Rightarrow> [x] | None \<Rightarrow> []),
               pr_Warnings := pr_Warnings out @ (if warn \<noteq> [] then [warn] else [])\<rparr>))"

definition ParseReader :: "dnslib \<Rightarrow> zone_stream \<Rightarrow> ParseResult \<times> gostr option" where
  "ParseReader L zp = (fold (parseStep L) (fst zp) \<lparr>pr_Records = [], pr_Warnings = []\<rparr>, snd zp)"

definition ParseFile :: "dnslib \<Rightarrow> gostr + zone_stream \<Rightarrow> ParseResult \<times> gostr option" where
  "ParseFile L file = (case file of
      Inl err \<Rightarrow> (\<lparr>pr_Records = [], pr_Warnings = []\<rparr>, Some err)
    | Inr zp \<Rightarrow> ParseReader L zp)"

subsection \<open>\<^verbatim>\<open>named.conf\<close>\<close>

text \<open>The two regular expressions: \<^verbatim>\<open>(?i)\bzone\s+"[^"]*"\s*\{\<close> and \<^verbatim>\<open>(?i)file\s+"([^"]+)"\<close>.  Neither can match in
  two ways at one position.\<close>

definition re_space :: "char \<Rightarrow> bool" where
  "re_space c \<longleftrightarrow> of_char c \<in> {9 :: nat, 10, 12, 13, 32}"

definition re_word :: "char \<Rightarrow> bool" where
  "re_word c = (let n = (of_char c :: nat) in 48 \<le> n \<and> n \<le> 57 \<or> 65 \<le> n \<and> n \<le> 90 \<or> 97 \<le> n \<and> n \<le> 122 \<or> n = 95)"

text \<open>A keyword, white space, and a quoted string: its content and the text behind it.\<close>

definition match_quoted :: "gostr \<Rightarrow> gostr \<Rightarrow> (gostr \<times> gostr) option" where
  "match_quoted kw s =
     (if EqualFold (take (length kw) s) kw \<and> drop (length kw) s \<noteq> [] \<and> re_space (hd (drop (length kw) s)) then
        (case dropWhile re_space (drop (length kw) s) of
           c # s' \<Rightarrow>
             if c = CHR ''\"'' then
               (case dropWhile (\<lambda>c. c \<noteq> CHR ''\"'') s' of
                  q # rest \<Rightarrow> Some (takeWhile (\<lambda>c. c \<noteq> CHR ''\"'') s', rest)
                | [] \<Rightarrow> None)
             else None
         | [] \<Rightarrow> None)
      else None)"

definition match_zone :: "gostr \<Rightarrow> gostr option" where
  "match_zone s = (case match_quoted ''zone'' s of
      None \<Rightarrow> None
    | Some (n, rest) \<Rightarrow> (case dropWhile re_space rest of c # body \<Rightarrow> if c = CHR ''{'' then Some body else None | [] \<Rightarrow> None))"

text \<open>The leftmost match of a zone statement; the flag says whether the character before is a word
  character.\<close>

fun find_zone :: "bool \<Rightarrow> gostr \<Rightarrow> gostr option" where
  "find_zone w [] = None"
| "find_zone w (c # cs) =
     (case (if w then None else match_zone (c # cs)) of Some body \<Rightarrow> Some body | None \<Rightarrow> find_zone (re_word c) cs)"

fun find_file :: "gostr \<Rightarrow> gostr option" where
  "find_file [] = None"
| "find_file (c # cs) =
     (case match_quoted ''file'' (c # cs) of
        Some (n, rest) \<Rightarrow> if n \<noteq> [] then Some n else find_file cs
      | None \<Rightarrow> find_file cs)"

text \<open>The text up to the brace that closes the block, and the text behind it.\<close>

fun zone_body :: "nat \<Rightarrow> gostr \<Rightarrow> gostr \<Rightarrow> (gostr \<times> gostr) option" where
  "zone_body depth acc [] = None"
| "zone_body depth acc (c # cs) =
     (if c = CHR ''{'' then zone_body (Suc depth) (c # acc) cs
      else if c = CHR ''}'' then (if depth = 1 then Some (rev acc, cs) else zone_body (depth - 1) (c # acc) cs)
      else zone_body depth (c # acc) cs)"

lemma match_quoted_shorter: "match_quoted kw s = Some (n, rest) \<Longrightarrow> length rest < length s"
proof -
  assume m: "match_quoted kw s = Some (n, rest)"
  let ?a = "dropWhile re_space (drop (length kw) s)"
  have "\<exists>s' q. ?a = CHR ''\"'' # s' \<and> dropWhile (\<lambda>c. c \<noteq> CHR ''\"'') s' = q # rest"
    using m by (auto simp: match_quoted_def split: if_splits list.splits)
  then obtain s' q where s': "?a = CHR ''\"'' # s'" "dropWhile (\<lambda>c. c \<noteq> CHR ''\"'') s' = q # rest" by blast
  have "length ?a \<le> length s" using length_dropWhile_le [of re_space "drop (length kw) s"] by simp
  moreover have "length rest < length s'" using s'(2) length_dropWhile_le [of "\<lambda>c. c \<noteq> CHR ''\"''" s'] by simp
  ultimately show ?thesis using s'(1) by simp
qed

lemma find_zone_shorter: "find_zone w s = Some body \<Longrightarrow> length body < length s"
proof (induction w s rule: find_zone.induct)
  case (2 w c cs)
  show ?case
  proof (cases "if w then None else match_zone (c # cs)")
    case None
    then show ?thesis using 2 by simp
  next
    case (Some b)
    then obtain n rest where m: "match_quoted ''zone'' (c # cs) = Some (n, rest)" "\<exists>x. dropWhile re_space rest = x # b"
      by (auto simp: match_zone_def split: if_splits option.splits list.splits)
    then have "length b < length rest" using length_dropWhile_le [of re_space rest] by auto
    then show ?thesis using match_quoted_shorter [OF m(1)] Some 2 by simp
  qed
qed simp

lemma zone_body_shorter: "zone_body depth acc s = Some (b, rest) \<Longrightarrow> length rest < length s"
  by (induction depth acc s rule: zone_body.induct) (auto split: if_splits)

text \<open>The paths of all zone blocks; \<open>None\<close>: unbalanced braces.\<close>

function zone_paths :: "gostr \<Rightarrow> gostr \<Rightarrow> gostr list option" where
  "zone_paths baseDir conf = (case find_zone False conf of
      None \<Rightarrow> Some []
    | Some body \<Rightarrow>
        (case zone_body 1 [] body of
           None \<Rightarrow> None
         | Some (block, rest) \<Rightarrow>
             let p = (case find_file block of Some f \<Rightarrow> TrimSpace f | None \<Rightarrow> []) in
             map_option ((@) (if p = [] then [] else [Clean (if IsAbs p then p else JoinPath [baseDir, p])])) (zone_paths baseDir rest)))"
  by pat_completeness auto
termination
proof (relation "measure (\<lambda>(b, s). length s)", goal_cases)
  case (2 baseDir conf body x block rest)
  then show ?case using find_zone_shorter [of False conf body] zone_body_shorter [of 1 "[]" body block rest] by simp
qed simp

declare zone_paths.simps [simp del]

definition Dir :: "gostr \<Rightarrow> gostr" where
  "Dir p = Clean (rev (dropWhile (\<lambda>c. c \<noteq> CHR ''/'') (rev p)))"

definition zoneFilesFromNamedConf :: "gostr \<Rightarrow> gostr + gostr \<Rightarrow> gostr + gostr list" where
  "zoneFilesFromNamedConf namedConfPath file = (case file of
      Inl err \<Rightarrow> Inl (''bind_dir named_conf: read '' @ Quote namedConfPath @ '': '' @ err)
    | Inr conf \<Rightarrow>
        (case zone_paths (Dir namedConfPath) conf of
           None \<Rightarrow> Inl (''bind_dir named_conf: unbalanced braces in '' @ Quote namedConfPath)
         | Some paths \<Rightarrow>
             if paths = [] then Inl (''bind_dir named_conf: no zone file entries found in '' @ Quote namedConfPath)
             else Inr (remdups_adj (sort paths))))"

subsection \<open>A directory of zone files\<close>

definition canonical_record :: "dns_record \<Rightarrow> dns_record" where
  "canonical_record r = r\<lparr>dr_Name := canonicalizeRecordNameForStorage (dr_Name r)\<rparr>"

definition bindDirRecordKey :: "dns_record \<Rightarrow> gostr" where
  "bindDirRecordKey r =
     normalizeRecordNameKey (dr_Name r) @ ''|'' @ normalizeRecordType (dr_Type r) @ ''|'' @
     normalizeRecordValueKey (dr_Type r) (dr_Value r)"

text \<open>What the order of the result compares.\<close>

definition bind_order :: "dns_record \<Rightarrow> gostr \<times> gostr \<times> gostr" where
  "bind_order r = (dr_Name r, dr_Type r, dr_Value r)"

text \<open>What a directory load asks of the file system: the state of a path, the files a pattern matches, the
  text of a file, and the zone parser on a file.\<close>

record zone_fs =
  zf_isDir :: "gostr \<Rightarrow> gostr + bool"
  zf_glob :: "gostr \<Rightarrow> gostr + gostr list"
  zf_text :: "gostr \<Rightarrow> gostr + gostr"
  zf_zone :: "gostr \<Rightarrow> gostr + zone_stream"

definition bindDirFiles :: "zone_fs \<Rightarrow> RecordsSourceConfig option \<Rightarrow> gostr + gostr list" where
  "bindDirFiles F rso = (case rso of
      None \<Rightarrow> Inl ''records_source is nil''
    | Some rs \<Rightarrow>
        let dir = TrimSpace (rsc_Location rs);
            pattern = (if TrimSpace (rsc_IncludePattern rs) = [] then ''*.db'' else TrimSpace (rsc_IncludePattern rs));
            nc = TrimSpace (rsc_NamedConf rs)
        in if dir = [] then Inl ''bind_dir: location is empty''
           else case zf_isDir F dir of
             Inl err \<Rightarrow> Inl (''bind_dir: stat '' @ Quote dir @ '': '' @ err)
           | Inr isDir \<Rightarrow>
               if \<not> isDir then Inl (''bind_dir: '' @ Quote dir @ '' is not a directory'')
               else case (if nc \<noteq> [] then zoneFilesFromNamedConf nc (zf_text F nc)
                          else case zf_glob F (JoinPath [dir, pattern]) of
                            Inl err \<Rightarrow> Inl (''bind_dir: glob: '' @ err)
                          | Inr files \<Rightarrow> Inr (sort files)) of
                 Inl err \<Rightarrow> Inl err
               | Inr files \<Rightarrow>
                   if files = [] then
                     Inl (''bind_dir: no zone files matched (dir='' @ Quote dir @ '' pattern='' @ Quote pattern @
                          '' named_conf='' @ Quote nc @ '')'')
                   else Inr files)"

definition bindDirInsert :: "dns_record \<Rightarrow> (gostr \<times> dns_record) list \<Rightarrow> (gostr \<times> dns_record) list" where
  "bindDirInsert r byKey = (let rec = canonical_record r in AList.update (bindDirRecordKey rec) rec byKey)"

fun bindDirMerge ::
    "dnslib \<Rightarrow> zone_fs \<Rightarrow> gostr list \<Rightarrow> (gostr \<times> dns_record) list \<Rightarrow> gostr + (gostr \<times> dns_record) list" where
  "bindDirMerge L F [] byKey = Inr byKey"
| "bindDirMerge L F (f # fs) byKey =
     (case ParseFile L (zf_zone F f) of
        (res, Some err) \<Rightarrow> Inl (''bind_dir: parse '' @ Quote f @ '': '' @ err)
      | (res, None) \<Rightarrow> bindDirMerge L F fs (fold bindDirInsert (pr_Records res) byKey))"

text \<open>The loop over the map visits its entries in any order: \<open>visit\<close> says in which.\<close>

definition loadRecordsBindDir ::
    "dnslib \<Rightarrow> zone_fs \<Rightarrow> (dns_record list \<Rightarrow> dns_record list) \<Rightarrow> RecordsSourceConfig option \<Rightarrow> gostr + dns_record list" where
  "loadRecordsBindDir L F visit rso = (case bindDirFiles F rso of
      Inl err \<Rightarrow> Inl err
    | Inr files \<Rightarrow>
        (case bindDirMerge L F files [] of
           Inl err \<Rightarrow> Inl err
         | Inr byKey \<Rightarrow> Inr (sort_key bind_order (visit (map snd byKey)))))"

text \<open>The map of the records read so far: distinct keys, each entry under its own key.\<close>

definition keyed_map :: "(gostr \<times> dns_record) list \<Rightarrow> bool" where
  "keyed_map m \<longleftrightarrow> distinct (map fst m) \<and> (\<forall>k r. map_of m k = Some r \<longrightarrow> k = bindDirRecordKey r)"

lemma keyed_map_insert: "keyed_map m \<Longrightarrow> keyed_map (bindDirInsert r m)"
  by (auto simp: keyed_map_def bindDirInsert_def Let_def AList.distinct_update AList.update_conv' split: if_splits)

lemma keyed_map_fold: "keyed_map m \<Longrightarrow> keyed_map (fold bindDirInsert rs m)"
  by (induction rs arbitrary: m) (simp_all add: keyed_map_insert)

lemma keyed_map_merge: "bindDirMerge L F files m = Inr m' \<Longrightarrow> keyed_map m \<Longrightarrow> keyed_map m'"
  by (induction L F files m rule: bindDirMerge.induct) (auto simp: keyed_map_fold split: prod.splits option.splits)

lemma keyed_map_keys: "keyed_map m \<Longrightarrow> map (\<lambda>e. bindDirRecordKey (snd e)) m = map fst m"
  by (auto simp: keyed_map_def)

text \<open>The file records in reading order, and the last one with a key.\<close>

definition zone_records :: "dnslib \<Rightarrow> zone_fs \<Rightarrow> gostr list \<Rightarrow> dns_record list" where
  "zone_records L F files =
     concat (map (\<lambda>f. map canonical_record (pr_Records (fst (ParseFile L (zf_zone F f))))) files)"

definition last_with_key :: "gostr \<Rightarrow> dns_record list \<Rightarrow> dns_record option" where
  "last_with_key k rs = find (\<lambda>r. bindDirRecordKey r = k) (rev rs)"

lemma last_with_key_Nil [simp]: "last_with_key k [] = None"
  by (simp add: last_with_key_def)

lemma find_append: "find P (xs @ ys) = (case find P xs of Some x \<Rightarrow> Some x | None \<Rightarrow> find P ys)"
  by (induction xs) auto

lemma last_with_key_append:
  "last_with_key k (xs @ ys) = (case last_with_key k ys of Some r \<Rightarrow> Some r | None \<Rightarrow> last_with_key k xs)"
  unfolding last_with_key_def by (simp add: find_append)

lemma last_with_key_Cons:
  "last_with_key k (x # ys) = (case last_with_key k ys of Some r \<Rightarrow> Some r | None \<Rightarrow> if bindDirRecordKey x = k then Some x else None)"
  using last_with_key_append [of k "[x]" ys] by (simp add: last_with_key_def split: option.splits)

lemma map_of_fold_insert:
  "map_of (fold bindDirInsert rs m) k =
     (case last_with_key k (map canonical_record rs) of Some r \<Rightarrow> Some r | None \<Rightarrow> map_of m k)"
  by (induction rs arbitrary: m)
    (auto simp: bindDirInsert_def Let_def AList.update_conv' last_with_key_Cons split: option.splits)

lemma map_of_merge:
  "bindDirMerge L F files m = Inr m' \<Longrightarrow>
     map_of m' k = (case last_with_key k (zone_records L F files) of Some r \<Rightarrow> Some r | None \<Rightarrow> map_of m k)"
proof (induction L F files m rule: bindDirMerge.induct)
  case (1 L F byKey)
  then show ?case by (simp add: zone_records_def)
next
  case (2 L F f fs byKey)
  obtain res where p: "ParseFile L (zf_zone F f) = (res, None)" using 2(2) by (auto split: prod.splits option.splits)
  have z: "zone_records L F (f # fs) = map canonical_record (pr_Records res) @ zone_records L F fs"
    by (simp add: zone_records_def p)
  show ?case using 2 p unfolding z last_with_key_append by (simp add: map_of_fold_insert split: option.splits)
qed

lemma bind_order_key: "bind_order r = bind_order r' \<Longrightarrow> bindDirRecordKey r = bindDirRecordKey r'"
  by (simp add: bind_order_def bindDirRecordKey_def)

lemma keyed_map_inj:
  assumes "keyed_map m"
  shows "inj_on bind_order (set (map snd m))"
proof (rule inj_onI)
  fix r r' assume r: "r \<in> set (map snd m)" "r' \<in> set (map snd m)" "bind_order r = bind_order r'"
  have look: "map_of m (bindDirRecordKey x) = Some x" if "x \<in> set (map snd m)" for x
    using that assms by (auto simp: keyed_map_def)
  have "Some r = map_of m (bindDirRecordKey r')" using look [OF r(1)] bind_order_key [OF r(3)] by metis
  then have "Some r = Some r'" using look [OF r(2)] by (rule trans)
  then show "r = r'" by (rule option.inject [THEN iffD1])
qed

lemma find_by_key:
  assumes "distinct (map bindDirRecordKey rs)" "r \<in> set rs"
  shows "find (\<lambda>x. bindDirRecordKey x = bindDirRecordKey r) rs = Some r"
  using assms by (induction rs) auto

lemma find_keyed_perm:
  assumes "keyed_map m" "set out = set (map snd m)" "distinct (map bindDirRecordKey out)"
  shows "find (\<lambda>r. bindDirRecordKey r = k) out = map_of m k"
proof (cases "map_of m k")
  case None
  then have "k \<notin> bindDirRecordKey ` set out"
    using assms(2) keyed_map_keys [OF assms(1)] by (auto simp: map_of_eq_None_iff image_iff keyed_map_def
      dest!: map_eq_conv [THEN iffD1])
  then show ?thesis using None by (auto simp: find_None_iff)
next
  case (Some r)
  then have "r \<in> set out" "k = bindDirRecordKey r"
    using assms map_of_SomeD [OF Some] by (auto simp: keyed_map_def intro: rev_image_eqI)
  then show ?thesis using find_by_key [OF assms(3)] Some by simp
qed

text \<open>The order in which the map is visited, and which sorting algorithm is used, does not matter.\<close>

lemma visit_irrelevant:
  assumes "keyed_map m" "mset xs = mset (map snd m)" "mset ys = mset xs" "sorted (map bind_order ys)"
  shows "sort_key bind_order xs = ys"
  using assms keyed_map_inj [OF assms(1)] mset_eq_setD [OF assms(2)]
  by (intro sort_key_inj_key_eq) auto

text \<open>C26.  A directory of zone files is loaded deterministically: whatever the order in which the map is
  visited and whichever sorting algorithm arranges the records, the result is sorted by name, type and
  value, has one record per key, and the record of a key is the last one with that key in the files, taken
  in the order of their sorted paths.\<close>

theorem bind_dir_merge:
  assumes "bindDirFiles F rso = Inr files" "loadRecordsBindDir L F visit rso = Inr out"
    and "\<forall>xs. mset (visit xs) = mset xs"
  shows "sorted (map bind_order out) \<and> distinct (map bindDirRecordKey out) \<and>
    find (\<lambda>r. bindDirRecordKey r = k) out = last_with_key k (zone_records L F files) \<and>
    (\<forall>ys. mset ys = mset out \<longrightarrow> sorted (map bind_order ys) \<longrightarrow> ys = out)"
proof -
  obtain m where m: "bindDirMerge L F files [] = Inr m" and out: "out = sort_key bind_order (visit (map snd m))"
    using assms by (auto simp: loadRecordsBindDir_def split: sum.splits)
  have k: "keyed_map m" using keyed_map_merge [OF m] by (simp add: keyed_map_def)
  have perm: "mset out = mset (map snd m)" using out assms(3) by simp
  have "mset (map bindDirRecordKey out) = mset (map fst m)"
    using arg_cong [OF keyed_map_keys [OF k], of mset] perm by (simp add: image_mset.compositionality comp_def)
  then have "distinct (map bindDirRecordKey out) = distinct (map fst m)" by (rule mset_eq_imp_distinct_iff)
  then have d: "distinct (map bindDirRecordKey out)" using k by (simp only: keyed_map_def)
  have "find (\<lambda>r. bindDirRecordKey r = k) out = map_of m k" for k
    using find_keyed_perm [OF k mset_eq_setD [OF perm] d] .
  then show ?thesis using out d map_of_merge [OF m, of k] perm visit_irrelevant [OF k, of "visit (map snd m)"] assms(3)
    by (auto split: option.splits)
qed

definition zone_rr :: "gostr \<Rightarrow> u32 \<Rightarrow> gostr \<Rightarrow> rr" where
  "zone_rr name ttl target = RR \<lparr>h_Name = name, h_Rrtype = 5, h_Class = 1, h_Ttl = ttl\<rparr> (RD_CNAME target)"

definition sample_fs :: zone_fs where
  "sample_fs = \<lparr>zf_isDir = (\<lambda>p. Inr True), zf_glob = (\<lambda>p. Inr [''z/b'', ''z/a'']), zf_text = (\<lambda>p. Inl ''no file''),
     zf_zone = (\<lambda>p. if p = ''z/a'' then Inr ([Some (zone_rr ''h.x.'' 5 ''t.''), None, Some (zone_rr ''a.x.'' 5 ''t.'')], None)
                     else Inr ([Some (zone_rr ''H.x.'' 9 ''t.'')], None))\<rparr>"

definition sample_bind_dir :: RecordsSourceConfig where
  "sample_bind_dir = (file_source ''z'')\<lparr>rsc_Type := RecordsSourceBindDir\<rparr>"

lemma sample_bind_files: "bindDirFiles sample_fs (Some sample_bind_dir) = Inr [''z/a'', ''z/b'']"
  by code_simp

lemma sample_bind_load:
  "loadRecordsBindDir sample_lib sample_fs rev (Some sample_bind_dir) =
     Inr [zone_record ''H.x'' ''CNAME'' ''t.'' 9, zone_record ''a.x'' ''CNAME'' ''t.'' 5]"
  by code_simp

theorem bind_dir_merge_witness:
  "find (\<lambda>r. bindDirRecordKey r = ''h.x|CNAME|t'') [zone_record ''H.x'' ''CNAME'' ''t.'' 9, zone_record ''a.x'' ''CNAME'' ''t.'' 5] =
     last_with_key ''h.x|CNAME|t'' (zone_records sample_lib sample_fs [''z/a'', ''z/b''])"
  using bind_dir_merge [OF sample_bind_files sample_bind_load] by simp

subsection \<open>The other record sources\<close>

definition sanitizeForDir :: "gostr \<Rightarrow> gostr" where
  "sanitizeForDir s0 =
     (let s = TrimPrefix (TrimPrefix (TrimSpace s0) ''https://'') ''http://'';
          s' = map (\<lambda>c. if c = CHR ''/'' \<or> c = CHR '':'' then CHR ''_'' else c) s
      in if s' = [] then ''default'' else s')"

text \<open>A JSON document as the loaders decode it: a missing key gives the empty list.\<close>

record json_doc =
  jd_records :: "dns_record list"
  jd_servers :: "dns_server list"
  jd_cache :: "cache_record list"

definition empty_json :: json_doc where
  "empty_json = \<lparr>jd_records = [], jd_servers = [], jd_cache = []\<rparr>"

text \<open>How fetching a URL ends.\<close>

datatype url_outcome =
    BadRequest gostr | FetchFailed gostr | BadStatus gostr | ReadFailed gostr | BadJSON gostr | Fetched json_doc

definition loadRecordsFromURL :: "url_outcome \<Rightarrow> gostr + dns_record list" where
  "loadRecordsFromURL reply = (case reply of
      BadRequest e \<Rightarrow> Inl (''records url: '' @ e)
    | FetchFailed e \<Rightarrow> Inl (''records url fetch: '' @ e)
    | BadStatus status \<Rightarrow> Inl (''records url: status '' @ status)
    | ReadFailed e \<Rightarrow> Inl (''records url read: '' @ e)
    | BadJSON e \<Rightarrow> Inl (''records url json: '' @ e)
    | Fetched doc \<Rightarrow> Inr (map canonical_record (jd_records doc)))"

text \<open>What the git library and the file system answer: whether the clone exists, how each operation ends
  (an error or nothing), and the file of the work tree: a read error, a decoding error or a document.\<close>

datatype git_stat = GitPresent | GitAbsent | GitStatError gostr
datatype pull_outcome = Pulled | AlreadyUpToDate | PullError gostr

record git_env =
  ge_stat :: git_stat
  ge_clone :: "gostr option"
  ge_open :: "gostr option"
  ge_worktree :: "gostr option"
  ge_pull :: pull_outcome
  ge_file :: "gostr + gostr + json_doc"

definition gitPrepare :: "git_env \<Rightarrow> gostr option" where
  "gitPrepare g = (case ge_stat g of
      GitAbsent \<Rightarrow> map_option ((@) ''records git clone: '') (ge_clone g)
    | GitStatError e \<Rightarrow> Some (''records git: '' @ e)
    | GitPresent \<Rightarrow>
        (case ge_open g of
           Some e \<Rightarrow> Some (''records git open: '' @ e)
         | None \<Rightarrow>
             (case ge_worktree g of
                Some e \<Rightarrow> Some (''records git worktree: '' @ e)
              | None \<Rightarrow> (case ge_pull g of PullError e \<Rightarrow> Some (''records git pull: '' @ e) | _ \<Rightarrow> None))))"

definition loadRecordsFromGit :: "(gostr \<Rightarrow> git_env) \<Rightarrow> gostr \<Rightarrow> gostr + dns_record list" where
  "loadRecordsFromGit git repoURL =
     (let g = git (JoinPath [''dnsplane-records-git'', sanitizeForDir repoURL]) in
      case gitPrepare g of
        Some e \<Rightarrow> Inl e
      | None \<Rightarrow>
          (case ge_file g of
             Inl e \<Rightarrow> Inl (''records git read file: '' @ e)
           | Inr (Inl e) \<Rightarrow> Inl (''records git json: '' @ e)
           | Inr (Inr doc) \<Rightarrow> Inr (map canonical_record (jd_records doc))))"

text \<open>Two repositories can share one clone: the directory is not a function of the whole URL.  The second
  one is then read from the work tree of the first.\<close>

lemma git_clones_collide:
  "loadRecordsFromGit git ''https://h/team/x_y'' = loadRecordsFromGit git ''https://h/team_x/y''"
proof -
  have "sanitizeForDir ''https://h/team/x_y'' = sanitizeForDir ''https://h/team_x/y''" by code_simp
  then show ?thesis by (simp add: loadRecordsFromGit_def)
qed

end
