(* ===== verification/Storage.thy ===== *)
theory Storage
  imports RecordSources
begin

text \<open>
  Loading, saving and start-up in \<^verbatim>\<open>data/data.go\<close>.  The outside world is a record: the files under their
  paths, what the record sources answer, and how a write to a path ends.  A file holds a JSON document or
  something that does not decode; encoding a value and decoding it again gives the value back, which
  \<^verbatim>\<open>encoding/json\<close> promises for strings that are valid UTF-8.  The JSON files, the zone files and the block
  lists are kept apart.  A call that ends the process (\<^verbatim>\<open>fatalResolver\<close>) returns \<open>Inl\<close>.
\<close>

subsection \<open>The files\<close>

datatype file_state = Missing | StatError gostr | Unreadable gostr | Undecodable gostr | JsonDoc json_doc

text \<open>A write succeeds, does not create the file, or breaks off after the file was truncated.\<close>

datatype write_outcome = Written | NotCreated gostr | BrokenOff gostr

record world =
  wd_config :: Config
  wd_file :: "gostr \<Rightarrow> file_state"
  wd_write :: "gostr \<Rightarrow> write_outcome"
  wd_zone_fs :: zone_fs
  wd_visit :: "dns_record list \<Rightarrow> dns_record list"
  wd_url :: "gostr \<Rightarrow> url_outcome"
  wd_git :: "gostr \<Rightarrow> git_env"
  wd_lines :: "gostr \<Rightarrow> gostr + (gostr list \<times> gostr option)"
  wd_list_url :: "gostr \<Rightarrow> gostr + ((nat \<times> gostr) \<times> gostr list \<times> gostr option)"

abbreviation wd_files :: "world \<Rightarrow> FileLocations" where
  "wd_files w \<equiv> cf_FileLocations (wd_config w)"

definition LoadFromJSON :: "world \<Rightarrow> gostr \<Rightarrow> gostr + json_doc" where
  "LoadFromJSON w path = (case wd_file w path of
      Missing \<Rightarrow> Inl (''open '' @ path @ '': no such file or directory'')
    | StatError e \<Rightarrow> Inl e
    | Unreadable e \<Rightarrow> Inl e
    | Undecodable e \<Rightarrow> Inl e
    | JsonDoc doc \<Rightarrow> Inr doc)"

definition writeJSONFile :: "gostr \<Rightarrow> json_doc \<Rightarrow> world \<Rightarrow> world \<times> gostr option" where
  "writeJSONFile path doc w = (case wd_write w path of
      Written \<Rightarrow> (w\<lparr>wd_file := (wd_file w)(path := JsonDoc doc)\<rparr>, None)
    | NotCreated e \<Rightarrow> (w, Some e)
    | BrokenOff e \<Rightarrow> (w\<lparr>wd_file := (wd_file w)(path := Undecodable ''unexpected end of JSON input'')\<rparr>, Some e))"

definition LoadDNSServers :: "world \<Rightarrow> gostr + dns_server list" where
  "LoadDNSServers w = map_sum (\<lambda>e. e) jd_servers (LoadFromJSON w (fl_DNSServerFile (wd_files w)))"

definition SaveDNSServers :: "dns_server list \<Rightarrow> world \<Rightarrow> world \<times> gostr option" where
  "SaveDNSServers servers w = writeJSONFile (fl_DNSServerFile (wd_files w)) (empty_json\<lparr>jd_servers := servers\<rparr>) w"

definition LoadDNSRecords :: "dnslib \<Rightarrow> world \<Rightarrow> gostr + dns_record list" where
  "LoadDNSRecords L w = (case fl_RecordsSource (wd_files w) of
      None \<Rightarrow> Inl ''records_source not configured''
    | Some rs \<Rightarrow>
        let t = ToLower (TrimSpace (rsc_Type rs)); loc = TrimSpace (rsc_Location rs) in
        if loc = [] then Inl ''records_source location is empty''
        else if t = RecordsSourceURL then loadRecordsFromURL (wd_url w loc)
        else if t = RecordsSourceGit then loadRecordsFromGit (wd_git w) loc
        else if t = RecordsSourceBindDir then loadRecordsBindDir L (wd_zone_fs w) (wd_visit w) (Some rs)
        else map_sum (\<lambda>e. e) (\<lambda>doc. map canonical_record (jd_records doc)) (LoadFromJSON w loc))"

definition LoadCacheRecords :: "world \<Rightarrow> gostr + cache_record list" where
  "LoadCacheRecords w = map_sum (\<lambda>e. e) jd_cache (LoadFromJSON w (fl_CacheFile (wd_files w)))"

definition SaveCacheRecords :: "cache_record list \<Rightarrow> world \<Rightarrow> world \<times> gostr option" where
  "SaveCacheRecords cache w = writeJSONFile (fl_CacheFile (wd_files w)) (empty_json\<lparr>jd_cache := cache\<rparr>) w"

text \<open>The writes that the operations on the shared data ask for.  The stored configuration follows a saved
  one; telling the cluster is not a change of the files.\<close>

definition perform :: "effect \<Rightarrow> world \<Rightarrow> world" where
  "perform e w = (case e of
      SaveRecords records \<Rightarrow>
        (case fl_RecordsSource (wd_files w) of
           None \<Rightarrow> w
         | Some rs \<Rightarrow> fst (writeJSONFile (rsc_Location rs) (empty_json\<lparr>jd_records := records\<rparr>) w))
    | SaveServers servers \<Rightarrow> fst (SaveDNSServers servers w)
    | SaveSettings cfg \<Rightarrow> w\<lparr>wd_config := cfg\<rparr>
    | NotifyCluster \<Rightarrow> w)"

subsection \<open>Start-up\<close>

definition CreateFileIfNotExists :: "gostr \<Rightarrow> json_doc \<Rightarrow> world \<Rightarrow> gostr + world" where
  "CreateFileIfNotExists filename content w = (case wd_file w filename of
      Missing \<Rightarrow>
        (case writeJSONFile filename content w of
           (w', None) \<Rightarrow> Inr w'
         | (w', Some e) \<Rightarrow> Inl ''failed to create data file'')
    | StatError e \<Rightarrow> Inl ''failed to stat data file before create''
    | _ \<Rightarrow> Inr w)"

definition default_servers :: json_doc where
  "default_servers = empty_json\<lparr>jd_servers := [empty_server\<lparr>srv_Address := ''1.1.1.1'', srv_Port := ''53''\<rparr>]\<rparr>"

definition default_records :: json_doc where
  "default_records = empty_json\<lparr>jd_records :=
     [empty_record\<lparr>dr_Name := ''example.com.'', dr_Type := ''A'', dr_Value := ''93.184.216.34'', dr_TTL := 3600\<rparr>]\<rparr>"

definition default_cache :: json_doc where
  "default_cache = empty_json\<lparr>jd_cache :=
     [\<lparr>cr_DNSRecord = empty_record\<lparr>dr_Name := ''example.com'', dr_Type := ''A'', dr_Value := ''192.168.1.1'', dr_TTL := 3600,
         dr_AddedOn := 63850161600 * Second, dr_UpdatedOn := 63850530600 * Second, dr_MACAddress := ''00:1A:2B:3C:4D:5E'',
         dr_LastQuery := 63850693500 * Second\<rparr>,
       cr_Expiry = 63850939200 * Second, cr_Timestamp = 63850681800 * Second, cr_LastQuery = 63850687200 * Second\<rparr>]\<rparr>"

definition InitializeJSONFiles :: "world \<Rightarrow> gostr + world" where
  "InitializeJSONFiles w =
     (case CreateFileIfNotExists (fl_DNSServerFile (wd_files w)) default_servers w of
        Inl e \<Rightarrow> Inl e
      | Inr w1 \<Rightarrow>
          (case (case fl_RecordsSource (wd_files w) of
                   None \<Rightarrow> Inr w1
                 | Some rs \<Rightarrow> if RecordsSourceIsReadOnly (wd_config w) then Inr w1
                             else CreateFileIfNotExists (rsc_Location rs) default_records w1) of
             Inl e \<Rightarrow> Inl e
           | Inr w2 \<Rightarrow> CreateFileIfNotExists (fl_CacheFile (wd_files w)) default_cache w2))"

definition loadAdblockFile ::
    "world \<Rightarrow> gostr \<Rightarrow> block_list \<times> (gostr \<times> int) list \<Rightarrow> block_list \<times> (gostr \<times> int) list" where
  "loadAdblockFile w path0 s =
     (let path = TrimSpace path0; (bl, sources) = s in
      if path = [] then s
      else case LoadFromFile (wd_lines w path) bl of
        (bl', Some err) \<Rightarrow> (bl', sources)
      | (bl', None) \<Rightarrow> (bl', sources @ [(path, int (CountBlocked bl') - int (CountBlocked bl))]))"

datatype task = CachePersistWorker | RecordsRefreshLoop duration | BindDirWatch gostr

definition sourceTasks :: "RecordsSourceConfig option \<Rightarrow> task list" where
  "sourceTasks rso = (case rso of
      None \<Rightarrow> []
    | Some rs \<Rightarrow>
        let t = ToLower (TrimSpace (rsc_Type rs)); every = RecordsRefreshLoop (rsc_RefreshIntervalSeconds rs * Second) in
        (if (t = RecordsSourceURL \<or> t = RecordsSourceGit) \<and> 0 < rsc_RefreshIntervalSeconds rs then [every] else []) @
        (if t = RecordsSourceBindDir \<and> 0 < rsc_RefreshIntervalSeconds rs then [every] else []) @
        (if t = RecordsSourceBindDir \<and> rsc_Watch rs \<and> TrimSpace (rsc_Location rs) \<noteq> []
         then [BindDirWatch (TrimSpace (rsc_Location rs))] else []))"

text \<open>The result is the error, if there is one, with the data as they are then, and the tasks that were
  started.  The counters of the statistics are the atomic ones that \<^verbatim>\<open>GetStats\<close> reports: replacing \<^verbatim>\<open>d.Stats\<close>
  leaves them as they are and sets only the start time.\<close>

definition Initialize ::
    "dnslib \<Rightarrow> world \<Rightarrow> gotime \<Rightarrow> resolver_data \<Rightarrow> gostr option \<times> resolver_data \<times> task list" where
  "Initialize L w now d0 =
     (let d = d0\<lparr>rd_Settings := wd_config w\<rparr> in
      case LoadDNSServers w of
        Inl e \<Rightarrow> (Some (''load dns servers: '' @ e), d, [])
      | Inr servers \<Rightarrow>
          (case LoadDNSRecords L w of
             Inl e \<Rightarrow> (Some (''load dns records: '' @ e), d, [])
           | Inr records \<Rightarrow>
               (case LoadCacheRecords w of
                  Inl e \<Rightarrow> (Some (''load cache records: '' @ e), d, [])
                | Inr cache \<Rightarrow>
                    let (bl, sources) = fold (loadAdblockFile w) (cf_AdblockListFiles (wd_config w)) (NewBlockList, []) in
                    (None,
                     d\<lparr>rd_DNSServers := servers, rd_DNSRecords := records, rd_CacheRecords := cache,
                       rd_dnsRecordIdx := buildDNSRecordIndex records, rd_cacheRecordIdx := buildCacheRecordIndex cache,
                       rd_upstreamHealth := Some NewUpstreamHealthTracker, rd_BlockList := Some bl,
                       rd_AdblockSources := sources,
                       rd_Stats := (rd_Stats d)\<lparr>st_ServerStartTime := now\<rparr>,
                       rd_persistPending := False, rd_cacheCompactBump := False\<rparr>,
                     CachePersistWorker # sourceTasks (fl_RecordsSource (wd_files w))))))"

text \<open>One tick of the refresh loop, and a reload after the watched directory changed: a failing load leaves
  the records as they are.\<close>

definition recordsRefreshTick :: "dnslib \<Rightarrow> world \<Rightarrow> resolver_data \<Rightarrow> resolver_data" where
  "recordsRefreshTick L w d = (case LoadDNSRecords L w of
      Inl err \<Rightarrow> d
    | Inr records \<Rightarrow> fst (storeRecords (wd_config w) True False records False d))"

subsection \<open>What is saved is loaded again\<close>

lemma LoadFromJSON_Doc: "wd_file w path = JsonDoc doc \<Longrightarrow> LoadFromJSON w path = Inr doc"
  by (simp add: LoadFromJSON_def)

lemma LoadFromJSON_same: "wd_file w' path = wd_file w path \<Longrightarrow> LoadFromJSON w' path = LoadFromJSON w path"
  by (simp add: LoadFromJSON_def)

lemma writeJSONFile_Written:
  "wd_write w path = Written \<Longrightarrow> writeJSONFile path doc w = (w\<lparr>wd_file := (wd_file w)(path := JsonDoc doc)\<rparr>, None)"
  by (simp add: writeJSONFile_def)

lemma LoadDNSRecords_file:
  assumes "fl_RecordsSource (wd_files w) = Some rs" "\<not> RecordsSourceIsReadOnly (wd_config w)"
    and "TrimSpace (rsc_Location rs) = rsc_Location rs" "rsc_Location rs \<noteq> []"
  shows "LoadDNSRecords L w = map_sum (\<lambda>e. e) (\<lambda>doc. map canonical_record (jd_records doc)) (LoadFromJSON w (rsc_Location rs))"
  using assms by (simp add: LoadDNSRecords_def RecordsSourceIsReadOnly_def Let_def)

lemma UpdateRecords_effects:
  assumes "UpdateRecords cfg io records d = Inr (d', eff)" "fl_RecordsSource (cf_FileLocations cfg) = Some rs"
  shows "\<not> RecordsSourceIsReadOnly cfg \<and> eff = SaveRecords records # (if io then [NotifyCluster] else [])"
  using assms by (auto simp: UpdateRecords_def storeRecords_def SaveDNSRecords_def Let_def split: if_splits)

lemma Initialize_loads:
  assumes "LoadDNSServers w = Inr servers" "LoadDNSRecords L w = Inr records" "LoadCacheRecords w = Inr cache"
    and "Initialize L w now d0 = (err, d, tasks)"
  shows "err = None \<and> indexed d \<and> rd_Settings d = wd_config w \<and> rd_DNSServers d = servers \<and> rd_DNSRecords d = records \<and>
    rd_CacheRecords d = cache"
  using assms by (auto simp: Initialize_def Let_def indexed_def split: prod.splits)

text \<open>C27.  A record change survives a restart: when a write of the records is accepted by the shared data
  and the file can be written, a later start-up over the files, with the server and cache files readable
  and elsewhere, succeeds and gives the written records, with their names in canonical form, under current
  indexes.\<close>

theorem records_survive_restart:
  assumes "UpdateRecords (wd_config w) True records d = Inr (d', eff)"
    and "fl_RecordsSource (wd_files w) = Some rs" "wd_write w (rsc_Location rs) = Written"
    and "TrimSpace (rsc_Location rs) = rsc_Location rs" "rsc_Location rs \<noteq> []"
    and "rsc_Location rs \<noteq> fl_DNSServerFile (wd_files w)" "rsc_Location rs \<noteq> fl_CacheFile (wd_files w)"
    and "LoadDNSServers w = Inr servers" "LoadCacheRecords w = Inr cache"
    and "Initialize L (fold perform eff w) now d0 = (err, d1, tasks)"
  shows "err = None \<and> rd_DNSRecords d1 = map canonical_record records \<and> rd_DNSServers d1 = servers \<and>
    rd_CacheRecords d1 = cache \<and> indexed d1"
proof -
  have e: "\<not> RecordsSourceIsReadOnly (wd_config w)" "eff = [SaveRecords records, NotifyCluster]"
    using UpdateRecords_effects [OF assms(1)] assms(2) by auto
  let ?w = "w\<lparr>wd_file := (wd_file w)(rsc_Location rs := JsonDoc (empty_json\<lparr>jd_records := records\<rparr>))\<rparr>"
  have w: "fold perform eff w = ?w"
    using assms(2) by (simp add: e(2) perform_def writeJSONFile_Written [OF assms(3)])
  have "LoadDNSServers ?w = Inr servers" "LoadCacheRecords ?w = Inr cache"
    using assms(6-9) by (simp_all add: LoadDNSServers_def LoadCacheRecords_def LoadFromJSON_def)
  moreover have "LoadDNSRecords L ?w = Inr (map canonical_record records)"
    using LoadDNSRecords_file [of ?w rs L] assms(2,4,5) e(1) LoadFromJSON_Doc [of ?w "rsc_Location rs"] by simp
  ultimately show ?thesis using Initialize_loads assms(10) unfolding w by blast
qed

definition first_config :: Config where
  "first_config = empty_Config\<lparr>cf_FileLocations :=
     \<lparr>fl_DNSServerFile = ''s'', fl_CacheFile = ''c'', fl_RecordsSource = Some (file_source ''r'')\<rparr>\<rparr>"

definition first_world :: world where
  "first_world = \<lparr>wd_config = first_config, wd_file = (\<lambda>p. Missing), wd_write = (\<lambda>p. Written), wd_zone_fs = sample_fs,
     wd_visit = rev, wd_url = (\<lambda>u. BadStatus ''404''), wd_git = (\<lambda>p. \<lparr>ge_stat = GitAbsent, ge_clone = Some ''offline'',
       ge_open = None, ge_worktree = None, ge_pull = Pulled, ge_file = Inl ''missing''\<rparr>), wd_lines = (\<lambda>p. Inl ''missing''),
     wd_list_url = (\<lambda>u. Inl ''offline'')\<rparr>"

definition blank_world :: world where
  "blank_world = first_world\<lparr>wd_file := (\<lambda>p. JsonDoc empty_json)\<rparr>"

lemma file_source_writable:
  "fl_RecordsSource (cf_FileLocations cfg) = Some (file_source loc) \<Longrightarrow> \<not> RecordsSourceIsReadOnly cfg"
proof -
  assume "fl_RecordsSource (cf_FileLocations cfg) = Some (file_source loc)"
  moreover have "ToLower (TrimSpace RecordsSourceFile) \<notin> {RecordsSourceURL, RecordsSourceGit, RecordsSourceBindDir}" by code_simp
  ultimately show ?thesis by (simp add: RecordsSourceIsReadOnly_def file_source_def Let_def)
qed

lemma blank_world_facts:
  "UpdateRecords (wd_config blank_world) True [sample_alias] empty_data =
     Inr (fst (storeRecords first_config True False [sample_alias] True empty_data), [SaveRecords [sample_alias], NotifyCluster])"
  "fl_RecordsSource (wd_files blank_world) = Some (file_source ''r'')" "wd_write blank_world p = Written"
  "LoadDNSServers blank_world = Inr []" "LoadCacheRecords blank_world = Inr []"
  using file_source_writable [of first_config "''r''"]
  by (simp_all add: UpdateRecords_def storeRecords_def SaveDNSRecords_def blank_world_def first_world_def
      first_config_def empty_data_def empty_Config_def LoadDNSServers_def LoadCacheRecords_def LoadFromJSON_def empty_json_def)

theorem records_survive_restart_witness:
  "fst (Initialize sample_lib (fold perform [SaveRecords [sample_alias], NotifyCluster] blank_world) 7 empty_data) = None \<and>
   rd_DNSRecords (fst (snd (Initialize sample_lib (fold perform [SaveRecords [sample_alias], NotifyCluster] blank_world) 7 empty_data))) =
     [sample_alias\<lparr>dr_Name := ''New.lan''\<rparr>]"
proof -
  obtain err d1 tasks where i: "Initialize sample_lib (fold perform [SaveRecords [sample_alias], NotifyCluster] blank_world) 7 empty_data =
      (err, d1, tasks)" by (metis prod_cases3)
  have l: "rsc_Location (file_source ''r'') = ''r''" "fl_DNSServerFile (wd_files blank_world) = ''s''"
    "fl_CacheFile (wd_files blank_world) = ''c''" "TrimSpace ''r'' = ''r''"
    by (simp_all add: file_source_def blank_world_def first_world_def first_config_def) code_simp
  have "map canonical_record [sample_alias] = [sample_alias\<lparr>dr_Name := ''New.lan''\<rparr>]" by code_simp
  then show ?thesis
    using records_survive_restart [OF blank_world_facts(1,2) blank_world_facts(3) _ _ _ _ blank_world_facts(4,5) i] l i by simp
qed

text \<open>A write that breaks off takes the records with it: the file is truncated before it is written, so the
  next start-up fails.\<close>

lemma broken_write_stops_start_up:
  assumes "UpdateRecords (wd_config w) False records d = Inr (d', eff)"
    and "fl_RecordsSource (wd_files w) = Some rs" "wd_write w (rsc_Location rs) = BrokenOff e"
    and "TrimSpace (rsc_Location rs) = rsc_Location rs" "rsc_Location rs \<noteq> []"
  shows "LoadDNSRecords L (fold perform eff w) = Inl ''unexpected end of JSON input''"
proof -
  have e: "\<not> RecordsSourceIsReadOnly (wd_config w)" "eff = [SaveRecords records]"
    using UpdateRecords_effects [OF assms(1)] assms(2) by auto
  let ?w = "w\<lparr>wd_file := (wd_file w)(rsc_Location rs := Undecodable ''unexpected end of JSON input'')\<rparr>"
  have "fold perform eff w = ?w" using assms(2,3) by (simp add: e(2) perform_def writeJSONFile_def)
  then show ?thesis
    using LoadDNSRecords_file [of ?w rs L] assms(2,4,5) e(1) by (simp add: LoadFromJSON_def)
qed

subsection \<open>The first start\<close>

definition created :: "gostr \<Rightarrow> json_doc \<Rightarrow> world \<Rightarrow> world" where
  "created path doc w = w\<lparr>wd_file := (wd_file w)(path := JsonDoc doc)\<rparr>"

lemma created_simps [simp]:
  "wd_config (created p doc w) = wd_config w" "wd_write (created p doc w) = wd_write w"
  "wd_file (created p doc w) = (wd_file w)(p := JsonDoc doc)"
  by (simp_all add: created_def)

lemma CreateFileIfNotExists_Missing:
  "wd_file w p = Missing \<Longrightarrow> wd_write w p = Written \<Longrightarrow> CreateFileIfNotExists p doc w = Inr (created p doc w)"
  by (simp add: CreateFileIfNotExists_def writeJSONFile_def created_def)

text \<open>On an empty disk the program starts: with a file as record source, three different paths and
  writes that succeed, creating the data files and then initialising never ends in an error, and the
  resolver has the example server, which is not active, and the example record under its canonical name.\<close>

theorem first_start:
  assumes "fl_RecordsSource (wd_files w) = Some rs" "\<not> RecordsSourceIsReadOnly (wd_config w)"
    and "TrimSpace (rsc_Location rs) = rsc_Location rs" "rsc_Location rs \<noteq> []"
    and "distinct [fl_DNSServerFile (wd_files w), rsc_Location rs, fl_CacheFile (wd_files w)]"
    and "\<forall>p. wd_file w p = Missing" "\<forall>p. wd_write w p = Written"
  shows "\<exists>w' d tasks. InitializeJSONFiles w = Inr w' \<and> Initialize L w' now d0 = (None, d, tasks) \<and>
    CachePersistWorker \<in> set tasks \<and> indexed d \<and> map srv_Active (rd_DNSServers d) = [False] \<and>
    map dr_Name (rd_DNSRecords d) = [''example.com'']"
proof -
  let ?w = "created (fl_CacheFile (wd_files w)) default_cache (created (rsc_Location rs) default_records
      (created (fl_DNSServerFile (wd_files w)) default_servers w))"
  have init: "InitializeJSONFiles w = Inr ?w"
    using assms by (auto simp: InitializeJSONFiles_def CreateFileIfNotExists_Missing)
  have "LoadDNSServers ?w = Inr (jd_servers default_servers)" "LoadCacheRecords ?w = Inr (jd_cache default_cache)"
    using assms(5) by (auto simp: LoadDNSServers_def LoadCacheRecords_def LoadFromJSON_def)
  moreover have "LoadDNSRecords L ?w = Inr (map canonical_record (jd_records default_records))"
    using LoadDNSRecords_file [of ?w rs L] assms(1-5) by (auto simp: LoadFromJSON_def)
  moreover have "map dr_Name (map canonical_record (jd_records default_records)) = [''example.com'']"
    "map srv_Active (jd_servers default_servers) = [False]" by code_simp+
  moreover obtain d tasks err where i: "Initialize L ?w now d0 = (err, d, tasks)" by (metis prod_cases3)
  ultimately have "err = None \<and> indexed d \<and> map srv_Active (rd_DNSServers d) = [False] \<and> map dr_Name (rd_DNSRecords d) = [''example.com'']"
    using Initialize_loads [OF _ _ _ i] by metis
  moreover have "CachePersistWorker \<in> set tasks"
    using i calculation by (auto simp: Initialize_def Let_def split: sum.splits prod.splits)
  ultimately show ?thesis using init i by (intro exI [of _ ?w] exI [of _ d] exI [of _ tasks]) simp
qed

theorem first_start_witness:
  "\<exists>w' d tasks. InitializeJSONFiles first_world = Inr w' \<and> Initialize sample_lib w' 7 empty_data = (None, d, tasks) \<and>
    map dr_Name (rd_DNSRecords d) = [''example.com'']"
proof -
  have "fl_RecordsSource (wd_files first_world) = Some (file_source ''r'')" "TrimSpace ''r'' = ''r''"
    by (simp add: first_world_def first_config_def) code_simp
  then show ?thesis
    using first_start [of first_world "file_source ''r''" sample_lib 7 empty_data] file_source_writable [of "wd_config first_world" "''r''"]
    by (auto simp: file_source_def first_world_def first_config_def)
qed

subsection \<open>The cache file\<close>

text \<open>The workers that write the cache.  A worker takes the channel when it starts, waits for a signal, then
  takes a snapshot, then writes it; it ends when its channel is closed and empty.  Query handlers change
  the memory under the lock and send the signal afterwards: \<open>ps_signals\<close> counts those in between.  A
  compaction sends while it holds the lock, so no snapshot can come in between.  Every \<^verbatim>\<open>Initialize\<close> makes a
  new channel, the last one of \<open>ps_chans\<close>, and one more worker; the earlier workers keep theirs.  The
  flag \<open>ps_unsaved\<close> is not in the code: it remembers that the memory was changed without a signal, or that a
  write failed, since the last signal.  A send on a closed channel panics, which ends the process.\<close>

datatype persist_worker = PW_New | PW_Waiting nat | PW_Woken nat | PW_Writing nat "cache_record list" | PW_Done

record persist_chan =
  pc_token :: bool
  pc_open :: bool

record persist_state =
  ps_data :: resolver_data
  ps_chans :: "persist_chan list"
  ps_signals :: nat
  ps_workers :: "persist_worker list"
  ps_closeOnce :: bool
  ps_file :: "cache_record list option"
  ps_unsaved :: bool
  ps_panicked :: bool

definition fresh_chan :: persist_chan where
  "fresh_chan = \<lparr>pc_token = False, pc_open = True\<rparr>"

text \<open>The channel \<^verbatim>\<open>d.persistCh\<close>.\<close>

definition persistCh :: "persist_state \<Rightarrow> nat" where
  "persistCh s = length (ps_chans s) - 1"

text \<open>The \<^verbatim>\<open>select\<close> with a default branch: a channel that has its token is left alone.\<close>

definition signalPersist :: "persist_state \<Rightarrow> persist_state" where
  "signalPersist s =
     (if pc_open (ps_chans s ! persistCh s)
      then s\<lparr>ps_chans := (ps_chans s)[persistCh s := (ps_chans s ! persistCh s)\<lparr>pc_token := True\<rparr>], ps_unsaved := False\<rparr>
      else s\<lparr>ps_panicked := True\<rparr>)"

text \<open>The two halves of \<^verbatim>\<open>storeCacheRecords\<close> with persistence, and the form without.\<close>

definition persistStore :: "cache_record list \<Rightarrow> persist_state \<Rightarrow> persist_state" where
  "persistStore cache s = s\<lparr>ps_data := UpdateCacheRecordsInMemory cache (ps_data s), ps_signals := Suc (ps_signals s)\<rparr>"

definition persistSignal :: "persist_state \<Rightarrow> persist_state" where
  "persistSignal s = signalPersist (s\<lparr>ps_signals := ps_signals s - 1\<rparr>)"

definition persistUpdateInMemory :: "cache_record list \<Rightarrow> persist_state \<Rightarrow> persist_state" where
  "persistUpdateInMemory cache s = s\<lparr>ps_data := UpdateCacheRecordsInMemory cache (ps_data s), ps_unsaved := True\<rparr>"

definition persistCompact :: "gotime \<Rightarrow> persist_state \<Rightarrow> persist_state" where
  "persistCompact now s =
     (case CompactExpiredCacheRecords now (ps_data s) of (d', removed) \<Rightarrow>
        if removed = 0 then s else signalPersist (s\<lparr>ps_data := d'\<rparr>))"

text \<open>One step of worker \<open>i\<close>; \<open>out\<close> says how a write ends, and a file that is not a JSON document is \<open>None\<close>.  The
  result \<open>None\<close>: the worker waits or has ended.\<close>

definition cachePersistWorker :: "write_outcome \<Rightarrow> nat \<Rightarrow> persist_state \<Rightarrow> persist_state option" where
  "cachePersistWorker out i s =
     (let become = (\<lambda>w s. s\<lparr>ps_workers := (ps_workers s)[i := w]\<rparr>) in
      case ps_workers s ! i of
        PW_New \<Rightarrow> Some (become (PW_Waiting (persistCh s)) s)
      | PW_Waiting c \<Rightarrow>
          if pc_token (ps_chans s ! c)
          then Some (become (PW_Woken c) (s\<lparr>ps_chans := (ps_chans s)[c := (ps_chans s ! c)\<lparr>pc_token := False\<rparr>]\<rparr>))
          else if pc_open (ps_chans s ! c) then None else Some (become PW_Done s)
      | PW_Woken c \<Rightarrow> Some (become (PW_Writing c (rd_CacheRecords (ps_data s))) s)
      | PW_Writing c snapshot \<Rightarrow>
          Some (become (PW_Waiting c) (case out of
             Written \<Rightarrow> s\<lparr>ps_file := Some snapshot\<rparr>
           | NotCreated err \<Rightarrow> s\<lparr>ps_unsaved := True\<rparr>
           | BrokenOff err \<Rightarrow> s\<lparr>ps_file := None, ps_unsaved := True\<rparr>))
      | PW_Done \<Rightarrow> None)"

text \<open>\<^verbatim>\<open>Close\<close> closes the channel, once, and waits until all workers have ended.\<close>

definition closePersist :: "persist_state \<Rightarrow> persist_state" where
  "closePersist s =
     (if ps_closeOnce s then s
      else s\<lparr>ps_closeOnce := True, ps_chans := (ps_chans s)[persistCh s := (ps_chans s ! persistCh s)\<lparr>pc_open := False\<rparr>]\<rparr>)"

definition close_returned :: "persist_state \<Rightarrow> bool" where
  "close_returned s \<longleftrightarrow> ps_closeOnce s \<and> list_all (\<lambda>w. w = PW_Done) (ps_workers s)"

text \<open>What a successful \<^verbatim>\<open>Initialize\<close> does: the data are those it has loaded.\<close>

definition initPersist :: "resolver_data \<Rightarrow> persist_state \<Rightarrow> persist_state" where
  "initPersist d s = s\<lparr>ps_data := d, ps_chans := ps_chans s @ [fresh_chan], ps_workers := ps_workers s @ [PW_New]\<rparr>"

inductive persist_step :: "persist_state \<Rightarrow> persist_state \<Rightarrow> bool" where
  ps_store: "\<not> ps_panicked s \<Longrightarrow> persist_step s (persistStore cache s)"
| ps_signal: "\<not> ps_panicked s \<Longrightarrow> 0 < ps_signals s \<Longrightarrow> persist_step s (persistSignal s)"
| ps_compact: "\<not> ps_panicked s \<Longrightarrow> persist_step s (persistCompact now s)"
| ps_memory: "\<not> ps_panicked s \<Longrightarrow> persist_step s (persistUpdateInMemory cache s)"
| ps_work: "\<not> ps_panicked s \<Longrightarrow> i < length (ps_workers s) \<Longrightarrow> cachePersistWorker out i s = Some s' \<Longrightarrow> persist_step s s'"
| ps_close: "\<not> ps_panicked s \<Longrightarrow> persist_step s (closePersist s)"

inductive reinit_step :: "persist_state \<Rightarrow> persist_state \<Rightarrow> bool" where
  rs_step: "persist_step s s' \<Longrightarrow> reinit_step s s'"
| rs_init: "\<not> ps_panicked s \<Longrightarrow> Initialize L w now (ps_data s) = (None, d, tasks) \<Longrightarrow> ps_file s = Some cache \<Longrightarrow> LoadCacheRecords w = Inr cache \<Longrightarrow>
    reinit_step s (initPersist d s)"

subsection \<open>One worker: nothing is lost\<close>

text \<open>The state after start-up: one worker, one channel, and the cache that was read from the file.\<close>

definition persist_started :: "persist_state \<Rightarrow> bool" where
  "persist_started s \<longleftrightarrow> ps_chans s = [fresh_chan] \<and> ps_signals s = 0 \<and> ps_workers s = [PW_New] \<and> \<not> ps_closeOnce s \<and>
     ps_file s = Some (rd_CacheRecords (ps_data s))"

text \<open>What is in memory is in the file, or about to be signalled, read or written.\<close>

definition accounted :: "persist_state \<Rightarrow> bool" where
  "accounted s \<longleftrightarrow> (\<exists>tok w. ps_chans s = [\<lparr>pc_token = tok, pc_open = (\<not> ps_closeOnce s)\<rparr>] \<and> ps_workers s = [w] \<and>
     (case w of PW_New \<Rightarrow> True | PW_Waiting c \<Rightarrow> c = 0 | PW_Woken c \<Rightarrow> c = 0 | PW_Writing c snapshot \<Rightarrow> c = 0 | PW_Done \<Rightarrow> ps_closeOnce s \<and> \<not> tok) \<and>
     (0 < ps_signals s \<or> ps_unsaved s \<or> ps_panicked s \<or> tok \<or>
      (case w of
         PW_Woken c \<Rightarrow> True
       | PW_Writing c snapshot \<Rightarrow> snapshot = rd_CacheRecords (ps_data s)
       | _ \<Rightarrow> ps_file s = Some (rd_CacheRecords (ps_data s)))))"

lemma accounted_started: "persist_started s \<Longrightarrow> accounted s"
  unfolding accounted_def by (intro exI [of _ False] exI [of _ PW_New]) (simp add: persist_started_def fresh_chan_def)

lemma accounted_worker:
  assumes "cachePersistWorker out 0 s = Some s'" "accounted s"
  shows "accounted s'"
proof -
  obtain tok w where "ps_chans s = [\<lparr>pc_token = tok, pc_open = (\<not> ps_closeOnce s)\<rparr>]" "ps_workers s = [w]"
    using assms(2) by (auto simp: accounted_def)
  with assms show ?thesis
    by (cases w; cases out) (auto simp: cachePersistWorker_def accounted_def persistCh_def Let_def split: if_splits)
qed

lemma accounted_signal:
  assumes "accounted s"
  shows "accounted (signalPersist (s\<lparr>ps_data := d, ps_signals := n\<rparr>))"
  using assms by (auto simp: accounted_def signalPersist_def persistCh_def split: persist_worker.splits)

lemma accounted_compact: "accounted s \<Longrightarrow> accounted (persistCompact now s)"
  using accounted_signal [of s "ps_signals s"] by (auto simp: persistCompact_def split: prod.splits)

lemma accounted_close: "accounted s \<Longrightarrow> accounted (closePersist s)"
  by (auto simp: accounted_def closePersist_def persistCh_def split: persist_worker.splits)

lemma accounted_step:
  assumes "persist_step s s'" "accounted s"
  shows "accounted s'"
  using assms(1)
proof cases
  case ps_signal
  then show ?thesis using accounted_signal [OF assms(2), of "ps_signals s - 1" "ps_data s"] by (simp add: persistSignal_def)
next
  case (ps_work i out)
  moreover have "length (ps_workers s) = 1" using assms(2) by (auto simp: accounted_def)
  ultimately show ?thesis using accounted_worker assms(2) by auto
qed (use assms(2) in \<open>auto simp: accounted_compact accounted_close\<close>,
    auto simp: accounted_def persistStore_def persistUpdateInMemory_def split: persist_worker.splits)

lemma accounted_reachable: "persist_step\<^sup>*\<^sup>* s0 s \<Longrightarrow> persist_started s0 \<Longrightarrow> accounted s"
  by (induction rule: rtranclp_induct) (auto intro: accounted_step accounted_started)

text \<open>How far the worker is from its end.\<close>

definition worker_rank :: "persist_state \<Rightarrow> nat" where
  "worker_rank s = (if pc_token (ps_chans s ! 0) then 4 else 0) +
     (case ps_workers s ! 0 of PW_New \<Rightarrow> 2 | PW_Waiting c \<Rightarrow> 1 | PW_Woken c \<Rightarrow> 3 | PW_Writing c snapshot \<Rightarrow> 2 | PW_Done \<Rightarrow> 0)"

lemma worker_rank_less:
  assumes "cachePersistWorker out 0 s = Some s'" "accounted s"
  shows "worker_rank s' < worker_rank s"
proof -
  obtain tok w where "ps_chans s = [\<lparr>pc_token = tok, pc_open = (\<not> ps_closeOnce s)\<rparr>]" "ps_workers s = [w]"
    using assms(2) by (auto simp: accounted_def)
  with assms show ?thesis
    by (cases w; cases out) (auto simp: cachePersistWorker_def worker_rank_def accounted_def persistCh_def Let_def split: if_splits)
qed

lemma closed_rank:
  assumes "persist_step s s'" "accounted s" "ps_closeOnce s"
  shows "ps_panicked s' \<or> worker_rank s' \<le> worker_rank s"
  using assms(1)
proof cases
  case (ps_work i out)
  moreover have "length (ps_workers s) = 1" using assms(2) by (auto simp: accounted_def)
  ultimately show ?thesis using worker_rank_less [OF _ assms(2)] by (auto intro: less_imp_le)
qed (use assms(2,3) in \<open>auto simp: accounted_def persistStore_def persistSignal_def signalPersist_def persistCompact_def
      persistUpdateInMemory_def closePersist_def persistCh_def worker_rank_def split: prod.splits if_splits\<close>)

lemma closed_progress:
  assumes "accounted s" "ps_closeOnce s" "\<not> close_returned s"
  shows "\<exists>s'. cachePersistWorker out 0 s = Some s' \<and> worker_rank s' < worker_rank s"
proof -
  obtain tok w where "ps_chans s = [\<lparr>pc_token = tok, pc_open = (\<not> ps_closeOnce s)\<rparr>]" "ps_workers s = [w]"
    using assms(1) by (auto simp: accounted_def)
  then have "\<exists>s'. cachePersistWorker out 0 s = Some s'"
    using assms by (cases w) (auto simp: accounted_def close_returned_def cachePersistWorker_def Let_def)
  then show ?thesis using worker_rank_less [OF _ assms(1)] by blast
qed

text \<open>C28.  With one start-up, under every interleaving of stores, signals, compactions, in-memory changes,
  worker steps (whose writes may fail) and \<^verbatim>\<open>Close\<close>: once \<^verbatim>\<open>Close\<close> was called, and as long as no send on
  the closed channel panics, it returns after at most seven more steps of the worker, whatever else runs: until
  then the worker has a step, each of its steps brings it nearer to the end, and no other step sets it
  back.  When \<^verbatim>\<open>Close\<close> has returned and no handler is between its store and its signal, the cache file
  holds exactly the cache in memory, unless since the last signal a write failed or the memory was changed
  without asking for a save.\<close>

theorem close_flushes_cache:
  assumes "persist_started s0" "persist_step\<^sup>*\<^sup>* s0 s" "ps_closeOnce s" "\<not> ps_panicked s"
  shows "worker_rank s \<le> 7 \<and>
    (close_returned s \<or> (\<forall>out. \<exists>s'. cachePersistWorker out 0 s = Some s' \<and> persist_step s s' \<and> worker_rank s' < worker_rank s)) \<and>
    (\<forall>s'. persist_step s s' \<longrightarrow> ps_panicked s' \<or> worker_rank s' \<le> worker_rank s) \<and>
    (close_returned s \<and> ps_signals s = 0 \<and> \<not> ps_unsaved s \<longrightarrow> ps_file s = Some (rd_CacheRecords (ps_data s)))"
proof -
  have a: "accounted s" using accounted_reachable [OF assms(2,1)] .
  have "worker_rank s \<le> 7" by (simp add: worker_rank_def split: persist_worker.splits)
  moreover have "persist_step s s'" if "cachePersistWorker out 0 s = Some s'" for out s'
    using ps_work [OF assms(4) _ that] a by (auto simp: accounted_def)
  moreover have "ps_file s = Some (rd_CacheRecords (ps_data s))" if "close_returned s" "ps_signals s = 0" "\<not> ps_unsaved s"
    using a that assms(4) by (auto simp: accounted_def close_returned_def)
  ultimately show ?thesis using closed_progress [OF a assms(3)] closed_rank [OF _ a assms(3)] by blast
qed

definition started :: persist_state where
  "started = \<lparr>ps_data = empty_data, ps_chans = [fresh_chan], ps_signals = 0, ps_workers = [PW_New], ps_closeOnce = False,
     ps_file = Some [], ps_unsaved = False, ps_panicked = False\<rparr>"

text \<open>A store, its signal, \<^verbatim>\<open>Close\<close>, and the steps of the worker until it has ended.\<close>

definition stored_once :: "bool \<Rightarrow> bool \<Rightarrow> persist_worker \<Rightarrow> cache_record list \<Rightarrow> persist_state" where
  "stored_once tok cl w f = \<lparr>ps_data = UpdateCacheRecordsInMemory [sample_cached] empty_data,
     ps_chans = [\<lparr>pc_token = tok, pc_open = (\<not> cl)\<rparr>], ps_signals = 0, ps_workers = [w], ps_closeOnce = cl,
     ps_file = Some f, ps_unsaved = False, ps_panicked = False\<rparr>"

lemma stored_once_work:
  assumes "persist_step\<^sup>*\<^sup>* s0 (stored_once tok cl w f)" "cachePersistWorker Written 0 (stored_once tok cl w f) = Some s'"
  shows "persist_step\<^sup>*\<^sup>* s0 s'"
proof -
  have "persist_step (stored_once tok cl w f) s'"
    by (rule ps_work [OF _ _ assms(2)]) (simp_all add: stored_once_def)
  with assms(1) show ?thesis by (rule rtranclp.rtrancl_into_rtrancl)
qed

lemma stored_once_run:
  "persist_step\<^sup>*\<^sup>* started (stored_once True True PW_New [])"
  "persist_step\<^sup>*\<^sup>* started (stored_once False True PW_Done [sample_cached])"
proof -
  let ?a = "persistStore [sample_cached] started"
  have "persist_step started ?a" by (rule ps_store) (simp add: started_def)
  moreover have "persist_step ?a (persistSignal ?a)" by (rule ps_signal) (simp_all add: started_def persistStore_def)
  moreover have b: "persistSignal ?a = stored_once True False PW_New []"
    by (simp add: persistSignal_def signalPersist_def persistStore_def started_def stored_once_def fresh_chan_def persistCh_def)
  moreover have "persist_step (stored_once True False PW_New []) (closePersist (stored_once True False PW_New []))"
    by (rule ps_close) (simp add: stored_once_def)
  moreover have "closePersist (stored_once True False PW_New []) = stored_once True True PW_New []"
    by (simp add: closePersist_def stored_once_def persistCh_def)
  ultimately show 0: "persist_step\<^sup>*\<^sup>* started (stored_once True True PW_New [])"
    by (metis converse_rtranclp_into_rtranclp rtranclp.rtrancl_refl)
  note d = cachePersistWorker_def stored_once_def persistCh_def Let_def UpdateCacheRecordsInMemory_def storeCacheRecords_def
  have 1: "persist_step\<^sup>*\<^sup>* started (stored_once True True (PW_Waiting 0) [])" by (rule stored_once_work [OF 0]) (simp add: d)
  have 2: "persist_step\<^sup>*\<^sup>* started (stored_once False True (PW_Woken 0) [])" by (rule stored_once_work [OF 1]) (simp add: d)
  have 3: "persist_step\<^sup>*\<^sup>* started (stored_once False True (PW_Writing 0 [sample_cached]) [])" by (rule stored_once_work [OF 2]) (simp add: d)
  have 4: "persist_step\<^sup>*\<^sup>* started (stored_once False True (PW_Waiting 0) [sample_cached])" by (rule stored_once_work [OF 3]) (simp add: d)
  show "persist_step\<^sup>*\<^sup>* started (stored_once False True PW_Done [sample_cached])" by (rule stored_once_work [OF 4]) (simp add: d)
qed

theorem close_flushes_cache_witness:
  "\<exists>s. persist_step\<^sup>*\<^sup>* started s \<and> close_returned s \<and> rd_CacheRecords (ps_data s) = [sample_cached] \<and> ps_file s = Some (rd_CacheRecords (ps_data s))"
proof -
  let ?s = "stored_once False True PW_Done [sample_cached]"
  have "persist_started started" by (simp add: persist_started_def started_def empty_data_def)
  from close_flushes_cache [OF this stored_once_run(2)]
  have "close_returned ?s \<longrightarrow> ps_file ?s = Some (rd_CacheRecords (ps_data ?s))" by (simp add: stored_once_def)
  moreover have "close_returned ?s" "rd_CacheRecords (ps_data ?s) = [sample_cached]"
    by (simp_all add: close_returned_def stored_once_def UpdateCacheRecordsInMemory_def storeCacheRecords_def)
  ultimately show ?thesis using stored_once_run(2) by blast
qed

subsection \<open>Two workers: closing hangs\<close>

text \<open>A worker whose channel is open and is no longer the current one never ends: nobody closes that
  channel.\<close>

fun worker_chan :: "persist_worker \<Rightarrow> nat option" where
  "worker_chan (PW_Waiting c) = Some c"
| "worker_chan (PW_Woken c) = Some c"
| "worker_chan (PW_Writing c snapshot) = Some c"
| "worker_chan w = None"

definition abandoned :: "nat \<Rightarrow> nat \<Rightarrow> persist_state \<Rightarrow> bool" where
  "abandoned i c s \<longleftrightarrow> i < length (ps_workers s) \<and> worker_chan (ps_workers s ! i) = Some c \<and>
     Suc c < length (ps_chans s) \<and> pc_open (ps_chans s ! c)"

lemma token_keeps_open [simp]: "pc_open (cs[k := (cs ! k)\<lparr>pc_token := b\<rparr>] ! c) = pc_open (cs ! c)"
  by (cases "k = c"; cases "k < length cs") (simp_all add: list_update_beyond)

lemma abandoned_signal: "abandoned i c s \<Longrightarrow> abandoned i c (signalPersist (s\<lparr>ps_data := d, ps_signals := n\<rparr>))"
  by (auto simp: abandoned_def signalPersist_def persistCh_def nth_list_update)

lemma abandoned_worker:
  assumes "cachePersistWorker out j s = Some s'" "abandoned i c s"
  shows "abandoned i c s'"
proof (cases "j = i")
  case True
  with assms show ?thesis
    by (cases "ps_workers s ! i"; cases out)
      (auto simp: abandoned_def cachePersistWorker_def Let_def nth_list_update split: if_splits)
next
  case False
  with assms show ?thesis
    by (cases "ps_workers s ! j"; cases out)
      (auto simp: abandoned_def cachePersistWorker_def Let_def nth_list_update split: if_splits)
qed

lemma abandoned_step:
  assumes "reinit_step s s'" "abandoned i c s"
  shows "abandoned i c s'"
  using assms(1)
proof cases
  case rs_step
  then show ?thesis
  proof cases
    case ps_signal
    then show ?thesis using abandoned_signal [OF assms(2), of "ps_signals s - 1" "ps_data s"] by (simp add: persistSignal_def)
  next
    case (ps_compact now)
    then show ?thesis using abandoned_signal [OF assms(2), of "ps_signals s"] assms(2) by (auto simp: persistCompact_def split: prod.splits)
  next
    case (ps_work j out)
    then show ?thesis using abandoned_worker assms(2) by blast
  qed (use assms(2) in \<open>auto simp: abandoned_def persistStore_def persistUpdateInMemory_def closePersist_def persistCh_def nth_list_update\<close>)
next
  case rs_init
  then show ?thesis using assms(2) by (auto simp: abandoned_def initPersist_def nth_append)
qed

lemma abandoned_not_returned: "abandoned i c s \<Longrightarrow> \<not> close_returned s"
  by (auto simp: abandoned_def close_returned_def list_all_iff in_set_conv_nth) (metis nth_mem option.distinct(1) worker_chan.simps(5))

text \<open>When the data are initialised again while a worker runs on an open channel, as \<open>record add\<close> does, \<^verbatim>\<open>Close\<close>
  never returns afterwards, whatever is done.\<close>

theorem reinitialize_blocks_close:
  assumes "i < length (ps_workers s)" "worker_chan (ps_workers s ! i) = Some c" "c < length (ps_chans s)" "pc_open (ps_chans s ! c)"
    and "reinit_step\<^sup>*\<^sup>* (initPersist d s) t"
  shows "\<not> close_returned t"
proof -
  have "abandoned i c (initPersist d s)" using assms(1-4) by (simp add: abandoned_def initPersist_def nth_append)
  with assms(5) have "abandoned i c t" by (induction rule: rtranclp_induct) (auto intro: abandoned_step)
  then show ?thesis by (rule abandoned_not_returned)
qed

theorem reinitialize_blocks_close_witness:
  "\<not> close_returned (closePersist (initPersist empty_data (stored_once False False (PW_Waiting 0) [])))"
proof (rule reinitialize_blocks_close [where s = "stored_once False False (PW_Waiting 0) []" and i = 0 and c = 0 and d = empty_data])
  let ?s = "initPersist empty_data (stored_once False False (PW_Waiting 0) [])"
  show "reinit_step\<^sup>*\<^sup>* ?s (closePersist ?s)"
    by (intro r_into_rtranclp rs_step ps_close) (simp add: initPersist_def stored_once_def)
qed (simp_all add: stored_once_def)

text \<open>A store or a compaction whose signal comes after \<^verbatim>\<open>Close\<close> panics.\<close>

lemma signal_after_close_panics:
  "ps_closeOnce s \<Longrightarrow> accounted s \<Longrightarrow> ps_panicked (persistSignal s)"
  by (auto simp: accounted_def persistSignal_def signalPersist_def persistCh_def)

lemma update_after_close_panics:
  "\<exists>s. persist_step\<^sup>*\<^sup>* started s \<and> ps_panicked s"
proof -
  let ?a = "persistStore [sample_cached] started"
  have "persist_step started ?a" by (rule ps_store) (simp add: started_def)
  moreover have "persist_step ?a (closePersist ?a)" by (rule ps_close) (simp add: started_def persistStore_def)
  moreover have "persist_step (closePersist ?a) (persistSignal (closePersist ?a))"
    by (rule ps_signal) (simp_all add: started_def persistStore_def closePersist_def)
  ultimately have "persist_step\<^sup>*\<^sup>* started (persistSignal (closePersist ?a))"
    by (meson converse_rtranclp_into_rtranclp rtranclp.rtrancl_refl)
  moreover have "ps_panicked (persistSignal (closePersist ?a))"
    by (simp add: persistSignal_def signalPersist_def closePersist_def persistStore_def started_def fresh_chan_def persistCh_def)
  ultimately show ?thesis by blast
qed

end
