(* ===== verification/Commands.thy ===== *)
theory Commands
  imports Storage
begin

text \<open>
  The interactive commands on records, cache, servers and block list, and the argument parser of the
  look-up tool (\<^verbatim>\<open>commandhandler/commandhandler.go\<close>).  A command takes its arguments and the state, the shared
  data with the files and the background tasks started so far, and returns a result and the new state.  The
  tables a command prints and the counters it leaves in the session are not modelled; its messages,
  status, error and payload are.
\<close>

subsection \<open>Results\<close>

datatype status = StatusSuccess | StatusFailed

datatype cmd_payload =
    NoPayload | RecordsPayload "dns_record list" | CachePayload "cache_record list" | ServersPayload "dns_server list"
  | CountPayload int | SourcesPayload "(gostr \<times> int) list" | DomainsPayload "gostr list"

record cmd_result =
  res_Status :: status
  res_Messages :: "message list"
  res_Error :: "(gostr \<times> level) option"
  res_Payload :: cmd_payload

record cmd_state =
  cs_data :: resolver_data
  cs_world :: world
  cs_tasks :: "task list"

definition infoMessages :: "gostr list \<Rightarrow> message list" where
  "infoMessages ls = map (Msg LevelInfo) ls"

definition warnMessages :: "gostr list \<Rightarrow> message list" where
  "warnMessages ls = map (Msg LevelWarn) ls"

definition succeeded :: "message list \<Rightarrow> cmd_payload \<Rightarrow> cmd_result" where
  "succeeded msgs p = \<lparr>res_Status = StatusSuccess, res_Messages = msgs, res_Error = None, res_Payload = p\<rparr>"

definition failed :: "message list \<Rightarrow> gostr \<Rightarrow> level \<Rightarrow> cmd_result" where
  "failed msgs err sev = \<lparr>res_Status = StatusFailed, res_Messages = msgs, res_Error = Some (err, sev), res_Payload = NoPayload\<rparr>"

text \<open>\<^verbatim>\<open>commandErrorFromRecordErr\<close>, \<^verbatim>\<open>commandErrorFromCacheErr\<close> and \<^verbatim>\<open>commandErrorFromServerErr\<close>.\<close>

definition err_severity :: "op_error \<Rightarrow> gostr \<times> level" where
  "err_severity e = (case e of
      ErrInvalidArgs \<Rightarrow> (''invalid arguments'', LevelWarn)
    | ErrHelpRequested \<Rightarrow> (''help requested'', LevelError))"

definition helpLine :: gostr where
  "helpLine = ''Hint: append ?, help, or h after the command to view this usage.''"

text \<open>A command without arguments.\<close>

definition plainCommand ::
    "gostr \<Rightarrow> gostr \<Rightarrow> gostr list \<Rightarrow> cmd_state \<Rightarrow> cmd_result \<times> cmd_state \<Rightarrow> cmd_result \<times> cmd_state" where
  "plainCommand name descr raw s body =
     (if IsHelpRequest raw then (succeeded (infoMessages [''Usage: '' @ name, descr, helpLine]) NoPayload, s)
      else if raw \<noteq> [] then
        (failed (warnMessages [name @ '' does not accept arguments.''] @ infoMessages [''Usage: '' @ name]) ''unexpected arguments'' LevelWarn, s)
      else body)"

subsection \<open>Records\<close>

text \<open>Whether a write of the records succeeds, and the update with its writes.\<close>

definition records_io :: "world \<Rightarrow> bool" where
  "records_io w = (case fl_RecordsSource (wd_files w) of None \<Rightarrow> False | Some rs \<Rightarrow> wd_write w (rsc_Location rs) = Written)"

definition commit_records :: "cmd_state \<Rightarrow> dns_record list \<Rightarrow> gostr + cmd_state" where
  "commit_records s records =
     (let w = cs_world s in
      case UpdateRecords (wd_config w) (records_io w) records (cs_data s) of
        Inl e \<Rightarrow> Inl e
      | Inr (d', eff) \<Rightarrow> Inr (s\<lparr>cs_data := d', cs_world := fold perform eff w\<rparr>))"

definition finishRecords :: "cmd_state \<Rightarrow> records_result \<Rightarrow> cmd_result \<times> cmd_state" where
  "finishRecords s res =
     (case res of (updated, msgs, err) \<Rightarrow>
        (case err of
           Some ErrHelpRequested \<Rightarrow> (succeeded msgs NoPayload, s)
         | Some e \<Rightarrow> (failed msgs (fst (err_severity e)) (snd (err_severity e)), s)
         | None \<Rightarrow>
             (case commit_records s updated of
                Inl e \<Rightarrow> (failed msgs e LevelError, s)
              | Inr s' \<Rightarrow> (succeeded msgs (RecordsPayload updated), s'))))"

definition runRecordList :: "dnslib \<Rightarrow> gostr list \<Rightarrow> cmd_state \<Rightarrow> cmd_result \<times> cmd_state" where
  "runRecordList L raw s =
     (case Records_List L (rd_DNSRecords (cs_data s)) raw of (r, err) \<Rightarrow>
        (case err of
           None \<Rightarrow> (succeeded (lr_Messages r) (RecordsPayload (lr_Records r)), s)
         | Some ErrHelpRequested \<Rightarrow> (succeeded (lr_Messages r) NoPayload, s)
         | Some e \<Rightarrow> (failed (lr_Messages r) (fst (err_severity e)) (snd (err_severity e)), s)))"

text \<open>Adding or updating a record initialises the shared data again first.\<close>

definition runRecordAdd :: "dnslib \<Rightarrow> op_env \<Rightarrow> bool \<Rightarrow> gostr list \<Rightarrow> cmd_state \<Rightarrow> cmd_result \<times> cmd_state" where
  "runRecordAdd L E allowUpdate raw s =
     (case Initialize L (cs_world s) (env_now E) (cs_data s) of (err, d, tasks) \<Rightarrow>
        let s1 = s\<lparr>cs_data := d, cs_tasks := cs_tasks s @ tasks\<rparr> in
        case err of
          Some e \<Rightarrow> (failed [] e LevelError, s1)
        | None \<Rightarrow> finishRecords s1 (Records_Add L E raw (rd_DNSRecords d) allowUpdate))"

definition runRecordRemove :: "dnslib \<Rightarrow> gostr list \<Rightarrow> cmd_state \<Rightarrow> cmd_result \<times> cmd_state" where
  "runRecordRemove L raw s = finishRecords s (Records_Remove L raw (rd_DNSRecords (cs_data s)))"

definition runRecordClear :: "gostr list \<Rightarrow> cmd_state \<Rightarrow> cmd_result \<times> cmd_state" where
  "runRecordClear raw s =
     plainCommand ''record clear'' ''Description: Remove all DNS records from memory.'' raw s
       (case UpdateRecordsInMemory (wd_config (cs_world s)) [] (cs_data s) of
          Inl e \<Rightarrow> (failed [] e LevelError, s)
        | Inr (d', eff) \<Rightarrow> (succeeded (infoMessages [''All DNS records have been cleared.'']) NoPayload, s\<lparr>cs_data := d'\<rparr>))"

definition runRecordLoad :: "dnslib \<Rightarrow> gostr list \<Rightarrow> cmd_state \<Rightarrow> cmd_result \<times> cmd_state" where
  "runRecordLoad L raw s =
     plainCommand ''record load'' ''Description: Reload DNS records from the configured records_source (file, url, git, or bind_dir).'' raw s
       (case ReloadRecordsFromSource (wd_config (cs_world s)) (LoadDNSRecords L (cs_world s)) (cs_data s) of
          (Inl e, d') \<Rightarrow> (failed [] e LevelError, s\<lparr>cs_data := d'\<rparr>)
        | (Inr n, d') \<Rightarrow>
            (succeeded (infoMessages [''DNS records reloaded from source ('' @ dec n @ '' records).'']) (RecordsPayload (rd_DNSRecords d')),
             s\<lparr>cs_data := d'\<rparr>))"

definition saveRecords :: "dns_record list \<Rightarrow> world \<Rightarrow> world \<times> gostr option" where
  "saveRecords records w =
     (if RecordsSourceIsReadOnly (wd_config w) then (w, None)
      else case fl_RecordsSource (wd_files w) of
        None \<Rightarrow> (w, Some ''records_source not configured'')
      | Some rs \<Rightarrow> writeJSONFile (rsc_Location rs) (empty_json\<lparr>jd_records := records\<rparr>) w)"

text \<open>A save command.\<close>

definition finishSave :: "cmd_state \<Rightarrow> gostr \<Rightarrow> world \<times> gostr option \<Rightarrow> cmd_result \<times> cmd_state" where
  "finishSave s text res = (case res of
      (w, Some e) \<Rightarrow> (failed [] e LevelError, s\<lparr>cs_world := w\<rparr>)
    | (w, None) \<Rightarrow> (succeeded (infoMessages [text]) NoPayload, s\<lparr>cs_world := w\<rparr>))"

definition runRecordSave :: "gostr list \<Rightarrow> cmd_state \<Rightarrow> cmd_result \<times> cmd_state" where
  "runRecordSave raw s =
     plainCommand ''record save'' ''Description: Save current DNS records to the default storage file.'' raw s
       (finishSave s ''DNS records saved.'' (saveRecords (rd_DNSRecords (cs_data s)) (cs_world s)))"

subsection \<open>Cache\<close>

definition runCacheList :: "gostr list \<Rightarrow> cmd_state \<Rightarrow> cmd_result \<times> cmd_state" where
  "runCacheList raw s =
     (if IsHelpRequest raw then
        (succeeded (infoMessages [''Usage: cache list'', ''Description: List all cache entries in memory.'', helpLine]) NoPayload, s)
      else
        let cache = rd_CacheRecords (cs_data s) in
        (succeeded (if cache = [] then infoMessages [''No cache records found.''] else []) (CachePayload cache), s))"

definition runCacheRemove :: "gostr list \<Rightarrow> cmd_state \<Rightarrow> cmd_result \<times> cmd_state" where
  "runCacheRemove raw s =
     (case Cache_Remove raw (rd_CacheRecords (cs_data s)) of (updated, msgs, err) \<Rightarrow>
        (case err of
           Some ErrHelpRequested \<Rightarrow> (succeeded msgs NoPayload, s)
         | Some e \<Rightarrow> (failed msgs (fst (err_severity e)) (snd (err_severity e)), s)
         | None \<Rightarrow> (succeeded msgs (CachePayload updated), s\<lparr>cs_data := UpdateCacheRecordsInMemory updated (cs_data s)\<rparr>)))"

definition runCacheCompact :: "gotime \<Rightarrow> gostr list \<Rightarrow> cmd_state \<Rightarrow> cmd_result \<times> cmd_state" where
  "runCacheCompact now raw s =
     plainCommand ''cache compact'' ''Description: Remove expired cache rows from memory (zero expiry or expiry in the past). Rebuilds the cache index and queues a background persist to dnscache.json when anything is removed. Use cache save to flush immediately.'' raw s
       (case CompactExpiredCacheRecords now (cs_data s) of (d1, removed) \<Rightarrow>
          let d2 = BumpCacheCompactScheduleAfterManual now (NoteCacheCompactRun now (int removed) d1);
              remaining = length (rd_CacheRecords d2);
              msgs = (if 0 < removed then
                        [''Removed '' @ dec removed @ '' expired cache row(s); '' @ dec remaining @ '' row(s) remain.'',
                         ''A background persist to dnscache.json is queued; run cache save to write immediately.'']
                      else if remaining = 0 then [''No rows removed; cache is empty.'']
                      else [''No expired rows removed; '' @ dec remaining @ '' row(s) still valid.''])
          in (succeeded (infoMessages msgs) NoPayload, s\<lparr>cs_data := d2\<rparr>))"

definition runCacheClear :: "gostr list \<Rightarrow> cmd_state \<Rightarrow> cmd_result \<times> cmd_state" where
  "runCacheClear raw s =
     plainCommand ''cache clear'' ''Description: Remove every cached DNS entry from memory only. Run cache save to persist an empty dnscache.json (otherwise the file on disk is unchanged until the next cache save or background persist).'' raw s
       (succeeded (infoMessages [''Cache cleared in memory.'', ''Run cache save to write an empty dnscache.json (optional).'']) NoPayload,
        s\<lparr>cs_data := UpdateCacheRecordsInMemory [] (cs_data s)\<rparr>)"

definition runCacheLoad :: "gostr list \<Rightarrow> cmd_state \<Rightarrow> cmd_result \<times> cmd_state" where
  "runCacheLoad raw s =
     plainCommand ''cache load'' ''Description: Load cache records from the default storage file.'' raw s
       (case LoadCacheRecords (cs_world s) of
          Inl e \<Rightarrow> (failed [] e LevelError, s)
        | Inr cache \<Rightarrow>
            (succeeded (infoMessages [''Cache records loaded.'']) (CachePayload cache),
             s\<lparr>cs_data := UpdateCacheRecordsInMemory cache (cs_data s)\<rparr>))"

definition runCacheSave :: "gostr list \<Rightarrow> cmd_state \<Rightarrow> cmd_result \<times> cmd_state" where
  "runCacheSave raw s =
     plainCommand ''cache save'' ''Description: Save cache records to the default storage file.'' raw s
       (finishSave s ''Cache records saved.'' (SaveCacheRecords (rd_CacheRecords (cs_data s)) (cs_world s)))"

subsection \<open>Servers\<close>

definition commit_servers :: "cmd_state \<Rightarrow> dns_server list \<Rightarrow> cmd_state" where
  "commit_servers s servers =
     (case UpdateServers servers (cs_data s) of (d', eff) \<Rightarrow> s\<lparr>cs_data := d', cs_world := fold perform eff (cs_world s)\<rparr>)"

definition runDNSList :: "gostr list \<Rightarrow> cmd_state \<Rightarrow> cmd_result \<times> cmd_state" where
  "runDNSList raw s =
     (if IsHelpRequest raw then
        (succeeded (infoMessages [''Usage: dns list'', ''Description: Show all configured upstream DNS servers.'', helpLine]) NoPayload, s)
      else case Servers_List (rd_DNSServers (cs_data s)) of (servers, msgs) \<Rightarrow> (succeeded msgs (ServersPayload servers), s))"

definition noDNSSubArgs :: "gostr list \<Rightarrow> gostr \<Rightarrow> bool" where
  "noDNSSubArgs raw sub = (case raw of
      [] \<Rightarrow> True
    | [a] \<Rightarrow> let first = TrimSpace a in EqualFold first sub \<or> first = []
    | _ \<Rightarrow> False)"

text \<open>The common body of the three server commands: wrong arguments show the usage and are no failure.\<close>

definition serverCommand ::
    "gostr \<Rightarrow> message list \<Rightarrow> (gostr list \<Rightarrow> dns_server list \<Rightarrow> servers_result) \<Rightarrow> gostr list \<Rightarrow> cmd_state \<Rightarrow> cmd_result \<times> cmd_state" where
  "serverCommand sub usage edit raw s =
     (if ContainsHelpToken raw \<or> noDNSSubArgs raw sub then (succeeded usage NoPayload, s)
      else case edit raw (rd_DNSServers (cs_data s)) of (updated, msgs, err) \<Rightarrow>
        (case err of
           Some e \<Rightarrow> (succeeded msgs NoPayload, s)
         | None \<Rightarrow> (succeeded msgs (ServersPayload updated), commit_servers s updated)))"

definition runDNSAdd :: "gostr list \<Rightarrow> cmd_state \<Rightarrow> cmd_result \<times> cmd_state" where
  "runDNSAdd = serverCommand ''add'' srvUsageAdd Servers_Add"

definition runDNSRemove :: "gostr list \<Rightarrow> cmd_state \<Rightarrow> cmd_result \<times> cmd_state" where
  "runDNSRemove = serverCommand ''remove'' srvUsageRemove Servers_Remove"

definition runDNSUpdate :: "gostr list \<Rightarrow> cmd_state \<Rightarrow> cmd_result \<times> cmd_state" where
  "runDNSUpdate = serverCommand ''update'' srvUsageUpdate Servers_Update"

definition runDNSClear :: "gostr list \<Rightarrow> cmd_state \<Rightarrow> cmd_result \<times> cmd_state" where
  "runDNSClear raw s =
     plainCommand ''dns clear'' ''Description: Remove all configured upstream DNS servers.'' raw s
       (succeeded (infoMessages [''All DNS servers have been cleared.'']) NoPayload, commit_servers s [])"

definition runDNSLoad :: "gostr list \<Rightarrow> cmd_state \<Rightarrow> cmd_result \<times> cmd_state" where
  "runDNSLoad raw s =
     plainCommand ''dns load'' ''Description: Load DNS servers from the default storage file.'' raw s
       (case LoadDNSServers (cs_world s) of
          Inl e \<Rightarrow> (failed [] e LevelError, s)
        | Inr servers \<Rightarrow> (succeeded (infoMessages [''DNS servers loaded.'']) (ServersPayload servers), commit_servers s servers))"

definition runDNSSave :: "gostr list \<Rightarrow> cmd_state \<Rightarrow> cmd_result \<times> cmd_state" where
  "runDNSSave raw s =
     plainCommand ''dns save'' ''Description: Save DNS server definitions to the default storage file.'' raw s
       (finishSave s ''DNS servers saved.'' (SaveDNSServers (rd_DNSServers (cs_data s)) (cs_world s)))"

subsection \<open>Block list\<close>

text \<open>The list is changed in place when there is one; a list made for a missing one is dropped.\<close>

definition set_block_list :: "block_list \<Rightarrow> cmd_state \<Rightarrow> cmd_state" where
  "set_block_list bl s =
     (case rd_BlockList (cs_data s) of None \<Rightarrow> s | Some _ \<Rightarrow> s\<lparr>cs_data := (cs_data s)\<lparr>rd_BlockList := Some bl\<rparr>\<rparr>)"

definition block_list_of :: "cmd_state \<Rightarrow> block_list" where
  "block_list_of s = (case rd_BlockList (cs_data s) of None \<Rightarrow> NewBlockList | Some bl \<Rightarrow> bl)"

text \<open>A command with exactly one argument.\<close>

definition oneArgument ::
    "gostr list \<Rightarrow> gostr \<Rightarrow> gostr \<Rightarrow> gostr \<Rightarrow> gostr \<Rightarrow> gostr list \<Rightarrow> cmd_state \<Rightarrow> (gostr \<Rightarrow> cmd_result \<times> cmd_state) \<Rightarrow> cmd_result \<times> cmd_state" where
  "oneArgument helpText usage needs missing toomany raw s body =
     (if IsHelpRequest raw then (succeeded (infoMessages ([usage] @ helpText @ [helpLine])) NoPayload, s)
      else case raw of
        [] \<Rightarrow> (failed (warnMessages [needs] @ infoMessages [usage]) missing LevelWarn, s)
      | [a] \<Rightarrow> body a
      | _ \<Rightarrow> (failed (warnMessages [toomany] @ infoMessages [usage]) ''too many arguments'' LevelWarn, s))"

definition runAdblockLoad :: "gostr list \<Rightarrow> cmd_state \<Rightarrow> cmd_result \<times> cmd_state" where
  "runAdblockLoad raw s =
     oneArgument [''Description: Load blocked domains from a file path or URL (http/https) and merge into the single block list.'',
                  ''Format: 0.0.0.0 domain1.com domain2.com ... (one line per entry)'']
       ''Usage: adblock load <filepath|url>'' ''adblock load requires a file path or URL.'' ''missing file path or URL''
       ''adblock load accepts exactly one argument (file path or URL).'' raw s
       (\<lambda>source.
          let bl = block_list_of s;
              isURL = HasPrefix source ''http://'' \<or> HasPrefix source ''https://'';
              (bl', err) = (if isURL then LoadFromURL (wd_list_url (cs_world s) source) bl
                            else LoadFromFile (wd_lines (cs_world s) source) bl);
              s' = set_block_list bl' s
          in case err of
               Some e \<Rightarrow> (failed [] e LevelError, s')
             | None \<Rightarrow>
                 let after = CountBlocked bl'; added = int after - int (CountBlocked bl) in
                 (succeeded (infoMessages [''Added '' @ dec_int added @ '' domain(s) from '' @ source @ ''. Total in block list: '' @ dec after])
                    (CountPayload (int after)),
                  s'\<lparr>cs_data := RecordAdblockSource source added (cs_data s')\<rparr>))"

definition runAdblockList :: "gostr list \<Rightarrow> cmd_state \<Rightarrow> cmd_result \<times> cmd_state" where
  "runAdblockList raw s =
     plainCommand ''adblock list'' ''Description: List loaded adblock sources (files/URLs) with count per source and total domains.'' raw s
       (let sources = rd_AdblockSources (cs_data s);
            total = ''Total domains in block list: '' @ dec (case rd_BlockList (cs_data s) of None \<Rightarrow> 0 | Some bl \<Rightarrow> CountBlocked bl)
        in if sources = [] then (succeeded (infoMessages [''No adblock sources loaded.'', total]) NoPayload, s)
           else (succeeded (infoMessages [total]) (SourcesPayload sources), s))"

definition runAdblockDomains :: "gostr list \<Rightarrow> cmd_state \<Rightarrow> cmd_result \<times> cmd_state" where
  "runAdblockDomains raw s =
     plainCommand ''adblock domains'' ''Description: List all currently blocked domains.'' raw s
       (let domains = (case rd_BlockList (cs_data s) of None \<Rightarrow> [] | Some bl \<Rightarrow> bl) in
        if domains = [] then (succeeded (infoMessages [''No blocked domains.'']) NoPayload, s)
        else (succeeded (infoMessages [''Found '' @ dec (length domains) @ '' blocked domain(s)'']) (DomainsPayload domains), s))"

definition runAdblockAdd :: "gostr list \<Rightarrow> cmd_state \<Rightarrow> cmd_result \<times> cmd_state" where
  "runAdblockAdd raw s =
     oneArgument [''Description: Add a domain to the block list.''] ''Usage: adblock add <domain>'' ''adblock add requires a domain.''
       ''missing domain'' ''adblock add accepts exactly one argument.'' raw s
       (\<lambda>domain. (succeeded (infoMessages [''Added domain to block list: '' @ domain]) NoPayload,
                  set_block_list (AddDomain domain (block_list_of s)) s))"

definition runAdblockRemove :: "gostr list \<Rightarrow> cmd_state \<Rightarrow> cmd_result \<times> cmd_state" where
  "runAdblockRemove raw s =
     oneArgument [''Description: Remove a domain from the block list.''] ''Usage: adblock remove <domain>'' ''adblock remove requires a domain.''
       ''missing domain'' ''adblock remove accepts exactly one argument.'' raw s
       (\<lambda>domain. case rd_BlockList (cs_data s) of
            None \<Rightarrow> (succeeded (infoMessages [''Block list is empty.'']) NoPayload, s)
          | Some bl \<Rightarrow> (succeeded (infoMessages [''Removed domain from block list: '' @ domain]) NoPayload, set_block_list (RemoveDomain domain bl) s))"

definition runAdblockClear :: "gostr list \<Rightarrow> cmd_state \<Rightarrow> cmd_result \<times> cmd_state" where
  "runAdblockClear raw s =
     plainCommand ''adblock clear'' ''Description: Remove all domains from the block list.'' raw s
       (case rd_BlockList (cs_data s) of
          None \<Rightarrow> (succeeded (infoMessages [''Block list is already empty.'']) NoPayload, s)
        | Some bl \<Rightarrow>
            let s' = set_block_list (ClearBlockList bl) s in
            (succeeded (infoMessages [''Block list and loaded sources cleared.'']) NoPayload, s'\<lparr>cs_data := ClearAdblockSources (cs_data s')\<rparr>))"

subsection \<open>All commands\<close>

datatype command =
    RecordAdd op_env | RecordUpdate op_env | RecordRemove | RecordList | RecordClear | RecordLoad | RecordSave
  | CacheList | CacheRemove | CacheCompact gotime | CacheClear | CacheLoad | CacheSave
  | DNSAdd | DNSRemove | DNSUpdate | DNSList | DNSClear | DNSLoad | DNSSave
  | AdblockLoad | AdblockList | AdblockDomains | AdblockAdd | AdblockRemove | AdblockClear

text \<open>The table of commands, as they are registered.\<close>

fun run_command :: "dnslib \<Rightarrow> command \<Rightarrow> gostr list \<Rightarrow> cmd_state \<Rightarrow> cmd_result \<times> cmd_state" where
  "run_command L (RecordAdd E) raw s = runRecordAdd L E False raw s"
| "run_command L (RecordUpdate E) raw s = runRecordAdd L E True raw s"
| "run_command L RecordRemove raw s = runRecordRemove L raw s"
| "run_command L RecordList raw s = runRecordList L raw s"
| "run_command L RecordClear raw s = runRecordClear raw s"
| "run_command L RecordLoad raw s = runRecordLoad L raw s"
| "run_command L RecordSave raw s = runRecordSave raw s"
| "run_command L CacheList raw s = runCacheList raw s"
| "run_command L CacheRemove raw s = runCacheRemove raw s"
| "run_command L (CacheCompact now) raw s = runCacheCompact now raw s"
| "run_command L CacheClear raw s = runCacheClear raw s"
| "run_command L CacheLoad raw s = runCacheLoad raw s"
| "run_command L CacheSave raw s = runCacheSave raw s"
| "run_command L DNSAdd raw s = runDNSAdd raw s"
| "run_command L DNSRemove raw s = runDNSRemove raw s"
| "run_command L DNSUpdate raw s = runDNSUpdate raw s"
| "run_command L DNSList raw s = runDNSList raw s"
| "run_command L DNSClear raw s = runDNSClear raw s"
| "run_command L DNSLoad raw s = runDNSLoad raw s"
| "run_command L DNSSave raw s = runDNSSave raw s"
| "run_command L AdblockLoad raw s = runAdblockLoad raw s"
| "run_command L AdblockList raw s = runAdblockList raw s"
| "run_command L AdblockDomains raw s = runAdblockDomains raw s"
| "run_command L AdblockAdd raw s = runAdblockAdd raw s"
| "run_command L AdblockRemove raw s = runAdblockRemove raw s"
| "run_command L AdblockClear raw s = runAdblockClear raw s"

definition run_commands :: "dnslib \<Rightarrow> (command \<times> gostr list) list \<Rightarrow> cmd_state \<Rightarrow> cmd_state" where
  "run_commands L cs s = fold (\<lambda>(c, raw) s. snd (run_command L c raw s)) cs s"

subsection \<open>What every command keeps\<close>

text \<open>An invariant of a session: current indexes, and usable servers in memory and in every file.\<close>

definition servers_ok :: "dns_server list \<Rightarrow> bool" where
  "servers_ok ss \<longleftrightarrow> (\<forall>x \<in> set ss. server_ok x)"

definition files_ok :: "world \<Rightarrow> bool" where
  "files_ok w \<longleftrightarrow> (\<forall>p doc. wd_file w p = JsonDoc doc \<longrightarrow> servers_ok (jd_servers doc))"

definition session_ok :: "cmd_state \<Rightarrow> bool" where
  "session_ok s \<longleftrightarrow> indexed (cs_data s) \<and> servers_ok (rd_DNSServers (cs_data s)) \<and> files_ok (cs_world s)"

lemma servers_ok_Nil [simp]: "servers_ok []"
  by (simp add: servers_ok_def)

lemma writeJSONFile_ok: "files_ok w \<Longrightarrow> servers_ok (jd_servers doc) \<Longrightarrow> files_ok (fst (writeJSONFile p doc w))"
  by (auto simp: files_ok_def writeJSONFile_def split: write_outcome.splits if_splits)

lemma LoadFromJSON_ok: "files_ok w \<Longrightarrow> LoadFromJSON w p = Inr doc \<Longrightarrow> servers_ok (jd_servers doc)"
  by (auto simp: files_ok_def LoadFromJSON_def split: file_state.splits)

lemma LoadDNSServers_ok: "files_ok w \<Longrightarrow> LoadDNSServers w = Inr ss \<Longrightarrow> servers_ok ss"
  by (cases "LoadFromJSON w (fl_DNSServerFile (wd_files w))") (auto simp: LoadDNSServers_def LoadFromJSON_ok)

lemma perform_records_ok: "files_ok w \<Longrightarrow> files_ok (perform (SaveRecords rs) w)"
  by (auto simp: perform_def writeJSONFile_ok empty_json_def split: option.splits)

lemma storeRecords_keeps:
  "rd_DNSServers (fst (storeRecords cfg io skip rs persist d)) = rd_DNSServers d"
  "indexed d \<Longrightarrow> indexed (fst (storeRecords cfg io skip rs persist d))"
  by (simp_all add: storeRecords_def indexed_def Let_def case_prod_beta)

lemma commit_records_ok: "session_ok s \<Longrightarrow> commit_records s rs = Inr s' \<Longrightarrow> session_ok s'"
  using storeRecords_keeps
  by (auto simp: commit_records_def session_ok_def UpdateRecords_def storeRecords_def SaveDNSRecords_def indexed_def Let_def
      perform_records_ok perform_def [of NotifyCluster] split: if_splits)

lemma finishRecords_ok: "session_ok s \<Longrightarrow> session_ok (snd (finishRecords s res))"
  by (auto simp: finishRecords_def commit_records_ok split: prod.splits option.splits op_error.splits sum.splits)

lemma Initialize_ok:
  assumes "files_ok w" "servers_ok (rd_DNSServers d0)" "indexed d0" "Initialize L w now d0 = (err, d, tasks)"
  shows "indexed d \<and> servers_ok (rd_DNSServers d)"
  using assms LoadDNSServers_ok [OF assms(1)]
  by (auto simp: Initialize_def Let_def indexed_def split: sum.splits prod.splits)

lemma plainCommand_ok: "session_ok s \<Longrightarrow> session_ok (snd body) \<Longrightarrow> session_ok (snd (plainCommand n t raw s body))"
  by (simp add: plainCommand_def)

lemma oneArgument_ok:
  "session_ok s \<Longrightarrow> (\<And>a. session_ok (snd (body a))) \<Longrightarrow> session_ok (snd (oneArgument h u n m t raw s body))"
  by (auto simp: oneArgument_def split: list.splits)

lemma finishSave_ok: "session_ok s \<Longrightarrow> files_ok (fst res) \<Longrightarrow> session_ok (snd (finishSave s t res))"
  by (auto simp: finishSave_def session_ok_def split: prod.splits option.splits)

lemma commit_servers_ok: "session_ok s \<Longrightarrow> servers_ok ss \<Longrightarrow> session_ok (commit_servers s ss)"
  by (auto simp: commit_servers_def session_ok_def UpdateServers_def indexed_def perform_def SaveDNSServers_def intro: writeJSONFile_ok)

lemma set_block_list_ok: "session_ok s \<Longrightarrow> session_ok (set_block_list bl s)"
  by (auto simp: set_block_list_def session_ok_def indexed_def split: option.splits)

lemma session_ok_cache:
  "session_ok s \<Longrightarrow> session_ok (s\<lparr>cs_data := UpdateCacheRecordsInMemory cache (cs_data s)\<rparr>)"
  by (simp add: session_ok_def UpdateCacheRecordsInMemory_def storeCacheRecords_def indexed_def)

lemma session_ok_sources:
  "session_ok s \<Longrightarrow> session_ok (s\<lparr>cs_data := RecordAdblockSource src n (cs_data s)\<rparr>)"
  "session_ok s \<Longrightarrow> session_ok (s\<lparr>cs_data := ClearAdblockSources (cs_data s)\<rparr>)"
  by (simp_all add: session_ok_def RecordAdblockSource_def ClearAdblockSources_def indexed_def)

lemma serverCommand_ok:
  assumes "session_ok s" "\<And>ss. servers_ok ss \<Longrightarrow> servers_ok (fst (edit raw ss))"
  shows "session_ok (snd (serverCommand sub usage edit raw s))"
proof -
  obtain updated msgs err where e: "edit raw (rd_DNSServers (cs_data s)) = (updated, msgs, err)" by (metis prod_cases3)
  have "servers_ok (fst (edit raw (rd_DNSServers (cs_data s))))" using assms(1) by (intro assms(2)) (simp add: session_ok_def)
  then have "session_ok (commit_servers s updated)" unfolding e using commit_servers_ok [OF assms(1)] by simp
  then show ?thesis using assms(1) unfolding serverCommand_def e by (simp split: option.split)
qed

lemma run_server_op_servers_ok: "servers_ok ss \<Longrightarrow> servers_ok (fst (run_server_op c ss))"
  unfolding servers_ok_def by (rule conjunct1 [OF run_server_op_ok])

lemmas edit_ok = run_server_op_servers_ok [of _ "SrvAdd raw" for raw, unfolded run_server_op.simps]
  run_server_op_servers_ok [of _ "SrvRemove raw" for raw, unfolded run_server_op.simps]
  run_server_op_servers_ok [of _ "SrvUpdate raw" for raw, unfolded run_server_op.simps]

lemma compact_ok:
  assumes "session_ok s" "CompactExpiredCacheRecords now (cs_data s) = (d1, removed)"
  shows "session_ok (s\<lparr>cs_data := BumpCacheCompactScheduleAfterManual now (NoteCacheCompactRun now n d1)\<rparr>)"
proof -
  have "indexed d1" using data_step_indexed [OF step_compact [OF assms(2)]] assms(1) by (simp add: session_ok_def)
  moreover have "rd_DNSServers d1 = rd_DNSServers (cs_data s)"
    using assms(2) by (auto simp: CompactExpiredCacheRecords_def Let_def split: if_splits)
  ultimately show ?thesis
    using assms(1) by (simp add: session_ok_def BumpCacheCompactScheduleAfterManual_def NoteCacheCompactRun_def
        SetNextCacheCompactAt_def indexed_def Let_def)
qed

lemma adblock_load_ok:
  assumes "session_ok s"
  shows "session_ok (snd (runAdblockLoad raw s))"
  unfolding runAdblockLoad_def
proof (rule oneArgument_ok [OF assms], goal_cases)
  case (1 source)
  let ?r = "if HasPrefix source ''http://'' \<or> HasPrefix source ''https://''
            then LoadFromURL (wd_list_url (cs_world s) source) (block_list_of s)
            else LoadFromFile (wd_lines (cs_world s) source) (block_list_of s)"
  obtain bl' err where r: "?r = (bl', err)" by fastforce
  show ?case
    using set_block_list_ok [OF assms] session_ok_sources(1) [OF set_block_list_ok [OF assms]]
    unfolding Let_def r by (cases err) simp_all
qed

lemma record_add_ok: "session_ok s \<Longrightarrow> session_ok (snd (runRecordAdd L E au raw s))"
proof -
  assume s: "session_ok s"
  obtain err d tasks where i: "Initialize L (cs_world s) (env_now E) (cs_data s) = (err, d, tasks)" by (metis prod_cases3)
  have "session_ok (s\<lparr>cs_data := d, cs_tasks := cs_tasks s @ tasks\<rparr>)"
    using Initialize_ok [OF _ _ _ i] s by (simp add: session_ok_def)
  then show ?thesis by (cases err) (simp_all add: runRecordAdd_def i finishRecords_ok)
qed

lemma record_commands_ok:
  assumes "session_ok s"
  shows "session_ok (snd (runRecordRemove L raw s))" "session_ok (snd (runRecordList L raw s))"
    "session_ok (snd (runRecordClear raw s))" "session_ok (snd (runRecordLoad L raw s))" "session_ok (snd (runRecordSave raw s))"
proof -
  show "session_ok (snd (runRecordRemove L raw s))" using assms by (simp add: runRecordRemove_def finishRecords_ok)
  show "session_ok (snd (runRecordList L raw s))"
    using assms by (simp add: runRecordList_def split: prod.splits option.splits op_error.splits)
  have "session_ok (s\<lparr>cs_data := d'\<rparr>)" if "UpdateRecordsInMemory cfg rs (cs_data s) = Inr (d', eff)" for cfg rs d' eff
    using that assms storeRecords_keeps
    by (auto simp: UpdateRecordsInMemory_def session_ok_def storeRecords_def indexed_def Let_def split: if_splits)
  then show "session_ok (snd (runRecordClear raw s))"
    unfolding runRecordClear_def using assms by (intro plainCommand_ok) (simp_all split: sum.splits prod.splits)
  have "session_ok (s\<lparr>cs_data := snd (ReloadRecordsFromSource cfg l (cs_data s))\<rparr>)" for cfg l
    using assms storeRecords_keeps by (simp add: ReloadRecordsFromSource_def session_ok_def split: sum.splits)
  then show "session_ok (snd (runRecordLoad L raw s))"
    unfolding runRecordLoad_def using assms
    by (intro plainCommand_ok) (simp_all add: case_prod_beta split: sum.splits)
  have "files_ok (fst (saveRecords rs (cs_world s)))" for rs
    using assms by (simp add: saveRecords_def session_ok_def writeJSONFile_ok empty_json_def split: option.splits)
  then show "session_ok (snd (runRecordSave raw s))"
    unfolding runRecordSave_def using assms by (intro plainCommand_ok finishSave_ok)
qed

lemma cache_commands_ok:
  assumes "session_ok s"
  shows "session_ok (snd (runCacheList raw s))" "session_ok (snd (runCacheRemove raw s))"
    "session_ok (snd (runCacheCompact now raw s))" "session_ok (snd (runCacheClear raw s))"
    "session_ok (snd (runCacheLoad raw s))" "session_ok (snd (runCacheSave raw s))"
proof -
  show "session_ok (snd (runCacheList raw s))" using assms by (simp add: runCacheList_def Let_def)
  show "session_ok (snd (runCacheRemove raw s))"
    using assms by (simp add: runCacheRemove_def session_ok_cache split: prod.splits option.splits op_error.splits)
  show "session_ok (snd (runCacheCompact now raw s))"
    unfolding runCacheCompact_def using assms compact_ok [OF assms]
    by (intro plainCommand_ok) (simp_all add: Let_def split: prod.splits)
  show "session_ok (snd (runCacheClear raw s))"
    unfolding runCacheClear_def using assms by (intro plainCommand_ok) (simp_all add: session_ok_cache)
  show "session_ok (snd (runCacheLoad raw s))"
    unfolding runCacheLoad_def using assms by (intro plainCommand_ok) (simp_all add: session_ok_cache split: sum.splits)
  have "files_ok (fst (SaveCacheRecords c (cs_world s)))" for c
    using assms by (simp add: SaveCacheRecords_def session_ok_def writeJSONFile_ok empty_json_def)
  then show "session_ok (snd (runCacheSave raw s))"
    unfolding runCacheSave_def using assms by (intro plainCommand_ok finishSave_ok)
qed

lemma dns_commands_ok:
  assumes "session_ok s"
  shows "session_ok (snd (runDNSAdd raw s))" "session_ok (snd (runDNSRemove raw s))" "session_ok (snd (runDNSUpdate raw s))"
    "session_ok (snd (runDNSList raw s))" "session_ok (snd (runDNSClear raw s))" "session_ok (snd (runDNSLoad raw s))"
    "session_ok (snd (runDNSSave raw s))"
proof -
  show "session_ok (snd (runDNSAdd raw s))" "session_ok (snd (runDNSRemove raw s))" "session_ok (snd (runDNSUpdate raw s))"
    using assms edit_ok by (simp_all add: runDNSAdd_def runDNSRemove_def runDNSUpdate_def serverCommand_ok)
  show "session_ok (snd (runDNSList raw s))" using assms by (simp add: runDNSList_def split: prod.splits)
  show "session_ok (snd (runDNSClear raw s))"
    unfolding runDNSClear_def using assms by (intro plainCommand_ok) (simp_all add: commit_servers_ok)
  have "session_ok (commit_servers s ss)" if "LoadDNSServers (cs_world s) = Inr ss" for ss
  proof (rule commit_servers_ok [OF assms])
    show "servers_ok ss" using LoadDNSServers_ok [OF _ that] assms by (simp add: session_ok_def)
  qed
  then show "session_ok (snd (runDNSLoad raw s))"
    unfolding runDNSLoad_def using assms by (intro plainCommand_ok) (simp_all split: sum.splits)
  have "files_ok (fst (SaveDNSServers (rd_DNSServers (cs_data s)) (cs_world s)))"
    using assms by (simp add: SaveDNSServers_def session_ok_def writeJSONFile_ok)
  then show "session_ok (snd (runDNSSave raw s))"
    unfolding runDNSSave_def using assms by (intro plainCommand_ok finishSave_ok)
qed

lemma adblock_commands_ok:
  assumes "session_ok s"
  shows "session_ok (snd (runAdblockList raw s))" "session_ok (snd (runAdblockDomains raw s))"
    "session_ok (snd (runAdblockAdd raw s))" "session_ok (snd (runAdblockRemove raw s))" "session_ok (snd (runAdblockClear raw s))"
proof -
  show "session_ok (snd (runAdblockList raw s))" "session_ok (snd (runAdblockDomains raw s))"
    unfolding runAdblockList_def runAdblockDomains_def using assms by (intro plainCommand_ok; simp add: Let_def)+
  show "session_ok (snd (runAdblockAdd raw s))" "session_ok (snd (runAdblockRemove raw s))"
    unfolding runAdblockAdd_def runAdblockRemove_def
    using assms set_block_list_ok [OF assms] by (intro oneArgument_ok; simp split: option.splits)+
  show "session_ok (snd (runAdblockClear raw s))"
    unfolding runAdblockClear_def using assms
    by (intro plainCommand_ok) (simp_all add: Let_def set_block_list_ok session_ok_sources split: option.splits)
qed

text \<open>C29.  Interactive sessions keep the data consistent: after any sequence of the record, cache, server and
  block-list commands, with any arguments and whether reads and writes succeed or not, the look-up indexes are
  those of the current records and cache, and every upstream server, in memory and in every file, has an
  address and a port that can be used.\<close>

theorem commands_keep_session_ok:
  assumes "session_ok s"
  shows "session_ok (run_commands L cs s)"
  using assms unfolding run_commands_def
proof (induction cs arbitrary: s)
  case (Cons x cs)
  obtain c raw where x: "x = (c, raw)" by (cases x) auto
  have "session_ok (snd (run_command L c raw s))"
    by (cases c) (simp_all add: Cons.prems record_add_ok record_commands_ok cache_commands_ok dns_commands_ok
        adblock_load_ok adblock_commands_ok)
  then show ?case using Cons.IH x by simp
qed simp

definition fresh_session :: cmd_state where
  "fresh_session = \<lparr>cs_data = WarmIndexes empty_data, cs_world = blank_world, cs_tasks = [CachePersistWorker]\<rparr>"

lemma fresh_session_ok: "session_ok fresh_session"
  by (simp add: session_ok_def fresh_session_def indexed_def WarmIndexes_def empty_data_def files_ok_def blank_world_def empty_json_def)

theorem commands_keep_session_ok_witness:
  "session_ok (run_commands sample_lib [(DNSAdd, [''1.1.1.1'']), (DNSSave, []), (RecordLoad, []), (CacheClear, [])] fresh_session)"
  using commands_keep_session_ok [OF fresh_session_ok] .

subsection \<open>A failing command\<close>

text \<open>The commands that can change something before they fail: adding a record has initialised the data, a list
  that breaks off has been read up to there, and a save may have truncated its file.\<close>

definition changes_before_failing :: "command \<Rightarrow> bool" where
  "changes_before_failing c = (case c of
      RecordAdd _ \<Rightarrow> True | RecordUpdate _ \<Rightarrow> True | AdblockLoad \<Rightarrow> True
    | RecordSave \<Rightarrow> True | CacheSave \<Rightarrow> True | DNSSave \<Rightarrow> True | _ \<Rightarrow> False)"

definition fails_clean :: "cmd_state \<Rightarrow> cmd_result \<times> cmd_state \<Rightarrow> bool" where
  "fails_clean s r \<longleftrightarrow> (res_Status (fst r) = StatusFailed \<longrightarrow> snd r = s \<and> res_Error (fst r) \<noteq> None) \<and>
     (res_Status (fst r) = StatusSuccess \<longrightarrow> res_Error (fst r) = None)"

lemma fails_clean_results:
  "fails_clean s (succeeded msgs p, s')" "fails_clean s (failed msgs e l, s)"
  by (simp_all add: fails_clean_def succeeded_def failed_def)

lemma plainCommand_clean: "fails_clean s body \<Longrightarrow> fails_clean s (plainCommand n t raw s body)"
  by (simp add: plainCommand_def fails_clean_results)

lemma oneArgument_clean: "(\<And>a. fails_clean s (body a)) \<Longrightarrow> fails_clean s (oneArgument h u n m t raw s body)"
  by (auto simp: oneArgument_def fails_clean_results split: list.splits)

lemma finishRecords_clean: "fails_clean s (finishRecords s res)"
  by (auto simp: finishRecords_def fails_clean_results split: prod.splits option.splits op_error.splits sum.splits)

lemma ReloadRecords_error: "ReloadRecordsFromSource cfg l d = (Inl e, d') \<Longrightarrow> d' = d"
  by (auto simp: ReloadRecordsFromSource_def split: sum.splits)

lemma runRecordLoad_clean: "fails_clean s (runRecordLoad L raw s)"
  unfolding runRecordLoad_def
  by (rule plainCommand_clean) (auto simp: fails_clean_results dest: ReloadRecords_error split: prod.splits sum.splits)

lemma serverCommand_clean: "fails_clean s (serverCommand sub usage edit raw s)"
  by (auto simp: serverCommand_def fails_clean_results split: prod.splits option.splits)

text \<open>C30.  A command that fails says why and, apart from those that read or write files first, leaves the data,
  the files and the background tasks exactly as they were; a command that succeeds reports no error.\<close>

theorem failed_command_changes_nothing:
  assumes "\<not> changes_before_failing c" "run_command L c raw s = (r, s')"
  shows "(res_Status r = StatusFailed \<longrightarrow> s' = s \<and> res_Error r \<noteq> None) \<and> (res_Status r = StatusSuccess \<longrightarrow> res_Error r = None)"
proof -
  have "fails_clean s (run_command L c raw s)"
  proof (cases c)
    case RecordList
    then show ?thesis
      by (auto simp: runRecordList_def fails_clean_results split: prod.splits option.splits op_error.splits)
  next
    case CacheRemove
    then show ?thesis
      by (auto simp: runCacheRemove_def fails_clean_results split: prod.splits option.splits op_error.splits)
  next
    case RecordClear
    then show ?thesis
      by (auto simp: runRecordClear_def fails_clean_results intro!: plainCommand_clean split: sum.splits prod.splits)
  next
    case (CacheCompact now)
    then show ?thesis
      by (auto simp: runCacheCompact_def fails_clean_results Let_def intro!: plainCommand_clean split: prod.splits)
  next
    case AdblockRemove
    then show ?thesis
      by (auto simp: runAdblockRemove_def fails_clean_results intro!: oneArgument_clean split: option.splits)
  next
    case AdblockClear
    then show ?thesis
      by (auto simp: runAdblockClear_def fails_clean_results Let_def intro!: plainCommand_clean split: option.splits)
  qed (use assms(1) in \<open>simp_all add: changes_before_failing_def runRecordRemove_def finishRecords_clean runRecordLoad_clean
      runCacheList_def runCacheClear_def runCacheLoad_def runDNSAdd_def runDNSRemove_def runDNSUpdate_def runDNSList_def
      runDNSClear_def runDNSLoad_def runAdblockList_def runAdblockDomains_def runAdblockAdd_def Let_def
      serverCommand_clean fails_clean_results plainCommand_clean oneArgument_clean split: sum.splits prod.splits\<close>)
  then show ?thesis using assms(2) by (simp add: fails_clean_def)
qed

theorem failed_command_changes_nothing_witness:
  "snd (run_command sample_lib DNSLoad [''x''] fresh_session) = fresh_session"
proof -
  have "res_Status (fst (run_command sample_lib DNSLoad [''x''] fresh_session)) = StatusFailed"
  proof -
    have "\<not> IsHelpRequest [''x'']" by code_simp
    then show ?thesis by (simp add: runDNSLoad_def plainCommand_def failed_def)
  qed
  then show ?thesis
    using failed_command_changes_nothing [of DNSLoad sample_lib "[''x'']" fresh_session, OF _ prod.collapse [symmetric]]
    by (simp add: changes_before_failing_def)
qed

subsection \<open>Adding a record discards what is only in memory\<close>

lemma commit_records_changes:
  "commit_records s rs = Inr s' \<Longrightarrow> cs_tasks s' = cs_tasks s \<and>
     cs_data s' = (cs_data s)\<lparr>rd_DNSRecords := rs, rd_dnsRecordIdx := buildDNSRecordIndex rs\<rparr>"
  by (auto simp: commit_records_def UpdateRecords_def storeRecords_def Let_def split: prod.splits if_splits)

lemma finishRecords_changes:
  "snd (finishRecords s res) = s \<or>
   (\<exists>recs idx. cs_tasks (snd (finishRecords s res)) = cs_tasks s \<and>
      cs_data (snd (finishRecords s res)) = (cs_data s)\<lparr>rd_DNSRecords := recs, rd_dnsRecordIdx := idx\<rparr>)"
proof -
  obtain updated msgs err where r: "res = (updated, msgs, err)" by (metis prod_cases3)
  show ?thesis
  proof (cases "err = None")
    case True
    then show ?thesis
      using commit_records_changes [of s updated] by (cases "commit_records s updated") (auto simp: finishRecords_def r)
  next
    case False
    then have "snd (finishRecords s res) = s" by (auto simp: finishRecords_def r split: op_error.splits)
    then show ?thesis ..
  qed
qed

text \<open>Adding or updating a record initialises the shared data again: when the files can be read, whatever
  the arguments and whatever the result, the cache is the one of the cache file, the servers are those of the
  server file, the block list has only the names of the configured list files, the uptime starts again while the
  counters go on, and one more cache writer runs.  So entries cleared from the cache come back, and domains blocked by hand are
  no longer blocked.\<close>

theorem record_add_discards_memory:
  assumes "LoadDNSServers (cs_world s) = Inr servers" "LoadDNSRecords L (cs_world s) = Inr records"
    and "LoadCacheRecords (cs_world s) = Inr cache" "runRecordAdd L E au raw s = (r, s')"
  shows "rd_CacheRecords (cs_data s') = cache \<and> rd_DNSServers (cs_data s') = servers \<and>
    rd_BlockList (cs_data s') =
      Some (fst (fold (loadAdblockFile (cs_world s)) (cf_AdblockListFiles (wd_config (cs_world s))) (NewBlockList, []))) \<and>
    rd_Stats (cs_data s') = (rd_Stats (cs_data s))\<lparr>st_ServerStartTime := env_now E\<rparr> \<and>
    filter (\<lambda>t. t = CachePersistWorker) (cs_tasks s') = filter (\<lambda>t. t = CachePersistWorker) (cs_tasks s) @ [CachePersistWorker]"
proof -
  let ?bl = "fold (loadAdblockFile (cs_world s)) (cf_AdblockListFiles (wd_config (cs_world s))) (NewBlockList, [])"
  let ?src = "sourceTasks (fl_RecordsSource (wd_files (cs_world s)))"
  obtain d where d: "Initialize L (cs_world s) (env_now E) (cs_data s) = (None, d, CachePersistWorker # ?src)"
    "rd_CacheRecords d = cache" "rd_DNSServers d = servers" "rd_BlockList d = Some (fst ?bl)" "rd_Stats d = (rd_Stats (cs_data s))\<lparr>st_ServerStartTime := env_now E\<rparr>"
    using assms(1-3) by (simp add: Initialize_def Let_def case_prod_beta)
  have t: "filter (\<lambda>t. t = CachePersistWorker) ?src = []"
    by (auto simp: sourceTasks_def Let_def split: option.splits)
  let ?s1 = "s\<lparr>cs_data := d, cs_tasks := cs_tasks s @ CachePersistWorker # ?src\<rparr>"
  have "s' = snd (finishRecords ?s1 (Records_Add L E raw (rd_DNSRecords d) au))"
    using assms(4) unfolding runRecordAdd_def d(1) by (simp add: prod_eq_iff)
  then consider "s' = ?s1"
    | recs idx where "cs_tasks s' = cs_tasks ?s1" "cs_data s' = d\<lparr>rd_DNSRecords := recs, rd_dnsRecordIdx := idx\<rparr>"
    using finishRecords_changes [of ?s1 "Records_Add L E raw (rd_DNSRecords d) au"] by auto
  then show ?thesis by cases (simp_all add: d(2-5) t)
qed

theorem record_add_discards_memory_witness:
  "let s1 = snd (run_command sample_lib AdblockAdd [''ads.example''] fresh_session);
       s2 = snd (run_command sample_lib (RecordAdd sample_env) [] s1)
   in (\<exists>bl. rd_BlockList (cs_data s1) = Some bl \<and> IsBlocked bl ''ads.example'') \<and> rd_BlockList (cs_data s2) = Some []"
proof -
  let ?s1 = "snd (run_command sample_lib AdblockAdd [''ads.example''] fresh_session)"
  have s1: "?s1 = set_block_list (AddDomain ''ads.example'' []) fresh_session"
  proof -
    have "\<not> IsHelpRequest [''ads.example'']" by code_simp
    then show ?thesis
      by (simp add: runAdblockAdd_def oneArgument_def block_list_of_def fresh_session_def WarmIndexes_def empty_data_def)
  qed
  have w: "cs_world ?s1 = blank_world" unfolding s1 by (simp add: set_block_list_def fresh_session_def split: option.splits)
  have l: "LoadDNSRecords sample_lib blank_world = Inr []"
  proof -
    have t: "TrimSpace ''r'' = ''r''" by code_simp
    show ?thesis
      using LoadDNSRecords_file [OF blank_world_facts(2)] file_source_writable [OF blank_world_facts(2)] t
      by (simp add: file_source_def LoadFromJSON_def blank_world_def empty_json_def)
  qed
  have "IsBlocked (AddDomain ''ads.example'' []) ''ads.example''" by code_simp
  moreover have "rd_BlockList (cs_data ?s1) = Some (AddDomain ''ads.example'' [])"
    unfolding s1 by (simp add: set_block_list_def fresh_session_def WarmIndexes_def empty_data_def)
  moreover have "cf_AdblockListFiles (wd_config blank_world) = []"
    by (simp add: blank_world_def first_world_def first_config_def empty_Config_def)
  moreover have "rd_BlockList (cs_data (snd (runRecordAdd sample_lib sample_env False [] ?s1))) =
      Some (fst (fold (loadAdblockFile blank_world) (cf_AdblockListFiles (wd_config blank_world)) (NewBlockList, [])))"
    using record_add_discards_memory [of ?s1 "[]" sample_lib "[]" "[]" sample_env False "[]", OF _ _ _ prod.collapse [symmetric]]
      blank_world_facts(4,5) l unfolding w by blast
  ultimately show ?thesis unfolding Let_def run_command.simps(1) by (simp only: fold.simps id_apply fst_conv NewBlockList_def) blast
qed

end
