(* ===== verification/HostPort.thy ===== *)
theory HostPort
  imports IPAddr
begin

text \<open>
  \<^verbatim>\<open>net.SplitHostPort\<close> of the Go library, which the limiters, the cluster and the DNS listeners apply to
  addresses; it inverts \<^verbatim>\<open>net.JoinHostPort\<close>.
\<close>

fun LastIndexByte :: "gostr \<Rightarrow> char \<Rightarrow> nat option" where
  "LastIndexByte [] c = None"
| "LastIndexByte (x # xs) c = (case LastIndexByte xs c of Some i \<Rightarrow> Some (Suc i) | None \<Rightarrow> if x = c then Some 0 else None)"

datatype addr_error = MissingPort | TooManyColons | MissingBracket | UnexpectedBracket

definition SplitHostPort :: "gostr \<Rightarrow> addr_error + gostr \<times> gostr" where
  "SplitHostPort hostport =
     (case LastIndexByte hostport CHR '':'' of
        None \<Rightarrow> Inl MissingPort
      | Some i \<Rightarrow>
          let finish = (\<lambda>host j k.
                if CHR ''['' \<in> set (drop j hostport) \<or> CHR '']'' \<in> set (drop k hostport) then Inl UnexpectedBracket
                else Inr (host, drop (Suc i) hostport))
          in if hd hostport = CHR ''['' then
               (case Index hostport '']'' of
                  None \<Rightarrow> Inl MissingBracket
                | Some e \<Rightarrow>
                    if e + 1 = length hostport then Inl MissingPort
                    else if e + 1 = i then finish (drop 1 (take e hostport)) 1 (e + 1)
                    else if hostport ! (e + 1) = CHR '':'' then Inl TooManyColons else Inl MissingPort)
             else if CHR '':'' \<in> set (take i hostport) then Inl TooManyColons
             else finish (take i hostport) 0 0)"

lemma LastIndexByte_append: "c \<notin> set p \<Longrightarrow> LastIndexByte (h @ c # p) c = Some (length h)"
proof (induction h)
  case Nil
  have "LastIndexByte p c = None" using Nil by (induction p) auto
  then show ?case by simp
qed simp

lemma Index_first_char: "c \<notin> set a \<Longrightarrow> Index (a @ c # b) [c] = Some (length a)"
  by (induction a) (auto simp: HasPrefix_def)

text \<open>Splitting inverts joining for hosts without brackets and ports without colons and brackets.\<close>

lemma SplitHostPort_JoinHostPort:
  assumes "\<forall>c \<in> {CHR ''['', CHR '']''}. c \<notin> set h" "\<forall>c \<in> {CHR '':'', CHR ''['', CHR '']''}. c \<notin> set p"
  shows "SplitHostPort (JoinHostPort h p) = Inr (h, p)"
proof (cases "CHR '':'' \<in> set h")
  case True
  then have j: "JoinHostPort h p = (CHR ''['' # h @ [CHR '']'']) @ CHR '':'' # p" by (simp add: JoinHostPort_def)
  have j': "JoinHostPort h p = (CHR ''['' # h) @ CHR '']'' # CHR '':'' # p" by (simp add: j)
  have "LastIndexByte (JoinHostPort h p) CHR '':'' = Some (length h + 2)"
    using assms(2) unfolding j by (subst LastIndexByte_append) simp_all
  moreover have "Index (JoinHostPort h p) '']'' = Some (length h + 1)"
    using assms(1) unfolding j' by (subst Index_first_char) simp_all
  ultimately show ?thesis using assms by (auto simp: SplitHostPort_def j)
next
  case False
  then have j: "JoinHostPort h p = h @ CHR '':'' # p" by (simp add: JoinHostPort_def)
  have "LastIndexByte (JoinHostPort h p) CHR '':'' = Some (length h)"
    using assms(2) unfolding j by (subst LastIndexByte_append) simp_all
  moreover have "hd (h @ CHR '':'' # p) \<noteq> CHR ''[''" using assms(1) by (cases h) auto
  ultimately show ?thesis using assms False by (auto simp: SplitHostPort_def j)
qed

end
