(* ===== verification/Limiters.thy ===== *)
theory Limiters
  imports HostPort GoFloat Config "HOL-Library.AList"
begin

text \<open>
  The rate limiters: \<^verbatim>\<open>abuse/sliding.go\<close> and \<^verbatim>\<open>abuse/rrl.go\<close> (responses per window), \<^verbatim>\<open>ratelimit/ip.go\<close> (a
  token bucket per client) and \<^verbatim>\<open>buildResponseLimiter\<close> of \<^verbatim>\<open>main_dns_inbound.go\<close>.  A Go map is an
  association list without duplicate keys.  An operation holds the lock for its whole body and gets the
  time it reads as an argument.  A nil limiter is the constructor \<open>NoLimiter\<close>.
\<close>

unbundle bit_operations_syntax

record window_entry =
  we_count :: int
  we_start :: gotime

text \<open>The common body of the two \<^verbatim>\<open>RecordResponse\<close> methods on the entry of a key.\<close>

definition record_entry :: "duration \<Rightarrow> gotime \<Rightarrow> window_entry option \<Rightarrow> window_entry" where
  "record_entry window now e = (case e of
      None \<Rightarrow> \<lparr>we_count = 1, we_start = now\<rparr>
    | Some e \<Rightarrow> if time_Sub now (we_start e) \<ge> window then \<lparr>we_count = 1, we_start = now\<rparr>
                else e\<lparr>we_count := we_count e + 1\<rparr>)"

subsection \<open>Responses per client\<close>

record SlidingWindow =
  sw_m :: "(gostr \<times> window_entry) list"
  sw_window :: duration
  sw_maxPerIP :: int
  sw_maxIPs :: int

definition NewSlidingWindow :: "duration \<Rightarrow> int \<Rightarrow> int \<Rightarrow> SlidingWindow" where
  "NewSlidingWindow window maxPerIP maxIPs =
     \<lparr>sw_m = [], sw_window = window, sw_maxPerIP = maxPerIP, sw_maxIPs = (if maxIPs \<le> 0 then 50000 else maxIPs)\<rparr>"

definition SlidingWindow_Allow :: "SlidingWindow \<Rightarrow> gotime \<Rightarrow> gostr \<Rightarrow> bool" where
  "SlidingWindow_Allow s now ip =
     (if sw_maxPerIP s \<le> 0 then True
      else if int (length (sw_m s)) \<ge> sw_maxIPs s \<and> map_of (sw_m s) ip = None then True
      else case map_of (sw_m s) ip of
        None \<Rightarrow> True
      | Some e \<Rightarrow> if time_Sub now (we_start e) \<ge> sw_window s then True else we_count e < sw_maxPerIP s)"

definition SlidingWindow_RecordResponse :: "SlidingWindow \<Rightarrow> gotime \<Rightarrow> gostr \<Rightarrow> SlidingWindow" where
  "SlidingWindow_RecordResponse s now ip =
     (if sw_maxPerIP s \<le> 0 then s
      else s\<lparr>sw_m := AList.update ip (record_entry (sw_window s) now (map_of (sw_m s) ip)) (sw_m s)\<rparr>)"

subsection \<open>Responses per client and name\<close>

record RRL =
  rrl_buckets :: "(u64 \<times> window_entry) list"
  rrl_maxPerWin :: int
  rrl_window :: duration
  rrl_slip :: rat
  rrl_maxBuckets :: int

definition NewRRL :: "int \<Rightarrow> duration \<Rightarrow> rat \<Rightarrow> int \<Rightarrow> RRL" where
  "NewRRL maxPerWindow window slip maxBuckets =
     \<lparr>rrl_buckets = [], rrl_maxPerWin = maxPerWindow, rrl_window = window, rrl_slip = slip,
      rrl_maxBuckets = (if maxBuckets \<le> 0 then 100000 else maxBuckets)\<rparr>"

text \<open>\<open>rnd\<close> is the outcome of the random source, \<open>None\<close> when it fails; the 53-bit quotient is exact.\<close>

definition slipPass :: "u64 option \<Rightarrow> rat \<Rightarrow> bool" where
  "slipPass rnd slip =
     (if slip \<le> 0 then False
      else case rnd of None \<Rightarrow> False | Some u \<Rightarrow> of_nat (unat (drop_bit 11 u)) / 2 ^ 53 < slip)"

text \<open>The hash is FNV-1a on 64 bits.\<close>

definition fnv64a :: "gostr \<Rightarrow> u64" where
  "fnv64a s = fold (\<lambda>c h. (h XOR of_char c) * 1099511628211) s 14695981039346656037"

definition rrlKey :: "gostr \<Rightarrow> gostr \<Rightarrow> u64" where
  "rrlKey ip qname = fnv64a (ip @ [CHR 0x00] @ qname)"

text \<open>\<^verbatim>\<open>Allow\<close> and \<^verbatim>\<open>RecordResponse\<close> once the key is known.\<close>

definition rrl_allow_key :: "RRL \<Rightarrow> u64 option \<Rightarrow> gotime \<Rightarrow> u64 \<Rightarrow> bool" where
  "rrl_allow_key r rnd now k =
     (if rrl_maxPerWin r \<le> 0 then True
      else if int (length (rrl_buckets r)) \<ge> rrl_maxBuckets r \<and> map_of (rrl_buckets r) k = None then True
      else case map_of (rrl_buckets r) k of
        None \<Rightarrow> True
      | Some e \<Rightarrow>
          if time_Sub now (we_start e) \<ge> rrl_window r then True
          else if we_count e < rrl_maxPerWin r then True
          else rrl_slip r > 0 \<and> slipPass rnd (rrl_slip r))"

definition rrl_record_key :: "RRL \<Rightarrow> gotime \<Rightarrow> u64 \<Rightarrow> RRL" where
  "rrl_record_key r now k =
     (if rrl_maxPerWin r \<le> 0 then r
      else r\<lparr>rrl_buckets := AList.update k (record_entry (rrl_window r) now (map_of (rrl_buckets r) k)) (rrl_buckets r)\<rparr>)"

definition RRL_Allow :: "RRL \<Rightarrow> u64 option \<Rightarrow> gotime \<Rightarrow> gostr \<Rightarrow> gostr \<Rightarrow> bool" where
  "RRL_Allow r rnd now ip qname = rrl_allow_key r rnd now (rrlKey ip qname)"

definition RRL_RecordResponse :: "RRL \<Rightarrow> gotime \<Rightarrow> gostr \<Rightarrow> gostr \<Rightarrow> RRL" where
  "RRL_RecordResponse r now ip qname = rrl_record_key r now (rrlKey ip qname)"

subsection \<open>The limiter of the configuration\<close>

datatype ResponseLimiter = NoLimiter | LimitSliding SlidingWindow | LimitRRL RRL

definition Limiter_Allow :: "ResponseLimiter \<Rightarrow> u64 option \<Rightarrow> gotime \<Rightarrow> gostr \<Rightarrow> gostr \<Rightarrow> bool" where
  "Limiter_Allow l rnd now ip qname = (case l of
      NoLimiter \<Rightarrow> True
    | LimitSliding s \<Rightarrow> SlidingWindow_Allow s now ip
    | LimitRRL r \<Rightarrow> RRL_Allow r rnd now ip qname)"

definition Limiter_RecordResponse :: "ResponseLimiter \<Rightarrow> gotime \<Rightarrow> gostr \<Rightarrow> gostr \<Rightarrow> ResponseLimiter" where
  "Limiter_RecordResponse l now ip qname = (case l of
      NoLimiter \<Rightarrow> NoLimiter
    | LimitSliding s \<Rightarrow> LimitSliding (SlidingWindow_RecordResponse s now ip)
    | LimitRRL r \<Rightarrow> LimitRRL (RRL_RecordResponse r now ip qname))"

text \<open>\<^verbatim>\<open>time.Duration(n) * time.Second\<close> wraps at 64 bits; \<^verbatim>\<open>0.1\<close> is the nearest \<^verbatim>\<open>float64\<close>.\<close>

definition duration_of_seconds :: "int \<Rightarrow> duration" where
  "duration_of_seconds n = sint (word_of_int (n * Second) :: 64 word)"

definition buildResponseLimiter :: "Config \<Rightarrow> ResponseLimiter" where
  "buildResponseLimiter st =
     (let mode = ToLower (TrimSpace (cf_DNSResponseLimitMode st));
          mode = (if mode = [] then ''sliding_window'' else mode)
      in if mode = ''rrl'' then
           (if cf_DNSRRLMaxPerBucket st \<le> 0 then NoLimiter
            else
              let win = duration_of_seconds (cf_DNSRRLWindowSeconds st);
                  win = (if win \<le> 0 then Second else win);
                  slip = (if cf_DNSRRLSlip st \<le> 0 then f64_div 1 10 else cf_DNSRRLSlip st)
              in LimitRRL (NewRRL (cf_DNSRRLMaxPerBucket st) win slip 0))
         else if cf_DNSMaxResponsesPerIPWindow st \<le> 0 then NoLimiter
         else
           let wsec = (if cf_DNSSlidingWindowSeconds st \<le> 0 then 1 else cf_DNSSlidingWindowSeconds st)
           in LimitSliding (NewSlidingWindow (duration_of_seconds wsec) (cf_DNSMaxResponsesPerIPWindow st) 0))"

subsection \<open>Token bucket per client\<close>

record rl_entry =
  rl_tokens :: rat
  rl_last :: gotime

record PerIP =
  pi_m :: "(gostr \<times> rl_entry) list"
  pi_rps :: rat
  pi_burst :: int
  pi_maxIPs :: int

definition NewPerIP :: "rat \<Rightarrow> int \<Rightarrow> PerIP" where
  "NewPerIP rps burst = \<lparr>pi_m = [], pi_rps = rps, pi_burst = (if burst < 1 then 1 else burst), pi_maxIPs = 10000\<rparr>"

definition client_key :: "gostr \<Rightarrow> gostr" where
  "client_key ip =
     (let ip = (case SplitHostPort ip of Inr (h, p) \<Rightarrow> h | Inl e \<Rightarrow> ip) in if ip = [] then ''unknown'' else ip)"

text \<open>The refill, and the new entry with the decision.\<close>

definition refill :: "PerIP \<Rightarrow> gotime \<Rightarrow> rl_entry \<Rightarrow> rat" where
  "refill p now e =
     (let elapsed = duration_Seconds (time_Sub now (rl_last e));
          tokens = f64_add (rl_tokens e) (f64_mul elapsed (pi_rps p));
          maxTok = f64_round (of_int (pi_burst p))
      in if tokens > maxTok then maxTok else tokens)"

definition PerIP_Allow :: "PerIP \<Rightarrow> gotime \<Rightarrow> gostr \<Rightarrow> PerIP \<times> bool" where
  "PerIP_Allow p now ip0 =
     (if pi_rps p \<le> 0 then (p, True)
      else
        let ip = client_key ip0 in
        if int (length (pi_m p)) \<ge> pi_maxIPs p \<and> map_of (pi_m p) ip = None then (p, True)
        else
          let e = (case map_of (pi_m p) ip of
                     None \<Rightarrow> \<lparr>rl_tokens = f64_round (of_int (pi_burst p)), rl_last = now\<rparr> | Some e \<Rightarrow> e);
              tokens = refill p now e
          in if tokens < 1 then (p\<lparr>pi_m := AList.update ip \<lparr>rl_tokens = tokens, rl_last = now\<rparr> (pi_m p)\<rparr>, False)
             else (p\<lparr>pi_m := AList.update ip \<lparr>rl_tokens = f64_sub tokens 1, rl_last = now\<rparr> (pi_m p)\<rparr>, True))"

subsection \<open>The window discipline\<close>

text \<open>A sequence of requests, each with the time at which it arrives, the time at which it would be
  answered, and its key.  A request is answered (and counted, at the time of the answer) exactly when the
  limiter allows it on arrival; the result is the list of the answers.\<close>

fun limited_run ::
    "('s \<Rightarrow> gotime \<Rightarrow> 'k \<Rightarrow> bool) \<Rightarrow> ('s \<Rightarrow> gotime \<Rightarrow> 'k \<Rightarrow> 's) \<Rightarrow> (gotime \<times> gotime \<times> 'k) list \<Rightarrow> 's \<Rightarrow> (gotime \<times> 'k) list" where
  "limited_run allow record_resp [] s = []"
| "limited_run allow record_resp ((now, fin, k) # evs) s =
     (if allow s now k then (fin, k) # limited_run allow record_resp evs (record_resp s fin k)
      else limited_run allow record_resp evs s)"

text \<open>One after the other, from time \<open>l\<close> on: a request arrives after the previous one was answered.\<close>

fun in_sequence :: "gotime \<Rightarrow> (gotime \<times> gotime \<times> 'k) list \<Rightarrow> bool" where
  "in_sequence l [] = True"
| "in_sequence l ((now, fin, k) # evs) \<longleftrightarrow> l \<le> now \<and> now \<le> fin \<and> in_sequence fin evs"

lemma in_sequence_earlier: "in_sequence l evs \<Longrightarrow> l' \<le> l \<Longrightarrow> in_sequence l' evs"
  by (cases evs) auto

text \<open>What is true of every entry of a limiter that has served requests one after the other, at a time after its
  last response.\<close>

definition entry_ok :: "int \<Rightarrow> gotime \<Rightarrow> window_entry option \<Rightarrow> bool" where
  "entry_ok limit l e = (case e of None \<Rightarrow> True | Some e \<Rightarrow> we_start e \<le> l \<and> 1 \<le> we_count e \<and> we_count e \<le> limit)"

text \<open>The responses to a key in the interval of a window's length from \<open>a\<close> on.\<close>

definition answered_in :: "duration \<Rightarrow> gotime \<Rightarrow> 'k \<Rightarrow> (gotime \<times> 'k) list \<Rightarrow> nat" where
  "answered_in window a k evs = length (filter (\<lambda>(t, k'). k' = k \<and> a \<le> t \<and> t < a + window) evs)"

text \<open>The contract of a limiter with fixed windows: what it allows, and what recording a response does
  to the entries.\<close>

locale window_limiter =
  fixes allow :: "'s \<Rightarrow> gotime \<Rightarrow> 'k \<Rightarrow> bool" and record_resp :: "'s \<Rightarrow> gotime \<Rightarrow> 'k \<Rightarrow> 's"
    and entry :: "'s \<Rightarrow> 'k \<Rightarrow> window_entry option" and ok :: "'s \<Rightarrow> bool"
    and window :: duration and limit :: int
  assumes allow_iff: "ok s \<Longrightarrow> allow s now k \<longleftrightarrow>
      (case entry s k of None \<Rightarrow> True | Some e \<Rightarrow> time_Sub now (we_start e) \<ge> window \<or> we_count e < limit)"
    and entry_record: "ok s \<Longrightarrow> entry (record_resp s now k) k' =
      (if k' = k then Some (record_entry window now (entry s k)) else entry s k')"
    and ok_record: "ok s \<Longrightarrow> ok (record_resp s now k)"
    and ok_range: "ok s \<Longrightarrow> 0 < limit \<and> 0 < window \<and> window < 2 ^ 63"
begin

text \<open>\<open>n\<close> responses to the key were counted in the interval so far, the last event was at \<open>l\<close>.\<close>

definition window_inv :: "gotime \<Rightarrow> int \<Rightarrow> gotime \<Rightarrow> window_entry option \<Rightarrow> bool" where
  "window_inv a n l e = (case e of
      None \<Rightarrow> n = 0
    | Some e \<Rightarrow> we_start e \<le> l \<and> we_count e \<le> limit \<and> 1 \<le> we_count e \<and> (l < a \<longrightarrow> n = 0) \<and>
        (if we_start e < a then n \<le> we_count e - 1
         else if we_start e < a + window then n \<le> limit - 1 + we_count e else n \<le> 2 * limit - 1))"

lemma elapsed_iff: "0 < window \<Longrightarrow> window < 2 ^ 63 \<Longrightarrow> time_Sub now st \<ge> window \<longleftrightarrow> now \<ge> st + window"
  by (auto simp: time_Sub_def)

lemma window_inv_idle: "window_inv a n l e \<Longrightarrow> l \<le> l' \<Longrightarrow> window_inv a n l' e"
  by (auto simp: window_inv_def split: option.splits)

lemma window_inv_answer:
  assumes "ok s" "window_inv a n l (entry s k)" "l \<le> fin" "allow s now k" "now \<le> fin"
  shows "window_inv a (n + (if a \<le> fin \<and> fin < a + window then 1 else 0)) fin (Some (record_entry window fin (entry s k)))"
proof (cases "entry s k")
  case None
  then show ?thesis using assms ok_range [OF assms(1)] by (auto simp: window_inv_def record_entry_def)
next
  case (Some e)
  note r = ok_range [OF assms(1)]
  have el: "time_Sub t (we_start e) \<ge> window \<longleftrightarrow> t \<ge> we_start e + window" for t using r by (intro elapsed_iff) simp_all
  have c: "fin \<ge> we_start e + window \<or> we_count e < limit" using assms(1,4,5) Some by (auto simp: allow_iff el)
  show ?thesis
  proof (cases "fin \<ge> we_start e + window")
    case True
    then show ?thesis using assms(2,3) Some r el by (auto simp: window_inv_def record_entry_def split: if_splits)
  next
    case False
    then show ?thesis using assms(2,3) Some r el c by (auto simp: window_inv_def record_entry_def split: if_splits)
  qed
qed

lemma window_inv_bound: "ok s \<Longrightarrow> window_inv a n l e \<Longrightarrow> n \<le> 2 * limit - 1"
  using ok_range [of s] by (auto simp: window_inv_def split: option.splits if_splits)

lemma run_bound:
  assumes "ok s" "in_sequence l evs" "window_inv a n l (entry s k)"
  shows "n + int (answered_in window a k (limited_run allow record_resp evs s)) \<le> 2 * limit - 1"
  using assms
proof (induction evs arbitrary: s l n)
  case Nil
  then show ?case using window_inv_bound by (simp add: answered_in_def)
next
  case (Cons ev evs)
  obtain now fin k' where ev: "ev = (now, fin, k')" by (cases ev) auto
  have later: "in_sequence fin evs" "in_sequence l evs" "l \<le> fin" "now \<le> fin"
    using Cons.prems(2) in_sequence_earlier [of fin evs l] ev by auto
  show ?case
  proof (cases "allow s now k'")
    case False
    then show ?thesis using Cons.IH [OF Cons.prems(1) later(2) Cons.prems(3)] by (simp add: ev)
  next
    case True
    let ?i = "if k' = k \<and> a \<le> fin \<and> fin < a + window then 1 else 0 :: int"
    have "window_inv a (n + ?i) fin (entry (record_resp s fin k') k)"
    proof (cases "k' = k")
      case same: True
      then show ?thesis using window_inv_answer [OF Cons.prems(1,3) later(3) _ later(4)] True Cons.prems(1) by (simp add: entry_record)
    next
      case False
      then show ?thesis using window_inv_idle [OF Cons.prems(3) later(3)] Cons.prems(1) by (simp add: entry_record)
    qed
    from Cons.IH [OF ok_record [OF Cons.prems(1)] later(1) this] show ?thesis
      using True by (auto simp: ev answered_in_def)
  qed
qed

lemma window_bound:
  assumes "ok s" "in_sequence l evs" "entry_ok limit l (entry s k)"
  shows "int (answered_in window a k (limited_run allow record_resp evs s)) \<le> 2 * limit - 1"
proof -
  have "window_inv a 0 l (entry s k)"
    using assms(3) ok_range [OF assms(1)] by (auto simp: window_inv_def entry_ok_def split: option.splits)
  from run_bound [OF assms(1,2) this] show ?thesis by simp
qed

end

interpretation sw: window_limiter SlidingWindow_Allow SlidingWindow_RecordResponse "\<lambda>s. map_of (sw_m s)"
    "\<lambda>s. sw_window s = w \<and> sw_maxPerIP s = m \<and> 0 < m \<and> 0 < w \<and> w < 2 ^ 63" w m for w m
  by unfold_locales
    (auto simp: SlidingWindow_Allow_def SlidingWindow_RecordResponse_def update_conv' split: option.splits)

interpretation rrl: window_limiter "\<lambda>r. rrl_allow_key r None" rrl_record_key "\<lambda>r. map_of (rrl_buckets r)"
    "\<lambda>r. rrl_window r = w \<and> rrl_maxPerWin r = m \<and> 0 < m \<and> 0 < w \<and> w < 2 ^ 63" w m for w m
  by unfold_locales
    (auto simp: rrl_allow_key_def rrl_record_key_def slipPass_def update_conv' split: option.splits)

text \<open>The sliding-window limiter keeps a client, whatever the other clients do, below twice its limit: in
  every interval of a window's length fewer than \<open>2 * maxPerIP\<close> responses go to the client.\<close>

theorem sliding_window_bound:
  assumes "0 < sw_maxPerIP s" "0 < sw_window s" "sw_window s < 2 ^ 63" "in_sequence l evs"
    and "entry_ok (sw_maxPerIP s) l (map_of (sw_m s) ip)"
  shows "int (answered_in (sw_window s) a ip
           (limited_run SlidingWindow_Allow SlidingWindow_RecordResponse evs s)) \<le> 2 * sw_maxPerIP s - 1"
  using assms by (intro sw.window_bound [of s _ _ l]) simp_all

text \<open>The same holds for the limiter per client and name, for every key, as long as the slip does not
  let responses through.\<close>

lemma rrl_bound:
  assumes "0 < rrl_maxPerWin r" "0 < rrl_window r" "rrl_window r < 2 ^ 63" "in_sequence l evs"
    and "entry_ok (rrl_maxPerWin r) l (map_of (rrl_buckets r) k)"
  shows "int (answered_in (rrl_window r) a k
           (limited_run (\<lambda>r. rrl_allow_key r None) rrl_record_key evs r)) \<le> 2 * rrl_maxPerWin r - 1"
  using assms by (intro rrl.window_bound [of r _ _ l]) simp_all

text \<open>The bound is met: with two responses per window of ten, three fall into ten units of time.\<close>

definition burst_run :: "(gotime \<times> gotime \<times> gostr) list" where
  "burst_run = map (\<lambda>t. (t, t, ''10.0.0.1'')) [0, 9, 10, 11, 12]"

theorem sliding_window_bound_witness:
  "answered_in 10 9 ''10.0.0.1'' (limited_run SlidingWindow_Allow SlidingWindow_RecordResponse burst_run (NewSlidingWindow 10 2 0)) \<le> 3 \<and>
   answered_in 10 9 ''10.0.0.1'' (limited_run SlidingWindow_Allow SlidingWindow_RecordResponse burst_run (NewSlidingWindow 10 2 0)) = 3"
proof -
  have "int (answered_in 10 9 ''10.0.0.1'' (limited_run SlidingWindow_Allow SlidingWindow_RecordResponse burst_run (NewSlidingWindow 10 2 0))) \<le> 2 * 2 - 1"
    using sliding_window_bound [of "NewSlidingWindow 10 2 0" 0 burst_run "''10.0.0.1''" 9]
    by (simp add: NewSlidingWindow_def burst_run_def entry_ok_def)
  moreover have "answered_in 10 9 ''10.0.0.1'' (limited_run SlidingWindow_Allow SlidingWindow_RecordResponse burst_run (NewSlidingWindow 10 2 0)) = 3"
    by code_simp
  ultimately show ?thesis by simp
qed

lemma length_update: "length (AList.update k v al) = (if map_of al k = None then Suc (length al) else length al)"
  by (induction al) auto

text \<open>The cap on the number of clients is not enforced: recording the response to a new client grows
  the table of the sliding-window limiter even when it is full, and the same holds for the buckets of
  the limiter per client and name.\<close>

theorem limiter_tables_unbounded:
  assumes "0 < sw_maxPerIP s" "map_of (sw_m s) ip = None" "0 < rrl_maxPerWin r" "map_of (rrl_buckets r) (rrlKey ip qname) = None"
  shows "length (sw_m (SlidingWindow_RecordResponse s now ip)) = Suc (length (sw_m s)) \<and>
    length (rrl_buckets (RRL_RecordResponse r now ip qname)) = Suc (length (rrl_buckets r))"
  using assms
  by (simp add: SlidingWindow_RecordResponse_def RRL_RecordResponse_def rrl_record_key_def length_update)

theorem limiter_tables_unbounded_witness:
  "length (sw_m (SlidingWindow_RecordResponse (SlidingWindow_RecordResponse (NewSlidingWindow Second 5 1) 0 ''10.0.0.1'') 0 ''10.0.0.2'')) = 2 \<and>
   sw_maxIPs (NewSlidingWindow Second 5 1) = 1"
proof -
  let ?s = "SlidingWindow_RecordResponse (NewSlidingWindow Second 5 1) 0 ''10.0.0.1''"
  have "0 < sw_maxPerIP ?s" "map_of (sw_m ?s) ''10.0.0.2'' = None" "length (sw_m ?s) = 1"
    by (simp_all add: SlidingWindow_RecordResponse_def NewSlidingWindow_def)
  then show ?thesis
    using limiter_tables_unbounded [of ?s "''10.0.0.2''" "NewRRL 1 Second 0 0" "''x.''" 0] by (simp add: NewRRL_def NewSlidingWindow_def)
qed

subsection \<open>The token bucket\<close>

text \<open>Between two instants of a clock every bucket holds between zero and \<open>burst\<close> tokens.\<close>

definition bucket_ok :: "PerIP \<Rightarrow> gotime \<Rightarrow> rl_entry \<Rightarrow> bool" where
  "bucket_ok p clock e \<longleftrightarrow> 0 \<le> rl_tokens e \<and> rl_tokens e \<le> of_int (pi_burst p) \<and> rl_last e \<le> clock"

definition buckets_ok :: "PerIP \<Rightarrow> gotime \<Rightarrow> bool" where
  "buckets_ok p clock \<longleftrightarrow> 1 \<le> pi_burst p \<and> pi_burst p < 2 ^ 53 \<and> int (length (pi_m p)) \<le> pi_maxIPs p \<and>
     (\<forall>ip e. map_of (pi_m p) ip = Some e \<longrightarrow> bucket_ok p clock e)"

lemma f64_burst: "1 \<le> b \<Longrightarrow> b < 2 ^ 53 \<Longrightarrow> f64_round (of_int b) = of_int b"
  by (rule f64_round_int) simp_all

lemma duration_Seconds_pos: "0 \<le> d \<Longrightarrow> 0 \<le> duration_Seconds d"
  by (simp add: duration_Seconds_nonneg f64_add_def f64_div_def f64_round_nonneg)

lemma refill_bounds:
  assumes "buckets_ok p clock" "bucket_ok p clock e" "clock \<le> now" "0 < pi_rps p"
  shows "0 \<le> refill p now e \<and> refill p now e \<le> of_int (pi_burst p)"
proof -
  have "0 \<le> time_Sub now (rl_last e)" using assms(2,3) by (simp add: time_Sub_def bucket_ok_def)
  then have "0 \<le> f64_mul (duration_Seconds (time_Sub now (rl_last e))) (pi_rps p)"
    using assms(4) by (simp add: f64_mul_def f64_round_nonneg duration_Seconds_pos)
  then have "0 \<le> f64_add (rl_tokens e) (f64_mul (duration_Seconds (time_Sub now (rl_last e))) (pi_rps p))"
    using assms(2) by (simp add: f64_add_def f64_round_nonneg bucket_ok_def)
  moreover have "f64_round (of_int (pi_burst p)) = of_int (pi_burst p)" "1 \<le> pi_burst p"
    using assms(1) by (simp_all add: buckets_ok_def f64_burst)
  ultimately show ?thesis by (auto simp: refill_def Let_def)
qed

lemma f64_sub_1_bounds:
  assumes "1 \<le> t" "t \<le> of_int b" "b < 2 ^ 53"
  shows "0 \<le> f64_sub t 1 \<and> f64_sub t 1 \<le> of_int (b - 1)"
proof -
  have "(of_int b :: rat) < of_int (2 ^ 53)" using assms(3) by (simp only: of_int_less_iff)
  then show ?thesis using f64_round_between [of "t - 1" 0 "b - 1"] assms by (simp add: f64_sub_def)
qed

lemma bucket_step:
  assumes "buckets_ok p clock" "clock \<le> now" "PerIP_Allow p now ip = (p', allowed)"
  shows "buckets_ok p' now \<and> length (pi_m p') \<le> nat (pi_maxIPs p)"
proof (cases "pi_rps p \<le> 0 \<or> int (length (pi_m p)) \<ge> pi_maxIPs p \<and> map_of (pi_m p) (client_key ip) = None")
  case True
  then have "p' = p" using assms(3) by (auto simp: PerIP_Allow_def Let_def split: if_splits)
  then show ?thesis using assms(1,2) by (fastforce simp: buckets_ok_def bucket_ok_def)
next
  case False
  let ?k = "client_key ip"
  define e where "e = (case map_of (pi_m p) ?k of None \<Rightarrow> \<lparr>rl_tokens = f64_round (of_int (pi_burst p)), rl_last = now\<rparr> | Some e \<Rightarrow> e)"
  have b: "1 \<le> pi_burst p" "pi_burst p < 2 ^ 53" using assms(1) by (simp_all add: buckets_ok_def)
  have now: "buckets_ok p now" using assms(1,2) by (fastforce simp: buckets_ok_def bucket_ok_def)
  then have "bucket_ok p now e" using b
    by (auto simp: e_def buckets_ok_def bucket_ok_def f64_burst split: option.split)
  then have r: "0 \<le> refill p now e" "refill p now e \<le> of_int (pi_burst p)"
    using refill_bounds [OF now] False by auto
  obtain t where p': "p' = p\<lparr>pi_m := AList.update ?k \<lparr>rl_tokens = t, rl_last = now\<rparr> (pi_m p)\<rparr>"
      and t: "0 \<le> t" "t \<le> of_int (pi_burst p)"
  proof (cases "refill p now e < 1")
    case True
    with that [of "refill p now e"] show ?thesis using assms(3) False r by (auto simp: PerIP_Allow_def e_def Let_def split: if_splits)
  next
    case False': False
    have "0 \<le> f64_sub (refill p now e) 1" "f64_sub (refill p now e) 1 \<le> of_int (pi_burst p)"
      using f64_sub_1_bounds [of "refill p now e" "pi_burst p"] False' r b by auto
    with that [of "f64_sub (refill p now e) 1"] show ?thesis
      using assms(3) False False' by (auto simp: PerIP_Allow_def e_def Let_def split: if_splits)
  qed
  have "int (length (pi_m p')) \<le> pi_maxIPs p"
    using now False by (auto simp: p' length_update buckets_ok_def)
  then show ?thesis using now t by (auto simp: p' buckets_ok_def bucket_ok_def update_conv' split: if_splits)
qed

text \<open>The token bucket stays within its bounds: if the clock does not go backwards, every request
  leaves every bucket with at least zero and at most \<open>burst\<close> tokens, in spite of rounding, and the table
  within its maximal size.\<close>

theorem token_bucket_bounds:
  assumes "buckets_ok p clock" "clock \<le> now" "PerIP_Allow p now ip = (p', allowed)"
  shows "buckets_ok p' now \<and> length (pi_m p') \<le> nat (pi_maxIPs p)"
  using assms by (rule bucket_step)

theorem token_bucket_bounds_witness:
  "buckets_ok (fst (PerIP_Allow (NewPerIP 2 3) 0 ''10.0.0.1:5353'')) 0"
proof -
  have "buckets_ok (NewPerIP 2 3) 0" by (simp add: buckets_ok_def NewPerIP_def)
  from token_bucket_bounds [OF this order_refl prod.collapse [symmetric]] show ?thesis by blast
qed

text \<open>Requests of one client at one instant; the number of those that are allowed.\<close>

fun allowed_at :: "PerIP \<Rightarrow> gotime \<Rightarrow> gostr \<Rightarrow> nat \<Rightarrow> nat" where
  "allowed_at p now ip 0 = 0"
| "allowed_at p now ip (Suc n) =
     (let (p', allowed) = PerIP_Allow p now ip in (if allowed then 1 else 0) + allowed_at p' now ip n)"

lemma f64_round_ceiling: "0 \<le> x \<Longrightarrow> x \<le> of_int b \<Longrightarrow> b < 2 ^ 53 \<Longrightarrow> \<lceil>f64_round x\<rceil> \<le> \<lceil>x\<rceil>"
proof -
  assume x: "0 \<le> x" "x \<le> of_int b" "b < 2 ^ 53"
  then have "(of_int b :: rat) < of_int (2 ^ 53)" by (simp only: of_int_less_iff)
  then have "f64_round x \<le> of_int \<lceil>x\<rceil>" using x f64_round_between [of x "\<lfloor>x\<rfloor>" "\<lceil>x\<rceil>"] by simp
  then show ?thesis by (simp add: ceiling_le_iff)
qed

lemma refill_same_instant:
  assumes "buckets_ok p now" "bucket_ok p now e" "rl_last e = now"
  shows "\<lceil>refill p now e\<rceil> \<le> \<lceil>rl_tokens e\<rceil>"
proof -
  have b: "1 \<le> pi_burst p" "pi_burst p < 2 ^ 53" and t: "0 \<le> rl_tokens e" "rl_tokens e \<le> of_int (pi_burst p)"
    using assms by (simp_all add: buckets_ok_def bucket_ok_def)
  have "duration_Seconds (time_Sub now (rl_last e)) = 0"
    by (simp add: assms(3) time_Sub_def duration_Seconds_def f64_add_def f64_div_def f64_round_def)
  then have "f64_add (rl_tokens e) (f64_mul (duration_Seconds (time_Sub now (rl_last e))) (pi_rps p)) = f64_round (rl_tokens e)"
    by (simp add: f64_add_def f64_mul_def f64_round_def [of 0])
  then have "refill p now e \<le> f64_round (rl_tokens e)" using b by (auto simp: refill_def f64_burst Let_def)
  then show ?thesis using f64_round_ceiling [OF t b(2)] ceiling_mono order_trans by blast
qed

lemma PerIP_Allow_present:
  assumes "buckets_ok p now" "0 < pi_rps p" "map_of (pi_m p) (client_key ip) = Some e" "rl_last e = now"
  shows "\<exists>e'. PerIP_Allow p now ip = (p\<lparr>pi_m := AList.update (client_key ip) e' (pi_m p)\<rparr>, 1 \<le> refill p now e) \<and>
    rl_last e' = now \<and> \<lceil>rl_tokens e'\<rceil> + (if 1 \<le> refill p now e then 1 else 0) \<le> \<lceil>rl_tokens e\<rceil>"
proof -
  have e: "bucket_ok p now e" using assms(1,3) by (auto simp: buckets_ok_def)
  have b: "pi_burst p < 2 ^ 53" using assms(1) by (simp add: buckets_ok_def)
  have r: "\<lceil>refill p now e\<rceil> \<le> \<lceil>rl_tokens e\<rceil>" using refill_same_instant [OF assms(1) e assms(4)] .
  have bounds: "0 \<le> refill p now e" "refill p now e \<le> of_int (pi_burst p)" using refill_bounds [OF assms(1) e order_refl assms(2)] by auto
  show ?thesis
  proof (cases "refill p now e < 1")
    case True
    then show ?thesis using assms(2,3) r by (auto simp: PerIP_Allow_def Let_def)
  next
    case False
    have "\<lceil>f64_sub (refill p now e) 1\<rceil> \<le> \<lceil>refill p now e - 1\<rceil>"
      unfolding f64_sub_def using False bounds b by (intro f64_round_ceiling [of _ "pi_burst p"]) simp_all
    then show ?thesis using assms(2,3) r False by (auto simp: PerIP_Allow_def Let_def)
  qed
qed

lemma allowed_present:
  assumes "buckets_ok p now" "0 < pi_rps p" "map_of (pi_m p) (client_key ip) = Some e" "rl_last e = now"
  shows "int (allowed_at p now ip n) \<le> \<lceil>rl_tokens e\<rceil>"
  using assms
proof (induction n arbitrary: p e)
  case 0
  then have "0 \<le> rl_tokens e" by (auto simp: buckets_ok_def bucket_ok_def)
  then show ?case by simp
next
  case (Suc n)
  obtain e' where e': "PerIP_Allow p now ip = (p\<lparr>pi_m := AList.update (client_key ip) e' (pi_m p)\<rparr>, 1 \<le> refill p now e)"
      "rl_last e' = now" "\<lceil>rl_tokens e'\<rceil> + (if 1 \<le> refill p now e then 1 else 0) \<le> \<lceil>rl_tokens e\<rceil>"
    using PerIP_Allow_present [OF Suc.prems] by blast
  have "buckets_ok (p\<lparr>pi_m := AList.update (client_key ip) e' (pi_m p)\<rparr>) now"
    using bucket_step [OF Suc.prems(1) order_refl e'(1)] by blast
  from Suc.IH [OF this _ _ e'(2)] show ?case using Suc.prems(2) e'(1,3) by (auto simp: update_conv' split: if_splits)
qed

lemma PerIP_Allow_first:
  assumes "buckets_ok p clock" "clock \<le> now" "0 < pi_rps p"
    "int (length (pi_m p)) < pi_maxIPs p \<or> map_of (pi_m p) (client_key ip) \<noteq> None"
  shows "\<exists>e' allowed. PerIP_Allow p now ip = (p\<lparr>pi_m := AList.update (client_key ip) e' (pi_m p)\<rparr>, allowed) \<and>
    rl_last e' = now \<and> \<lceil>rl_tokens e'\<rceil> + (if allowed then 1 else 0) \<le> pi_burst p"
proof -
  define e where "e = (case map_of (pi_m p) (client_key ip) of
      None \<Rightarrow> \<lparr>rl_tokens = f64_round (of_int (pi_burst p)), rl_last = now\<rparr> | Some e \<Rightarrow> e)"
  have b: "1 \<le> pi_burst p" "pi_burst p < 2 ^ 53" using assms(1) by (simp_all add: buckets_ok_def)
  have now: "buckets_ok p now" using assms(1,2) by (fastforce simp: buckets_ok_def bucket_ok_def)
  then have "bucket_ok p now e" using b by (auto simp: e_def buckets_ok_def bucket_ok_def f64_burst split: option.split)
  then have r: "0 \<le> refill p now e" "refill p now e \<le> of_int (pi_burst p)"
    using refill_bounds [OF now _ order_refl assms(3)] by auto
  have "\<not> (int (length (pi_m p)) \<ge> pi_maxIPs p \<and> map_of (pi_m p) (client_key ip) = None)" "\<not> pi_rps p \<le> 0"
    using assms(3,4) by auto
  then have eq: "PerIP_Allow p now ip =
      (if refill p now e < 1
       then (p\<lparr>pi_m := AList.update (client_key ip) \<lparr>rl_tokens = refill p now e, rl_last = now\<rparr> (pi_m p)\<rparr>, False)
       else (p\<lparr>pi_m := AList.update (client_key ip) \<lparr>rl_tokens = f64_sub (refill p now e) 1, rl_last = now\<rparr> (pi_m p)\<rparr>, True))"
    unfolding PerIP_Allow_def Let_def e_def [symmetric] by (simp only: if_False)
  show ?thesis
  proof (cases "refill p now e < 1")
    case True
    then have "\<lceil>refill p now e\<rceil> \<le> 1" by (simp add: ceiling_le_iff)
    then have "\<lceil>refill p now e\<rceil> \<le> pi_burst p" using b(1) by (rule order_trans)
    then show ?thesis using True by (intro exI conjI, simp only: eq if_True) simp_all
  next
    case False
    then have "\<lceil>f64_sub (refill p now e) 1\<rceil> \<le> pi_burst p - 1"
      unfolding ceiling_le_iff using f64_sub_1_bounds [of "refill p now e" "pi_burst p"] r b by linarith
    then show ?thesis using False by (intro exI conjI, simp only: eq if_False) simp_all
  qed
qed

text \<open>The burst is what its name says: at one instant no more than \<open>burst\<close> of a client's requests pass,
  however many there are, unless the table is full and the client is not in it.\<close>

theorem burst_at_one_instant:
  assumes "buckets_ok p clock" "clock \<le> now" "0 < pi_rps p"
    "int (length (pi_m p)) < pi_maxIPs p \<or> map_of (pi_m p) (client_key ip) \<noteq> None"
  shows "int (allowed_at p now ip n) \<le> pi_burst p"
proof (cases n)
  case 0
  then show ?thesis using assms(1) by (simp add: buckets_ok_def)
next
  case (Suc m)
  obtain e' allowed where e': "PerIP_Allow p now ip = (p\<lparr>pi_m := AList.update (client_key ip) e' (pi_m p)\<rparr>, allowed)"
      "rl_last e' = now" "\<lceil>rl_tokens e'\<rceil> + (if allowed then 1 else 0) \<le> pi_burst p"
    using PerIP_Allow_first [OF assms] by blast
  have "buckets_ok (p\<lparr>pi_m := AList.update (client_key ip) e' (pi_m p)\<rparr>) now"
    using bucket_step [OF assms(1,2) e'(1)] by blast
  from allowed_present [OF this _ _ e'(2), of ip m] show ?thesis
    using e'(1,3) assms(3) by (auto simp: Suc update_conv' split: if_splits)
qed

theorem burst_at_one_instant_witness:
  "int (allowed_at (NewPerIP 2 3) 0 ''10.0.0.1'' 10) \<le> 3"
proof -
  have "buckets_ok (NewPerIP 2 3) 0" by (simp add: buckets_ok_def NewPerIP_def)
  from burst_at_one_instant [OF this order_refl, of "''10.0.0.1''" 10] show ?thesis by (simp add: NewPerIP_def)
qed

end
