(* ===== verification/Api.thy ===== *)
theory Api
  imports ResolverData Limiters
begin

text \<open>
  The REST API, \<^verbatim>\<open>api/server.go\<close> with the middlewares of \<^verbatim>\<open>api/auth_middleware.go\<close> and
  \<^verbatim>\<open>api/ratelimit_middleware.go\<close>: authentication, limits, routes, and every handler that reads or changes the
  shared data.  A request body is \<open>None\<close> when it is missing or cannot be decoded, otherwise the union of the
  fields that the handlers decode, a missing field being empty (the fields that \<^verbatim>\<open>updateServerHandler\<close> may have
  read before a decoding error are ignored).  The router matches fixed paths exactly and a parameter as one
  non-empty segment.  A handler on records reads the records,
  computes the new ones and stores them in a second critical section; the first part is an \<open>edit\<close> of the
  records read, the second is \<open>commitRecords\<close>, so interleavings of requests can be expressed.  Pages,
  metrics, the dashboard and the statistics do not touch the shared data and are the answer \<open>ApiElsewhere\<close>.
\<close>

record api_doc =
  ad_id :: gostr
  ad_name :: gostr
  ad_type :: gostr
  ad_value :: gostr
  ad_ttl :: "u32 option"
  ad_address :: gostr
  ad_port :: gostr
  ad_active :: "bool option"
  ad_local_resolver :: "bool option"
  ad_adblocker :: "bool option"
  ad_domain_whitelist :: "gostr list"
  ad_fallback_address :: gostr
  ad_fallback_port :: gostr
  ad_fallback_transport :: gostr
  ad_fallback_doh_url :: gostr
  ad_domain :: gostr
  ad_domains :: "gostr list"

definition empty_api_doc :: api_doc where
  "empty_api_doc = \<lparr>ad_id = [], ad_name = [], ad_type = [], ad_value = [], ad_ttl = None, ad_address = [], ad_port = [],
     ad_active = None, ad_local_resolver = None, ad_adblocker = None, ad_domain_whitelist = [], ad_fallback_address = [],
     ad_fallback_port = [], ad_fallback_transport = [], ad_fallback_doh_url = [], ad_domain = [], ad_domains = []\<rparr>"

record api_request =
  ar_Method :: gostr
  ar_Path :: gostr
  ar_Query :: "(gostr \<times> gostr) list"
  ar_Authorization :: gostr
  ar_Token :: gostr
  ar_RemoteAddr :: gostr
  ar_Body :: "api_doc option"

text \<open>\<^verbatim>\<open>url.Values.Get\<close>: the first value, or the empty string.\<close>

definition query_Get :: "api_request \<Rightarrow> gostr \<Rightarrow> gostr" where
  "query_Get r k = (case map_of (ar_Query r) k of None \<Rightarrow> [] | Some v \<Rightarrow> v)"

datatype api_body =
    ApiEmpty
  | ApiError gostr "gostr list"
  | ApiStatus gostr "gostr list"
  | ApiReloaded nat
  | ApiRecords ListResult
  | ApiServers "dns_server list" "health_status list" bool int int
  | ApiHealth "health_status list" bool int int gostr
  | ApiDomains "gostr list"
  | ApiSources "(gostr \<times> int) list"
  | ApiCount gostr nat
  | ApiCache "cache_record list"
  | ApiElsewhere gostr

type_synonym api_response = "int \<times> api_body"

record api_env =
  ae_lib :: dnslib
  ae_op :: op_env
  ae_stored :: Config
  ae_io :: bool
  ae_loaded :: "gostr + dns_record list"
  ae_now :: gotime
  ae_APIRunning :: bool
  ae_ServerStatus :: bool
  ae_page :: "gostr \<Rightarrow> int"

text \<open>\<open>ae_APIRunning\<close> and \<open>ae_ServerStatus\<close> are what the daemon state reports; \<open>ae_page\<close> is the status with which a
  page that only reads statistics answers.\<close>

type_synonym api_result = "resolver_data \<times> effect list \<times> api_response"

subsection \<open>Authentication and limits\<close>

definition apiAuthExempt :: "api_request \<Rightarrow> bool" where
  "apiAuthExempt r =
     (if ar_Method r \<noteq> ''GET'' \<and> ar_Method r \<noteq> ''HEAD'' then False
      else
        let p = Clean (''/'' @ TrimPrefix (ar_Path r) ''/'')
        in p = ''/health'' \<or> p = ''/ready'' \<or> p = ''/stats/dashboard/ws'')"

definition apiRequestAuthorized :: "api_request \<Rightarrow> gostr \<Rightarrow> bool" where
  "apiRequestAuthorized r want0 =
     (let want = TrimSpace want0; auth = TrimSpace (ar_Authorization r) in
      if want = [] then True
      else if length auth \<ge> 7 \<and> EqualFold (take 7 auth) ''bearer '' then TrimSpace (drop 7 auth) = want
      else if TrimSpace (ar_Token r) \<noteq> [] then TrimSpace (ar_Token r) = want
      else False)"

definition clientIP :: "api_request \<Rightarrow> gostr" where
  "clientIP r = (case SplitHostPort (ar_RemoteAddr r) of Inl e \<Rightarrow> ar_RemoteAddr r | Inr (host, port) \<Rightarrow> host)"

definition apiLimiter :: "rat \<Rightarrow> int \<Rightarrow> PerIP option" where
  "apiLimiter rps burst = (if rps > 0 then Some (NewPerIP rps (if burst \<le> 0 then 20 else burst)) else None)"

subsection \<open>Records\<close>

definition toDNSRecord :: "api_doc \<Rightarrow> dns_record" where
  "toDNSRecord r = empty_record\<lparr>dr_ID := TrimSpace (ad_id r), dr_Name := TrimSpace (ad_name r), dr_Type := TrimSpace (ad_type r),
     dr_Value := TrimSpace (ad_value r), dr_TTL := (case ad_ttl r of Some t \<Rightarrow> if t > 0 then t else 3600 | None \<Rightarrow> 3600)\<rparr>"

definition extractMessages :: "message list \<Rightarrow> gostr list" where
  "extractMessages msgs = map msg_Text msgs"

definition err_text :: "op_error \<Rightarrow> gostr" where
  "err_text e = (case e of ErrHelpRequested \<Rightarrow> ''help requested'' | ErrInvalidArgs \<Rightarrow> ''invalid arguments'')"

text \<open>The error response of an operation.\<close>

definition op_failed :: "op_error \<Rightarrow> message list \<Rightarrow> api_response" where
  "op_failed e msgs = (if e = ErrInvalidArgs then 400 else 500, ApiError (err_text e) (extractMessages msgs))"

datatype edit = Reject api_response | Commit "dns_record list" api_response

definition edit_of :: "int \<Rightarrow> gostr \<Rightarrow> records_result \<Rightarrow> edit" where
  "edit_of code status res = (case res of
      (rs, msgs, Some e) \<Rightarrow> Reject (op_failed e msgs)
    | (rs, msgs, None) \<Rightarrow> Commit rs (code, ApiStatus status (extractMessages msgs)))"

definition commitRecords :: "api_env \<Rightarrow> edit \<Rightarrow> resolver_data \<Rightarrow> api_result" where
  "commitRecords env e d = (case e of
      Reject resp \<Rightarrow> (d, [], resp)
    | Commit rs resp \<Rightarrow>
        (case UpdateRecords (ae_stored env) (ae_io env) rs d of
           Inl err \<Rightarrow> (d, [], (403, ApiError err []))
         | Inr (d', eff) \<Rightarrow> (d', eff, resp)))"

definition missing_field :: "api_doc \<Rightarrow> bool" where
  "missing_field q \<longleftrightarrow> TrimSpace (ad_name q) = [] \<or> TrimSpace (ad_type q) = [] \<or> TrimSpace (ad_value q) = []"

definition addRecordEdit :: "api_env \<Rightarrow> api_request \<Rightarrow> dns_record list \<Rightarrow> edit" where
  "addRecordEdit env r records = (case ar_Body r of
      None \<Rightarrow> Reject (400, ApiError ''invalid input'' [])
    | Some request \<Rightarrow>
        if missing_field request then Reject (400, ApiError ''invalid input'' [])
        else edit_of 201 ''record added'' (AddRecord (ae_lib env) (ae_op env) (toDNSRecord request) records False))"

definition updateRecordEdit :: "api_env \<Rightarrow> api_request \<Rightarrow> dns_record list \<Rightarrow> edit" where
  "updateRecordEdit env r records = (case ar_Body r of
      None \<Rightarrow> Reject (400, ApiError ''invalid input'' [])
    | Some request \<Rightarrow>
        if missing_field request then Reject (400, ApiError ''name, type, and value are required'' [])
        else edit_of 200 ''record updated''
          (if TrimSpace (ad_id request) \<noteq> []
           then UpdateRecordByID (ae_lib env) (ae_op env) (TrimSpace (ad_id request)) (toDNSRecord request) records
           else AddRecord (ae_lib env) (ae_op env) (toDNSRecord request) records True))"

text \<open>A field of the query, or of the body when the query does not have it.\<close>

definition delete_field :: "api_request \<Rightarrow> gostr \<Rightarrow> (api_doc \<Rightarrow> gostr) \<Rightarrow> gostr" where
  "delete_field r k f =
     (let v = (if ar_Method r = ''DELETE'' then query_Get r k else [])
      in TrimSpace (if v \<noteq> [] then v else case ar_Body r of None \<Rightarrow> [] | Some b \<Rightarrow> f b))"

definition deleteRecordEdit :: "api_env \<Rightarrow> api_request \<Rightarrow> dns_record list \<Rightarrow> edit" where
  "deleteRecordEdit env r records =
     (let i = delete_field r ''id'' ad_id; name = delete_field r ''name'' ad_name;
          recordType = delete_field r ''type'' ad_type; val = delete_field r ''value'' ad_value
      in if i \<noteq> [] then edit_of 200 ''record deleted'' (RemoveRecordByID i records)
         else if name = [] then Reject (400, ApiError ''name is required'' [])
         else edit_of 200 ''record deleted''
           (Records_Remove (ae_lib env)
             (if recordType \<noteq> [] \<and> val \<noteq> [] then [name, recordType, val]
              else if val \<noteq> [] then [name, val] else [name]) records))"

definition addRecordHandler :: "api_env \<Rightarrow> api_request \<Rightarrow> resolver_data \<Rightarrow> api_result" where
  "addRecordHandler env r d = commitRecords env (addRecordEdit env r (rd_DNSRecords d)) d"

definition updateRecordHandler :: "api_env \<Rightarrow> api_request \<Rightarrow> resolver_data \<Rightarrow> api_result" where
  "updateRecordHandler env r d = commitRecords env (updateRecordEdit env r (rd_DNSRecords d)) d"

definition deleteRecordHandler :: "api_env \<Rightarrow> api_request \<Rightarrow> resolver_data \<Rightarrow> api_result" where
  "deleteRecordHandler env r d = commitRecords env (deleteRecordEdit env r (rd_DNSRecords d)) d"

definition reloadRecordsHandler :: "api_env \<Rightarrow> resolver_data \<Rightarrow> api_result" where
  "reloadRecordsHandler env d = (case ReloadRecordsFromSource (ae_stored env) (ae_loaded env) d of
      (Inl err, d') \<Rightarrow> (d', [], (500, ApiError err []))
    | (Inr n, d') \<Rightarrow> (d', [], (200, ApiReloaded n)))"

definition listRecordsQueryDetails :: "api_request \<Rightarrow> bool" where
  "listRecordsQueryDetails r =
     (let yes = (\<lambda>v. v = ''1'' \<or> v = ''true'' \<or> v = ''yes'')
      in yes (TrimSpace (ToLower (query_Get r ''details''))) \<or> yes (TrimSpace (ToLower (query_Get r ''d''))))"

definition listRecordsFilterDesc :: "gostr \<Rightarrow> gostr \<Rightarrow> gostr" where
  "listRecordsFilterDesc nameQ typeQ =
     (if nameQ \<noteq> [] \<and> typeQ \<noteq> [] then ''name='' @ nameQ @ ''&type='' @ typeQ
      else if nameQ \<noteq> [] then ''name='' @ nameQ
      else if typeQ \<noteq> [] then ''type='' @ typeQ else [])"

definition listRecordsHandler :: "api_env \<Rightarrow> api_request \<Rightarrow> resolver_data \<Rightarrow> api_result" where
  "listRecordsHandler env r d =
     (let nameQ = TrimSpace (query_Get r ''name''); typeQ = TrimSpace (query_Get r ''type'');
          desc = listRecordsFilterDesc nameQ typeQ
      in case (if nameQ \<noteq> [] \<or> typeQ \<noteq> [] then FilterRecords (ae_lib env) (rd_DNSRecords d) nameQ typeQ else Inr (rd_DNSRecords d)) of
           Inl err \<Rightarrow> (d, [], (400, ApiError err []))
         | Inr records \<Rightarrow>
             (d, [], (200, ApiRecords \<lparr>lr_Records = records, lr_Detailed = listRecordsQueryDetails r, lr_Filter = desc,
                lr_Messages = (if desc \<noteq> [] then [Msg LevelInfo (''Filtering records by: '' @ desc)] else []) @
                              (if records = [] then [Msg LevelInfo ''No records found.''] else [])\<rparr>)))"

subsection \<open>Servers\<close>

definition bool_text :: "bool \<Rightarrow> gostr" where
  "bool_text b = (if b then ''true'' else ''false'')"

definition opt_arg :: "gostr \<Rightarrow> bool option \<Rightarrow> gostr list" where
  "opt_arg k v = (case v of None \<Rightarrow> [] | Some b \<Rightarrow> [k @ '':'' @ bool_text b])"

definition str_arg :: "gostr \<Rightarrow> gostr \<Rightarrow> gostr list" where
  "str_arg k v = (if TrimSpace v \<noteq> [] then [k @ '':'' @ TrimSpace v] else [])"

definition serverRequestToArgs :: "api_doc \<Rightarrow> gostr list" where
  "serverRequestToArgs q =
     [TrimSpace (ad_address q), TrimSpace (if ad_port q = [] then ''53'' else ad_port q)] @
     opt_arg ''active'' (ad_active q) @ opt_arg ''localresolver'' (ad_local_resolver q) @ opt_arg ''adblocker'' (ad_adblocker q) @
     (if ad_domain_whitelist q \<noteq> [] then [''whitelist:'' @ Join '','' (ad_domain_whitelist q)] else []) @
     str_arg ''fallback_address'' (ad_fallback_address q) @ str_arg ''fallback_port'' (ad_fallback_port q) @
     str_arg ''fallback_transport'' (ad_fallback_transport q) @ str_arg ''fallback_doh_url'' (ad_fallback_doh_url q)"

definition finishServers :: "int \<Rightarrow> gostr \<Rightarrow> servers_result \<Rightarrow> resolver_data \<Rightarrow> api_result" where
  "finishServers code status res d = (case res of
      (ss, msgs, Some e) \<Rightarrow> (d, [], op_failed e msgs)
    | (ss, msgs, None) \<Rightarrow> (case UpdateServers ss d of (d', eff) \<Rightarrow> (d', eff, (code, ApiStatus status (extractMessages msgs)))))"

definition addServerHandler :: "api_request \<Rightarrow> resolver_data \<Rightarrow> api_result" where
  "addServerHandler r d = (case ar_Body r of
      None \<Rightarrow> (d, [], (400, ApiError ''invalid input'' []))
    | Some q \<Rightarrow>
        if TrimSpace (ad_address q) = [] then (d, [], (400, ApiError ''address is required'' []))
        else finishServers 201 ''server added'' (Servers_Add (serverRequestToArgs (q\<lparr>ad_address := TrimSpace (ad_address q)\<rparr>)) (rd_DNSServers d)) d)"

text \<open>\<open>address\<close> is the unescaped path parameter.\<close>

definition updateServerHandler :: "gostr \<Rightarrow> api_request \<Rightarrow> resolver_data \<Rightarrow> api_result" where
  "updateServerHandler address r d =
     (if TrimSpace address = [] then (d, [], (400, ApiError ''address is required'' []))
      else
        let q = (case ar_Body r of None \<Rightarrow> empty_api_doc | Some b \<Rightarrow> b)\<lparr>ad_address := TrimSpace address\<rparr>
        in finishServers 200 ''server updated'' (Servers_Update (serverRequestToArgs q) (rd_DNSServers d)) d)"

definition deleteServerHandler :: "gostr \<Rightarrow> resolver_data \<Rightarrow> api_result" where
  "deleteServerHandler address d =
     (if TrimSpace address = [] then (d, [], (400, ApiError ''address is required'' []))
      else finishServers 200 ''server removed'' (Servers_Remove [TrimSpace address] (rd_DNSServers d)) d)"

definition healthCheckInterval :: "Config \<Rightarrow> int" where
  "healthCheckInterval cfg = (if cf_UpstreamHealthCheckIntervalSeconds cfg \<le> 0 then 30 else cf_UpstreamHealthCheckIntervalSeconds cfg)"

definition healthCheckFailures :: "Config \<Rightarrow> int" where
  "healthCheckFailures cfg = (if cf_UpstreamHealthCheckFailures cfg \<le> 0 then 3 else cf_UpstreamHealthCheckFailures cfg)"

definition listServersHandler :: "resolver_data \<Rightarrow> api_result" where
  "listServersHandler d =
     (let cfg = rd_Settings d; (health, enabled) = UpstreamHealthStatuses (rd_upstreamHealth d) cfg (rd_DNSServers d)
      in (d, [], (200, ApiServers (rd_DNSServers d) health enabled (healthCheckInterval cfg) (healthCheckFailures cfg))))"

definition upstreamHealthHandler :: "resolver_data \<Rightarrow> api_result" where
  "upstreamHealthHandler d =
     (let cfg = rd_Settings d; (health, enabled) = UpstreamHealthStatuses (rd_upstreamHealth d) cfg (rd_DNSServers d);
          q = TrimSpace (cf_UpstreamHealthCheckQueryName cfg)
      in (d, [], (200, ApiHealth health enabled (healthCheckInterval cfg) (healthCheckFailures cfg) (if q = [] then ''google.com.'' else q))))"

subsection \<open>Block list and cache\<close>

definition listAdblockDomainsHandler :: "resolver_data \<Rightarrow> api_result" where
  "listAdblockDomainsHandler d = (d, [], (200, ApiDomains (case rd_BlockList d of None \<Rightarrow> [] | Some bl \<Rightarrow> bl)))"

definition listAdblockSourcesHandler :: "resolver_data \<Rightarrow> api_result" where
  "listAdblockSourcesHandler d = (d, [], (200, ApiSources (rd_AdblockSources d)))"

text \<open>The domains of a list that are not blank, trimmed.\<close>

definition named_domains :: "gostr list \<Rightarrow> gostr list" where
  "named_domains ds = filter (\<lambda>s. s \<noteq> []) (map TrimSpace ds)"

definition addAdblockDomainsHandler :: "api_request \<Rightarrow> resolver_data \<Rightarrow> api_result" where
  "addAdblockDomainsHandler r d = (case ar_Body r of
      None \<Rightarrow> (d, [], (400, ApiError ''invalid input'' []))
    | Some b \<Rightarrow>
        (case rd_BlockList d of
           None \<Rightarrow> (d, [], (500, ApiError ''adblock not available'' []))
         | Some bl \<Rightarrow>
             let bl = (if ad_domain b \<noteq> [] then AddDomain (TrimSpace (ad_domain b)) bl else bl);
                 bl = fold AddDomain (named_domains (ad_domains b)) bl
             in (d\<lparr>rd_BlockList := Some bl\<rparr>, [], (201, ApiCount ''domains added'' (CountBlocked bl)))))"

definition deleteAdblockDomainsHandler :: "api_request \<Rightarrow> resolver_data \<Rightarrow> api_result" where
  "deleteAdblockDomainsHandler r d =
     (let one = query_Get r ''domain''; many = query_Get r ''domains'';
          domains = (if one \<noteq> [] then [one] else []) @ (if many \<noteq> [] then map TrimSpace (Split CHR '','' many) else []) @
                    (case ar_Body r of None \<Rightarrow> [] | Some b \<Rightarrow> (if ad_domain b \<noteq> [] then [ad_domain b] else []) @ ad_domains b)
      in case rd_BlockList d of
           None \<Rightarrow> (d, [], (500, ApiError ''adblock not available'' []))
         | Some bl \<Rightarrow>
             let bl = fold RemoveDomain (named_domains domains) bl
             in (d\<lparr>rd_BlockList := Some bl\<rparr>, [], (200, ApiCount ''domains removed'' (CountBlocked bl))))"

definition clearAdblockHandler :: "resolver_data \<Rightarrow> api_result" where
  "clearAdblockHandler d = (case rd_BlockList d of
      None \<Rightarrow> (d, [], (200, ApiStatus ''adblock cleared'' []))
    | Some bl \<Rightarrow> (ClearAdblockSources (d\<lparr>rd_BlockList := Some (ClearBlockList bl)\<rparr>), [], (200, ApiStatus ''adblock cleared'' [])))"

definition getCacheHandler :: "resolver_data \<Rightarrow> api_result" where
  "getCacheHandler d = (d, [], (200, ApiCache (rd_CacheRecords d)))"

definition clearCacheHandler :: "resolver_data \<Rightarrow> api_result" where
  "clearCacheHandler d = (UpdateCacheRecords [] d, [], (200, ApiStatus ''cache cleared'' []))"

subsection \<open>Routes\<close>

definition readyHandler :: "api_env \<Rightarrow> resolver_data \<Rightarrow> api_result" where
  "readyHandler env d =
     (let ready = (ae_APIRunning env \<and> ae_ServerStatus env)
      in (d, [], (if ready then 200 else 503, ApiElsewhere ''/ready'')))"

text \<open>The routes with a fixed path.  The second component is the method; a known path with another
  method is answered with 405.\<close>

definition routes :: "api_env \<Rightarrow> api_request \<Rightarrow> (gostr \<times> gostr \<times> (resolver_data \<Rightarrow> api_result)) list" where
  "routes env r =
     (let page = (\<lambda>p d. (d, [], (ae_page env p, ApiElsewhere p))) in
      [(''/health'', ''GET'', \<lambda>d. (d, [], (200, ApiEmpty))), (''/ready'', ''GET'', readyHandler env),
       (''/version'', ''GET'', \<lambda>d. (d, [], (200, ApiElsewhere ''/version''))),
       (''/version/page'', ''GET'', page ''/version/page''),
       (''/dns/records'', ''GET'', listRecordsHandler env r), (''/dns/records'', ''POST'', addRecordHandler env r),
       (''/dns/records/reload'', ''POST'', reloadRecordsHandler env), (''/dns/records'', ''PUT'', updateRecordHandler env r),
       (''/dns/records'', ''DELETE'', deleteRecordHandler env r),
       (''/dns/servers'', ''GET'', listServersHandler), (''/dns/upstreams/health'', ''GET'', upstreamHealthHandler),
       (''/dns/servers'', ''POST'', addServerHandler r),
       (''/adblock/domains'', ''GET'', listAdblockDomainsHandler), (''/adblock/sources'', ''GET'', listAdblockSourcesHandler),
       (''/adblock/domains'', ''POST'', addAdblockDomainsHandler r), (''/adblock/domains'', ''DELETE'', deleteAdblockDomainsHandler r),
       (''/adblock/clear'', ''POST'', clearAdblockHandler),
       (''/cache'', ''GET'', getCacheHandler), (''/cache/clear'', ''POST'', clearCacheHandler), (''/cache'', ''DELETE'', clearCacheHandler),
       (''/stats'', ''GET'', page ''/stats''), (''/metrics'', ''GET'', page ''/metrics''),
       (''/stats/dashboard'', ''GET'', page ''/stats/dashboard''), (''/stats/dashboard/icon'', ''GET'', page ''/stats/dashboard/icon''),
       (''/stats/dashboard/data'', ''GET'', page ''/stats/dashboard/data''), (''/stats/dashboard/ws'', ''GET'', page ''/stats/dashboard/ws''),
       (''/stats/dashboard/resolutions'', ''GET'', page ''/stats/dashboard/resolutions''),
       (''/stats/dashboard/resolutions/purge'', ''POST'', page ''/stats/dashboard/resolutions/purge''),
       (''/stats/dashboard/fullstats/data'', ''GET'', page ''/stats/dashboard/fullstats/data''),
       (''/stats/perf'', ''GET'', page ''/stats/perf''), (''/stats/perf/reset'', ''POST'', page ''/stats/perf/reset'')])"

text \<open>The parameter of the route \<^verbatim>\<open>/dns/servers/{address}\<close>: one non-empty segment.  \<open>unescape\<close> is
  \<^verbatim>\<open>url.PathUnescape\<close>, which keeps the text when it is malformed.\<close>

definition server_param :: "(gostr \<Rightarrow> gostr) \<Rightarrow> gostr \<Rightarrow> gostr option" where
  "server_param unescape p =
     (if HasPrefix p ''/dns/servers/'' then
        (let seg = drop (length ''/dns/servers/'') p in if seg = [] \<or> CHR ''/'' \<in> set seg then None else Some (unescape seg))
      else None)"

definition RegisterDNSRoutes :: "api_env \<Rightarrow> (gostr \<Rightarrow> gostr) \<Rightarrow> api_request \<Rightarrow> resolver_data \<Rightarrow> api_result" where
  "RegisterDNSRoutes env unescape r d =
     (case server_param unescape (ar_Path r) of
        Some a \<Rightarrow>
          if ar_Method r = ''PUT'' then updateServerHandler a r d
          else if ar_Method r = ''DELETE'' then deleteServerHandler a d
          else (d, [], (405, ApiEmpty))
      | None \<Rightarrow>
          (case find (\<lambda>(p, m, h). p = ar_Path r \<and> m = ar_Method r) (routes env r) of
             Some (p, m, h) \<Rightarrow> h d
           | None \<Rightarrow> (d, [], (if list_ex (\<lambda>(p, m, h). p = ar_Path r) (routes env r) then 405 else 404, ApiEmpty))))"

definition apiAuthMiddleware :: "(resolver_data \<Rightarrow> api_result) \<Rightarrow> api_request \<Rightarrow> resolver_data \<Rightarrow> api_result" where
  "apiAuthMiddleware handler r d =
     (let tok = TrimSpace (cf_APIAuthToken (rd_Settings d)) in
      if tok = [] then handler d
      else if apiAuthExempt r then handler d
      else if \<not> apiRequestAuthorized r tok then (d, [], (401, ApiError ''unauthorized'' []))
      else handler d)"

definition serveAPI :: "api_env \<Rightarrow> (gostr \<Rightarrow> gostr) \<Rightarrow> api_request \<Rightarrow> PerIP option \<times> resolver_data \<Rightarrow> (PerIP option \<times> resolver_data) \<times> effect list \<times> api_response" where
  "serveAPI env unescape r st =
     (let (lim, d) = st;
          (lim', ok) = (case lim of None \<Rightarrow> (None, True) | Some l \<Rightarrow> (case PerIP_Allow l (ae_now env) (clientIP r) of (l', ok) \<Rightarrow> (Some l', ok)))
      in if ok then (case apiAuthMiddleware (RegisterDNSRoutes env unescape r) r d of (d', eff, resp) \<Rightarrow> ((lim', d'), eff, resp))
         else ((lim', d), [], (429, ApiEmpty)))"

subsection \<open>Requests without the token\<close>

definition reads :: "(resolver_data \<Rightarrow> api_result) \<Rightarrow> bool" where
  "reads h \<longleftrightarrow> (\<forall>d. fst (h d) = d \<and> fst (snd (h d)) = [])"

lemma reads_const [simp]: "reads (\<lambda>d. (d, [], resp d))"
  by (simp add: reads_def)

lemma reads_case_sum: "fst (case x of Inl e \<Rightarrow> (d, [], f e) | Inr y \<Rightarrow> (d, [], g y)) = d"
    "fst (snd (case x of Inl e \<Rightarrow> (d, [], f e) | Inr y \<Rightarrow> (d, [], g y))) = []"
  by (cases x; simp)+

lemma reads_records [simp]: "reads (listRecordsHandler env r)"
  unfolding reads_def listRecordsHandler_def Let_def reads_case_sum by simp

lemma reads_handlers [simp]:
  "reads (readyHandler env)" "reads listServersHandler" "reads upstreamHealthHandler" "reads listAdblockDomainsHandler" "reads listAdblockSourcesHandler" "reads getCacheHandler"
  by (simp_all add: reads_def readyHandler_def listServersHandler_def upstreamHealthHandler_def listAdblockDomainsHandler_def
      listAdblockSourcesHandler_def getCacheHandler_def Let_def case_prod_beta)

lemma read_routes: "list_all (\<lambda>(p, m, h). m \<noteq> ''HEAD'' \<and> (m = ''GET'' \<longrightarrow> reads h)) (routes env r)"
  by (simp add: routes_def Let_def)

lemma route_cases:
  obtains a where "server_param unescape (ar_Path r) = Some a" "ar_Method r = ''PUT''" "RegisterDNSRoutes env unescape r d = updateServerHandler a r d"
  | a where "server_param unescape (ar_Path r) = Some a" "ar_Method r = ''DELETE''" "RegisterDNSRoutes env unescape r d = deleteServerHandler a d"
  | p m h where "(p, m, h) \<in> set (routes env r)" "p = ar_Path r" "m = ar_Method r" "RegisterDNSRoutes env unescape r d = h d"
  | code where "RegisterDNSRoutes env unescape r d = (d, [], (code, ApiEmpty))" "400 \<le> code"
proof (cases "server_param unescape (ar_Path r)")
  case (Some a)
  then show ?thesis using that by (cases "ar_Method r = ''PUT''"; cases "ar_Method r = ''DELETE''") (simp_all add: RegisterDNSRoutes_def)
next
  case None
  show ?thesis
  proof (cases "find (\<lambda>(p, m, h). p = ar_Path r \<and> m = ar_Method r) (routes env r)")
    case none: None
    then show ?thesis using None that(4) by (simp add: RegisterDNSRoutes_def)
  next
    case (Some x)
    obtain p m h where x: "x = (p, m, h)" by (cases x) auto
    from Some have "(p, m, h) \<in> set (routes env r)" "p = ar_Path r \<and> m = ar_Method r" by (auto simp: x find_Some_iff dest: nth_mem)
    then show ?thesis using None Some x that(3) by (simp add: RegisterDNSRoutes_def)
  qed
qed

lemma read_request:
  assumes "ar_Method r = ''GET'' \<or> ar_Method r = ''HEAD''"
  shows "fst (RegisterDNSRoutes env unescape r d) = d \<and> fst (snd (RegisterDNSRoutes env unescape r d)) = []"
proof (cases rule: route_cases [of unescape r env d])
  case (3 p m h)
  then show ?thesis using assms read_routes [of env r] by (auto simp: list_all_iff reads_def)
qed (use assms in auto)

text \<open>C23.  While an API token is configured, a request that does not carry it (as a bearer token or in the header
  X-API-Token) changes nothing and has no effects, whatever its method, path and body; it is answered
  with 401 or 429 unless it is a read of one of the exempt paths.\<close>

theorem api_needs_token:
  assumes "TrimSpace (cf_APIAuthToken (rd_Settings d)) \<noteq> []"
    and "\<not> apiRequestAuthorized r (TrimSpace (cf_APIAuthToken (rd_Settings d)))"
    and "serveAPI env unescape r (lm, d) = ((lm', d'), eff, (code, body))"
  shows "d' = d \<and> eff = [] \<and> (code \<in> {401, 429} \<or> apiAuthExempt r)"
proof (cases "apiAuthExempt r")
  case False
  then show ?thesis using assms by (auto simp: serveAPI_def apiAuthMiddleware_def Let_def split: prod.splits if_splits)
next
  case True
  then have "ar_Method r = ''GET'' \<or> ar_Method r = ''HEAD''" by (auto simp: apiAuthExempt_def split: if_splits)
  from read_request [OF this, of env unescape d] True assms show ?thesis
    by (auto simp: serveAPI_def apiAuthMiddleware_def Let_def split: prod.splits if_splits)
qed

subsection \<open>Errors and the invariant of the data\<close>

text \<open>The flag \<open>u\<close> says whether the record keys are part of the invariant: a reload takes the records as the
  source has them.\<close>

definition api_ok :: "bool \<Rightarrow> resolver_data \<Rightarrow> bool" where
  "api_ok u d \<longleftrightarrow> indexed d \<and> (u \<longrightarrow> keys_unique (rd_DNSRecords d)) \<and> (\<forall>s \<in> set (rd_DNSServers d). server_ok s)"

text \<open>What is proved of every handler: an error changes nothing, and the invariant is kept.\<close>

definition error_unchanged :: "resolver_data \<Rightarrow> api_result \<Rightarrow> bool" where
  "error_unchanged d res \<longleftrightarrow> (400 \<le> fst (snd (snd res)) \<longrightarrow> fst res = d \<and> fst (snd res) = [])"

definition keeps_ok :: "bool \<Rightarrow> resolver_data \<Rightarrow> api_result \<Rightarrow> bool" where
  "keeps_ok u d res \<longleftrightarrow> (api_ok u d \<longrightarrow> api_ok u (fst res))"

lemma unchanged_sound [simp]: "error_unchanged d (d, [], resp)" "keeps_ok u d (d, eff, resp)"
  by (simp_all add: error_unchanged_def keeps_ok_def)

definition success_code :: "edit \<Rightarrow> bool" where
  "success_code e = (case e of Reject resp \<Rightarrow> True | Commit rs resp \<Rightarrow> fst resp < 400)"

definition unique_edit :: "edit \<Rightarrow> bool" where
  "unique_edit e = (case e of Reject resp \<Rightarrow> True | Commit rs resp \<Rightarrow> keys_unique rs)"

lemma Reject_sound [simp]: "success_code (Reject resp)" "unique_edit (Reject resp)"
  by (simp_all add: success_code_def unique_edit_def)

lemma edit_of_sound: "code < 400 \<Longrightarrow> success_code (edit_of code status res)" "keys_unique (fst res) \<Longrightarrow> unique_edit (edit_of code status res)"
  by (auto simp: edit_of_def success_code_def unique_edit_def split: prod.splits option.splits)

lemma commit_error: "success_code e \<Longrightarrow> error_unchanged d (commitRecords env e d)"
  by (auto simp: commitRecords_def success_code_def error_unchanged_def split: edit.splits sum.splits prod.splits)

lemma stored_ok: "(u \<longrightarrow> keys_unique rs) \<Longrightarrow> api_ok u d \<Longrightarrow> api_ok u (fst (storeRecords cfg io skip rs persist d))"
  by (simp add: api_ok_def storeRecords_def indexed_def Let_def case_prod_beta)

lemma commit_ok: "(u \<longrightarrow> unique_edit e) \<Longrightarrow> keeps_ok u d (commitRecords env e d)"
proof (cases e)
  case (Commit rs resp)
  assume "u \<longrightarrow> unique_edit e"
  then have "u \<longrightarrow> keys_unique rs" by (simp add: Commit unique_edit_def)
  then show ?thesis using stored_ok [of u rs d "ae_stored env" "ae_io env" False True]
    by (auto simp: Commit commitRecords_def keeps_ok_def UpdateRecords_def split: sum.split prod.split if_splits)
qed (simp add: commitRecords_def)

lemma record_ops_unique:
  assumes "keys_unique rs"
  shows "keys_unique (fst (AddRecord L e r rs au))" "keys_unique (fst (Records_Remove L args rs))"
    "keys_unique (fst (UpdateRecordByID L e i r rs))" "keys_unique (fst (RemoveRecordByID i rs))"
  using run_record_op_unique [OF assms, of L "(e, OpAddRecord r au)"] run_record_op_unique [OF assms, of L "(e, OpRemove args)"]
    run_record_op_unique [OF assms, of L "(e, OpUpdate i r)"] run_record_op_unique [OF assms, of L "(e, OpRemoveID i)"]
  by simp_all

lemmas edit_defs = addRecordEdit_def updateRecordEdit_def deleteRecordEdit_def

lemma edits_success: "success_code (addRecordEdit env r rs)" "success_code (updateRecordEdit env r rs)" "success_code (deleteRecordEdit env r rs)"
  by (simp_all add: edit_defs Let_def edit_of_sound split: option.split)

lemma edits_unique:
  assumes "keys_unique rs"
  shows "unique_edit (addRecordEdit env r rs)" "unique_edit (updateRecordEdit env r rs)" "unique_edit (deleteRecordEdit env r rs)"
  using record_ops_unique [OF assms] by (simp_all add: edit_defs Let_def edit_of_sound split: option.split)

lemma servers_sound:
  assumes "run_server_op c (rd_DNSServers d) = res" "code < 400"
  shows "error_unchanged d (finishServers code status res d)" "keeps_ok u d (finishServers code status res d)"
proof -
  have "api_ok u d \<Longrightarrow> \<forall>s \<in> set (fst res). server_ok s" using run_server_op_ok [of "rd_DNSServers d" c] assms(1) by (auto simp: api_ok_def)
  then show "error_unchanged d (finishServers code status res d)" "keeps_ok u d (finishServers code status res d)"
    using assms(2) by (auto simp: finishServers_def error_unchanged_def keeps_ok_def UpdateServers_def api_ok_def indexed_def
        split: prod.splits option.splits)
qed

lemma add_server_sound: "error_unchanged d (addServerHandler r d)" "keeps_ok u d (addServerHandler r d)"
  using servers_sound [OF run_server_op.simps(1), of 201] by (simp_all add: addServerHandler_def split: option.split)

lemma update_server_sound: "error_unchanged d (updateServerHandler a r d)" "keeps_ok u d (updateServerHandler a r d)"
  using servers_sound [OF run_server_op.simps(3), of 200] by (simp_all add: updateServerHandler_def Let_def)

lemma delete_server_sound: "error_unchanged d (deleteServerHandler a d)" "keeps_ok u d (deleteServerHandler a d)"
  using servers_sound [OF run_server_op.simps(2), of 200] by (simp_all add: deleteServerHandler_def)

lemmas server_handlers_sound = add_server_sound update_server_sound delete_server_sound

text \<open>The block list is not part of the invariant.\<close>

lemma block_list_sound [simp]:
  "api_ok u (d\<lparr>rd_BlockList := bl\<rparr>) = api_ok u d" "api_ok u (ClearAdblockSources d) = api_ok u d"
  "api_ok u d \<Longrightarrow> api_ok u (UpdateCacheRecords cs d)"
  by (simp_all add: api_ok_def indexed_def ClearAdblockSources_def UpdateCacheRecords_def storeCacheRecords_def)

lemma success_sound: "code < 400 \<Longrightarrow> error_unchanged d (d', eff, (code, body))" "(api_ok u d \<Longrightarrow> api_ok u d') \<Longrightarrow> keeps_ok u d (d', eff, resp)"
  by (simp_all add: error_unchanged_def keeps_ok_def)

lemma adblock_handlers_sound:
  "error_unchanged d (addAdblockDomainsHandler r d)" "keeps_ok u d (addAdblockDomainsHandler r d)"
  "error_unchanged d (deleteAdblockDomainsHandler r d)" "keeps_ok u d (deleteAdblockDomainsHandler r d)"
  "error_unchanged d (clearAdblockHandler d)" "keeps_ok u d (clearAdblockHandler d)"
  unfolding addAdblockDomainsHandler_def deleteAdblockDomainsHandler_def clearAdblockHandler_def Let_def
  by (cases "ar_Body r"; cases "rd_BlockList d"; simp add: success_sound)+

lemma cache_handlers_sound: "error_unchanged d (clearCacheHandler d)" "keeps_ok u d (clearCacheHandler d)"
  by (simp_all add: clearCacheHandler_def success_sound)

definition unique_source :: "api_env \<Rightarrow> bool" where
  "unique_source env = (case ae_loaded env of Inl err \<Rightarrow> True | Inr rs \<Rightarrow> keys_unique rs)"

definition is_reload :: "api_request \<Rightarrow> bool" where
  "is_reload r \<longleftrightarrow> ar_Method r = ''POST'' \<and> ar_Path r = ''/dns/records/reload''"

lemma reload_sound:
  "error_unchanged d (reloadRecordsHandler env d)"
  "(u \<longrightarrow> unique_source env) \<Longrightarrow> keeps_ok u d (reloadRecordsHandler env d)"
  by (cases "ae_loaded env"; simp add: reloadRecordsHandler_def ReloadRecordsFromSource_def success_sound stored_ok unique_source_def)+

lemmas other_handlers_sound = adblock_handlers_sound cache_handlers_sound reload_sound

lemma reads_sound: "reads h \<Longrightarrow> error_unchanged d (h d)" "reads h \<Longrightarrow> keeps_ok u d (h d)"
  by (simp_all add: reads_def error_unchanged_def keeps_ok_def)

lemmas read_handlers_sound = reads_records [THEN reads_sound(1)] reads_records [THEN reads_sound(2)]
  reads_handlers [THEN reads_sound(1)] reads_handlers [THEN reads_sound(2)]

lemma record_handlers_error:
  "error_unchanged d (addRecordHandler env r d)" "error_unchanged d (updateRecordHandler env r d)" "error_unchanged d (deleteRecordHandler env r d)"
  by (simp_all add: addRecordHandler_def updateRecordHandler_def deleteRecordHandler_def commit_error edits_success)

lemma record_handlers_ok:
  "keeps_ok u d (addRecordHandler env r d)" "keeps_ok u d (updateRecordHandler env r d)" "keeps_ok u d (deleteRecordHandler env r d)"
proof -
  have *: "keeps_ok u d (commitRecords env e d)" if "keys_unique (rd_DNSRecords d) \<Longrightarrow> unique_edit e" for e
    using that commit_ok [of u e d env] by (simp add: keeps_ok_def api_ok_def)
  show "keeps_ok u d (addRecordHandler env r d)" "keeps_ok u d (updateRecordHandler env r d)" "keeps_ok u d (deleteRecordHandler env r d)"
    unfolding addRecordHandler_def updateRecordHandler_def deleteRecordHandler_def by (rule *, erule edits_unique)+
qed

lemma routes_error: "list_all (\<lambda>(p, m, h). \<forall>d. error_unchanged d (h d)) (routes env r)"
  by (simp add: routes_def Let_def record_handlers_error server_handlers_sound other_handlers_sound read_handlers_sound)

lemma routes_ok:
  assumes "u \<longrightarrow> p' = ''/dns/records/reload'' \<longrightarrow> m' = ''POST'' \<longrightarrow> unique_source env"
  shows "list_all (\<lambda>(p, m, h). p = p' \<longrightarrow> m = m' \<longrightarrow> (\<forall>d. keeps_ok u d (h d))) (routes env r)"
  using assms by (simp add: routes_def Let_def record_handlers_ok server_handlers_sound other_handlers_sound read_handlers_sound)

lemma route_error: "error_unchanged d (RegisterDNSRoutes env unescape r d)"
  by (cases rule: route_cases [of unescape r env d])
    (use routes_error [of env r] in \<open>auto simp: server_handlers_sound list_all_iff\<close>)

lemma route_ok:
  assumes "u \<longrightarrow> is_reload r \<longrightarrow> unique_source env"
  shows "keeps_ok u d (RegisterDNSRoutes env unescape r d)"
  by (cases rule: route_cases [of unescape r env d])
    (use routes_ok [of u "ar_Path r" "ar_Method r" env r] assms in \<open>auto simp: server_handlers_sound list_all_iff is_reload_def\<close>)

lemma serveAPI_cases:
  assumes "serveAPI env unescape r (lm, d) = ((lm', d'), eff, resp)"
  obtains "d' = d" "eff = []" "fst resp \<in> {401, 429}" | "RegisterDNSRoutes env unescape r d = (d', eff, resp)"
  using assms by (auto simp: serveAPI_def apiAuthMiddleware_def Let_def split: prod.splits if_splits)

text \<open>C24.  A request that is answered with an error (a status of 400 or more) has changed nothing: no record, no
  server, no domain, nothing on disk and nothing in the cluster.\<close>

theorem api_error_changes_nothing:
  assumes "serveAPI env unescape r (lm, d) = ((lm', d'), eff, (code, body))" "400 \<le> code"
  shows "d' = d \<and> eff = []"
  using assms(1)
proof (cases rule: serveAPI_cases)
  case 2
  then show ?thesis using route_error [of d env unescape r] assms(2) by (simp add: error_unchanged_def)
qed simp

text \<open>Requests one after the other.\<close>

fun serve_requests :: "(gostr \<Rightarrow> gostr) \<Rightarrow> (api_env \<times> api_request) list \<Rightarrow> PerIP option \<times> resolver_data \<Rightarrow> PerIP option \<times> resolver_data" where
  "serve_requests unescape [] st = st"
| "serve_requests unescape ((env, r) # rs) st = serve_requests unescape rs (fst (serveAPI env unescape r st))"

lemma serveAPI_ok:
  assumes "u \<longrightarrow> is_reload r \<longrightarrow> unique_source env" "api_ok u d"
  shows "api_ok u (snd (fst (serveAPI env unescape r (lm, d))))"
proof -
  obtain lm' d' eff resp where s: "serveAPI env unescape r (lm, d) = ((lm', d'), eff, resp)" by (metis prod.collapse)
  from s show ?thesis
  proof (cases rule: serveAPI_cases)
    case 2
    then show ?thesis using route_ok [OF assms(1), of d unescape] assms(2) s by (simp add: keeps_ok_def)
  qed (use assms(2) s in simp)
qed

lemma serve_requests_ok:
  assumes "api_ok u d" "u \<longrightarrow> list_all (\<lambda>(env, r). is_reload r \<longrightarrow> unique_source env) rs"
  shows "api_ok u (snd (serve_requests unescape rs (lm, d)))"
  using assms
proof (induction rs arbitrary: lm d)
  case (Cons x rs)
  obtain env r where x: "x = (env, r)" by (cases x) auto
  obtain lm' d' where s: "fst (serveAPI env unescape r (lm, d)) = (lm', d')" by (metis prod.collapse)
  have "api_ok u d'" using serveAPI_ok [of u r env d unescape lm] Cons.prems s by (auto simp: x)
  then show ?case using Cons.IH [of d' lm'] Cons.prems(2) by (auto simp: x s)
qed simp

text \<open>C25.  The API keeps the data well formed: from well-formed data, after any sequence of requests the
  indexes are current and every server has an address and a port that can be used; and if then two
  records have the same name, type and value, one of the requests was a reload of the records from a
  source that holds two such records.\<close>

theorem api_keeps_data_well_formed:
  assumes "indexed d" "keys_unique (rd_DNSRecords d)" "\<forall>s \<in> set (rd_DNSServers d). server_ok s"
    and "d' = snd (serve_requests unescape rs (lm, d))"
  shows "indexed d' \<and> (\<forall>s \<in> set (rd_DNSServers d'). server_ok s) \<and>
    (keys_unique (rd_DNSRecords d') \<or>
     (\<exists>env r recs. (env, r) \<in> set rs \<and> ar_Method r = ''POST'' \<and> ar_Path r = ''/dns/records/reload'' \<and>
        ae_loaded env = Inr recs \<and> \<not> keys_unique recs))"
proof -
  have "api_ok False d" "api_ok True d" using assms(1-3) by (simp_all add: api_ok_def)
  from serve_requests_ok [OF this(1)] serve_requests_ok [OF this(2)] show ?thesis
    unfolding assms(4) by (fastforce simp: api_ok_def list_all_iff is_reload_def unique_source_def split: sum.splits)
qed

subsection \<open>Concrete requests\<close>

definition sample_aenv :: api_env where
  "sample_aenv = \<lparr>ae_lib = sample_lib, ae_op = sample_env, ae_stored = empty_Config, ae_io = True, ae_loaded = Inl ''no source'', ae_now = 0,
     ae_APIRunning = True, ae_ServerStatus = True, ae_page = (\<lambda>p. 200)\<rparr>"

definition api_call :: "gostr \<Rightarrow> gostr \<Rightarrow> api_doc option \<Rightarrow> api_request" where
  "api_call method path body = \<lparr>ar_Method = method, ar_Path = path, ar_Query = [], ar_Authorization = [], ar_Token = [],
     ar_RemoteAddr = ''10.0.0.9:5000'', ar_Body = body\<rparr>"

definition post_record :: "gostr \<Rightarrow> gostr \<Rightarrow> api_request" where
  "post_record name ip = api_call ''POST'' ''/dns/records'' (Some (empty_api_doc\<lparr>ad_name := name, ad_type := ''A'', ad_value := ip, ad_ttl := Some 60\<rparr>))"

definition token_data :: resolver_data where
  "token_data = empty_data\<lparr>rd_Settings := (rd_Settings empty_data)\<lparr>cf_APIAuthToken := '' t0k ''\<rparr>\<rparr>"

theorem api_needs_token_witness:
  "\<exists>lm' code body. serveAPI sample_aenv (\<lambda>s. s) ((post_record ''a.lan'' ''10.0.0.1'')\<lparr>ar_Authorization := ''Bearer guess''\<rparr>) (None, token_data) =
     ((lm', token_data), [], (code, body)) \<and> code \<in> {401, 429}"
proof -
  let ?r = "(post_record ''a.lan'' ''10.0.0.1'')\<lparr>ar_Authorization := ''Bearer guess''\<rparr>"
  obtain lm' d' eff code body where s: "serveAPI sample_aenv (\<lambda>s. s) ?r (None, token_data) = ((lm', d'), eff, (code, body))"
    by (metis prod.collapse)
  have "TrimSpace (cf_APIAuthToken (rd_Settings token_data)) \<noteq> []" "\<not> apiAuthExempt ?r"
    "\<not> apiRequestAuthorized ?r (TrimSpace (cf_APIAuthToken (rd_Settings token_data)))" by code_simp+
  with api_needs_token [OF this(1,3) s] s show ?thesis by auto
qed

theorem api_error_changes_nothing_witness:
  "\<exists>lm' code body. serveAPI sample_aenv (\<lambda>s. s) (post_record ''a.lan'' ''not an address'') (None, empty_data) = ((lm', empty_data), [], (code, body)) \<and> code = 400"
proof -
  let ?r = "post_record ''a.lan'' ''not an address''"
  obtain lm' d' eff code body where s: "serveAPI sample_aenv (\<lambda>s. s) ?r (None, empty_data) = ((lm', d'), eff, (code, body))"
    by (metis prod.collapse)
  have "fst (snd (snd (serveAPI sample_aenv (\<lambda>s. s) ?r (None, empty_data)))) = 400" by code_simp
  then have "code = 400" unfolding s by simp
  with api_error_changes_nothing [OF s] s show ?thesis by simp
qed

theorem api_keeps_data_well_formed_witness:
  "let d' = snd (serve_requests (\<lambda>s. s) [(sample_aenv, post_record ''a.lan'' ''10.0.0.1''), (sample_aenv, post_record ''A.LAN.'' ''10.0.0.1'')]
     (None, WarmIndexes empty_data)) in indexed d' \<and> keys_unique (rd_DNSRecords d')"
proof -
  let ?rs = "[(sample_aenv, post_record ''a.lan'' ''10.0.0.1''), (sample_aenv, post_record ''A.LAN.'' ''10.0.0.1'')]"
  let ?d = "WarmIndexes empty_data"
  have "indexed ?d" "keys_unique (rd_DNSRecords ?d)" "\<forall>s \<in> set (rd_DNSServers ?d). server_ok s"
    by (simp_all add: indexed_def WarmIndexes_def empty_data_def keys_unique_def)
  from api_keeps_data_well_formed [OF this refl, of "\<lambda>s. s" ?rs None] show ?thesis
    by (simp only: Let_def) (auto simp: sample_aenv_def)
qed

subsection \<open>Lost updates and ignored fields\<close>

text \<open>Two requests that add records can lose one of them although both are answered with 201: each handler
  reads the records, and stores its own result later.  Here both read the empty set of records, and the
  record of the first is gone.\<close>

theorem concurrent_posts_lose_a_record:
  "let e1 = addRecordEdit sample_aenv (post_record ''a.lan'' ''10.0.0.1'') (rd_DNSRecords empty_data);
       e2 = addRecordEdit sample_aenv (post_record ''b.lan'' ''10.0.0.2'') (rd_DNSRecords empty_data);
       (d1, eff1, resp1) = commitRecords sample_aenv e1 empty_data;
       (d2, eff2, resp2) = commitRecords sample_aenv e2 d1
   in fst resp1 = 201 \<and> fst resp2 = 201 \<and> map dr_Name (rd_DNSRecords d1) = [''a.lan''] \<and> map dr_Name (rd_DNSRecords d2) = [''b.lan'']"
  by code_simp

text \<open>A DELETE that names a type but no value ignores the type: with one record of that name, of another
  type, it deletes that record.\<close>

theorem delete_ignores_type:
  "let d = empty_data\<lparr>rd_DNSRecords := [sample_record]\<rparr>;
       r = (api_call ''DELETE'' ''/dns/records'' None)\<lparr>ar_Query := [(''name'', ''host.lan''), (''type'', ''AAAA'')]\<rparr>;
       (d', eff, resp) = deleteRecordHandler sample_aenv r d
   in dr_Type sample_record = ''A'' \<and> fst resp = 200 \<and> rd_DNSRecords d' = []"
  by code_simp

text \<open>A PUT on a server that does not give a port sets the port to 53, whatever it was.\<close>

theorem put_server_resets_port:
  "let d = empty_data\<lparr>rd_DNSServers := [empty_server\<lparr>srv_Address := ''10.0.0.53'', srv_Port := ''5353'', srv_Active := True\<rparr>]\<rparr>;
       r = api_call ''PUT'' ''/dns/servers/10.0.0.53'' (Some (empty_api_doc\<lparr>ad_active := Some False\<rparr>));
       (d', eff, resp) = RegisterDNSRoutes sample_aenv (\<lambda>s. s) r d
   in fst resp = 200 \<and> map (\<lambda>s. (srv_Port s, srv_Active s)) (rd_DNSServers d') = [(''53'', False)]"
  by code_simp

end
