(* ===== verification/ConfigSet.thy ===== *)
theory ConfigSet
  imports Commands Api
begin

text \<open>
  Changing the configuration at run time: \<^verbatim>\<open>applyConfigSetting\<close>, \<^verbatim>\<open>parseClusterPeersList\<close> and the \<^verbatim>\<open>server set\<close>,
  \<^verbatim>\<open>server load\<close> and \<^verbatim>\<open>server save\<close> commands of \<^verbatim>\<open>commandhandler/commandhandler.go\<close>.  The cases of the switch are
  entries of four tables, in the order of the code: the names of a case and what it does with the value.
  \<^verbatim>\<open>strconv.ParseFloat\<close>, the \<^verbatim>\<open>%g\<close> verb and the JSON decoder for a list of strings are functions of the
  environment; a parsed number may be not finite.
\<close>

subsection \<open>Settings\<close>

datatype go_float = Finite rat | NotANumber | Infinite bool

record format_env =
  fe_ParseFloat :: "gostr \<Rightarrow> go_float option"
  fe_FormatG :: "go_float \<Rightarrow> gostr"
  fe_JSONStrings :: "gostr \<Rightarrow> gostr + gostr list"

text \<open>What a case does: it stores the value as it is, a flag, a number of at least a bound, a floating-point
  number, or it does something of its own.  The functions are the store, the error text and the message.\<close>

datatype setter =
    S_Str "gostr \<Rightarrow> Config \<Rightarrow> Config" "gostr \<Rightarrow> gostr"
  | S_Bool "bool \<Rightarrow> Config \<Rightarrow> Config" "gostr \<Rightarrow> gostr" "bool \<Rightarrow> gostr"
  | S_Int int "int \<Rightarrow> Config \<Rightarrow> Config" "gostr \<Rightarrow> gostr" "int \<Rightarrow> gostr"
  | S_Float "rat option" "rat \<Rightarrow> Config \<Rightarrow> Config" "gostr \<Rightarrow> gostr" "gostr \<Rightarrow> gostr"
  | S_Other "format_env \<Rightarrow> gostr \<Rightarrow> Config \<Rightarrow> gostr + Config \<times> gostr"

definition set_source :: "RecordsSourceConfig \<Rightarrow> Config \<Rightarrow> Config" where
  "set_source rs c = c\<lparr>cf_FileLocations := (cf_FileLocations c)\<lparr>fl_RecordsSource := Some rs\<rparr>\<rparr>"

definition parseClusterPeersList :: "format_env \<Rightarrow> gostr \<Rightarrow> gostr + gostr list" where
  "parseClusterPeersList env value0 =
     (let value = TrimSpace value0 in
      if value = [] then Inr []
      else if hd value = CHR ''['' then
        (case fe_JSONStrings env value of
           Inl e \<Rightarrow> Inl (''cluster_peers: invalid JSON array: '' @ e)
         | Inr peers \<Rightarrow> Inr peers)
      else Inr (filter (\<lambda>p. p \<noteq> []) (map TrimSpace (Split CHR '','' value))))"

text \<open>Listeners: ports, addresses, certificates and request limits.\<close>

definition listenSettings :: "(gostr list \<times> setter) list" where
  "listenSettings = [
     ([''dns_port'', ''port''], S_Str (\<lambda>v c. c\<lparr>cf_DNSPort := v\<rparr>) (\<lambda>v. ''DNS port set to '' @ v)),
     ([''api_port'', ''apiport''], S_Str (\<lambda>v c. c\<lparr>cf_RESTPort := v\<rparr>) (\<lambda>v. ''API port set to '' @ v)),
     ([''fallback_ip'', ''fallback_server_ip''], S_Str (\<lambda>v c. c\<lparr>cf_FallbackServerIP := v\<rparr>) (\<lambda>v. ''Fallback server IP set to '' @ v)),
     ([''fallback_port'', ''fallback_server_port''], S_Str (\<lambda>v c. c\<lparr>cf_FallbackServerPort := v\<rparr>) (\<lambda>v. ''Fallback server port set to '' @ v)),
     ([''timeout''], S_Int 0 (\<lambda>v c. c\<lparr>cf_Timeout := v\<rparr>) (\<lambda>v. ''invalid timeout: '' @ v @ '' (must be a non-negative integer)'') (\<lambda>n. ''Timeout set to '' @ dec_int n)),
     ([''api'', ''api_enabled''], S_Bool (\<lambda>v c. c\<lparr>cf_APIEnabled := v\<rparr>) (\<lambda>v. ''invalid value for api: '' @ v @ '' (use true/false)'') (\<lambda>b. ''API enabled set to '' @ bool_text b)),
     ([''api_auth_token''], S_Str (\<lambda>v c. c\<lparr>cf_APIAuthToken := v\<rparr>) (\<lambda>v. ''api_auth_token updated (use empty value to disable API auth)'')),
     ([''dns_bind''], S_Str (\<lambda>v c. c\<lparr>cf_DNSBind := v\<rparr>) (\<lambda>v. ''dns_bind set to '' @ Quote v @ '' (empty = all interfaces)'')),
     ([''api_bind''], S_Str (\<lambda>v c. c\<lparr>cf_APIBind := v\<rparr>) (\<lambda>v. ''api_bind set to '' @ Quote v @ '' (empty = all interfaces)'')),
     ([''api_tls_cert''], S_Str (\<lambda>v c. c\<lparr>cf_APITLSCertFile := v\<rparr>) (\<lambda>v. ''api_tls_cert set to '' @ v)),
     ([''api_tls_key''], S_Str (\<lambda>v c. c\<lparr>cf_APITLSKeyFile := v\<rparr>) (\<lambda>v. ''api_tls_key set to '' @ v)),
     ([''api_rate_limit_rps''], S_Float None (\<lambda>v c. c\<lparr>cf_APIRateLimitPerIP := v\<rparr>) (\<lambda>v. ''invalid api_rate_limit_rps: '' @ v @ '' (non-negative number)'') (\<lambda>g. ''API rate limit set to '' @ g @ '' req/s per IP (0=disabled)'')),
     ([''api_rate_limit_burst''], S_Int 0 (\<lambda>v c. c\<lparr>cf_APIRateLimitBurst := v\<rparr>) (\<lambda>v. ''invalid api_rate_limit_burst: '' @ v) (\<lambda>n. ''API rate limit burst set to '' @ dec_int n)),
     ([''dns_rate_limit_rps''], S_Float None (\<lambda>v c. c\<lparr>cf_DNSRateLimitPerIP := v\<rparr>) (\<lambda>v. ''invalid dns_rate_limit_rps: '' @ v @ '' (non-negative number)'') (\<lambda>g. ''DNS rate limit set to '' @ g @ '' q/s per IP (0=disabled)'')),
     ([''dns_rate_limit_burst''], S_Int 0 (\<lambda>v c. c\<lparr>cf_DNSRateLimitBurst := v\<rparr>) (\<lambda>v. ''invalid dns_rate_limit_burst: '' @ v) (\<lambda>n. ''DNS rate limit burst set to '' @ dec_int n)),
     ([''dns_amplification_max_ratio''], S_Int 0 (\<lambda>v c. c\<lparr>cf_DNSAmplificationMaxRatio := v\<rparr>) (\<lambda>v. ''invalid dns_amplification_max_ratio: '' @ v @ '' (non-negative integer)'') (\<lambda>n. ''DNS amplification max ratio set to '' @ dec_int n @ '' (0=disabled)'')),
     ([''dot_enabled''], S_Bool (\<lambda>v c. c\<lparr>cf_DOTEnabled := v\<rparr>) (\<lambda>v. ''invalid dot_enabled: '' @ v @ '' (use true/false)'') (\<lambda>b. ''DoT server enabled set to '' @ bool_text b)),
     ([''dot_bind''], S_Str (\<lambda>v c. c\<lparr>cf_DOTBind := v\<rparr>) (\<lambda>v. ''dot_bind set to '' @ Quote v)),
     ([''dot_port''], S_Str (\<lambda>v c. c\<lparr>cf_DOTPort := v\<rparr>) (\<lambda>v. ''DoT port set to '' @ v)),
     ([''dot_cert_file''], S_Str (\<lambda>v c. c\<lparr>cf_DOTCertFile := v\<rparr>) (\<lambda>v. ''dot_cert_file set to '' @ v)),
     ([''dot_key_file''], S_Str (\<lambda>v c. c\<lparr>cf_DOTKeyFile := v\<rparr>) (\<lambda>v. ''dot_key_file set to '' @ v)),
     ([''doh_enabled''], S_Bool (\<lambda>v c. c\<lparr>cf_DOHEnabled := v\<rparr>) (\<lambda>v. ''invalid doh_enabled: '' @ v @ '' (use true/false)'') (\<lambda>b. ''DoH server enabled set to '' @ bool_text b)),
     ([''doh_bind''], S_Str (\<lambda>v c. c\<lparr>cf_DOHBind := v\<rparr>) (\<lambda>v. ''doh_bind set to '' @ Quote v)),
     ([''doh_port''], S_Str (\<lambda>v c. c\<lparr>cf_DOHPort := v\<rparr>) (\<lambda>v. ''DoH port set to '' @ v)),
     ([''doh_path''], S_Str (\<lambda>v c. c\<lparr>cf_DOHPath := v\<rparr>) (\<lambda>v. ''DoH path set to '' @ v)),
     ([''doh_cert_file''], S_Str (\<lambda>v c. c\<lparr>cf_DOHCertFile := v\<rparr>) (\<lambda>v. ''doh_cert_file set to '' @ v)),
     ([''doh_key_file''], S_Str (\<lambda>v c. c\<lparr>cf_DOHKeyFile := v\<rparr>) (\<lambda>v. ''doh_key_file set to '' @ v))]"

text \<open>Responses: limits, DNSSEC and upstream transport.\<close>

definition responseSettings :: "(gostr list \<times> setter) list" where
  "responseSettings = [
     ([''dns_response_limit_mode''], S_Other (\<lambda>env value c. let t = ToLower (TrimSpace value) in if t \<noteq> ''sliding_window'' \<and> t \<noteq> ''rrl'' then Inl ''dns_response_limit_mode must be sliding_window or rrl'' else Inr (c\<lparr>cf_DNSResponseLimitMode := t\<rparr>, ''dns_response_limit_mode set to '' @ t))),
     ([''dns_sliding_window_seconds''], S_Int 1 (\<lambda>v c. c\<lparr>cf_DNSSlidingWindowSeconds := v\<rparr>) (\<lambda>v. ''invalid dns_sliding_window_seconds: '' @ v) (\<lambda>n. ''dns_sliding_window_seconds set to '' @ dec_int n)),
     ([''dns_max_responses_per_ip_window''], S_Int 0 (\<lambda>v c. c\<lparr>cf_DNSMaxResponsesPerIPWindow := v\<rparr>) (\<lambda>v. ''invalid dns_max_responses_per_ip_window: '' @ v) (\<lambda>n. ''dns_max_responses_per_ip_window set to '' @ dec_int n @ '' (0=disabled)'')),
     ([''dns_rrl_max_per_bucket''], S_Int 0 (\<lambda>v c. c\<lparr>cf_DNSRRLMaxPerBucket := v\<rparr>) (\<lambda>v. ''invalid dns_rrl_max_per_bucket: '' @ v) (\<lambda>n. ''dns_rrl_max_per_bucket set to '' @ dec_int n)),
     ([''dns_rrl_window_seconds''], S_Int 0 (\<lambda>v c. c\<lparr>cf_DNSRRLWindowSeconds := v\<rparr>) (\<lambda>v. ''invalid dns_rrl_window_seconds: '' @ v) (\<lambda>n. ''dns_rrl_window_seconds set to '' @ dec_int n)),
     ([''dns_rrl_slip''], S_Float (Some 1) (\<lambda>v c. c\<lparr>cf_DNSRRLSlip := v\<rparr>) (\<lambda>v. ''invalid dns_rrl_slip: '' @ v @ '' (0-1)'') (\<lambda>g. ''dns_rrl_slip set to '' @ g)),
     ([''dnssec_validate''], S_Bool (\<lambda>v c. c\<lparr>cf_DNSSECValidate := v\<rparr>) (\<lambda>v. ''invalid dnssec_validate: '' @ v @ '' (use true/false)'') (\<lambda>b. ''dnssec_validate set to '' @ bool_text b)),
     ([''dnssec_validate_strict''], S_Bool (\<lambda>v c. c\<lparr>cf_DNSSECValidateStrict := v\<rparr>) (\<lambda>v. ''invalid dnssec_validate_strict: '' @ v @ '' (use true/false)'') (\<lambda>b. ''dnssec_validate_strict set to '' @ bool_text b)),
     ([''dnssec_trust_anchor_file''], S_Str (\<lambda>v c. c\<lparr>cf_DNSSECTrustAnchorFile := v\<rparr>) (\<lambda>v. ''dnssec_trust_anchor_file set to '' @ v)),
     ([''dnssec_sign_enabled''], S_Bool (\<lambda>v c. c\<lparr>cf_DNSSECSignEnabled := v\<rparr>) (\<lambda>v. ''invalid dnssec_sign_enabled: '' @ v @ '' (use true/false)'') (\<lambda>b. ''dnssec_sign_enabled set to '' @ bool_text b @ '' (restart DNS process to apply signing)'')),
     ([''dnssec_sign_zone''], S_Str (\<lambda>v c. c\<lparr>cf_DNSSECSignZone := v\<rparr>) (\<lambda>v. ''dnssec_sign_zone set to '' @ v @ '' (restart DNS process to apply)'')),
     ([''dnssec_sign_key_file''], S_Str (\<lambda>v c. c\<lparr>cf_DNSSECSignKeyFile := v\<rparr>) (\<lambda>v. ''dnssec_sign_key_file set to '' @ v @ '' (restart DNS process to apply)'')),
     ([''dnssec_sign_private_key_file''], S_Str (\<lambda>v c. c\<lparr>cf_DNSSECSignPrivateKeyFile := v\<rparr>) (\<lambda>v. ''dnssec_sign_private_key_file set to '' @ v @ '' (restart DNS process to apply)'')),
     ([''dns_refuse_any''], S_Bool (\<lambda>v c. c\<lparr>cf_DNSRefuseANY := v\<rparr>) (\<lambda>v. ''invalid dns_refuse_any: '' @ v @ '' (use true/false)'') (\<lambda>b. ''dns_refuse_any set to '' @ bool_text b)),
     ([''dns_max_edns_udp_payload''], S_Other (\<lambda>env value c. case ParseUint32 value of Some u \<Rightarrow> if 65535 < u then Inl (''invalid dns_max_edns_udp_payload: '' @ value @ '' (use 0-65535)'') else Inr (c\<lparr>cf_DNSMaxEDNSUDPPayload := ucast u\<rparr>, ''dns_max_edns_udp_payload set to '' @ dec (unat u) @ '' (0=no cap)'') | None \<Rightarrow> Inl (''invalid dns_max_edns_udp_payload: '' @ value @ '' (use 0-65535)''))),
     ([''fallback_server_transport''], S_Other (\<lambda>env value c. let t = ToLower (TrimSpace value) in Inr (c\<lparr>cf_FallbackServerTransport := t\<rparr>, ''fallback_server_transport set to '' @ t)))]"

text \<open>Cache, statistics, files and record settings.\<close>

definition dataSettings :: "(gostr list \<times> setter) list" where
  "dataSettings = [
     ([''cache_records''], S_Bool (\<lambda>v c. c\<lparr>cf_CacheRecords := v\<rparr>) (\<lambda>v. ''invalid value for cache_records: '' @ v @ '' (use true/false)'') (\<lambda>b. ''Cache records set to '' @ bool_text b)),
     ([''local_records_enabled''], S_Bool (\<lambda>v c. c\<lparr>cf_LocalRecordsEnabled := v\<rparr>) (\<lambda>v. ''invalid value for local_records_enabled: '' @ v @ '' (use true/false)'') (\<lambda>b. ''local_records_enabled set to '' @ bool_text b @ '' (dnsrecords ignored for DNS answers when false)'')),
     ([''cache_warm_enabled''], S_Bool (\<lambda>v c. c\<lparr>cf_CacheWarmEnabled := v\<rparr>) (\<lambda>v. ''invalid value for cache_warm_enabled: '' @ v @ '' (use true/false)'') (\<lambda>b. ''Cache warm (keep-alive self-query) enabled set to '' @ bool_text b)),
     ([''cache_warm_interval_seconds''], S_Int 1 (\<lambda>v c. c\<lparr>cf_CacheWarmIntervalSeconds := v\<rparr>) (\<lambda>v. ''invalid cache_warm_interval_seconds: '' @ v @ '' (must be integer >= 1)'') (\<lambda>n. ''Cache warm interval set to '' @ dec_int n @ '' seconds'')),
     ([''cache_compact_enabled''], S_Bool (\<lambda>v c. c\<lparr>cf_CacheCompactEnabled := v\<rparr>) (\<lambda>v. ''invalid value for cache_compact_enabled: '' @ v @ '' (use true/false)'') (\<lambda>b. ''Cache compact (expired-row cleanup) enabled set to '' @ bool_text b)),
     ([''cache_compact_interval_seconds''], S_Int 60 (\<lambda>v c. c\<lparr>cf_CacheCompactIntervalSeconds := v\<rparr>) (\<lambda>v. ''invalid cache_compact_interval_seconds: '' @ v @ '' (must be integer >= 60)'') (\<lambda>n. ''Cache compact interval set to '' @ dec_int n @ '' seconds'')),
     ([''stats_dashboard_enabled''], S_Bool (\<lambda>v c. c\<lparr>cf_StatsDashboardEnabled := v\<rparr>) (\<lambda>v. ''invalid value for stats_dashboard_enabled: '' @ v @ '' (use true/false)'') (\<lambda>b. ''Stats dashboard (/stats/dashboard) enabled set to '' @ bool_text b)),
     ([''pretty_json''], S_Bool (\<lambda>v c. c\<lparr>cf_PrettyJSON := v\<rparr>) (\<lambda>v. ''invalid pretty_json: '' @ v @ '' (use true/false)'') (\<lambda>b. ''pretty_json set to '' @ bool_text b @ '' (affects JSON writes for dnsservers, dnsrecords, dnscache)'')),
     ([''pprof_enabled''], S_Bool (\<lambda>v c. c\<lparr>cf_PprofEnabled := v\<rparr>) (\<lambda>v. ''invalid pprof_enabled: '' @ v @ '' (use true/false)'') (\<lambda>b. ''pprof_enabled set to '' @ bool_text b @ '' (restart DNS process to apply)'')),
     ([''pprof_listen''], S_Other (\<lambda>env value c. let t = TrimSpace value in Inr (c\<lparr>cf_PprofListen := t\<rparr>, ''pprof_listen set to '' @ Quote t @ '' (restart DNS process to apply)''))),
     ([''full_stats''], S_Bool (\<lambda>v c. c\<lparr>cf_FullStats := v\<rparr>) (\<lambda>v. ''invalid value for full_stats: '' @ v @ '' (use true/false)'') (\<lambda>b. ''Full stats set to '' @ bool_text b)),
     ([''full_stats_dir''], S_Str (\<lambda>v c. c\<lparr>cf_FullStatsDir := v\<rparr>) (\<lambda>v. ''Full stats dir set to '' @ v)),
     ([''server_socket''], S_Str (\<lambda>v c. c\<lparr>cf_ClientSocketPath := v\<rparr>) (\<lambda>v. ''Server socket set to '' @ v)),
     ([''server_tcp''], S_Str (\<lambda>v c. c\<lparr>cf_ClientTCPAddress := v\<rparr>) (\<lambda>v. ''Server TCP address set to '' @ v)),
     ([''dnsservers_file'', ''dnsservers''], S_Str (\<lambda>v c. c\<lparr>cf_FileLocations := (cf_FileLocations c)\<lparr>fl_DNSServerFile := v\<rparr>\<rparr>) (\<lambda>v. ''DNS servers file set to '' @ v)),
     ([''dnsrecords_file'', ''dnsrecords'', ''records_source_location''], S_Other (\<lambda>env value c. Inr (set_source (case fl_RecordsSource (cf_FileLocations c) of None \<Rightarrow> file_source value | Some rs \<Rightarrow> rs\<lparr>rsc_Location := value, rsc_Type := RecordsSourceFile\<rparr>) c, ''Records source location set to '' @ value @ '' (type=file)''))),
     ([''records_source_type''], S_Other (\<lambda>env value c. let t = ToLower (TrimSpace value) in if t \<noteq> RecordsSourceFile \<and> t \<noteq> RecordsSourceURL \<and> t \<noteq> RecordsSourceGit then Inl (''records_source_type must be file, url, or git (got '' @ Quote value @ '')'') else Inr (set_source (case fl_RecordsSource (cf_FileLocations c) of None \<Rightarrow> (file_source [])\<lparr>rsc_Type := t\<rparr> | Some rs \<Rightarrow> rs\<lparr>rsc_Type := t\<rparr>) c, ''Records source type set to '' @ t))),
     ([''cache_file'', ''cache''], S_Str (\<lambda>v c. c\<lparr>cf_FileLocations := (cf_FileLocations c)\<lparr>fl_CacheFile := v\<rparr>\<rparr>) (\<lambda>v. ''Cache file set to '' @ v)),
     ([''auto_build_ptr_from_a''], S_Bool (\<lambda>v c. c\<lparr>cf_DNSRecordSettings := (cf_DNSRecordSettings c)\<lparr>drs_AutoBuildPTRFromA := v\<rparr>\<rparr>) (\<lambda>v. ''invalid value for auto_build_ptr_from_a: '' @ v @ '' (use true/false)'') (\<lambda>b. ''Auto build PTR from A set to '' @ bool_text b)),
     ([''forward_ptr_queries''], S_Bool (\<lambda>v c. c\<lparr>cf_DNSRecordSettings := (cf_DNSRecordSettings c)\<lparr>drs_ForwardPTRQueries := v\<rparr>\<rparr>) (\<lambda>v. ''invalid value for forward_ptr_queries: '' @ v @ '' (use true/false)'') (\<lambda>b. ''Forward PTR queries set to '' @ bool_text b)),
     ([''add_updates_records''], S_Bool (\<lambda>v c. c\<lparr>cf_DNSRecordSettings := (cf_DNSRecordSettings c)\<lparr>drs_AddUpdatesRecords := v\<rparr>\<rparr>) (\<lambda>v. ''invalid value for add_updates_records: '' @ v @ '' (use true/false)'') (\<lambda>b. ''Add updates records set to '' @ bool_text b))]"

text \<open>Logging and the cluster.\<close>

definition logClusterSettings :: "(gostr list \<times> setter) list" where
  "logClusterSettings = [
     ([''log_dir''], S_Str (\<lambda>v c. c\<lparr>cf_Log := (cf_Log c)\<lparr>log_Dir := v\<rparr>\<rparr>) (\<lambda>v. ''Log dir set to '' @ v)),
     ([''log_severity''], S_Str (\<lambda>v c. c\<lparr>cf_Log := (cf_Log c)\<lparr>log_Severity := v\<rparr>\<rparr>) (\<lambda>v. ''Log severity set to '' @ v)),
     ([''log_rotation''], S_Other (\<lambda>env value c. Inr (c\<lparr>cf_Log := (cf_Log c)\<lparr>log_Rotation := ToLower value\<rparr>\<rparr>, ''Log rotation set to '' @ value))),
     ([''log_rotation_size_mb''], S_Int 0 (\<lambda>v c. c\<lparr>cf_Log := (cf_Log c)\<lparr>log_RotationSizeMB := v\<rparr>\<rparr>) (\<lambda>v. ''invalid log_rotation_size_mb: '' @ v @ '' (must be a non-negative integer)'') (\<lambda>n. ''Log rotation size MB set to '' @ dec_int n)),
     ([''log_rotation_time_days''], S_Int 0 (\<lambda>v c. c\<lparr>cf_Log := (cf_Log c)\<lparr>log_RotationDays := v\<rparr>\<rparr>) (\<lambda>v. ''invalid log_rotation_time_days: '' @ v @ '' (must be a non-negative integer)'') (\<lambda>n. ''Log rotation time days set to '' @ dec_int n)),
     ([''cluster_enabled''], S_Bool (\<lambda>v c. c\<lparr>cf_ClusterEnabled := v\<rparr>) (\<lambda>v. ''invalid value for cluster_enabled: '' @ v @ '' (use true/false)'') (\<lambda>b. ''cluster_enabled set to '' @ bool_text b)),
     ([''cluster_listen_addr''], S_Str (\<lambda>v c. c\<lparr>cf_ClusterListenAddr := v\<rparr>) (\<lambda>v. ''cluster_listen_addr set to '' @ v)),
     ([''cluster_peers''], S_Other (\<lambda>env value c. case parseClusterPeersList env value of Inl e \<Rightarrow> Inl e | Inr peers \<Rightarrow> Inr (c\<lparr>cf_ClusterPeers := peers\<rparr>, ''cluster_peers set ('' @ dec (length peers) @ '' peers)''))),
     ([''cluster_auth_token''], S_Str (\<lambda>v c. c\<lparr>cf_ClusterAuthToken := v\<rparr>) (\<lambda>v. ''cluster_auth_token updated'')),
     ([''cluster_node_id''], S_Str (\<lambda>v c. c\<lparr>cf_ClusterNodeID := v\<rparr>) (\<lambda>v. ''cluster_node_id set to '' @ v)),
     ([''cluster_sync_interval_seconds''], S_Int 0 (\<lambda>v c. c\<lparr>cf_ClusterSyncIntervalSeconds := v\<rparr>) (\<lambda>v. ''invalid cluster_sync_interval_seconds: '' @ v) (\<lambda>n. ''cluster_sync_interval_seconds set to '' @ dec_int n)),
     ([''cluster_advertise_addr''], S_Str (\<lambda>v c. c\<lparr>cf_ClusterAdvertiseAddr := v\<rparr>) (\<lambda>v. ''cluster_advertise_addr set to '' @ v)),
     ([''cluster_replica_only''], S_Bool (\<lambda>v c. c\<lparr>cf_ClusterReplicaOnly := v\<rparr>) (\<lambda>v. ''invalid value for cluster_replica_only: '' @ v @ '' (use true/false)'') (\<lambda>b. ''cluster_replica_only set to '' @ bool_text b)),
     ([''cluster_reject_local_writes''], S_Bool (\<lambda>v c. c\<lparr>cf_ClusterRejectLocalWrites := v\<rparr>) (\<lambda>v. ''invalid value for cluster_reject_local_writes: '' @ v @ '' (use true/false)'') (\<lambda>b. ''cluster_reject_local_writes set to '' @ bool_text b)),
     ([''cluster_admin''], S_Bool (\<lambda>v c. c\<lparr>cf_ClusterAdmin := v\<rparr>) (\<lambda>v. ''invalid value for cluster_admin: '' @ v @ '' (use true/false)'') (\<lambda>b. ''cluster_admin set to '' @ bool_text b)),
     ([''cluster_admin_token''], S_Str (\<lambda>v c. c\<lparr>cf_ClusterAdminToken := v\<rparr>) (\<lambda>v. ''cluster_admin_token updated'')),
     ([''cluster_sync_policy''], S_Other (\<lambda>env value c. let t = TrimSpace value in Inr (c\<lparr>cf_ClusterSyncPolicy := t\<rparr>, ''cluster_sync_policy set to '' @ t))),
     ([''cluster_allowed_writer_node_ids''], S_Other (\<lambda>env value c. case parseClusterPeersList env value of Inl e \<Rightarrow> Inl (''cluster_allowed_writer_node_ids: '' @ e) | Inr ids \<Rightarrow> Inr (c\<lparr>cf_ClusterAllowedWriterNodeIDs := ids\<rparr>, ''cluster_allowed_writer_node_ids set ('' @ dec (length ids) @ '' ids)''))),
     ([''cluster_discovery_srv''], S_Other (\<lambda>env value c. let t = TrimSpace value in Inr (c\<lparr>cf_ClusterDiscoverySRV := t\<rparr>, ''cluster_discovery_srv set to '' @ t))),
     ([''cluster_discovery_interval_seconds''], S_Int 0 (\<lambda>v c. c\<lparr>cf_ClusterDiscoveryIntervalSeconds := v\<rparr>) (\<lambda>v. ''invalid cluster_discovery_interval_seconds: '' @ v) (\<lambda>n. ''cluster_discovery_interval_seconds set to '' @ dec_int n))]"

definition allSettings :: "(gostr list \<times> setter) list" where
  "allSettings = listenSettings @ responseSettings @ dataSettings @ logClusterSettings"

text \<open>The result: an error, the new configuration with a message, or the name of a setting that now holds a
  value which is not finite.\<close>

datatype setting_result = SettingError gostr | SettingOK Config gostr | SettingNotFinite gostr gostr

fun applySetter :: "format_env \<Rightarrow> setter \<Rightarrow> gostr \<Rightarrow> gostr \<Rightarrow> Config \<Rightarrow> setting_result" where
  "applySetter env (S_Str upd msg) name value c = SettingOK (upd value c) (msg value)"
| "applySetter env (S_Bool upd err msg) name value c =
     (case ParseBool value of None \<Rightarrow> SettingError (err value) | Some b \<Rightarrow> SettingOK (upd b c) (msg b))"
| "applySetter env (S_Int lo upd err msg) name value c =
     (case Atoi value of
        None \<Rightarrow> SettingError (err value)
      | Some n \<Rightarrow> if n < lo then SettingError (err value) else SettingOK (upd n c) (msg n))"
| "applySetter env (S_Float hi upd err msg) name value c =
     (case fe_ParseFloat env value of
        None \<Rightarrow> SettingError (err value)
      | Some (Finite f) \<Rightarrow>
          if f < 0 \<or> (case hi of None \<Rightarrow> False | Some h \<Rightarrow> h < f) then SettingError (err value)
          else SettingOK (upd f c) (msg (fe_FormatG env (Finite f)))
      | Some NotANumber \<Rightarrow> SettingNotFinite name (msg (fe_FormatG env NotANumber))
      | Some (Infinite neg) \<Rightarrow>
          if neg \<or> hi \<noteq> None then SettingError (err value) else SettingNotFinite name (msg (fe_FormatG env (Infinite neg))))"
| "applySetter env (S_Other f) name value c =
     (case f env value c of Inl e \<Rightarrow> SettingError e | Inr (c', m) \<Rightarrow> SettingOK c' m)"

definition applyConfigSetting :: "format_env \<Rightarrow> Config \<Rightarrow> gostr \<Rightarrow> gostr \<Rightarrow> setting_result" where
  "applyConfigSetting env c setting value =
     (case find (\<lambda>(names, f). setting \<in> set names) allSettings of
        None \<Rightarrow> SettingError (''unknown setting: '' @ setting)
      | Some (names, f) \<Rightarrow> applySetter env f setting value c)"

subsection \<open>The bounds of the settings\<close>

text \<open>The bounds that the other components rely on.\<close>

definition settings_sane :: "Config \<Rightarrow> bool" where
  "settings_sane c \<longleftrightarrow>
     0 \<le> cf_Timeout c \<and> 0 \<le> cf_APIRateLimitPerIP c \<and> 0 \<le> cf_APIRateLimitBurst c \<and>
     0 \<le> cf_DNSRateLimitPerIP c \<and> 0 \<le> cf_DNSRateLimitBurst c \<and> 0 \<le> cf_DNSAmplificationMaxRatio c \<and>
     cf_DNSResponseLimitMode c \<in> {''sliding_window'', ''rrl''} \<and> 1 \<le> cf_DNSSlidingWindowSeconds c \<and>
     0 \<le> cf_DNSMaxResponsesPerIPWindow c \<and> 0 \<le> cf_DNSRRLMaxPerBucket c \<and> 0 \<le> cf_DNSRRLWindowSeconds c \<and>
     0 \<le> cf_DNSRRLSlip c \<and> cf_DNSRRLSlip c \<le> 1 \<and> 1 \<le> cf_CacheWarmIntervalSeconds c \<and>
     60 \<le> cf_CacheCompactIntervalSeconds c \<and> 0 \<le> log_RotationSizeMB (cf_Log c) \<and> 0 \<le> log_RotationDays (cf_Log c) \<and>
     0 \<le> cf_ClusterSyncIntervalSeconds c \<and> 0 \<le> cf_ClusterDiscoveryIntervalSeconds c"

definition setter_sane :: "setter \<Rightarrow> bool" where
  "setter_sane f = (case f of
      S_Str upd msg \<Rightarrow> (\<forall>v c. settings_sane c \<longrightarrow> settings_sane (upd v c))
    | S_Bool upd err msg \<Rightarrow> (\<forall>b c. settings_sane c \<longrightarrow> settings_sane (upd b c))
    | S_Int lo upd err msg \<Rightarrow> (\<forall>n c. lo \<le> n \<longrightarrow> settings_sane c \<longrightarrow> settings_sane (upd n c))
    | S_Float hi upd err msg \<Rightarrow>
        (\<forall>r c. 0 \<le> r \<longrightarrow> (case hi of None \<Rightarrow> True | Some h \<Rightarrow> r \<le> h) \<longrightarrow> settings_sane c \<longrightarrow> settings_sane (upd r c))
    | S_Other g \<Rightarrow> (\<forall>env v c c' m. g env v c = Inr (c', m) \<longrightarrow> settings_sane c \<longrightarrow> settings_sane c'))"

lemma listenSettings_sane: "list_all (\<lambda>(ns, f). setter_sane f) listenSettings"
  unfolding listenSettings_def list.pred_inject by (simp add: setter_sane_def settings_sane_def)

lemma responseSettings_sane: "list_all (\<lambda>(ns, f). setter_sane f) responseSettings"
  unfolding responseSettings_def list.pred_inject
  by (auto simp: setter_sane_def settings_sane_def Let_def split: if_splits option.splits)

lemma set_source_sane: "settings_sane (set_source rs c) = settings_sane c"
  by (simp add: set_source_def settings_sane_def)

lemma dataSettings_sane: "list_all (\<lambda>(ns, f). setter_sane f) dataSettings"
  unfolding dataSettings_def list.pred_inject
  by (auto simp: setter_sane_def set_source_sane Let_def split: if_splits) (simp_all add: settings_sane_def)

lemma logClusterSettings_sane: "list_all (\<lambda>(ns, f). setter_sane f) logClusterSettings"
  unfolding logClusterSettings_def list.pred_inject
  by (auto simp: setter_sane_def settings_sane_def Let_def split: if_splits sum.splits)

lemma allSettings_sane: "(ns, f) \<in> set allSettings \<Longrightarrow> setter_sane f"
  using listenSettings_sane responseSettings_sane dataSettings_sane logClusterSettings_sane
  by (auto simp: allSettings_def list_all_iff)

lemma applySetter_sane:
  "applySetter env f name v c = SettingOK c' m \<Longrightarrow> setter_sane f \<Longrightarrow> settings_sane c \<Longrightarrow> settings_sane c'"
  by (cases f, auto simp: setter_sane_def split: option.splits if_splits go_float.splits sum.splits, blast)

lemma applyConfigSetting_sane:
  assumes "applyConfigSetting env c setting v = SettingOK c' m" "settings_sane c"
  shows "settings_sane c'"
proof -
  obtain ns f where f: "find (\<lambda>(names, f). setting \<in> set names) allSettings = Some (ns, f)" "applySetter env f setting v c = SettingOK c' m"
    using assms(1) by (auto simp: applyConfigSetting_def split: option.splits)
  have "(ns, f) \<in> set allSettings" using f(1) by (auto simp: find_Some_iff dest: nth_mem)
  then show ?thesis using applySetter_sane [OF f(2) allSettings_sane] assms(2) by blast
qed

subsection \<open>The server commands\<close>

text \<open>The state of a session with the settings that hold a value which is not finite.\<close>

record server_state = cmd_state +
  ss_notFinite :: "gostr list"

text \<open>The configuration of the data and the stored one share the record of the source, a pointer: a change
  through one is seen through the other, when the stored one has it.\<close>

definition shareSource :: "Config \<Rightarrow> Config \<Rightarrow> world \<Rightarrow> world" where
  "shareSource old new w =
     (case (fl_RecordsSource (wd_files w), fl_RecordsSource (cf_FileLocations new)) of
        (Some _, Some rs) \<Rightarrow>
          if fl_RecordsSource (cf_FileLocations old) \<noteq> Some rs then w\<lparr>wd_config := set_source rs (wd_config w)\<rparr> else w
      | _ \<Rightarrow> w)"

text \<open>What a command prints: a line, or the usage text of a command.\<close>

datatype out_line = Line gostr | Usage gostr

definition handleServerSet :: "format_env \<Rightarrow> gostr list \<Rightarrow> server_state \<Rightarrow> out_line list \<times> server_state" where
  "handleServerSet env args s =
     (if IsHelpRequest args then ([Usage ''server set''], s)
      else case args of
        [a, b] \<Rightarrow>
          (let c = rd_Settings (cs_data s); setting = ToLower (TrimSpace a);
               run = Line ''Run 'server save' to persist the config to the config file.'' in
           case applyConfigSetting env c setting (TrimSpace b) of
             SettingError e \<Rightarrow> ([Line e, Usage ''server set''], s)
           | SettingOK c' m \<Rightarrow>
               ([Line m, run],
                s\<lparr>cs_data := UpdateSettingsInMemory c' (cs_data s), cs_world := shareSource c c' (cs_world s),
                  ss_notFinite := filter (\<lambda>n. n \<noteq> setting) (ss_notFinite s)\<rparr>)
           | SettingNotFinite n m \<Rightarrow> ([Line m, run], s\<lparr>ss_notFinite := List.insert n (ss_notFinite s)\<rparr>))
      | _ \<Rightarrow> ([Line ''server set requires exactly two arguments: <setting> <value>'', Usage ''server set''], s))"

text \<open>Saving encodes the settings as JSON, which refuses a value that is not finite; then, and when the file
  cannot be written, the process ends (\<open>None\<close>).\<close>

definition handleServerSave :: "bool \<Rightarrow> gostr list \<Rightarrow> server_state \<Rightarrow> (out_line list \<times> server_state) option" where
  "handleServerSave io args s =
     (if IsHelpRequest args then Some ([Usage ''server save''], s)
      else if args \<noteq> [] then Some ([Line ''server save does not accept arguments.'', Usage ''server save''], s)
      else if io \<and> ss_notFinite s = []
      then Some ([Line ''Server settings saved.''], s\<lparr>cs_world := perform (SaveSettings (rd_Settings (cs_data s))) (cs_world s)\<rparr>)
      else None)"

text \<open>Loading reads the configuration file (\<open>Inl\<close>: an error) and stores and saves what it has read.\<close>

definition handleServerLoad :: "gostr + Config \<Rightarrow> bool \<Rightarrow> gostr list \<Rightarrow> server_state \<Rightarrow> (out_line list \<times> server_state) option" where
  "handleServerLoad file io args s =
     (if IsHelpRequest args then Some ([Usage ''server load''], s)
      else if args \<noteq> [] then Some ([Line ''server load does not accept arguments.'', Usage ''server load''], s)
      else case file of
        Inl e \<Rightarrow> None
      | Inr c \<Rightarrow>
          if io then
            (case UpdateSettings c (cs_data s) of (d', eff) \<Rightarrow>
               Some ([Line ''Server settings loaded.''], s\<lparr>cs_data := d', cs_world := fold perform eff (cs_world s), ss_notFinite := []\<rparr>))
          else None)"

definition serverSets :: "format_env \<Rightarrow> gostr list list \<Rightarrow> server_state \<Rightarrow> server_state" where
  "serverSets env cmds s = fold (\<lambda>args s. snd (handleServerSet env args s)) cmds s"

lemma handleServerSet_other: "length args \<noteq> 2 \<Longrightarrow> snd (handleServerSet env args s) = s"
  by (auto simp: handleServerSet_def split: list.split)

lemma handleServerSet_sane:
  assumes "settings_sane (rd_Settings (cs_data s))"
  shows "settings_sane (rd_Settings (cs_data (snd (handleServerSet env args s))))"
proof -
  have two: "settings_sane (rd_Settings (cs_data (snd (handleServerSet env [a, b] s))))" for a b
    using assms applyConfigSetting_sane [of env "rd_Settings (cs_data s)"]
    by (cases "applyConfigSetting env (rd_Settings (cs_data s)) (ToLower (TrimSpace a)) (TrimSpace b)")
      (auto simp: handleServerSet_def Let_def UpdateSettingsInMemory_def)
  show ?thesis
  proof (cases "length args = 2")
    case True
    then obtain a b where "args = [a, b]" by (auto simp: numeral_2_eq_2 length_Suc_conv)
    then show ?thesis using two by simp
  qed (simp add: assms handleServerSet_other)
qed

text \<open>No sequence of \<^verbatim>\<open>server set\<close> commands takes the settings out of their bounds: time-outs, limits and
  intervals stay non-negative, the sliding window is at least a second, the compaction interval at least a
  minute, the slip a ratio, and the limit mode one of the two that exist.\<close>

theorem server_set_keeps_bounds:
  assumes "settings_sane (rd_Settings (cs_data s))"
  shows "settings_sane (rd_Settings (cs_data (serverSets env cmds s)))"
  using assms unfolding serverSets_def
  by (induction cmds arbitrary: s) (simp_all add: handleServerSet_sane)

definition sane_config :: Config where
  "sane_config = first_config\<lparr>cf_DNSResponseLimitMode := ''rrl'', cf_DNSSlidingWindowSeconds := 10,
     cf_CacheWarmIntervalSeconds := 5, cf_CacheCompactIntervalSeconds := 90\<rparr>"

definition sample_format :: format_env where
  "sample_format = \<lparr>fe_ParseFloat = (\<lambda>s. if EqualFold s ''nan'' then Some NotANumber else if s = ''0'' then Some (Finite 0) else None),
     fe_FormatG = (\<lambda>f. ''g''), fe_JSONStrings = (\<lambda>s. Inl ''no'')\<rparr>"

definition set_session :: server_state where
  "set_session = \<lparr>cs_data = empty_data\<lparr>rd_Settings := sane_config\<rparr>, cs_world = first_world, cs_tasks = [], ss_notFinite = []\<rparr>"

lemma sane_config_sane: "settings_sane sane_config"
  by (simp add: settings_sane_def sane_config_def first_config_def empty_Config_def empty_LogConfig_def)

theorem server_set_keeps_bounds_witness:
  "settings_sane (rd_Settings (cs_data (serverSets sample_format [[''timeout'', ''-5''], [''cache_compact_interval_seconds'', ''61'']] set_session)))"
  using server_set_keeps_bounds [of set_session] sane_config_sane by (simp add: set_session_def)

text \<open>The test for the bounds lets a value through that is not a number; the next \<^verbatim>\<open>server save\<close> then ends the
  process.\<close>

lemma not_a_number_ends_the_process:
  "handleServerSave True [] (snd (handleServerSet sample_format [''dns_rrl_slip'', ''NaN''] set_session)) = None"
proof -
  have a: "applyConfigSetting sample_format c ''dns_rrl_slip'' ''NaN'' = SettingNotFinite ''dns_rrl_slip'' ''dns_rrl_slip set to g''" for c
  proof -
    have "find (\<lambda>(names, f). ''dns_rrl_slip'' \<in> set names) allSettings =
        Some ([''dns_rrl_slip''], S_Float (Some 1) (\<lambda>v c. c\<lparr>cf_DNSRRLSlip := v\<rparr>)
          (\<lambda>v. ''invalid dns_rrl_slip: '' @ v @ '' (0-1)'') (\<lambda>g. ''dns_rrl_slip set to '' @ g))"
      by (simp add: allSettings_def listenSettings_def responseSettings_def)
    moreover have "fe_ParseFloat sample_format ''NaN'' = Some NotANumber" by code_simp
    ultimately show ?thesis by (simp add: applyConfigSetting_def sample_format_def)
  qed
  have "\<not> IsHelpRequest [''dns_rrl_slip'', ''NaN'']" "\<not> IsHelpRequest []" "ToLower (TrimSpace ''dns_rrl_slip'') = ''dns_rrl_slip''"
    "TrimSpace ''NaN'' = ''NaN''" by code_simp+
  then show ?thesis by (simp add: handleServerSet_def handleServerSave_def a set_session_def)
qed

end
