(* ===== verification/ClusterState.thy ===== *)
theory ClusterState
  imports HostPort Config DnsRecords "HOL-Library.List_Lexorder" "HOL-Library.Char_ord"
begin

text \<open>
  The parts of package \<^verbatim>\<open>cluster\<close> below the manager: the persistent state (\<^verbatim>\<open>cluster/state.go\<close>), the
  synchronisation policies (\<^verbatim>\<open>cluster/policy.go\<close>), the frames of the wire protocol (\<^verbatim>\<open>cluster/proto.go\<close>), the
  discovery of peers (\<^verbatim>\<open>cluster/discovery.go\<close>, \<^verbatim>\<open>cluster/netinfo.go\<close>) and the observed status of the peers
  (\<^verbatim>\<open>cluster/status.go\<close>).  Sequence numbers are 64-bit words; a missing entry of the map of sequence
  numbers reads as 0.  Strings are compared byte by byte (\<open>List_Lexorder\<close> over \<open>Char_ord\<close>).
\<close>

subsection \<open>State\<close>

record stateManager =
  sm_nodeID :: gostr
  sm_localSeq :: u64
  sm_peerSeq :: "gostr \<Rightarrow> u64"
  sm_lastGlobalLWWUnix :: int
  sm_lastGlobalLWWNodeID :: gostr

text \<open>What \<^verbatim>\<open>saveLocked\<close> writes.\<close>

record PersistedState =
  ps_NodeID :: gostr
  ps_LocalSeq :: u64
  ps_PeerSeq :: "gostr \<Rightarrow> u64"
  ps_LastGlobalLWWUnix :: int
  ps_LastGlobalLWWNodeID :: gostr

definition newStateManager :: stateManager where
  "newStateManager = \<lparr>sm_nodeID = [], sm_localSeq = 0, sm_peerSeq = (\<lambda>_. 0), sm_lastGlobalLWWUnix = 0, sm_lastGlobalLWWNodeID = []\<rparr>"

definition saveLocked :: "stateManager \<Rightarrow> PersistedState" where
  "saveLocked s = \<lparr>ps_NodeID = sm_nodeID s, ps_LocalSeq = sm_localSeq s, ps_PeerSeq = sm_peerSeq s,
     ps_LastGlobalLWWUnix = sm_lastGlobalLWWUnix s, ps_LastGlobalLWWNodeID = sm_lastGlobalLWWNodeID s\<rparr>"

definition randomID :: "u8 list \<Rightarrow> gostr" where
  "randomID b = concat (map byte_hex b)"

text \<open>The state file: missing (with the error of the write that \<^verbatim>\<open>saveLocked\<close> then makes, if any), unreadable
  (or not JSON), or its content; \<open>rnd\<close> are the bytes of the random source.\<close>

datatype state_file = FileMissing "gostr option" | FileError gostr | FileContent PersistedState

definition load_state :: "u8 list \<Rightarrow> state_file \<Rightarrow> gostr \<Rightarrow> stateManager \<Rightarrow> stateManager \<times> gostr option" where
  "load_state rnd file cfgNodeID s = (case file of
      FileMissing saveErr \<Rightarrow>
        (s\<lparr>sm_nodeID := (if TrimSpace cfgNodeID = [] then ''node-'' @ randomID rnd else TrimSpace cfgNodeID),
           sm_localSeq := 0, sm_peerSeq := (\<lambda>_. 0)\<rparr>, saveErr)
    | FileError err \<Rightarrow> (s, Some err)
    | FileContent ps \<Rightarrow>
        let nodeID = TrimSpace (ps_NodeID ps);
            nodeID = (if nodeID = [] then ''node-'' @ randomID rnd else nodeID);
            nodeID = (if TrimSpace cfgNodeID \<noteq> [] then TrimSpace cfgNodeID else nodeID)
        in (\<lparr>sm_nodeID = nodeID, sm_localSeq = ps_LocalSeq ps, sm_peerSeq = ps_PeerSeq ps,
             sm_lastGlobalLWWUnix = ps_LastGlobalLWWUnix ps, sm_lastGlobalLWWNodeID = TrimSpace (ps_LastGlobalLWWNodeID ps)\<rparr>, None))"

definition NextLocalSeq :: "stateManager \<Rightarrow> stateManager \<times> u64" where
  "NextLocalSeq s = (let s' = s\<lparr>sm_localSeq := sm_localSeq s + 1\<rparr> in (s', sm_localSeq s'))"

definition norm_seq :: "u64 \<Rightarrow> u64" where
  "norm_seq seq = (if seq = 0 then 1 else seq)"

definition IsDuplicate :: "stateManager \<Rightarrow> gostr \<Rightarrow> u64 \<Rightarrow> bool" where
  "IsDuplicate s peerNodeID seq = (if peerNodeID = [] then True else norm_seq seq \<le> sm_peerSeq s peerNodeID)"

definition CommitPeerSeq :: "stateManager \<Rightarrow> gostr \<Rightarrow> u64 \<Rightarrow> stateManager" where
  "CommitPeerSeq s peerNodeID seq =
     (if peerNodeID = [] then s
      else if norm_seq seq > sm_peerSeq s peerNodeID then s\<lparr>sm_peerSeq := (sm_peerSeq s)(peerNodeID := norm_seq seq)\<rparr>
      else s)"

definition norm_ts :: "int \<Rightarrow> int" where
  "norm_ts ts = (if ts \<le> 0 then 1 else ts)"

definition shouldAcceptGlobalLWW :: "stateManager \<Rightarrow> int \<Rightarrow> gostr \<Rightarrow> bool" where
  "shouldAcceptGlobalLWW s ts0 nodeID0 =
     (let ts = norm_ts ts0; nodeID = TrimSpace nodeID0 in
      if sm_lastGlobalLWWUnix s = 0 \<and> sm_lastGlobalLWWNodeID s = [] then True
      else if ts > sm_lastGlobalLWWUnix s then True
      else if ts < sm_lastGlobalLWWUnix s then False
      else nodeID > sm_lastGlobalLWWNodeID s)"

definition commitGlobalLWW :: "stateManager \<Rightarrow> int \<Rightarrow> gostr \<Rightarrow> stateManager" where
  "commitGlobalLWW s ts nodeID = s\<lparr>sm_lastGlobalLWWUnix := norm_ts ts, sm_lastGlobalLWWNodeID := TrimSpace nodeID\<rparr>"

subsection \<open>Policies\<close>

definition SyncPolicyLWWPerNode :: gostr where "SyncPolicyLWWPerNode = ''lww_per_node''"
definition SyncPolicyPrimaryWriter :: gostr where "SyncPolicyPrimaryWriter = ''primary_writer''"
definition SyncPolicyGlobalLWW :: gostr where "SyncPolicyGlobalLWW = ''global_lww''"

lemmas policy_defs = SyncPolicyLWWPerNode_def SyncPolicyPrimaryWriter_def SyncPolicyGlobalLWW_def

definition NormalizeSyncPolicy :: "gostr \<Rightarrow> gostr" where
  "NormalizeSyncPolicy s0 =
     (let s = ToLower (TrimSpace s0) in
      if s = [] \<or> s = SyncPolicyLWWPerNode then SyncPolicyLWWPerNode
      else if s = SyncPolicyPrimaryWriter \<or> s = SyncPolicyGlobalLWW then s
      else SyncPolicyLWWPerNode)"

definition WriterAllowed :: "gostr list \<Rightarrow> gostr \<Rightarrow> bool" where
  "WriterAllowed allowed nodeID =
     (if TrimSpace nodeID = [] then False else list_ex (\<lambda>id. TrimSpace id = TrimSpace nodeID) allowed)"

text \<open>The verdict, \<open>None\<close> for apply, and the reason otherwise.\<close>

definition ShouldApplySnapshot :: "Config \<Rightarrow> stateManager \<Rightarrow> gostr \<Rightarrow> int \<Rightarrow> gostr option" where
  "ShouldApplySnapshot cfg st nodeID timestamp =
     (let pol = NormalizeSyncPolicy (cf_ClusterSyncPolicy cfg) in
      if pol = SyncPolicyLWWPerNode then None
      else if pol = SyncPolicyPrimaryWriter then
        (if cf_ClusterAllowedWriterNodeIDs cfg = [] then Some ''primary_writer_no_allowlist''
         else if \<not> WriterAllowed (cf_ClusterAllowedWriterNodeIDs cfg) nodeID then Some ''primary_writer_denied''
         else None)
      else if pol = SyncPolicyGlobalLWW then
        (if \<not> shouldAcceptGlobalLWW st (norm_ts timestamp) nodeID then Some ''global_lww_stale'' else None)
      else None)"

subsection \<open>Frames\<close>

definition MaxFrameBytes :: nat where
  "MaxFrameBytes = 67108864"

definition PutUint32 :: "u32 \<Rightarrow> u8 list" where
  "PutUint32 n = map (\<lambda>i. ucast (drop_bit i n)) [24, 16, 8, 0]"

definition BigEndianUint32 :: "u8 list \<Rightarrow> u32" where
  "BigEndianUint32 bs = fold (\<lambda>b n. n * 256 + ucast b) bs 0"

datatype frame_error = FrameTooLong | EOF | UnexpectedEOF

definition WriteFrame :: "u8 list \<Rightarrow> frame_error + u8 list" where
  "WriteFrame payload =
     (if length payload > MaxFrameBytes then Inl FrameTooLong
      else Inr (PutUint32 (IntToUint32Clamp (int (length payload))) @ payload))"

text \<open>Reading from a stream; the rest of the stream is returned.  \<^verbatim>\<open>io.ReadFull\<close> fails with \<open>EOF\<close> when nothing
  could be read and with \<open>UnexpectedEOF\<close> after a part.\<close>

definition ReadFull :: "nat \<Rightarrow> u8 list \<Rightarrow> frame_error + u8 list \<times> u8 list" where
  "ReadFull n stream =
     (if n \<le> length stream then Inr (take n stream, drop n stream)
      else if stream = [] then Inl EOF
      else Inl UnexpectedEOF)"

definition ReadFrame :: "u8 list \<Rightarrow> frame_error + u8 list \<times> u8 list" where
  "ReadFrame stream =
     (case ReadFull 4 stream of
        Inl err \<Rightarrow> Inl err
      | Inr (hdr, rest) \<Rightarrow>
          let n = BigEndianUint32 hdr in
          if unat n > MaxFrameBytes then Inl FrameTooLong else ReadFull (unat n) rest)"

subsection \<open>Discovery\<close>

definition ParseSRVQuery :: "gostr \<Rightarrow> (gostr \<times> gostr \<times> gostr) option" where
  "ParseSRVQuery fqdn0 =
     (let fqdn = TrimSuffix (TrimSpace fqdn0) ''.'' in
      if \<not> HasPrefix fqdn ''_'' then None
      else
        let s = drop 1 fqdn in
        case Index s ''._tcp.'' of
          Some i \<Rightarrow> Some (take i s, ''tcp'', TrimSuffix (drop (i + 6) s) ''.'')
        | None \<Rightarrow>
            (case Index s ''._udp.'' of
               Some i \<Rightarrow> Some (take i s, ''udp'', TrimSuffix (drop (i + 6) s) ''.'')
             | None \<Rightarrow> None))"

record srv_record =
  srv_Target :: gostr
  srv_RRPort :: u16
  srv_Priority :: u16
  srv_Weight :: u16

text \<open>The stable sort by ascending priority and descending weight.\<close>

definition srv_rank :: "srv_record \<Rightarrow> nat" where
  "srv_rank a = unat (srv_Priority a) * 65536 + (65535 - unat (srv_Weight a))"

definition srv_target :: "srv_record \<Rightarrow> gostr list" where
  "srv_target a =
     (let h = TrimSuffix (TrimSpace (srv_Target a)) ''.''; port = unat (srv_RRPort a) in
      if h = [] then [] else if port \<le> 0 \<or> port > 65535 then [] else [JoinHostPort h (dec port)])"

text \<open>\<open>lookup\<close> stands for \<^verbatim>\<open>net.LookupSRV\<close>.\<close>

definition LookupSRVTargets ::
    "(gostr \<Rightarrow> gostr \<Rightarrow> gostr \<Rightarrow> gostr + srv_record list) \<Rightarrow> gostr \<Rightarrow> gostr + gostr list" where
  "LookupSRVTargets lookup srvQuery0 =
     (let srvQuery = TrimSpace srvQuery0 in
      if srvQuery = [] then Inr []
      else case ParseSRVQuery srvQuery of
        None \<Rightarrow> Inr []
      | Some (svc, proto, zone) \<Rightarrow>
          if zone = [] then Inr []
          else case lookup svc proto zone of
            Inl err \<Rightarrow> Inl err
          | Inr addrs \<Rightarrow> Inr (concat (map srv_target (sort_key srv_rank addrs))))"

definition mergePeer :: "gostr \<Rightarrow> gostr list \<Rightarrow> gostr list" where
  "mergePeer a0 out = (let a = TrimSpace a0 in if a = [] \<or> a \<in> set out then out else out @ [a])"

definition MergePeerAddrs :: "gostr list \<Rightarrow> gostr list \<Rightarrow> gostr list" where
  "MergePeerAddrs static extra = fold mergePeer extra (fold mergePeer static [])"

text \<open>\<open>guess\<close> is the result of \<^verbatim>\<open>GuessOutboundIPv4\<close>, which asks the operating system.\<close>

definition ClusterDialAddress :: "gostr \<Rightarrow> gostr \<Rightarrow> gostr \<Rightarrow> gostr" where
  "ClusterDialAddress guess listenAddr advertiseAddr =
     (if TrimSpace advertiseAddr \<noteq> [] then TrimSpace advertiseAddr
      else if guess = [] then []
      else
        let port = (if listenAddr \<noteq> [] then
                      (case SplitHostPort listenAddr of
                         Inr (h, p) \<Rightarrow> if p \<noteq> [] then p
                                     else if HasPrefix listenAddr '':'' then TrimPrefix listenAddr '':'' else ''7946''
                       | Inl e \<Rightarrow> if HasPrefix listenAddr '':'' then TrimPrefix listenAddr '':'' else ''7946'')
                    else ''7946'')
        in JoinHostPort guess port)"

subsection \<open>Status of the peers\<close>

record PeerStatus =
  pe_Address :: gostr
  pe_LastOutboundOK :: "gotime option"
  pe_LastOutboundErr :: gostr
  pe_LastInboundOK :: "gotime option"
  pe_LastPullOK :: "gotime option"
  pe_LastProbeOK :: "gotime option"
  pe_LastProbeRTTMs :: int
  pe_LastProbeErr :: gostr
  pe_Reachable :: bool

type_synonym peerTracker = "gostr \<rightharpoonup> PeerStatus"

definition new_peer :: "gostr \<Rightarrow> PeerStatus" where
  "new_peer a = \<lparr>pe_Address = a, pe_LastOutboundOK = None, pe_LastOutboundErr = [], pe_LastInboundOK = None,
     pe_LastPullOK = None, pe_LastProbeOK = None, pe_LastProbeRTTMs = 0, pe_LastProbeErr = [], pe_Reachable = False\<rparr>"

definition getOrCreate :: "peerTracker \<Rightarrow> gostr \<Rightarrow> PeerStatus" where
  "getOrCreate t a = (case t a of None \<Rightarrow> new_peer a | Some p \<Rightarrow> p)"

text \<open>The common frame of the \<^verbatim>\<open>record\<close> methods.\<close>

definition track :: "gostr \<Rightarrow> (PeerStatus \<Rightarrow> PeerStatus) \<Rightarrow> peerTracker \<Rightarrow> peerTracker" where
  "track addr f t = (let a = TrimSpace addr in if a = [] then t else t(a \<mapsto> f (getOrCreate t a)))"

definition recordOutbound :: "gotime \<Rightarrow> gostr \<Rightarrow> bool \<Rightarrow> gostr \<Rightarrow> peerTracker \<Rightarrow> peerTracker" where
  "recordOutbound now addr ok errStr = track addr (\<lambda>p.
     if ok then p\<lparr>pe_LastOutboundOK := Some now, pe_LastOutboundErr := []\<rparr> else p\<lparr>pe_LastOutboundErr := errStr\<rparr>)"

definition recordInbound :: "gotime \<Rightarrow> gostr \<Rightarrow> peerTracker \<Rightarrow> peerTracker" where
  "recordInbound now addr = track addr (\<lambda>p. p\<lparr>pe_LastInboundOK := Some now\<rparr>)"

definition recordPull :: "gotime \<Rightarrow> gostr \<Rightarrow> bool \<Rightarrow> peerTracker \<Rightarrow> peerTracker" where
  "recordPull now addr ok = track addr (\<lambda>p. if ok then p\<lparr>pe_LastPullOK := Some now\<rparr> else p)"

definition recordProbe :: "gotime \<Rightarrow> gostr \<Rightarrow> bool \<Rightarrow> int \<Rightarrow> gostr \<Rightarrow> peerTracker \<Rightarrow> peerTracker" where
  "recordProbe now addr ok rttMs errStr = track addr (\<lambda>p.
     if ok then p\<lparr>pe_LastProbeOK := Some now, pe_LastProbeRTTMs := rttMs, pe_LastProbeErr := [], pe_Reachable := True\<rparr>
     else p\<lparr>pe_LastProbeErr := errStr, pe_Reachable := False\<rparr>)"

definition peerSnapshot :: "peerTracker \<Rightarrow> gostr list \<Rightarrow> PeerStatus list" where
  "peerSnapshot t addrs =
     map (getOrCreate t) (filter (\<lambda>a. a \<noteq> []) (map TrimSpace addrs))"

subsection \<open>Frames round trip\<close>

lemma PutUint32_length [simp]: "length (PutUint32 n) = 4"
  by (simp add: PutUint32_def)

lemma byte_of: "unat (ucast (drop_bit i n) :: u8) = unat (n :: u32) div 2 ^ i mod 256"
proof -
  have "unat n < 2 ^ 32" using unsigned_less [of n] by simp
  then show ?thesis unfolding unsigned_ucast_eq unsigned_drop_bit_eq by (simp add: take_bit_eq_mod drop_bit_eq_div [where 'a = nat])
qed

lemma ucast_nat: "ucast (b :: u8) = (of_nat (unat b) :: u32)"
  by (simp add: word_eq_iff_unsigned)

lemma PutUint32_roundtrip: "BigEndianUint32 (PutUint32 n) = n"
proof -
  define N where "N = unat n"
  have N: "N < 2 ^ 32" unfolding N_def using unsigned_less [of n] by simp
  have a: "N = ((N div 16777216 mod 256 * 256 + N div 65536 mod 256) * 256 + N div 256 mod 256) * 256 + N mod 256"
  proof -
    have "N div 16777216 < 256" using N by (intro less_mult_imp_div_less) simp
    then have "N div 16777216 mod 256 = N div 16777216" by simp
    moreover have "N div 16777216 * 256 + N div 65536 mod 256 = N div 65536"
      using div_mult_mod_eq [of "N div 65536" 256] by (simp add: div_mult2_eq [symmetric])
    moreover have "N div 65536 * 256 + N div 256 mod 256 = N div 256"
      using div_mult_mod_eq [of "N div 256" 256] by (simp add: div_mult2_eq [symmetric])
    ultimately show ?thesis using div_mult_mod_eq [of N 256] by (simp only:)
  qed
  have "BigEndianUint32 (PutUint32 n) =
      of_nat (((N div 16777216 mod 256 * 256 + N div 65536 mod 256) * 256 + N div 256 mod 256) * 256 + N mod 256)"
  proof -
    have b: "(ucast (ucast (drop_bit i n) :: u8) :: u32) = of_nat (N div 2 ^ i mod 256)" for i
      unfolding ucast_nat byte_of N_def ..
    show ?thesis using b [of 24] b [of 16] b [of 8] b [of 0]
      unfolding BigEndianUint32_def PutUint32_def list.map fold_simps
      by (simp only: of_nat_add of_nat_mult of_nat_numeral mult_zero_left add_0 power_0 div_by_1) simp
  qed
  also have "\<dots> = of_nat N" using a by (simp only:)
  finally show ?thesis by (simp add: N_def)
qed

lemma frame_length: "n \<le> MaxFrameBytes \<Longrightarrow> unat (IntToUint32Clamp (int n)) = n"
  by (simp add: MaxFrameBytes_def unat_eq_nat_uint uint_IntToUint32Clamp MaxUint32_def)

text \<open>C19.  A payload of at most 64 MiB that is written as a frame is read back exactly, whatever follows it in
  the stream; a proper prefix of the frame is not taken for a frame but for the end of the stream, an
  unexpected one unless it falls before or right after the length; a longer payload is refused.\<close>

theorem frame_round_trip:
  "if length payload \<le> MaxFrameBytes
   then \<exists>bs. WriteFrame payload = Inr bs \<and> ReadFrame (bs @ rest) = Inr (payload, rest) \<and>
          filter (\<lambda>m. ReadFrame (take m bs) \<noteq> Inl (if m \<in> {0, 4} then EOF else UnexpectedEOF)) [0..<length bs] = []
   else WriteFrame payload = Inl FrameTooLong"
proof (cases "length payload \<le> MaxFrameBytes")
  case True
  let ?h = "PutUint32 (IntToUint32Clamp (int (length payload)))"
  have n: "unat (BigEndianUint32 ?h) = length payload" using True by (simp add: PutUint32_roundtrip frame_length)
  have h: "?h \<noteq> []" by (simp add: PutUint32_def)
  have "ReadFrame ((?h @ payload) @ rest) = Inr (payload, rest)" using True n by (simp add: ReadFrame_def ReadFull_def Let_def)
  moreover have "ReadFrame (take m (?h @ payload)) = Inl (if m \<in> {0, 4} then EOF else UnexpectedEOF)"
    if "m < length (?h @ payload)" for m
    using that True n h by (cases "m < 4") (auto simp: ReadFrame_def ReadFull_def Let_def min_def)
  ultimately show ?thesis using True by (auto simp: WriteFrame_def filter_empty_conv)
qed (simp add: WriteFrame_def)

subsection \<open>The list of peers\<close>

lemma fold_mergePeer:
  assumes "distinct out"
  shows "distinct (fold mergePeer as out) \<and> set (fold mergePeer as out) = set out \<union> (TrimSpace ` set as - {[]}) \<and>
    (\<exists>more. fold mergePeer as out = out @ more)"
  using assms
proof (induction as arbitrary: out)
  case (Cons a as)
  have "distinct (mergePeer a out)" "set (mergePeer a out) = set out \<union> ({TrimSpace a} - {[]})"
    "\<exists>more. mergePeer a out = out @ more"
    using Cons.prems by (auto simp: mergePeer_def Let_def)
  with Cons.IH [of "mergePeer a out"] show ?case by auto
qed simp

text \<open>The merged list of peers holds exactly the trimmed, non-empty addresses of both lists, each once, the
  configured ones first and in their order.\<close>

theorem MergePeerAddrs_spec:
  "distinct (MergePeerAddrs static extra) \<and>
   set (MergePeerAddrs static extra) = TrimSpace ` (set static \<union> set extra) - {[]} \<and>
   (\<exists>more. MergePeerAddrs static extra = MergePeerAddrs static [] @ more)"
proof -
  have s: "distinct (fold mergePeer static [])" "set (fold mergePeer static []) = TrimSpace ` set static - {[]}"
    using fold_mergePeer [of "[]" static] by auto
  from fold_mergePeer [OF s(1), of extra] s(2) show ?thesis by (auto simp: MergePeerAddrs_def)
qed

end
