(* ===== verification/Cluster.thy ===== *)
theory Cluster
  imports ClusterState ResolverData
begin

text \<open>
  The cluster manager, \<^verbatim>\<open>cluster/cluster.go\<close>: the connection handler, pushes, pulls, the remote
  administration, and the effective list of peers.

  A frame carries a JSON document.  The four message types of the protocol are decoded from one
  document by taking the fields they have, a missing field being zero; \<open>doc\<close> is the union of these
  fields and \<open>NotJSON\<close> a payload that is not a JSON object.  Documents in which a field has a wrong JSON
  type are not modelled.  The outcome of dialling, of the timers and of the SRV look-up is an argument.
\<close>

record doc =
  dc_type :: gostr
  dc_message :: gostr
  dc_token :: gostr
  dc_node_id :: gostr
  dc_seq :: u64
  dc_timestamp :: int
  dc_records :: "dns_record list"
  dc_admin_token :: gostr
  dc_auth_token :: gostr
  dc_peers :: "gostr list option"
  dc_replica_only :: "bool option"
  dc_reject_local :: "bool option"
  dc_admin :: "bool option"
  dc_sync_interval :: "int option"

definition empty_doc :: doc where
  "empty_doc = \<lparr>dc_type = [], dc_message = [], dc_token = [], dc_node_id = [], dc_seq = 0, dc_timestamp = 0, dc_records = [],
     dc_admin_token = [], dc_auth_token = [], dc_peers = None, dc_replica_only = None, dc_reject_local = None,
     dc_admin = None, dc_sync_interval = None\<rparr>"

datatype payload = NotJSON | Doc doc

definition SimpleMessage :: "gostr \<Rightarrow> gostr \<Rightarrow> doc" where
  "SimpleMessage t m = empty_doc\<lparr>dc_type := t, dc_message := m\<rparr>"

definition AuthMessage :: "gostr \<Rightarrow> doc" where
  "AuthMessage token = empty_doc\<lparr>dc_type := ''auth'', dc_token := token\<rparr>"

definition RecordsFullMessage :: "gostr \<Rightarrow> u64 \<Rightarrow> int \<Rightarrow> dns_record list \<Rightarrow> doc" where
  "RecordsFullMessage nodeID seq ts records =
     empty_doc\<lparr>dc_type := ''records_full'', dc_node_id := nodeID, dc_seq := seq, dc_timestamp := ts, dc_records := records\<rparr>"

text \<open>A node: its persistent state, the shared data, the stored configuration, the effective peers with the
  outcome of the last discovery, and the status of the peers.\<close>

record node =
  nd_state :: stateManager
  nd_data :: resolver_data
  nd_stored :: Config
  nd_effectivePeers :: "gostr list"
  nd_lastDiscSRV :: gostr
  nd_lastDiscErr :: gostr
  nd_lastDiscAt :: gotime
  nd_srvResolvedCount :: nat
  nd_peers :: peerTracker

record cluster_env =
  ce_now :: gotime
  ce_unix :: int
  ce_io :: bool
  ce_lookup :: "gostr \<Rightarrow> gostr \<Rightarrow> gostr \<Rightarrow> gostr + srv_record list"

abbreviation nd_cfg :: "node \<Rightarrow> Config" where
  "nd_cfg n \<equiv> rd_Settings (nd_data n)"

abbreviation nd_token :: "node \<Rightarrow> gostr" where
  "nd_token n \<equiv> TrimSpace (cf_ClusterAuthToken (nd_cfg n))"

subsection \<open>Peers\<close>

definition refreshEffectivePeers :: "cluster_env \<Rightarrow> node \<Rightarrow> node" where
  "refreshEffectivePeers env n =
     (let cfg = nd_cfg n;
          srvName = TrimSpace (cf_ClusterDiscoverySRV cfg);
          res = (if srvName \<noteq> [] then LookupSRVTargets (ce_lookup env) srvName else Inr []);
          srvTargets = (case res of Inl err \<Rightarrow> [] | Inr ts \<Rightarrow> ts)
      in n\<lparr>nd_effectivePeers := MergePeerAddrs (cf_ClusterPeers cfg) srvTargets, nd_lastDiscSRV := srvName,
           nd_lastDiscErr := (case res of Inl err \<Rightarrow> err | Inr ts \<Rightarrow> []), nd_lastDiscAt := ce_now env,
           nd_srvResolvedCount := length srvTargets\<rparr>)"

definition listPeerTargets :: "node \<Rightarrow> Config \<Rightarrow> gostr list" where
  "listPeerTargets n cfg =
     (if length (nd_effectivePeers n) > 0 then nd_effectivePeers n
      else filter (\<lambda>s. s \<noteq> []) (map TrimSpace (cf_ClusterPeers cfg)))"

definition countNonEmptyStrings :: "gostr list \<Rightarrow> nat" where
  "countNonEmptyStrings ss = length (filter (\<lambda>s. TrimSpace s \<noteq> []) ss)"

subsection \<open>Snapshots\<close>

text \<open>The treatment of a snapshot is the same for a pushed and for a pulled one: skip a duplicate, ask
  the policy, apply, and commit.  The result says which of the branches was taken.\<close>

datatype snap_result = SnapDuplicate | SnapSkipped gostr | SnapError gostr | SnapApplied

definition applySnapshot :: "cluster_env \<Rightarrow> doc \<Rightarrow> node \<Rightarrow> node \<times> snap_result" where
  "applySnapshot env msg n =
     (if IsDuplicate (nd_state n) (dc_node_id msg) (dc_seq msg) then (n, SnapDuplicate)
      else
        let cfgNow = nd_cfg n in
        case ShouldApplySnapshot cfgNow (nd_state n) (dc_node_id msg) (dc_timestamp msg) of
          Some reason \<Rightarrow> (n\<lparr>nd_state := CommitPeerSeq (nd_state n) (dc_node_id msg) (dc_seq msg)\<rparr>, SnapSkipped reason)
        | None \<Rightarrow>
            (case ApplyClusterRecords (nd_stored n) (ce_io env) (dc_records msg) (nd_data n) of
               Inl err \<Rightarrow> (n, SnapError err)
             | Inr (d', eff) \<Rightarrow>
                 let st = CommitPeerSeq (nd_state n) (dc_node_id msg) (dc_seq msg);
                     st = (if NormalizeSyncPolicy (cf_ClusterSyncPolicy cfgNow) = SyncPolicyGlobalLWW
                           then commitGlobalLWW st (norm_ts (dc_timestamp msg)) (dc_node_id msg) else st)
                 in (n\<lparr>nd_data := d', nd_state := st\<rparr>, SnapApplied)))"

definition sendCurrentSnapshot :: "cluster_env \<Rightarrow> node \<Rightarrow> doc" where
  "sendCurrentSnapshot env n =
     RecordsFullMessage (sm_nodeID (nd_state n)) (sm_localSeq (nd_state n)) (ce_unix env) (rd_DNSRecords (nd_data n))"

subsection \<open>Remote administration\<close>

definition applyAdminConfigFromMessage :: "cluster_env \<Rightarrow> doc \<Rightarrow> node \<Rightarrow> gostr + node" where
  "applyAdminConfigFromMessage env msg n =
     (let cfg = nd_cfg n in
      if TrimSpace (cf_ClusterAdminToken cfg) = [] then Inl ''remote admin disabled (empty cluster_admin_token)''
      else if dc_admin_token msg \<noteq> cf_ClusterAdminToken cfg then Inl ''invalid admin token''
      else
        let s = cfg;
            s = (if dc_auth_token msg \<noteq> [] then s\<lparr>cf_ClusterAuthToken := dc_auth_token msg\<rparr> else s);
            s = (case dc_peers msg of Some ps \<Rightarrow> s\<lparr>cf_ClusterPeers := ps\<rparr> | None \<Rightarrow> s);
            s = (case dc_replica_only msg of Some b \<Rightarrow> s\<lparr>cf_ClusterReplicaOnly := b\<rparr> | None \<Rightarrow> s);
            s = (case dc_reject_local msg of Some b \<Rightarrow> s\<lparr>cf_ClusterRejectLocalWrites := b\<rparr> | None \<Rightarrow> s);
            s = (case dc_admin msg of Some b \<Rightarrow> s\<lparr>cf_ClusterAdmin := b\<rparr> | None \<Rightarrow> s);
            s = (case dc_sync_interval msg of Some i \<Rightarrow> s\<lparr>cf_ClusterSyncIntervalSeconds := i\<rparr> | None \<Rightarrow> s)
        in Inr (refreshEffectivePeers env (n\<lparr>nd_data := fst (UpdateSettings s (nd_data n)), nd_stored := s\<rparr>)))"

text \<open>\<^verbatim>\<open>AdminPushConfig\<close> up to the dialling: the errors, or the two documents it sends.\<close>

definition AdminPushConfig :: "node \<Rightarrow> gostr \<Rightarrow> doc \<Rightarrow> gostr + gostr \<times> doc \<times> doc" where
  "AdminPushConfig n peerAddr apply =
     (let cfg = nd_cfg n; token = nd_token n; adminTok = TrimSpace (cf_ClusterAdminToken cfg) in
      if \<not> cf_ClusterAdmin cfg then Inl ''cluster: cluster_admin is false on this node''
      else if token = [] then Inl ''cluster: cluster_auth_token empty''
      else if adminTok = [] then Inl ''cluster: set cluster_admin_token on this node to send admin''
      else if TrimSpace peerAddr = [] then Inl ''cluster: empty peer address''
      else Inr (TrimSpace peerAddr, AuthMessage token, apply\<lparr>dc_type := ''admin_config_apply'', dc_admin_token := adminTok\<rparr>))"

subsection \<open>Serving a connection\<close>

text \<open>One iteration of the loop of \<^verbatim>\<open>serveConn\<close>: the node afterwards and the documents written.\<close>

definition serveFrame :: "cluster_env \<Rightarrow> gostr \<Rightarrow> payload \<Rightarrow> node \<Rightarrow> node \<times> doc list" where
  "serveFrame env remote p n = (case p of
      NotJSON \<Rightarrow> (n, [])
    | Doc msg \<Rightarrow>
        if dc_type msg = ''ping'' then (n, [SimpleMessage ''pong'' []])
        else if dc_type msg = ''pull'' then (n, [sendCurrentSnapshot env n])
        else if dc_type msg = ''admin_config_apply'' then
          (case applyAdminConfigFromMessage env msg n of
             Inl err \<Rightarrow> (n, [SimpleMessage ''admin_config_fail'' err])
           | Inr n' \<Rightarrow> (n', [SimpleMessage ''admin_config_ok'' []]))
        else if dc_type msg \<noteq> ''records_full'' then (n, [])
        else (fst (applySnapshot env msg (n\<lparr>nd_peers := recordInbound (ce_now env) remote (nd_peers n)\<rparr>)), []))"

fun serveLoop :: "cluster_env \<Rightarrow> gostr \<Rightarrow> payload list \<Rightarrow> node \<Rightarrow> node \<times> doc list" where
  "serveLoop env remote [] n = (n, [])"
| "serveLoop env remote (p # ps) n =
     (let (n', out) = serveFrame env remote p n; (n'', out') = serveLoop env remote ps n' in (n'', out @ out'))"

definition serveConn :: "cluster_env \<Rightarrow> gostr \<Rightarrow> payload list \<Rightarrow> node \<Rightarrow> node \<times> doc list" where
  "serveConn env remote ps n = (case ps of
      [] \<Rightarrow> (n, [])
    | NotJSON # rest \<Rightarrow> (n, [SimpleMessage ''error'' ''auth required''])
    | Doc auth # rest \<Rightarrow>
        if dc_type auth \<noteq> ''auth'' then (n, [SimpleMessage ''error'' ''auth required''])
        else if nd_token n = [] \<or> dc_token auth \<noteq> nd_token n then (n, [SimpleMessage ''auth_fail'' ''unauthorized''])
        else let (n', out) = serveLoop env remote rest n in (n', SimpleMessage ''auth_ok'' [] # out))"

subsection \<open>Pulling and pushing\<close>

text \<open>The two replies of the peer; \<open>None\<close>: dialling, writing or reading failed.\<close>

definition pullOnce :: "cluster_env \<Rightarrow> gostr \<Rightarrow> payload option \<Rightarrow> payload option \<Rightarrow> node \<Rightarrow> node" where
  "pullOnce env peerAddr authReply resp n =
     (let pulled = (\<lambda>ok n. n\<lparr>nd_peers := recordPull (ce_now env) peerAddr ok (nd_peers n)\<rparr>) in
      case (authReply, resp) of
        (Some (Doc ok), Some (Doc msg)) \<Rightarrow>
          if dc_type ok \<noteq> ''auth_ok'' \<or> dc_type msg \<noteq> ''records_full'' then pulled False n
          else (case applySnapshot env msg n of
                  (n', SnapError err) \<Rightarrow> pulled False n'
                | (n', _) \<Rightarrow> pulled True n')
      | _ \<Rightarrow> pulled False n)"

definition PullFromPeers ::
    "cluster_env \<Rightarrow> (gostr \<Rightarrow> node \<Rightarrow> payload option \<times> payload option) \<Rightarrow> node \<Rightarrow> node" where
  "PullFromPeers env network n =
     (let cfg = nd_cfg n in
      if \<not> cf_ClusterEnabled cfg then n
      else if nd_token n = [] then n
      else fold (\<lambda>p n. case network p n of (a, r) \<Rightarrow> pullOnce env p a r n) (listPeerTargets n cfg) n)"

text \<open>The common part of the pushes: a new sequence number and the document.\<close>

definition pushPayload :: "cluster_env \<Rightarrow> node \<Rightarrow> node \<times> doc" where
  "pushPayload env n =
     (let (st, seq) = NextLocalSeq (nd_state n) in
      (n\<lparr>nd_state := st\<rparr>, RecordsFullMessage (sm_nodeID st) seq (ce_unix env) (rd_DNSRecords (nd_data n))))"

definition pushOnce :: "cluster_env \<Rightarrow> gostr \<Rightarrow> gostr + payload \<Rightarrow> gostr option \<Rightarrow> node \<Rightarrow> node" where
  "pushOnce env peerAddr authReply writeErr n =
     (let out = (\<lambda>ok err. n\<lparr>nd_peers := recordOutbound (ce_now env) peerAddr ok err (nd_peers n)\<rparr>) in
      case authReply of
        Inl err \<Rightarrow> out False err
      | Inr p \<Rightarrow>
          if (case p of NotJSON \<Rightarrow> True | Doc ok \<Rightarrow> dc_type ok \<noteq> ''auth_ok'') then out False ''auth failed''
          else case writeErr of Some err \<Rightarrow> out False err | None \<Rightarrow> out True [])"

text \<open>What is sent to whom; the node's sequence number is used up.\<close>

definition pushToAllPeers :: "cluster_env \<Rightarrow> node \<Rightarrow> node \<times> (gostr \<times> doc list) list" where
  "pushToAllPeers env n =
     (let targets = listPeerTargets n (nd_cfg n); (n', payload) = pushPayload env n
      in (n', map (\<lambda>p. (p, [AuthMessage (nd_token n), payload])) targets))"

definition NotifyLocalRecordsChanged :: "cluster_env \<Rightarrow> node \<Rightarrow> node \<times> (gostr \<times> doc list) list" where
  "NotifyLocalRecordsChanged env n =
     (let cfg = nd_cfg n; targets = listPeerTargets n cfg in
      if \<not> cf_ClusterEnabled cfg \<or> length targets = 0 then (n, [])
      else if cf_ClusterReplicaOnly cfg then (n, [])
      else if RecordsSourceIsReadOnly (nd_stored n) then (n, [])
      else if nd_token n = [] then (n, [])
      else pushToAllPeers env n)"

definition PushRecordsToPeer :: "cluster_env \<Rightarrow> gostr \<Rightarrow> node \<Rightarrow> node \<times> (gostr + gostr \<times> doc list)" where
  "PushRecordsToPeer env peerAddr n =
     (let cfg = nd_cfg n in
      if \<not> cf_ClusterEnabled cfg then (n, Inl ''cluster: not enabled'')
      else if cf_ClusterReplicaOnly cfg then (n, Inl ''cluster: replica-only node does not push'')
      else if nd_token n = [] then (n, Inl ''cluster: cluster_auth_token empty'')
      else let (n', payload) = pushPayload env n in
        if TrimSpace peerAddr = [] then (n', Inl ''cluster: empty peer address'')
        else (n', Inr (TrimSpace peerAddr, [AuthMessage (nd_token n), payload])))"

text \<open>The reply to the ping, and the round-trip time in milliseconds.\<close>

definition probeOnce :: "cluster_env \<Rightarrow> gostr \<Rightarrow> gostr + payload \<Rightarrow> gostr option \<Rightarrow> int \<Rightarrow> node \<Rightarrow> node" where
  "probeOnce env peerAddr authReply pingErr rttMs n =
     (let rec = (\<lambda>ok rtt err. n\<lparr>nd_peers := recordProbe (ce_now env) peerAddr ok rtt err (nd_peers n)\<rparr>) in
      case authReply of
        Inl err \<Rightarrow> rec False 0 err
      | Inr p \<Rightarrow>
          if (case p of NotJSON \<Rightarrow> True | Doc ok \<Rightarrow> dc_type ok \<noteq> ''auth_ok'') then rec False 0 ''auth failed''
          else case pingErr of Some err \<Rightarrow> rec False 0 err | None \<Rightarrow> rec True rttMs [])"

subsection \<open>Start-up and status\<close>

text \<open>\<^verbatim>\<open>Start\<close>: load the state, discover the peers, and listen; the result is the node, and the address it
  listens on with the periods of the pull and discovery tickers (0: no ticker) or the error.  \<open>listen\<close> is
  the outcome of \<^verbatim>\<open>net.Listen\<close>.\<close>

definition clusterListenAddr :: "Config \<Rightarrow> gostr" where
  "clusterListenAddr cfg =
     (let addr = TrimSpace (cf_ClusterListenAddr cfg) in if addr = [] then '':7946'' else addr)"

datatype start_result = NotStarted gostr | Disabled | Listening gostr int int

definition cluster_Start :: "cluster_env \<Rightarrow> u8 list \<Rightarrow> state_file \<Rightarrow> gostr option \<Rightarrow> Config \<Rightarrow> node \<Rightarrow> node \<times> start_result" where
  "cluster_Start env rnd file listen cfg n =
     (case load_state rnd file (cf_ClusterNodeID cfg) (nd_state n) of
        (st, Some err) \<Rightarrow> (n\<lparr>nd_state := st\<rparr>, NotStarted (''cluster state: '' @ err))
      | (st, None) \<Rightarrow>
          let n = n\<lparr>nd_state := st\<rparr> in
          if \<not> cf_ClusterEnabled cfg then (n, Disabled)
          else
            let n = refreshEffectivePeers env n; addr = clusterListenAddr cfg in
            case listen of
              Some err \<Rightarrow> (n, NotStarted (''cluster listen '' @ addr @ '': '' @ err))
            | None \<Rightarrow>
                (n, Listening addr
                      (if cf_ClusterSyncIntervalSeconds cfg > 0 then cf_ClusterSyncIntervalSeconds cfg else 0)
                      (if TrimSpace (cf_ClusterDiscoverySRV cfg) \<noteq> [] \<and> cf_ClusterDiscoveryIntervalSeconds cfg > 0
                       then cf_ClusterDiscoveryIntervalSeconds cfg else 0)))"

text \<open>One probe of each target; \<open>network\<close> gives the outcomes.\<close>

definition probeAllPeers ::
    "cluster_env \<Rightarrow> (gostr \<Rightarrow> (gostr + payload) \<times> gostr option \<times> int) \<Rightarrow> node \<Rightarrow> node" where
  "probeAllPeers env network n =
     (let cfg = nd_cfg n in
      if \<not> cf_ClusterEnabled cfg then n
      else if nd_token n = [] then n
      else fold (\<lambda>p n. case network p of (a, e, rtt) \<Rightarrow> probeOnce env p a e rtt n) (listPeerTargets n cfg) n)"

record StatusSnapshot =
  ss_Enabled :: bool
  ss_NodeID :: gostr
  ss_ListenAddr :: gostr
  ss_AdvertiseAddr :: gostr
  ss_ReplicaOnly :: bool
  ss_ClusterAdmin :: bool
  ss_Peers :: "PeerStatus list"
  ss_LocalSeq :: u64
  ss_ClusterPortGuess :: gostr
  ss_SyncPolicy :: gostr
  ss_AllowedWriterNodeIDs :: "gostr list"
  ss_LastGlobalLWWUnix :: int
  ss_LastGlobalLWWNodeID :: gostr
  ss_ClusterDiscoverySRV :: gostr
  ss_ClusterDiscoveryIntervalSec :: int
  ss_DiscoveryLastRefresh :: "gotime option"
  ss_DiscoveryLastError :: gostr
  ss_StaticPeerCount :: nat
  ss_SRVPeerCount :: nat
  ss_EffectivePeerCount :: nat

text \<open>The address other nodes dial; \<open>guess\<close> as in \<^const>\<open>ClusterDialAddress\<close>.\<close>

definition advertisedAddr :: "gostr \<Rightarrow> Config \<Rightarrow> gostr" where
  "advertisedAddr guess cfg =
     (let adv = TrimSpace (cf_ClusterAdvertiseAddr cfg) in
      if adv = [] then ClusterDialAddress guess (clusterListenAddr cfg) [] else adv)"

definition clusterStatus :: "gostr \<Rightarrow> node \<Rightarrow> StatusSnapshot" where
  "clusterStatus guess n =
     (let cfg = nd_cfg n; st = nd_state n; adv = advertisedAddr guess cfg; peerAddrs = listPeerTargets n cfg in
      if \<not> cf_ClusterEnabled cfg then
        \<lparr>ss_Enabled = False, ss_NodeID = [], ss_ListenAddr = [], ss_AdvertiseAddr = [], ss_ReplicaOnly = False, ss_ClusterAdmin = False,
          ss_Peers = [], ss_LocalSeq = 0, ss_ClusterPortGuess = [], ss_SyncPolicy = [], ss_AllowedWriterNodeIDs = [],
          ss_LastGlobalLWWUnix = 0, ss_LastGlobalLWWNodeID = [], ss_ClusterDiscoverySRV = [], ss_ClusterDiscoveryIntervalSec = 0,
          ss_DiscoveryLastRefresh = None, ss_DiscoveryLastError = [], ss_StaticPeerCount = 0, ss_SRVPeerCount = 0,
          ss_EffectivePeerCount = 0\<rparr>
      else
        \<lparr>ss_Enabled = True, ss_NodeID = sm_nodeID st, ss_ListenAddr = clusterListenAddr cfg, ss_AdvertiseAddr = adv,
          ss_ReplicaOnly = cf_ClusterReplicaOnly cfg, ss_ClusterAdmin = cf_ClusterAdmin cfg,
          ss_Peers = peerSnapshot (nd_peers n) peerAddrs, ss_LocalSeq = sm_localSeq st, ss_ClusterPortGuess = adv,
          ss_SyncPolicy = NormalizeSyncPolicy (cf_ClusterSyncPolicy cfg), ss_AllowedWriterNodeIDs = cf_ClusterAllowedWriterNodeIDs cfg,
          ss_LastGlobalLWWUnix = sm_lastGlobalLWWUnix st, ss_LastGlobalLWWNodeID = sm_lastGlobalLWWNodeID st,
          ss_ClusterDiscoverySRV = TrimSpace (cf_ClusterDiscoverySRV cfg),
          ss_ClusterDiscoveryIntervalSec = cf_ClusterDiscoveryIntervalSeconds cfg,
          ss_DiscoveryLastRefresh = (if nd_lastDiscSRV n \<noteq> [] \<and> \<not> time_IsZero (nd_lastDiscAt n) then Some (nd_lastDiscAt n) else None),
          ss_DiscoveryLastError = nd_lastDiscErr n, ss_StaticPeerCount = countNonEmptyStrings (cf_ClusterPeers cfg),
          ss_SRVPeerCount = nd_srvResolvedCount n, ss_EffectivePeerCount = length peerAddrs\<rparr>)"

text \<open>\<^verbatim>\<open>JoinInfo\<close>; \<open>sha256_hex\<close> is the hexadecimal digest.\<close>

definition JoinInfo :: "(gostr \<Rightarrow> gostr) \<Rightarrow> gostr \<Rightarrow> node \<Rightarrow> gostr \<times> gostr \<times> gostr \<times> gostr" where
  "JoinInfo sha256_hex guess n =
     (let cfg = nd_cfg n; tok = TrimSpace (cf_ClusterAuthToken cfg) in
      (sm_nodeID (nd_state n), clusterListenAddr cfg, advertisedAddr guess cfg, if tok \<noteq> [] then sha256_hex tok else []))"

subsection \<open>Authentication\<close>

definition authenticates :: "node \<Rightarrow> payload \<Rightarrow> bool" where
  "authenticates n p = (case p of NotJSON \<Rightarrow> False
     | Doc auth \<Rightarrow> dc_type auth = ''auth'' \<and> nd_token n \<noteq> [] \<and> dc_token auth = nd_token n)"

text \<open>C20.  Nothing happens before authentication: a connection whose first frame is not an authentication with
  the configured token, or that reaches a node without a token, changes nothing on the node, gets exactly
  one refusal, and none of its further frames is looked at.\<close>

theorem unauthenticated_changes_nothing:
  assumes "\<not> authenticates n p"
  shows "\<exists>refusal. serveConn env remote (p # ps) n = (n, [refusal]) \<and> dc_type refusal \<in> {''error'', ''auth_fail''}"
  using assms by (auto simp: serveConn_def authenticates_def SimpleMessage_def split: payload.splits)

definition cluster_data :: resolver_data where
  "cluster_data = empty_data\<lparr>rd_Settings := (rd_Settings empty_data)\<lparr>cf_ClusterEnabled := True, cf_ClusterAuthToken := ''secret'',
     cf_ClusterSyncPolicy := ''global_lww''\<rparr>\<rparr>"

definition sample_node :: node where
  "sample_node = \<lparr>nd_state = newStateManager\<lparr>sm_nodeID := ''b''\<rparr>, nd_data = cluster_data, nd_stored = rd_Settings cluster_data,
     nd_effectivePeers = [], nd_lastDiscSRV = [], nd_lastDiscErr = [], nd_lastDiscAt = 0, nd_srvResolvedCount = 0, nd_peers = Map.empty\<rparr>"

definition sample_cenv :: cluster_env where
  "sample_cenv = \<lparr>ce_now = 0, ce_unix = 1700000000, ce_io = True, ce_lookup = (\<lambda>s p z. Inr [])\<rparr>"

lemma sample_cfg: "nd_token sample_node = ''secret''" "cf_ClusterSyncPolicy (nd_cfg sample_node) = ''global_lww''"
  "\<not> RecordsSourceIsReadOnly (nd_stored sample_node)"
  by code_simp+

theorem unauthenticated_changes_nothing_witness:
  "\<exists>refusal. serveConn sample_cenv ''10.0.0.9:1'' [Doc (AuthMessage ''guess''), Doc (RecordsFullMessage ''a'' 1 1 [sample_record])] sample_node =
     (sample_node, [refusal])"
proof -
  have "\<not> authenticates sample_node (Doc (AuthMessage ''guess''))" by code_simp
  from unauthenticated_changes_nothing [OF this, of sample_cenv "''10.0.0.9:1''" "[Doc (RecordsFullMessage ''a'' 1 1 [sample_record])]"]
  show ?thesis by (elim exE conjE) (intro exI)
qed

subsection \<open>Monotonicity\<close>

text \<open>What the frames of a connection never undo.\<close>

definition grows :: "node \<Rightarrow> node \<Rightarrow> bool" where
  "grows n n' \<longleftrightarrow> data_step\<^sup>*\<^sup>* (nd_data n) (nd_data n') \<and> sm_nodeID (nd_state n') = sm_nodeID (nd_state n) \<and>
     sm_localSeq (nd_state n') = sm_localSeq (nd_state n) \<and> (\<forall>id. sm_peerSeq (nd_state n) id \<le> sm_peerSeq (nd_state n') id)"

lemma grows_refl: "grows n n"
  by (simp add: grows_def)

lemma grows_trans: "grows n n' \<Longrightarrow> grows n' n'' \<Longrightarrow> grows n n''"
  by (auto simp: grows_def intro: order_trans)

lemma CommitPeerSeq_simps [simp]:
  "sm_nodeID (CommitPeerSeq s i seq) = sm_nodeID s" "sm_localSeq (CommitPeerSeq s i seq) = sm_localSeq s"
  "sm_lastGlobalLWWUnix (CommitPeerSeq s i seq) = sm_lastGlobalLWWUnix s"
  "sm_lastGlobalLWWNodeID (CommitPeerSeq s i seq) = sm_lastGlobalLWWNodeID s"
  "sm_peerSeq (CommitPeerSeq s i seq) i2 =
     (if i2 = i \<and> i \<noteq> [] then max (sm_peerSeq s i) (norm_seq seq) else sm_peerSeq s i2)"
  by (auto simp: CommitPeerSeq_def)

lemma commitGlobalLWW_simps [simp]:
  "sm_nodeID (commitGlobalLWW s ts i) = sm_nodeID s" "sm_localSeq (commitGlobalLWW s ts i) = sm_localSeq s"
  "sm_peerSeq (commitGlobalLWW s ts i) = sm_peerSeq s"
  "sm_lastGlobalLWWUnix (commitGlobalLWW s ts i) = norm_ts ts"
  "sm_lastGlobalLWWNodeID (commitGlobalLWW s ts i) = TrimSpace i"
  by (simp_all add: commitGlobalLWW_def)

lemma applySnapshot_grows: "grows n (fst (applySnapshot env msg n))"
  by (auto simp: applySnapshot_def grows_def Let_def split: option.split sum.split intro: step_cluster)

lemma applyAdmin_grows: "applyAdminConfigFromMessage env msg n = Inr n' \<Longrightarrow> grows n n'"
  by (auto simp: applyAdminConfigFromMessage_def refreshEffectivePeers_def grows_def Let_def
      intro!: r_into_rtranclp step_settings prod.collapse [symmetric] split: if_splits)

lemma serveFrame_grows: "grows n (fst (serveFrame env remote p n))"
proof -
  have "grows n (fst (applySnapshot env msg (n\<lparr>nd_peers := ps\<rparr>)))" for msg ps
    using applySnapshot_grows [of "n\<lparr>nd_peers := ps\<rparr>"] by (simp add: grows_def)
  then show ?thesis
    by (auto simp: serveFrame_def grows_refl applyAdmin_grows split: payload.split sum.split)
qed

lemma serveLoop_grows: "grows n (fst (serveLoop env remote ps n))"
proof (induction ps arbitrary: n)
  case (Cons p ps)
  from grows_trans [OF serveFrame_grows [of n env remote p] Cons.IH] show ?case by (simp add: case_prod_beta Let_def)
qed (simp add: grows_refl)

text \<open>C21.  Whatever frames a peer sends over a connection, in whatever order: the data change only by steps of
  the data machine, so the indexes stay current; the node keeps its identity and its own sequence number;
  and no sequence number of a peer ever decreases.\<close>

theorem connection_monotone:
  assumes "serveConn env remote ps n = (n', out)" "indexed (nd_data n)"
  shows "indexed (nd_data n') \<and> sm_nodeID (nd_state n') = sm_nodeID (nd_state n) \<and>
    sm_localSeq (nd_state n') = sm_localSeq (nd_state n) \<and> (\<forall>id. sm_peerSeq (nd_state n) id \<le> sm_peerSeq (nd_state n') id)"
proof -
  have g: "grows n n'"
    using assms(1) serveLoop_grows by (auto simp: serveConn_def grows_refl split: list.splits payload.splits if_splits prod.splits) (metis fst_conv)+
  then have "data_step\<^sup>*\<^sup>* (nd_data n) (nd_data n')" by (simp add: grows_def)
  then have "indexed (nd_data n')" using assms(2) by (induction rule: rtranclp_induct) (auto intro: data_step_indexed)
  with g show ?thesis by (simp add: grows_def)
qed

theorem connection_monotone_witness:
  "indexed (nd_data (fst (serveConn sample_cenv ''10.0.0.9:1''
     [Doc (AuthMessage ''secret''), Doc (RecordsFullMessage ''a'' 1 1 [sample_record])]
     (sample_node\<lparr>nd_data := WarmIndexes cluster_data\<rparr>))))"
proof -
  have "indexed (nd_data (sample_node\<lparr>nd_data := WarmIndexes cluster_data\<rparr>))" by (simp add: indexed_def WarmIndexes_def)
  from connection_monotone [OF prod.collapse [symmetric] this] show ?thesis by (rule conjunct1)
qed

subsection \<open>Last writer wins\<close>

text \<open>The stamp of a snapshot.  The node remembers the stamp of the snapshot it applied last; stamps
  are compared by time, then by node.\<close>

definition stamp_less :: "int \<times> gostr \<Rightarrow> int \<times> gostr \<Rightarrow> bool" where
  "stamp_less a b \<longleftrightarrow> fst a < fst b \<or> fst a = fst b \<and> snd a < snd b"

definition stamp :: "doc \<Rightarrow> int \<times> gostr" where
  "stamp m = (norm_ts (dc_timestamp m), TrimSpace (dc_node_id m))"

definition last_stamp :: "node \<Rightarrow> int \<times> gostr" where
  "last_stamp n = (sm_lastGlobalLWWUnix (nd_state n), sm_lastGlobalLWWNodeID (nd_state n))"

lemma stamp_less_irrefl [simp]: "\<not> stamp_less a a"
  by (simp add: stamp_less_def)

lemma stamp_less_trans: "stamp_less a b \<Longrightarrow> stamp_less b c \<Longrightarrow> stamp_less a c"
  by (auto simp: stamp_less_def)

lemma stamp_linear: "stamp_less a b \<or> a = b \<or> stamp_less b a"
  by (cases a; cases b) (auto simp: stamp_less_def)

lemma accept_iff:
  "shouldAcceptGlobalLWW (nd_state n) ts (dc_node_id m) \<longleftrightarrow>
     last_stamp n = (0, []) \<or> stamp_less (last_stamp n) (norm_ts ts, TrimSpace (dc_node_id m))"
  by (auto simp: shouldAcceptGlobalLWW_def last_stamp_def stamp_less_def Let_def)

lemma norm_ts_idem [simp]: "norm_ts (norm_ts t) = norm_ts t" and norm_ts_pos: "0 < norm_ts t"
  by (simp_all add: norm_ts_def)

lemma global_policy: "NormalizeSyncPolicy p = SyncPolicyGlobalLWW \<Longrightarrow>
    NormalizeSyncPolicy p \<noteq> SyncPolicyLWWPerNode \<and> NormalizeSyncPolicy p \<noteq> SyncPolicyPrimaryWriter"
  by (simp add: policy_defs)

text \<open>The records a snapshot leaves on a node.\<close>

definition snap_records :: "doc \<Rightarrow> dns_record list" where
  "snap_records m = map (\<lambda>r. r\<lparr>dr_Name := canonicalizeRecordNameForStorage (dr_Name r)\<rparr>) (dc_records m)"

text \<open>A set of snapshots as honest nodes produce it: the stamps are distinct, the names are trimmed and
  not empty, and of two snapshots of one node the later one has the larger sequence number.\<close>

definition honest :: "doc set \<Rightarrow> bool" where
  "honest ms \<longleftrightarrow> (\<forall>m \<in> ms. dc_type m = ''records_full'' \<and> TrimSpace (dc_node_id m) = dc_node_id m \<and> dc_node_id m \<noteq> []) \<and>
     inj_on stamp ms \<and>
     (\<forall>m \<in> ms. \<forall>m' \<in> ms. dc_node_id m = dc_node_id m' \<longrightarrow> norm_seq (dc_seq m) \<le> norm_seq (dc_seq m') \<longrightarrow>
        m = m' \<or> stamp_less (stamp m) (stamp m'))"

text \<open>The node after it has received the snapshots of the set \<open>got\<close>.\<close>

definition lww_inv :: "node \<Rightarrow> doc set \<Rightarrow> node \<Rightarrow> bool" where
  "lww_inv n0 got n \<longleftrightarrow>
     rd_Settings (nd_data n) = rd_Settings (nd_data n0) \<and> nd_stored n = nd_stored n0 \<and>
     (\<forall>i. sm_peerSeq (nd_state n) i \<noteq> 0 \<longrightarrow>
        (\<exists>m \<in> got. dc_node_id m = i \<and> sm_peerSeq (nd_state n) i = norm_seq (dc_seq m))) \<and>
     (if got = {} then last_stamp n = (0, []) \<and> rd_DNSRecords (nd_data n) = rd_DNSRecords (nd_data n0)
      else \<exists>m \<in> got. last_stamp n = stamp m \<and> rd_DNSRecords (nd_data n) = snap_records m \<and>
             (\<forall>m' \<in> got. m' = m \<or> stamp_less (stamp m') (stamp m)))"

lemma lww_inv_skip:
  assumes "lww_inv n0 got n" "m \<in> got \<or> (\<exists>m1 \<in> got. stamp_less (stamp m) (stamp m1))"
    and "rd_Settings (nd_data n') = rd_Settings (nd_data n)" "nd_stored n' = nd_stored n" "last_stamp n' = last_stamp n"
    and "rd_DNSRecords (nd_data n') = rd_DNSRecords (nd_data n)"
    and "\<forall>i. sm_peerSeq (nd_state n') i = sm_peerSeq (nd_state n) i \<or>
      i = dc_node_id m \<and> sm_peerSeq (nd_state n') i = norm_seq (dc_seq m)"
  shows "lww_inv n0 (insert m got) n'"
proof -
  obtain mx where mx: "mx \<in> got" "last_stamp n = stamp mx" "rd_DNSRecords (nd_data n) = snap_records mx"
      "\<forall>m' \<in> got. m' = mx \<or> stamp_less (stamp m') (stamp mx)"
    using assms(1,2) by (auto simp: lww_inv_def split: if_splits)
  have "m = mx \<or> stamp_less (stamp m) (stamp mx)" using assms(2) mx(4) by (auto intro: stamp_less_trans)
  then have "\<forall>m' \<in> insert m got. m' = mx \<or> stamp_less (stamp m') (stamp mx)" using mx(4) by blast
  moreover have "\<forall>i. sm_peerSeq (nd_state n') i \<noteq> 0 \<longrightarrow>
      (\<exists>m1 \<in> insert m got. dc_node_id m1 = i \<and> sm_peerSeq (nd_state n') i = norm_seq (dc_seq m1))"
    using assms(1,7) unfolding lww_inv_def by (metis insertCI)
  ultimately show ?thesis using assms(1,3-6) mx by (auto simp: lww_inv_def)
qed

lemma lww_inv_apply:
  assumes "lww_inv n0 got n" "got \<noteq> {} \<longrightarrow> stamp_less (last_stamp n) (stamp m)"
    and "rd_Settings (nd_data n') = rd_Settings (nd_data n)" "nd_stored n' = nd_stored n" "last_stamp n' = stamp m"
    and "rd_DNSRecords (nd_data n') = snap_records m"
    and "\<forall>i. sm_peerSeq (nd_state n') i = sm_peerSeq (nd_state n) i \<or>
      i = dc_node_id m \<and> sm_peerSeq (nd_state n') i = norm_seq (dc_seq m)"
  shows "lww_inv n0 (insert m got) n'"
proof -
  have "m' = m \<or> stamp_less (stamp m') (stamp m)" if m': "m' \<in> insert m got" for m'
  proof (cases "m' = m")
    case False
    then have "m' \<in> got" using m' by simp
    then obtain mx where mx: "last_stamp n = stamp mx" "m' = mx \<or> stamp_less (stamp m') (stamp mx)"
      using assms(1) by (auto simp: lww_inv_def split: if_splits)
    have "stamp_less (stamp mx) (stamp m)" using assms(2) \<open>m' \<in> got\<close> mx(1) by auto
    then show ?thesis using mx(2) stamp_less_trans [of "stamp m'" "stamp mx" "stamp m"] by auto
  qed simp
  moreover have "\<forall>i. sm_peerSeq (nd_state n') i \<noteq> 0 \<longrightarrow>
      (\<exists>m1 \<in> insert m got. dc_node_id m1 = i \<and> sm_peerSeq (nd_state n') i = norm_seq (dc_seq m1))"
    using assms(1,7) unfolding lww_inv_def by (metis insertCI)
  ultimately show ?thesis using assms(1,3-6) by (auto simp: lww_inv_def)
qed

lemma last_stamp_peers [simp]: "last_stamp (n\<lparr>nd_peers := ps\<rparr>) = last_stamp n"
  by (simp add: last_stamp_def)

lemma norm_seq_ge: "norm_seq s \<noteq> 0"
  by (simp add: norm_seq_def)

lemma lww_step:
  assumes inv: "lww_inv n0 got n" and hon: "honest ms" "m \<in> ms" "got \<subseteq> ms"
    and pol: "NormalizeSyncPolicy (cf_ClusterSyncPolicy (nd_cfg n0)) = SyncPolicyGlobalLWW"
    and rw: "\<not> RecordsSourceIsReadOnly (nd_stored n0)"
  shows "lww_inv n0 (insert m got) (fst (serveFrame env remote (Doc m) n))"
proof -
  let ?n = "n\<lparr>nd_peers := recordInbound (ce_now env) remote (nd_peers n)\<rparr>"
  have m: "dc_type m = ''records_full''" "TrimSpace (dc_node_id m) = dc_node_id m" "dc_node_id m \<noteq> []"
    using hon by (auto simp: honest_def)
  then have f: "fst (serveFrame env remote (Doc m) n) = fst (applySnapshot env m ?n)" by (simp add: serveFrame_def)
  have cfg: "nd_cfg n = nd_cfg n0" "nd_stored n = nd_stored n0" using inv by (simp_all add: lww_inv_def)
  note p = global_policy [OF pol] pol
  show ?thesis
  proof (cases "IsDuplicate (nd_state n) (dc_node_id m) (dc_seq m)")
    case True
    then have "norm_seq (dc_seq m) \<le> sm_peerSeq (nd_state n) (dc_node_id m)" "sm_peerSeq (nd_state n) (dc_node_id m) \<noteq> 0"
      using m(3) norm_seq_ge [of "dc_seq m"] by (auto simp: IsDuplicate_def)
    then obtain m1 where m1: "m1 \<in> got" "dc_node_id m = dc_node_id m1" "norm_seq (dc_seq m) \<le> norm_seq (dc_seq m1)"
      using inv by (auto simp: lww_inv_def)
    then have "m = m1 \<or> stamp_less (stamp m) (stamp m1)" using hon unfolding honest_def by blast
    then have "m \<in> got \<or> (\<exists>m1 \<in> got. stamp_less (stamp m) (stamp m1))" using m1(1) by blast
    from lww_inv_skip [OF inv this, of ?n] show ?thesis using True unfolding f by (simp add: applySnapshot_def)
  next
    case False
    then have seq: "max (sm_peerSeq (nd_state n) (dc_node_id m)) (norm_seq (dc_seq m)) = norm_seq (dc_seq m)"
      using m(3) by (intro max_absorb2) (simp add: IsDuplicate_def not_le)
    show ?thesis
    proof (cases "shouldAcceptGlobalLWW (nd_state n) (norm_ts (dc_timestamp m)) (dc_node_id m)")
      case acc: True
      let ?st = "commitGlobalLWW (CommitPeerSeq (nd_state n) (dc_node_id m) (dc_seq m)) (norm_ts (dc_timestamp m)) (dc_node_id m)"
      let ?d = "(nd_data n)\<lparr>rd_DNSRecords := snap_records m, rd_dnsRecordIdx := buildDNSRecordIndex (snap_records m)\<rparr>"
      have a: "fst (applySnapshot env m ?n) = ?n\<lparr>nd_data := ?d, nd_state := ?st\<rparr>"
        using False acc rw p by (simp add: applySnapshot_def ShouldApplySnapshot_def ApplyClusterRecords_def storeRecords_def
            cfg snap_records_def case_prod_beta Let_def)
      have "got \<noteq> {} \<longrightarrow> stamp_less (last_stamp n) (stamp m)"
        using acc inv norm_ts_pos unfolding accept_iff lww_inv_def stamp_def by (auto simp: less_le split: if_splits)
      then show ?thesis unfolding f a using m(3) seq
        by (intro lww_inv_apply [OF inv]) (simp_all add: last_stamp_def stamp_def)
    next
      case rej: False
      have a: "fst (applySnapshot env m ?n) = ?n\<lparr>nd_state := CommitPeerSeq (nd_state n) (dc_node_id m) (dc_seq m)\<rparr>"
        using False rej p by (simp add: applySnapshot_def ShouldApplySnapshot_def cfg Let_def)
      have "last_stamp n \<noteq> (0, [])" "\<not> stamp_less (last_stamp n) (stamp m)"
        using rej unfolding accept_iff by (simp_all add: stamp_def)
      then obtain mx where mx: "mx \<in> got" "\<not> stamp_less (stamp mx) (stamp m)" using inv by (auto simp: lww_inv_def split: if_splits)
      moreover from mx have "stamp m = stamp mx \<Longrightarrow> m = mx" using hon by (auto simp: honest_def inj_on_def)
      ultimately have "m \<in> got \<or> (\<exists>m1 \<in> got. stamp_less (stamp m) (stamp m1))" using stamp_linear [of "stamp m" "stamp mx"] by auto
      then show ?thesis unfolding f a using m(3) seq
        by (intro lww_inv_skip [OF inv]) (simp_all add: last_stamp_def)
    qed
  qed
qed

lemma lww_run:
  assumes "lww_inv n0 got n" "honest ms" "set ds \<subseteq> ms" "got \<subseteq> ms"
    "NormalizeSyncPolicy (cf_ClusterSyncPolicy (nd_cfg n0)) = SyncPolicyGlobalLWW" "\<not> RecordsSourceIsReadOnly (nd_stored n0)"
  shows "lww_inv n0 (got \<union> set ds) (fst (serveLoop env remote (map Doc ds) n))"
  using assms
proof (induction ds arbitrary: got n)
  case (Cons m ds)
  have "lww_inv n0 (insert m got) (fst (serveFrame env remote (Doc m) n))"
    using lww_step [OF Cons.prems(1,2) _ Cons.prems(4-6)] Cons.prems(3) by simp
  from Cons.IH [OF this Cons.prems(2) _ _ Cons.prems(5,6)] Cons.prems(3,4) show ?case
    by (simp add: case_prod_beta Let_def)
qed simp

text \<open>C22.  Nodes under the policy \<^verbatim>\<open>global_lww\<close> converge: a fresh node that receives a set of snapshots of honest
  nodes ends with the records of the snapshot with the largest stamp, in whatever order and however often
  the snapshots arrive.\<close>

theorem global_lww_converges:
  assumes "NormalizeSyncPolicy (cf_ClusterSyncPolicy (nd_cfg n)) = SyncPolicyGlobalLWW" "\<not> RecordsSourceIsReadOnly (nd_stored n)"
    and "sm_peerSeq (nd_state n) = (\<lambda>_. 0)" "last_stamp n = (0, [])"
    and "honest (set ds)" "m \<in> set ds" "\<forall>m' \<in> set ds. m' = m \<or> stamp_less (stamp m') (stamp m)"
  shows "rd_DNSRecords (nd_data (fst (serveLoop env remote (map Doc ds) n))) = snap_records m"
proof -
  have "lww_inv n {} n" using assms(3,4) by (simp add: lww_inv_def)
  from lww_run [OF this assms(5) _ _ assms(1,2), of ds] have "lww_inv n (set ds) (fst (serveLoop env remote (map Doc ds) n))" by simp
  then obtain mx where mx: "mx \<in> set ds" "\<forall>m' \<in> set ds. m' = mx \<or> stamp_less (stamp m') (stamp mx)"
      "rd_DNSRecords (nd_data (fst (serveLoop env remote (map Doc ds) n))) = snap_records mx"
    using assms(6) by (auto simp: lww_inv_def split: if_splits)
  moreover have "mx = m" using mx(1,2) assms(6,7) stamp_less_trans [of "stamp m" "stamp mx" "stamp m"] by force
  ultimately show ?thesis by simp
qed


definition doc_a :: doc where
  "doc_a = RecordsFullMessage ''a'' 1 5 []"

definition doc_c :: doc where
  "doc_c = RecordsFullMessage ''c'' 4 7 [sample_record]"

lemma sample_docs_honest: "honest {doc_a, doc_c}"
proof -
  have "stamp doc_a = (5, ''a'')" "stamp doc_c = (7, ''c'')" "dc_node_id doc_a = ''a''" "dc_node_id doc_c = ''c''"
    "TrimSpace ''a'' = ''a''" "TrimSpace ''c'' = ''c''"
    by code_simp+
  then show ?thesis by (simp add: honest_def inj_on_def) (simp add: doc_a_def doc_c_def RecordsFullMessage_def)
qed

theorem global_lww_converges_witness:
  "rd_DNSRecords (nd_data (fst (serveLoop sample_cenv ''10.0.0.9:1'' (map Doc [doc_c, doc_a, doc_c]) sample_node))) = snap_records doc_c"
proof (rule global_lww_converges)
  show "NormalizeSyncPolicy (cf_ClusterSyncPolicy (nd_cfg sample_node)) = SyncPolicyGlobalLWW" by code_simp
  show "\<not> RecordsSourceIsReadOnly (nd_stored sample_node)" by (rule sample_cfg)
  show "sm_peerSeq (nd_state sample_node) = (\<lambda>_. 0)" by (simp add: sample_node_def newStateManager_def)
  show "last_stamp sample_node = (0, [])" by code_simp
  show "honest (set [doc_c, doc_a, doc_c])" using sample_docs_honest by (simp add: insert_commute)
  have "stamp_less (stamp doc_a) (stamp doc_c)" by code_simp
  then show "\<forall>m' \<in> set [doc_c, doc_a, doc_c]. m' = doc_c \<or> stamp_less (stamp m') (stamp doc_c)" by simp
qed simp

subsection \<open>What the policies do not promise\<close>

text \<open>A write on a node itself is not stamped: the node announces it with the time of the announcement but
  keeps the stamp of the last snapshot it applied.  Here a node writes a record and announces it at time
  100; another node's snapshot of time 7 that arrives later replaces the record on the writer and is
  refused by a peer that has seen the announcement, so the two end with different records.\<close>

theorem global_lww_local_write_lost:
  "let env = sample_cenv\<lparr>ce_unix := 100\<rparr>;
       writer = sample_node\<lparr>nd_data := cluster_data\<lparr>rd_DNSRecords := [sample_record]\<rparr>, nd_effectivePeers := [''10.0.0.2:7946'']\<rparr>;
       peer = sample_node\<lparr>nd_state := newStateManager\<lparr>sm_nodeID := ''p''\<rparr>\<rparr>;
       (writer1, sent) = NotifyLocalRecordsChanged env writer;
       announcement = snd (hd sent) ! 1;
       late = RecordsFullMessage ''c'' 4 7 []
   in rd_DNSRecords (nd_data (fst (serveLoop env ''r'' [Doc late] writer1))) = [] \<and>
      rd_DNSRecords (nd_data (fst (serveLoop env ''r'' [Doc announcement, Doc late] peer))) = [sample_record]"
  by code_simp

text \<open>A pull can delete everything: a peer that has never written anything answers a pull with its empty
  set of records and sequence number 0, which counts as 1.  The puller replaces its records by nothing,
  and then refuses the first snapshot the peer really announces, whose number is 1, as a duplicate.\<close>

theorem pull_from_new_peer_deletes_records:
  "let puller = sample_node\<lparr>nd_data := cluster_data\<lparr>rd_DNSRecords := [sample_record]\<rparr>\<rparr>;
       fresh = sample_node\<lparr>nd_state := newStateManager\<lparr>sm_nodeID := ''new''\<rparr>\<rparr>;
       ok = SimpleMessage ''auth_ok'' [];
       puller1 = pullOnce sample_cenv ''10.0.0.3:7946'' (Some (Doc ok)) (Some (Doc (sendCurrentSnapshot sample_cenv fresh))) puller;
       first = snd (pushPayload sample_cenv (fresh\<lparr>nd_data := cluster_data\<lparr>rd_DNSRecords := [sample_record]\<rparr>\<rparr>))
   in rd_DNSRecords (nd_data puller1) = [] \<and> dc_seq first = 1 \<and> dc_records first = [sample_record] \<and>
      snd (applySnapshot sample_cenv first puller1) = SnapDuplicate"
  by code_simp

text \<open>Remote administration compares the administration token as configured, but sends it trimmed: if the
  configured token has surrounding white space, two nodes with the very same configuration refuse each
  other.\<close>

theorem admin_token_with_space_never_matches:
  assumes "AdminPushConfig sender addr apply = Inr (to, auth, msg)"
    and "cf_ClusterAdminToken (nd_cfg receiver) = cf_ClusterAdminToken (nd_cfg sender)"
    and "TrimSpace (cf_ClusterAdminToken (nd_cfg sender)) \<noteq> cf_ClusterAdminToken (nd_cfg sender)"
  shows "applyAdminConfigFromMessage env msg receiver = Inl ''invalid admin token''"
  using assms by (auto simp: AdminPushConfig_def applyAdminConfigFromMessage_def Let_def split: if_splits)

end
