(* ===== verification/Tools.thy ===== *)
theory Tools
  imports Commands Cluster
begin

text \<open>
  Two further groups of interactive commands: the look-up tool \<^verbatim>\<open>tools dig\<close> of
  \<^verbatim>\<open>commandhandler/commandhandler.go\<close>, up to the queries it sends and how it reads the replies, and the cluster
  commands of \<^verbatim>\<open>commandhandler/cluster_handlers.go\<close>; and which listener \<^verbatim>\<open>server start\<close> and \<^verbatim>\<open>server stop\<close> act on.
\<close>

subsection \<open>Arguments of the look-up\<close>

definition lookupRecordTypeToken :: "dnslib \<Rightarrow> gostr \<Rightarrow> u16 option" where
  "lookupRecordTypeToken L token =
     (let upper = ToUpper (TrimSpace token) in if upper = [] then None else lib_StringToType L upper)"

definition isAllDigits :: "gostr \<Rightarrow> bool" where
  "isAllDigits v \<longleftrightarrow> v \<noteq> [] \<and> list_all is_digit v"

text \<open>\<^verbatim>\<open>strings.Cut(token, ":")\<close>: the text before the first colon, and the text after it if there is one.\<close>

definition cutColon :: "gostr \<Rightarrow> gostr \<times> gostr option" where
  "cutColon t = (takeWhile (\<lambda>c. c \<noteq> CHR '':'') t,
     case dropWhile (\<lambda>c. c \<noteq> CHR '':'') t of [] \<Rightarrow> None | _ # rest \<Rightarrow> Some rest)"

definition orElse :: "gostr \<Rightarrow> gostr \<Rightarrow> gostr" where
  "orElse a b = (if a = [] then b else a)"

text \<open>The loop over the remaining tokens, with the server and its port found so far.\<close>

fun digTokens :: "gostr list \<Rightarrow> gostr \<times> gostr \<Rightarrow> gostr \<times> gostr" where
  "digTokens [] hp = hp"
| "digTokens (a # as) (host, port) =
     (let token = TrimSpace a in
      if token = [] then digTokens as (host, port)
      else if token = ''@'' then
        (case as of
           [] \<Rightarrow> (host, port)
         | b # bs \<Rightarrow>
             let t = TrimPrefix (TrimSpace b) ''@'' in
             digTokens bs
               (if t \<noteq> [] \<and> host = [] then (case cutColon t of (h, Some p) \<Rightarrow> (h, p) | (h, None) \<Rightarrow> (t, port)) else (host, port)))
      else if HasPrefix token ''@'' then
        (let t = TrimPrefix token ''@'' in
         digTokens as
           (if t = [] then (host, port)
            else case cutColon t of (h, Some p) \<Rightarrow> (orElse host h, orElse port p) | (h, None) \<Rightarrow> (orElse host t, port)))
      else if host \<noteq> [] \<and> port = [] \<and> isAllDigits token then digTokens as (host, token)
      else digTokens as (host, port))"

record dig_args =
  da_type :: gostr
  da_target :: gostr
  da_host :: gostr
  da_port :: gostr

definition digRest :: "gostr \<Rightarrow> gostr \<Rightarrow> gostr list \<Rightarrow> gostr + dig_args" where
  "digRest typeToken target rest =
     (case digTokens rest ([], []) of (h, p) \<Rightarrow> Inr \<lparr>da_type = typeToken, da_target = target, da_host = h, da_port = p\<rparr>)"

definition parseDigArguments :: "dnslib \<Rightarrow> gostr list \<Rightarrow> gostr + dig_args" where
  "parseDigArguments L args = (case args of
      [] \<Rightarrow> Inl ''missing arguments''
    | a # as \<Rightarrow>
        (case lookupRecordTypeToken L a of
           Some t \<Rightarrow>
             if t = 0 then Inl (''invalid record type: '' @ a)
             else (case as of
                [] \<Rightarrow> digRest (ToUpper (TrimSpace a)) [] []
              | b # rest \<Rightarrow> digRest (ToUpper (TrimSpace a)) (TrimSpace b) rest)
         | None \<Rightarrow>
             (case as of
                b # rest \<Rightarrow>
                  if lookupRecordTypeToken L b \<noteq> None then digRest (ToUpper (TrimSpace b)) (TrimSpace a) rest
                  else digRest [] (TrimSpace a) as
              | [] \<Rightarrow> digRest [] (TrimSpace a) [])))"

definition resolveRecordType :: "dnslib \<Rightarrow> gostr \<Rightarrow> gostr \<Rightarrow> gostr + u16" where
  "resolveRecordType L typeToken target =
     (if typeToken \<noteq> [] then
        (case lib_StringToType L (ToUpper (TrimSpace typeToken)) of
           Some t \<Rightarrow> Inr t
         | None \<Rightarrow> Inl (''invalid record type: '' @ typeToken))
      else if ParseIP (TrimSuffix (TrimSpace target) ''.'') \<noteq> None then Inr TypePTR
      else Inr TypeA)"

text \<open>\<open>reverse\<close> is the DNS library's \<^verbatim>\<open>ReverseAddr\<close>.\<close>

definition normalizeQueryName :: "(gostr \<Rightarrow> gostr + gostr) \<Rightarrow> gostr \<Rightarrow> u16 \<Rightarrow> gostr + gostr" where
  "normalizeQueryName reverse target queryType =
     (let name = TrimSpace target; clean = TrimSuffix name ''.'';
          dotted = (\<lambda>n. if HasSuffix n ''.'' then n else n @ ''.'') in
      if name = [] then Inl ''empty query target''
      else if queryType = TypePTR \<and> ParseIP clean \<noteq> None then
        (case reverse clean of
           Inl e \<Rightarrow> Inl (''unable to construct PTR query for '' @ target @ '': '' @ e)
         | Inr r \<Rightarrow> Inr (dotted r))
      else Inr (dotted name))"

text \<open>The servers that are asked; the empty list is an error.\<close>

definition digServers :: "resolver_data \<Rightarrow> dig_args \<Rightarrow> gostr \<Rightarrow> endpoint list" where
  "digServers d a queryName =
     (if da_host a \<noteq> [] then [\<lparr>ep_Addr = JoinHostPort (da_host a) (orElse (da_port a) ''53''), ep_Transport = ''udp''\<rparr>]
      else
        let servers = GetUpstreamEndpointsForQuery (rd_DNSServers d) queryName True;
            servers = (if servers \<noteq> [] then AppendPerServerFallbacks servers (rd_DNSServers d) else []);
            cfg = rd_Settings d; ip = TrimSpace (cf_FallbackServerIP cfg); port = TrimSpace (cf_FallbackServerPort cfg)
        in if servers = [] \<and> ip \<noteq> [] then [FallbackEndpoint ip port (cf_FallbackServerTransport cfg)] else servers)"

text \<open>What is printed for a reply: an error, no message, or a message.\<close>

definition digRow :: "dnslib \<Rightarrow> gostr + dns_msg option \<Rightarrow> gostr \<times> gostr" where
  "digRow L res = (case res of
      Inl e \<Rightarrow> (''ERROR'', e)
    | Inr None \<Rightarrow> (''NO RESPONSE'', ''No response received'')
    | Inr (Some m) \<Rightarrow>
        if m_Answer m = [] then (''NO ANSWER'', ''No answer section'')
        else (if m_Authoritative m then ''AUTH'' else ''OK'', Join ''; '' (map (lib_RRString L) (m_Answer m))))"

text \<open>The command up to the queries: the result without queries, or the name, the type and the servers to ask.\<close>

definition digFail :: "gostr \<Rightarrow> cmd_result" where
  "digFail e = failed (warnMessages [e]) e LevelWarn"

definition digMissing :: cmd_result where
  "digMissing = failed (warnMessages [''tools dig requires a domain or IP address.''] @
     infoMessages [''Usage: tools dig [type] <domain|ip> [type] [@server] [port]'']) ''missing argument'' LevelWarn"

definition digUsage :: "message list" where
  "digUsage = infoMessages [''Usage: tools dig [type] <domain|ip> [type] [@server] [port]'',
     ''Description: Query all configured DNS servers (or a specific server) for the provided name/IP.'',
     ''Examples:'', ''  tools dig example.com'', ''  tools dig example.com AAAA'', ''  tools dig AAAA example.com'',
     ''  tools dig 8.8.8.8'', ''  tools dig PTR 8.8.8.8'', ''  tools dig example.com @8.8.8.8'',
     ''  tools dig A example.com @8.8.8.8 5353'', helpLine]"

definition runToolsDig ::
    "dnslib \<Rightarrow> (gostr \<Rightarrow> gostr + gostr) \<Rightarrow> resolver_data \<Rightarrow> gostr list \<Rightarrow> cmd_result + gostr \<times> u16 \<times> endpoint list" where
  "runToolsDig L reverse d raw =
     (if IsHelpRequest raw then Inl (succeeded digUsage NoPayload)
      else if raw = [] then Inl digMissing
      else case parseDigArguments L raw of
        Inl e \<Rightarrow> Inl (digFail e)
      | Inr a \<Rightarrow>
          if da_target a = [] then Inl digMissing
          else case resolveRecordType L (da_type a) (da_target a) of
            Inl e \<Rightarrow> Inl (digFail e)
          | Inr t \<Rightarrow>
              (case normalizeQueryName reverse (da_target a) t of
                 Inl e \<Rightarrow> Inl (digFail e)
               | Inr name \<Rightarrow>
                   let servers = digServers d a name in
                   if servers = []
                   then Inl (failed (infoMessages [''No DNS servers configured. Add servers using 'dns add' or set a fallback server.''])
                          ''no DNS servers configured'' LevelWarn)
                   else Inr (name, t, servers)))"

text \<open>The look-up reads its arguments in either order: a record type before the name and the same type after
  it are the same command, whatever follows, unless one of the words asks for help.\<close>

theorem dig_type_order:
  assumes "lookupRecordTypeToken L ty = Some t" "t \<noteq> 0" "lookupRecordTypeToken L name = None"
    and "\<not> IsHelpToken ty" "\<not> IsHelpToken name"
  shows "runToolsDig L reverse d (ty # name # rest) = runToolsDig L reverse d (name # ty # rest)"
  using assms by (simp add: runToolsDig_def parseDigArguments_def IsHelpRequest_def)

theorem dig_type_order_witness:
  "runToolsDig sample_lib reverse d [''aaaa'', ''x.lan'', ''@9.9.9.9''] = runToolsDig sample_lib reverse d [''x.lan'', ''aaaa'', ''@9.9.9.9'']"
proof (rule dig_type_order)
  show "lookupRecordTypeToken sample_lib ''aaaa'' = Some 28" by code_simp
  show "lookupRecordTypeToken sample_lib ''x.lan'' = None" by code_simp
  show "\<not> IsHelpToken ''aaaa''" "\<not> IsHelpToken ''x.lan''" by code_simp+
qed simp

subsection \<open>Cluster commands\<close>

text \<open>The manager may be missing.  The command sees the settings through the shared data, which is the manager's
  when there is one.  What goes over the network is in the result: the peer, and what it answers is an
  argument, an error or nothing.\<close>

record cluster_cmd =
  cc_node :: "node option"
  cc_data :: resolver_data
  cc_world :: world

definition cc_settings :: "cluster_cmd \<Rightarrow> Config" where
  "cc_settings s = rd_Settings (cc_data s)"

definition failCluster :: "gostr \<Rightarrow> cmd_result" where
  "failCluster msg = failed [] msg LevelError"

definition clusterDone :: "gostr \<Rightarrow> cmd_result" where
  "clusterDone msg = succeeded (infoMessages [msg]) NoPayload"

text \<open>\<^verbatim>\<open>UpdateSettings\<close>: the manager shares the data, and the stored configuration follows.\<close>

definition cc_update :: "Config \<Rightarrow> cluster_cmd \<Rightarrow> cluster_cmd" where
  "cc_update cfg s =
     (case UpdateSettings cfg (cc_data s) of (d', eff) \<Rightarrow>
        s\<lparr>cc_data := d', cc_world := fold perform eff (cc_world s),
          cc_node := map_option (\<lambda>n. n\<lparr>nd_data := d', nd_stored := cfg\<rparr>) (cc_node s)\<rparr>)"

text \<open>Pushing a role: the error, if there is one.\<close>

definition pushRole :: "(gostr \<Rightarrow> doc \<Rightarrow> gostr option) \<Rightarrow> node \<Rightarrow> gostr \<Rightarrow> gostr \<Rightarrow> gostr option" where
  "pushRole send n addr role =
     (case AdminPushConfig n addr (Cluster.empty_doc\<lparr>dc_replica_only := Some (role = ''readonly'')\<rparr>) of
        Inl e \<Rightarrow> Some e
      | Inr (to, auth, msg) \<Rightarrow> send to msg)"

definition peerAdd :: "(gostr \<Rightarrow> doc \<Rightarrow> gostr option) \<Rightarrow> gostr \<Rightarrow> gostr option \<Rightarrow> cluster_cmd \<Rightarrow> cmd_result \<times> cluster_cmd" where
  "peerAdd send addr roleArg s =
     (let role = (case roleArg of None \<Rightarrow> [] | Some r \<Rightarrow> ToLower (TrimSpace r)); cfg = cc_settings s in
      if roleArg \<noteq> None \<and> role \<noteq> ''full'' \<and> role \<noteq> ''readonly'' then (failCluster ''role must be full or readonly'', s)
      else if list_ex (\<lambda>p. TrimSpace p = addr) (cf_ClusterPeers cfg) then (failCluster ''peer already in cluster_peers'', s)
      else
        let s' = cc_update (cfg\<lparr>cf_ClusterPeers := cf_ClusterPeers cfg @ [addr]\<rparr>) s in
        case cc_node s' of
          Some n \<Rightarrow>
            if role \<noteq> [] then
              (case pushRole send n addr role of
                 Some e \<Rightarrow> (failCluster (''peer added locally; remote set-role failed: '' @ e), s')
               | None \<Rightarrow> (clusterDone ''cluster: peer added and persisted'', s'))
            else (clusterDone ''cluster: peer added and persisted'', s')
        | None \<Rightarrow> (clusterDone ''cluster: peer added and persisted'', s'))"

definition peerRemove :: "gostr \<Rightarrow> cluster_cmd \<Rightarrow> cmd_result \<times> cluster_cmd" where
  "peerRemove addr s =
     (let cfg = cc_settings s; out = filter (\<lambda>p. TrimSpace p \<noteq> addr) (cf_ClusterPeers cfg) in
      if length out = length (cf_ClusterPeers cfg) then (failCluster ''peer not found in cluster_peers'', s)
      else (clusterDone ''cluster: peer removed'', cc_update (cfg\<lparr>cf_ClusterPeers := out\<rparr>) s))"

definition handleClusterPeer ::
    "(gostr \<Rightarrow> doc \<Rightarrow> gostr option) \<Rightarrow> gostr list \<Rightarrow> cluster_cmd \<Rightarrow> cmd_result \<times> cluster_cmd" where
  "handleClusterPeer send args s = (case args of
      [] \<Rightarrow> (failCluster ''peer: need add|remove|set-role'', s)
    | sub # rest \<Rightarrow>
        let sub = ToLower (TrimSpace sub) in
        if sub = ''add'' then
          (case rest of
             [] \<Rightarrow> (failCluster ''peer add <host:port> [full|readonly]'', s)
           | [a] \<Rightarrow> peerAdd send (TrimSpace a) None s
           | a # r # _ \<Rightarrow> peerAdd send (TrimSpace a) (Some r) s)
        else if sub = ''remove'' then
          (case rest of [] \<Rightarrow> (failCluster ''peer remove <host:port>'', s) | a # _ \<Rightarrow> peerRemove (TrimSpace a) s)
        else if sub = ''set-role'' then
          (case rest of
             a # r # _ \<Rightarrow>
               (case cc_node s of
                  None \<Rightarrow> (failCluster ''cluster manager not available'', s)
                | Some n \<Rightarrow>
                    let role = ToLower (TrimSpace r) in
                    if role \<noteq> ''full'' \<and> role \<noteq> ''readonly'' then (failCluster ''role must be full or readonly'', s)
                    else case pushRole send n (TrimSpace a) role of
                      Some e \<Rightarrow> (failCluster e, s)
                    | None \<Rightarrow> (clusterDone ''cluster: peer role updated on remote'', s))
           | _ \<Rightarrow> (failCluster ''peer set-role <host:port> full|readonly'', s))
        else (failCluster ''peer: unknown subcommand (try peer ?)'', s))"

definition handleClusterPush ::
    "cluster_env \<Rightarrow> (gostr \<Rightarrow> doc \<Rightarrow> gostr option) \<Rightarrow> gostr list \<Rightarrow> cluster_cmd \<Rightarrow> cmd_result \<times> cluster_cmd" where
  "handleClusterPush env send args s = (case args of
      k # a # _ \<Rightarrow>
        (case cc_node s of
           None \<Rightarrow> (failCluster ''cluster manager not available'', s)
         | Some n \<Rightarrow>
             let kind = ToLower (TrimSpace k); addr = TrimSpace a; cfg = cc_settings s in
             if kind = ''records'' then
               (case PushRecordsToPeer env addr n of
                  (n', Inl e) \<Rightarrow> (failCluster e, s\<lparr>cc_node := Some n'\<rparr>)
                | (n', Inr sent) \<Rightarrow> (clusterDone ''cluster: push records sent'', s\<lparr>cc_node := Some n'\<rparr>))
             else if kind = ''config'' then
               (case AdminPushConfig n addr (Cluster.empty_doc\<lparr>dc_auth_token := cf_ClusterAuthToken cfg,
                    dc_peers := (if cf_ClusterPeers cfg = [] then None else Some (cf_ClusterPeers cfg))\<rparr>) of
                  Inl e \<Rightarrow> (failCluster e, s)
                | Inr (to, auth, msg) \<Rightarrow>
                    (case send to msg of
                       Some e \<Rightarrow> (failCluster e, s)
                     | None \<Rightarrow> (clusterDone ''cluster: config pushed to peer'', s)))
             else (failCluster ''push: use records or config (try push ?)'', s))
    | _ \<Rightarrow> (failCluster ''push records|config <host:port>'', s))"

lemma cc_update_peers:
  assumes "cc_node s = Some n"
  shows "\<exists>n'. cc_node (cc_update cfg s) = Some n' \<and> nd_effectivePeers n' = nd_effectivePeers n"
  using assms by (simp add: cc_update_def UpdateSettings_def)

lemma peerAdd_peers:
  assumes "cc_node s = Some n" "peerAdd send addr role s = (r, s')"
  shows "\<exists>n'. cc_node s' = Some n' \<and> nd_effectivePeers n' = nd_effectivePeers n"
proof -
  let ?cfg = "(cc_settings s)\<lparr>cf_ClusterPeers := cf_ClusterPeers (cc_settings s) @ [addr]\<rparr>"
  have "s' = s \<or> s' = cc_update ?cfg s"
    using assms(2) by (auto simp: peerAdd_def Let_def split: if_splits option.splits)
  then show ?thesis using assms(1) cc_update_peers [OF assms(1), of ?cfg] by auto
qed

lemma peerRemove_peers:
  assumes "cc_node s = Some n" "peerRemove addr s = (r, s')"
  shows "\<exists>n'. cc_node s' = Some n' \<and> nd_effectivePeers n' = nd_effectivePeers n"
  using assms cc_update_peers [OF assms(1)] by (auto simp: peerRemove_def Let_def split: if_splits)

text \<open>The peer commands change the configuration but not the peers that are contacted: while the manager has a
  list of effective peers, adding or removing a peer leaves that list as it was, so a peer that was removed
  is still sent every snapshot, until the peers are computed again.\<close>

theorem peer_commands_keep_targets:
  assumes "cc_node s = Some n" "nd_effectivePeers n \<noteq> []" "handleClusterPeer send args s = (r, s')"
  shows "\<exists>n'. cc_node s' = Some n' \<and> listPeerTargets n' (nd_cfg n') = listPeerTargets n (nd_cfg n)"
proof -
  have "(\<exists>a ro. peerAdd send a ro s = (r, s')) \<or> (\<exists>a. peerRemove a s = (r, s')) \<or> s' = s"
    using assms(3) by (auto simp: handleClusterPeer_def Let_def split: list.splits if_splits option.splits)
  then have "\<exists>n'. cc_node s' = Some n' \<and> nd_effectivePeers n' = nd_effectivePeers n"
    using peerAdd_peers [OF assms(1)] peerRemove_peers [OF assms(1)] assms(1) by blast
  then show ?thesis using assms(2) by (auto simp: listPeerTargets_def)
qed

definition peer_data :: resolver_data where
  "peer_data = cluster_data\<lparr>rd_Settings := (rd_Settings cluster_data)\<lparr>cf_ClusterPeers := [''p:1'']\<rparr>\<rparr>"

definition peer_session :: cluster_cmd where
  "peer_session = \<lparr>cc_node = Some (sample_node\<lparr>nd_data := peer_data, nd_effectivePeers := [''p:1'']\<rparr>), cc_data = peer_data,
     cc_world = blank_world\<rparr>"

theorem peer_commands_keep_targets_witness:
  "\<exists>n' s'. handleClusterPeer (\<lambda>to msg. None) [''remove'', ''p:1''] peer_session = (clusterDone ''cluster: peer removed'', s') \<and>
     cf_ClusterPeers (cc_settings s') = [] \<and> cc_node s' = Some n' \<and> listPeerTargets n' (nd_cfg n') = [''p:1'']"
proof -
  let ?cfg = "(rd_Settings peer_data)\<lparr>cf_ClusterPeers := []\<rparr>"
  have t: "ToLower (TrimSpace ''remove'') = ''remove''" "TrimSpace ''p:1'' = ''p:1''" by code_simp+
  have h: "handleClusterPeer (\<lambda>to msg. None) [''remove'', ''p:1''] peer_session =
      (clusterDone ''cluster: peer removed'', cc_update ?cfg peer_session)"
    by (simp add: handleClusterPeer_def peerRemove_def t cc_settings_def peer_session_def peer_data_def Let_def)
  have "cf_ClusterPeers (cc_settings (cc_update ?cfg peer_session)) = []"
    by (simp add: cc_update_def UpdateSettings_def cc_settings_def)
  moreover obtain n' where "cc_node (cc_update ?cfg peer_session) = Some n'" "listPeerTargets n' (nd_cfg n') = [''p:1'']"
    using peer_commands_keep_targets [OF _ _ h] by (auto simp: peer_session_def listPeerTargets_def)
  ultimately show ?thesis using h by blast
qed

subsection \<open>Starting and stopping listeners from a session\<close>

text \<open>The commands \<^verbatim>\<open>server start\<close> and \<^verbatim>\<open>server stop\<close> (\<^verbatim>\<open>commandhandler/commandhandler.go\<close>): which of the hooks that
  \<^verbatim>\<open>main.go\<close> registers is called.\<close>

datatype server_action = RestartDNS gostr | StopDNS | StartAPI gostr | StopAPI | StartClientTCP | StopClientTCP

datatype server_reply = ServerUsage | UnknownComponent gostr | AskConfirmation | ServerDo server_action

definition handleServerStart :: "Config \<Rightarrow> gostr list \<Rightarrow> server_reply" where
  "handleServerStart settings args =
     (if IsHelpRequest args \<or> args = [] then ServerUsage
      else
        let component = ToLower (args ! 0) in
        if component = ''dns'' then ServerDo (RestartDNS (cf_DNSPort settings))
        else if component = ''api'' then ServerDo (StartAPI (cf_RESTPort settings))
        else if component = ''client'' then ServerDo StartClientTCP
        else UnknownComponent (args ! 0))"

definition handleServerStop :: "bool \<Rightarrow> gostr list \<Rightarrow> server_reply" where
  "handleServerStop overTCP args =
     (if IsHelpRequest args \<or> args = [] then ServerUsage
      else
        let component = ToLower (args ! 0) in
        if component = ''client'' \<and> overTCP \<and> (length args < 2 \<or> ToLower (TrimSpace (args ! 1)) \<noteq> ''confirm'') then AskConfirmation
        else if component = ''dns'' then ServerDo StopDNS
        else if component = ''api'' then ServerDo StopAPI
        else if component = ''client'' then ServerDo StopClientTCP
        else UnknownComponent (args ! 0))"

text \<open>A session over TCP cannot cut itself off by accident: the listener is stopped only after an explicit
  confirmation.\<close>

lemma own_listener_needs_confirmation:
  "handleServerStop True args = ServerDo StopClientTCP \<Longrightarrow> \<exists>a b rest. args = a # b # rest \<and> ToLower (TrimSpace b) = ''confirm''"
  by (cases args rule: list.exhaust; cases "tl args") (auto simp: handleServerStop_def Let_def split: if_splits)

end
