(* ===== verification/Lifecycle.thy ===== *)
theory Lifecycle
  imports GoPrelude
begin

text \<open>
  The life of the daemon: its shared state (\<^verbatim>\<open>daemon/state.go\<close>) and starting, stopping and restarting the DNS
  servers (\<^verbatim>\<open>main_dns_server.go\<close>).  A channel is a number; closing a closed channel panics.  The goroutines of
  one start form an instance: the UDP and the TCP server and the goroutine that waits for the stop signal.
  The steps of the instances and of the goroutine that runs the commands interleave.
\<close>

subsection \<open>The state of the daemon\<close>

record ListenerSettings =
  ls_ClientSocketPath :: gostr
  ls_ClientTCPAddress :: gostr
  ls_DNSPort :: gostr
  ls_APIPort :: gostr
  ls_APIEndpoint :: gostr
  ls_APIEnabled :: bool

text \<open>A connection is a number together with whether it is a TCP connection.\<close>

record daemon_state =
  ds_stopDNSCh :: nat
  ds_stoppedDNSCh :: nat
  ds_stopClosed :: bool
  ds_stoppedClosed :: bool
  ds_serverUp :: bool
  ds_daemonMode :: bool
  ds_listener :: ListenerSettings
  ds_apiRunning :: bool
  ds_tuiClientConn :: "(nat \<times> bool) option"
  ds_tuiClientAddr :: gostr
  ds_tuiClientSince :: gotime
  ds_tuiClientIsTCP :: bool
  ds_nextCh :: nat
  ds_closed :: "nat list"
  ds_panicked :: bool

definition close_chan :: "nat \<Rightarrow> daemon_state \<Rightarrow> daemon_state" where
  "close_chan c s = (if c \<in> set (ds_closed s) then s\<lparr>ds_panicked := True\<rparr> else s\<lparr>ds_closed := c # ds_closed s\<rparr>)"

definition ResetDNSChannels :: "daemon_state \<Rightarrow> daemon_state" where
  "ResetDNSChannels s =
     s\<lparr>ds_stopDNSCh := ds_nextCh s, ds_stoppedDNSCh := Suc (ds_nextCh s), ds_nextCh := Suc (Suc (ds_nextCh s)),
       ds_stopClosed := False, ds_stoppedClosed := False\<rparr>"

definition NewState :: daemon_state where
  "NewState = ResetDNSChannels
     \<lparr>ds_stopDNSCh = 0, ds_stoppedDNSCh = 0, ds_stopClosed = False, ds_stoppedClosed = False, ds_serverUp = False,
      ds_daemonMode = False, ds_listener = \<lparr>ls_ClientSocketPath = [], ls_ClientTCPAddress = [], ls_DNSPort = [], ls_APIPort = [],
      ls_APIEndpoint = [], ls_APIEnabled = False\<rparr>, ds_apiRunning = False, ds_tuiClientConn = None, ds_tuiClientAddr = [],
      ds_tuiClientSince = 0, ds_tuiClientIsTCP = False, ds_nextCh = 0, ds_closed = [], ds_panicked = False\<rparr>"

definition StopChannel :: "daemon_state \<Rightarrow> nat" where
  "StopChannel s = ds_stopDNSCh s"

definition StoppedChannel :: "daemon_state \<Rightarrow> nat" where
  "StoppedChannel s = ds_stoppedDNSCh s"

definition SignalStop :: "daemon_state \<Rightarrow> daemon_state \<times> nat" where
  "SignalStop s =
     (if ds_stopClosed s then s else (close_chan (ds_stopDNSCh s) s)\<lparr>ds_stopClosed := True\<rparr>, ds_stoppedDNSCh s)"

definition NotifyStopped :: "daemon_state \<Rightarrow> daemon_state" where
  "NotifyStopped s =
     (if ds_stoppedClosed s then s else (close_chan (ds_stoppedDNSCh s) s)\<lparr>ds_stoppedClosed := True\<rparr>)"

definition SetServerStatus :: "bool \<Rightarrow> daemon_state \<Rightarrow> daemon_state" where
  "SetServerStatus up s = s\<lparr>ds_serverUp := up\<rparr>"

definition SetDaemonMode :: "bool \<Rightarrow> daemon_state \<Rightarrow> daemon_state" where
  "SetDaemonMode e s = s\<lparr>ds_daemonMode := e\<rparr>"

definition UpdateListener :: "(ListenerSettings \<Rightarrow> ListenerSettings) \<Rightarrow> daemon_state \<Rightarrow> daemon_state" where
  "UpdateListener f s = s\<lparr>ds_listener := f (ds_listener s)\<rparr>"

definition SetAPIRunning :: "bool \<Rightarrow> daemon_state \<Rightarrow> daemon_state" where
  "SetAPIRunning r s = s\<lparr>ds_apiRunning := r\<rparr>"

definition SetTUIClientSession :: "gotime \<Rightarrow> (nat \<times> bool) option \<Rightarrow> gostr \<Rightarrow> daemon_state \<Rightarrow> daemon_state" where
  "SetTUIClientSession now conn addr s =
     s\<lparr>ds_tuiClientConn := conn, ds_tuiClientAddr := addr, ds_tuiClientSince := now,
       ds_tuiClientIsTCP := (case conn of None \<Rightarrow> False | Some (i, tcp) \<Rightarrow> tcp)\<rparr>"

definition ClearTUIClientSession :: "daemon_state \<Rightarrow> daemon_state" where
  "ClearTUIClientSession s =
     s\<lparr>ds_tuiClientConn := None, ds_tuiClientAddr := [], ds_tuiClientSince := 0, ds_tuiClientIsTCP := False\<rparr>"

text \<open>The result names the connection that is closed.\<close>

definition DisconnectCurrentTUIClient :: "daemon_state \<Rightarrow> daemon_state \<times> (nat \<times> bool) option" where
  "DisconnectCurrentTUIClient s =
     (s\<lparr>ds_tuiClientConn := None, ds_tuiClientAddr := [], ds_tuiClientSince := 0\<rparr>, ds_tuiClientConn s)"

subsection \<open>One start of the servers\<close>

datatype phase = Starting | Serving | Draining | Returned | Ended

text \<open>\<open>di_watch\<close>: the stop channel, once the waiting goroutine has read it; \<open>di_shut\<close>: it has shut the servers
  down; \<open>di_started\<close>: the start was reported; \<open>di_err\<close>: an error was reported.\<close>

record dns_instance =
  di_udp :: phase
  di_tcp :: phase
  di_watch :: "nat option"
  di_shut :: bool
  di_started :: bool
  di_err :: bool

definition new_instance :: dns_instance where
  "new_instance = \<lparr>di_udp = Starting, di_tcp = Starting, di_watch = None, di_shut = False, di_started = False, di_err = False\<rparr>"

text \<open>The steps of the goroutines of \<^verbatim>\<open>startDNSServer\<close>; \<open>faults\<close>: listeners may fail.  The status is set before
  the deferred notification runs.  Shutting down a server that does not serve yet only reports an error.\<close>

inductive inst_step :: "bool \<Rightarrow> daemon_state \<times> dns_instance \<Rightarrow> daemon_state \<times> dns_instance \<Rightarrow> bool" for faults where
  udp_ok: "di_udp i = Starting \<Longrightarrow>
    inst_step faults (s, i) (SetServerStatus True s, i\<lparr>di_udp := Serving, di_started := True\<rparr>)"
| tcp_ok: "di_tcp i = Starting \<Longrightarrow> inst_step faults (s, i) (s, i\<lparr>di_tcp := Serving\<rparr>)"
| watch: "di_watch i = None \<Longrightarrow> inst_step faults (s, i) (s, i\<lparr>di_watch := Some (StopChannel s)\<rparr>)"
| shutdown: "di_watch i = Some c \<Longrightarrow> c \<in> set (ds_closed s) \<Longrightarrow> \<not> di_shut i \<Longrightarrow>
    inst_step faults (s, i)
      (s, i\<lparr>di_shut := True, di_udp := (if di_udp i = Serving then Draining else di_udp i),
            di_tcp := (if di_tcp i = Serving then Ended else di_tcp i),
            di_err := (di_err i \<or> di_udp i \<noteq> Serving \<or> di_tcp i \<noteq> Serving)\<rparr>)"
| udp_return: "di_udp i = Draining \<Longrightarrow> inst_step faults (s, i) (SetServerStatus False s, i\<lparr>di_udp := Returned\<rparr>)"
| notify: "di_udp i = Returned \<Longrightarrow> inst_step faults (s, i) (NotifyStopped s, i\<lparr>di_udp := Ended\<rparr>)"
| udp_fail: "faults \<Longrightarrow> di_udp i \<in> {Starting, Serving} \<Longrightarrow>
    inst_step faults (s, i) (SetServerStatus False s, i\<lparr>di_udp := Returned, di_err := True\<rparr>)"
| tcp_fail: "faults \<Longrightarrow> di_tcp i \<in> {Starting, Serving} \<Longrightarrow>
    inst_step faults (s, i) (SetServerStatus False s, i\<lparr>di_tcp := Ended, di_err := True\<rparr>)"

subsection \<open>The commands\<close>

text \<open>What the goroutine that runs \<^verbatim>\<open>stopDNSServer\<close> and \<^verbatim>\<open>restartDNSServer\<close> does: nothing, waiting for a channel
  with or without a start to follow, or waiting for the start to be reported.\<close>

datatype control = Idle | Waiting nat bool | AwaitStart

record dns_system =
  sy_state :: daemon_state
  sy_old :: "dns_instance list"
  sy_cur :: dns_instance
  sy_ctl :: control

definition startDNSServer :: "dns_system \<Rightarrow> dns_system" where
  "startDNSServer y = y\<lparr>sy_old := sy_cur y # sy_old y, sy_cur := new_instance, sy_ctl := AwaitStart\<rparr>"

definition resetAndStart :: "dns_system \<Rightarrow> dns_system" where
  "resetAndStart y = startDNSServer (y\<lparr>sy_state := ResetDNSChannels (sy_state y)\<rparr>)"

definition stopDNSServer :: "bool \<Rightarrow> dns_system \<Rightarrow> dns_system" where
  "stopDNSServer restart y =
     (if \<not> ds_serverUp (sy_state y) then (if restart then resetAndStart y else y)
      else case SignalStop (sy_state y) of (s', stopped) \<Rightarrow> y\<lparr>sy_state := s', sy_ctl := Waiting stopped restart\<rparr>)"

definition afterWait :: "bool \<Rightarrow> dns_system \<Rightarrow> dns_system" where
  "afterWait restart y =
     (let y' = y\<lparr>sy_state := SetServerStatus False (sy_state y), sy_ctl := Idle\<rparr> in if restart then resetAndStart y' else y')"

inductive sys_step :: "bool \<Rightarrow> dns_system \<Rightarrow> dns_system \<Rightarrow> bool" for faults where
  stop: "sy_ctl y = Idle \<Longrightarrow> sys_step faults y (stopDNSServer False y)"
| restart: "sy_ctl y = Idle \<Longrightarrow> sys_step faults y (stopDNSServer True y)"
| wait_done: "sy_ctl y = Waiting c r \<Longrightarrow> c \<in> set (ds_closed (sy_state y)) \<Longrightarrow> sys_step faults y (afterWait r y)"
| wait_timeout: "faults \<Longrightarrow> sy_ctl y = Waiting c r \<Longrightarrow> sys_step faults y (afterWait r y)"
| start_done: "sy_ctl y = AwaitStart \<Longrightarrow> di_started (sy_cur y) \<or> di_err (sy_cur y) \<Longrightarrow> sys_step faults y (y\<lparr>sy_ctl := Idle\<rparr>)"
| current: "inst_step faults (sy_state y, sy_cur y) (s', i') \<Longrightarrow> sys_step faults y (y\<lparr>sy_state := s', sy_cur := i'\<rparr>)"
| old: "sy_old y = xs @ i # ys \<Longrightarrow> inst_step faults (sy_state y, i) (s', i') \<Longrightarrow>
    sys_step faults y (y\<lparr>sy_state := s', sy_old := xs @ i' # ys\<rparr>)"

definition booted :: dns_system where
  "booted = \<lparr>sy_state = NewState, sy_old = [], sy_cur = new_instance, sy_ctl = AwaitStart\<rparr>"

subsection \<open>No channel is closed twice\<close>

definition chan_ok :: "daemon_state \<Rightarrow> bool" where
  "chan_ok s \<longleftrightarrow> (ds_stopClosed s \<longleftrightarrow> ds_stopDNSCh s \<in> set (ds_closed s)) \<and>
     (ds_stoppedClosed s \<longleftrightarrow> ds_stoppedDNSCh s \<in> set (ds_closed s)) \<and> ds_stopDNSCh s \<noteq> ds_stoppedDNSCh s \<and>
     ds_stopDNSCh s < ds_nextCh s \<and> ds_stoppedDNSCh s < ds_nextCh s \<and>
     (\<forall>c \<in> set (ds_closed s). c < ds_nextCh s) \<and> distinct (ds_closed s) \<and> \<not> ds_panicked s"

lemma chan_ok_ops:
  assumes "chan_ok s"
  shows "chan_ok (ResetDNSChannels s)" "chan_ok (fst (SignalStop s))" "chan_ok (NotifyStopped s)" "chan_ok (SetServerStatus up s)"
  using assms by (auto simp: chan_ok_def ResetDNSChannels_def SignalStop_def NotifyStopped_def SetServerStatus_def close_chan_def)

lemma chan_ok_NewState: "chan_ok NewState"
  by (simp add: chan_ok_def NewState_def ResetDNSChannels_def)

lemma inst_step_chan_ok: "inst_step faults si si' \<Longrightarrow> chan_ok (fst si) \<Longrightarrow> chan_ok (fst si')"
  by (induction rule: inst_step.induct) (simp_all add: chan_ok_ops)

lemma stopDNSServer_chan_ok: "chan_ok (sy_state y) \<Longrightarrow> chan_ok (sy_state (stopDNSServer r y))"
  using chan_ok_ops(2) [of "sy_state y"]
  by (simp add: stopDNSServer_def resetAndStart_def startDNSServer_def chan_ok_ops case_prod_beta)

lemma afterWait_chan_ok: "chan_ok (sy_state y) \<Longrightarrow> chan_ok (sy_state (afterWait r y))"
  by (simp add: afterWait_def resetAndStart_def startDNSServer_def chan_ok_ops Let_def)

lemma sys_step_chan_ok: "sys_step faults y y' \<Longrightarrow> chan_ok (sy_state y) \<Longrightarrow> chan_ok (sy_state y')"
  by (induction rule: sys_step.induct)
    (simp_all add: stopDNSServer_chan_ok afterWait_chan_ok, (drule inst_step_chan_ok, simp_all)+)

text \<open>C39.  However starts, stops, restarts, listener failures, time-outs and late goroutines interleave, no channel of
  the daemon state is closed twice, so no step panics, and the flags say which of the current channels are
  closed.\<close>

theorem lifecycle_never_panics:
  assumes "(sys_step faults)\<^sup>*\<^sup>* booted y"
  shows "\<not> ds_panicked (sy_state y) \<and> distinct (ds_closed (sy_state y)) \<and>
    (ds_stopClosed (sy_state y) \<longleftrightarrow> StopChannel (sy_state y) \<in> set (ds_closed (sy_state y))) \<and>
    (ds_stoppedClosed (sy_state y) \<longleftrightarrow> StoppedChannel (sy_state y) \<in> set (ds_closed (sy_state y)))"
proof -
  have "chan_ok (sy_state booted)" by (simp add: booted_def chan_ok_NewState)
  with assms have "chan_ok (sy_state y)" by (induction rule: rtranclp_induct) (auto intro: sys_step_chan_ok)
  then show ?thesis by (simp add: chan_ok_def StopChannel_def StoppedChannel_def)
qed

subsection \<open>Restarts without faults\<close>

text \<open>The state of the current start, for each state of the commands.\<close>

definition cur_ok :: "dns_system \<Rightarrow> bool" where
  "cur_ok y = (let s = sy_state y; i = sy_cur y; u = di_udp i in
     (di_watch i = None \<or> di_watch i = Some (ds_stopDNSCh s)) \<and>
     (case sy_ctl y of
        AwaitStart \<Rightarrow> \<not> ds_stopClosed s \<and> \<not> ds_stoppedClosed s \<and> \<not> di_shut i \<and> (u = Starting \<or> u = Serving) \<and>
          (ds_serverUp s \<longleftrightarrow> u = Serving) \<and> (di_started i \<longleftrightarrow> u = Serving) \<and> \<not> di_err i
      | Idle \<Rightarrow>
          (ds_serverUp s \<and> u = Serving \<and> \<not> ds_stopClosed s \<and> \<not> ds_stoppedClosed s \<and> \<not> di_shut i) \<or>
          (\<not> ds_serverUp s \<and> u = Ended \<and> ds_stoppedClosed s)
      | Waiting c r \<Rightarrow> c = ds_stoppedDNSCh s \<and> ds_stopClosed s \<and>
          (u = Serving \<and> ds_serverUp s \<and> \<not> ds_stoppedClosed s \<and> \<not> di_shut i \<or>
           u = Draining \<and> \<not> ds_stoppedClosed s \<or> u = Returned \<and> \<not> ds_stoppedClosed s \<and> \<not> ds_serverUp s \<or>
           u = Ended \<and> \<not> ds_serverUp s)))"

definition sys_ok :: "dns_system \<Rightarrow> bool" where
  "sys_ok y \<longleftrightarrow> chan_ok (sy_state y) \<and> (\<forall>i \<in> set (sy_old y). di_udp i = Ended) \<and> cur_ok y"

lemma fresh_start_ok:
  "chan_ok (sy_state y) \<Longrightarrow> \<forall>i \<in> set (sy_old y). di_udp i = Ended \<Longrightarrow> di_udp (sy_cur y) = Ended \<Longrightarrow>
     \<not> ds_serverUp (sy_state y) \<Longrightarrow> sys_ok (resetAndStart y)"
  using chan_ok_ops(1) [of "sy_state y"]
  by (simp add: sys_ok_def resetAndStart_def startDNSServer_def cur_ok_def new_instance_def ResetDNSChannels_def)

lemma stopDNSServer_ok:
  assumes "sys_ok y" "sy_ctl y = Idle"
  shows "sys_ok (stopDNSServer r y)"
proof (cases "ds_serverUp (sy_state y)")
  case True
  then have "chan_ok (sy_state (stopDNSServer r y))" using assms by (intro stopDNSServer_chan_ok) (simp add: sys_ok_def)
  then show ?thesis
    using assms True by (auto simp: sys_ok_def stopDNSServer_def SignalStop_def cur_ok_def Let_def close_chan_def)
next
  case False
  then have "di_udp (sy_cur y) = Ended" using assms by (auto simp: sys_ok_def cur_ok_def Let_def)
  then show ?thesis using False assms fresh_start_ok [of y] by (auto simp: stopDNSServer_def sys_ok_def)
qed

lemma afterWait_ok:
  assumes "sys_ok y" "sy_ctl y = Waiting c r" "c \<in> set (ds_closed (sy_state y))"
  shows "sys_ok (afterWait r y)"
proof -
  let ?y = "y\<lparr>sy_state := SetServerStatus False (sy_state y), sy_ctl := Idle\<rparr>"
  have "ds_stoppedClosed (sy_state y)" using assms by (auto simp: sys_ok_def cur_ok_def Let_def chan_ok_def)
  then have u: "di_udp (sy_cur y) = Ended" "ds_stoppedClosed (sy_state y)"
    using assms by (auto simp: sys_ok_def cur_ok_def Let_def)
  have c: "chan_ok (sy_state ?y)" using assms(1) by (simp add: sys_ok_def chan_ok_ops)
  have "sys_ok ?y" using assms(1,2) u c by (auto simp: sys_ok_def cur_ok_def Let_def SetServerStatus_def)
  moreover have "sys_ok (resetAndStart ?y)"
    using fresh_start_ok [of ?y] c u assms(1) by (simp add: sys_ok_def SetServerStatus_def)
  ultimately show ?thesis by (simp add: afterWait_def Let_def)
qed

lemma inst_step_ended:
  "inst_step False (s, i) (s', i') \<Longrightarrow> di_udp i = Ended \<Longrightarrow> s' = s \<and> di_udp i' = Ended"
  by (erule inst_step.cases) auto

lemma current_step_ok:
  assumes "sys_ok y" "inst_step False (sy_state y, sy_cur y) (s', i')"
  shows "sys_ok (y\<lparr>sy_state := s', sy_cur := i'\<rparr>)"
proof -
  have c: "chan_ok s'" using inst_step_chan_ok [OF assms(2)] assms(1) by (simp add: sys_ok_def)
  have "cur_ok (y\<lparr>sy_state := s', sy_cur := i'\<rparr>)"
    using assms(2)
  proof (cases rule: inst_step.cases)
    case (shutdown w)
    then have "ds_stopClosed (sy_state y)" using assms(1) by (auto simp: sys_ok_def cur_ok_def Let_def chan_ok_def)
    then show ?thesis
      using shutdown assms(1) by (cases "sy_ctl y") (auto simp: sys_ok_def cur_ok_def Let_def)
  next
    case notify
    then show ?thesis
      using assms(1) by (cases "sy_ctl y") (auto simp: sys_ok_def cur_ok_def Let_def NotifyStopped_def close_chan_def)
  qed (use assms(1) in \<open>cases "sy_ctl y"; auto simp: sys_ok_def cur_ok_def Let_def SetServerStatus_def StopChannel_def\<close>)+
  then show ?thesis using assms(1) c by (simp add: sys_ok_def)
qed

lemma sys_step_ok: "sys_step False y y' \<Longrightarrow> sys_ok y \<Longrightarrow> sys_ok y'"
proof (induction rule: sys_step.induct)
  case (start_done y)
  then show ?case by (auto simp: sys_ok_def cur_ok_def Let_def)
next
  case (old y xs i ys s' i')
  have i: "di_udp i = Ended" using old by (auto simp: sys_ok_def)
  then show ?case using inst_step_ended [OF old(2) i] old(1,3) by (auto simp: sys_ok_def cur_ok_def Let_def)
qed (auto intro: stopDNSServer_ok afterWait_ok current_step_ok)

text \<open>C40.  As long as no listener fails and no wait times out, restarts are clean: at most one start has a UDP
  server that has not ended, and while no command is running the reported status is true exactly when the UDP
  server of the last start serves.\<close>

theorem restart_keeps_one_server:
  assumes "(sys_step False)\<^sup>*\<^sup>* booted y"
  shows "length (filter (\<lambda>i. di_udp i \<noteq> Ended) (sy_cur y # sy_old y)) \<le> 1 \<and>
    (sy_ctl y = Idle \<longrightarrow> (ds_serverUp (sy_state y) \<longleftrightarrow> di_udp (sy_cur y) = Serving))"
proof -
  have "sys_ok booted"
    using chan_ok_NewState by (simp add: sys_ok_def booted_def cur_ok_def new_instance_def NewState_def ResetDNSChannels_def)
  with assms have y: "sys_ok y" by (induction rule: rtranclp_induct) (auto intro: sys_step_ok)
  then have "filter (\<lambda>i. di_udp i \<noteq> Ended) (sy_old y) = []" by (simp add: sys_ok_def)
  then show ?thesis using y by (auto simp: sys_ok_def cur_ok_def Let_def)
qed

subsection \<open>Runs\<close>

definition serving :: dns_system where
  "serving = booted\<lparr>sy_state := SetServerStatus True NewState,
     sy_cur := new_instance\<lparr>di_udp := Serving, di_started := True\<rparr>, sy_ctl := Idle\<rparr>"

lemma booted_serving: "(sys_step faults)\<^sup>*\<^sup>* booted serving"
proof -
  let ?y = "booted\<lparr>sy_state := SetServerStatus True NewState, sy_cur := new_instance\<lparr>di_udp := Serving, di_started := True\<rparr>\<rparr>"
  have "inst_step faults (sy_state booted, sy_cur booted)
      (SetServerStatus True NewState, new_instance\<lparr>di_udp := Serving, di_started := True\<rparr>)"
    using udp_ok [of new_instance faults NewState] by (simp add: booted_def new_instance_def)
  then have "sys_step faults booted ?y" by (rule current)
  moreover have "sys_step faults ?y (?y\<lparr>sy_ctl := Idle\<rparr>)" by (rule start_done) (simp_all add: booted_def)
  ultimately show ?thesis unfolding serving_def by (meson rtranclp.intros)
qed

theorem lifecycle_never_panics_witness:
  "\<not> ds_panicked (sy_state (stopDNSServer False serving)) \<and> ds_stopClosed (sy_state (stopDNSServer False serving))"
  using lifecycle_never_panics [OF rtranclp.rtrancl_into_rtrancl [OF booted_serving stop [of serving True]]]
  by (simp add: serving_def stopDNSServer_def SetServerStatus_def SignalStop_def NewState_def ResetDNSChannels_def)

theorem restart_keeps_one_server_witness:
  "length (filter (\<lambda>i. di_udp i \<noteq> Ended) (sy_cur serving # sy_old serving)) \<le> 1 \<and>
   (ds_serverUp (sy_state serving) \<longleftrightarrow> di_udp (sy_cur serving) = Serving)"
  using restart_keeps_one_server [OF booted_serving] by (simp add: serving_def)

text \<open>When the TCP listener fails while the UDP server serves, the status says that nothing runs, so \<^verbatim>\<open>stop\<close> does
  nothing, and \<^verbatim>\<open>restart\<close> starts new servers without stopping the old one: it waits for a channel that no
  operation can close any more, and goes on serving.\<close>

theorem tcp_failure_orphans_udp:
  "\<exists>y. (sys_step True)\<^sup>*\<^sup>* booted y \<and> sy_ctl y = Idle \<and> di_udp (sy_cur y) = Serving \<and> stopDNSServer False y = y \<and>
     (let y' = stopDNSServer True y in
        (\<exists>i \<in> set (sy_old y'). di_udp i = Serving \<and> di_watch i \<noteq> None \<and> di_watch i \<noteq> Some (StopChannel (sy_state y')) \<and>
           the (di_watch i) \<notin> set (ds_closed (sy_state y'))))"
proof -
  let ?i = "(sy_cur serving)\<lparr>di_watch := Some 0\<rparr>"
  let ?w = "serving\<lparr>sy_state := sy_state serving, sy_cur := ?i\<rparr>"
  let ?y = "?w\<lparr>sy_state := SetServerStatus False (sy_state serving), sy_cur := ?i\<lparr>di_tcp := Ended, di_err := True\<rparr>\<rparr>"
  note d = serving_def booted_def new_instance_def NewState_def ResetDNSChannels_def SetServerStatus_def StopChannel_def
  have "sys_step True serving ?w"
    using watch [of "sy_cur serving" True "sy_state serving"] by (intro current) (simp add: d)
  moreover have "sys_step True ?w ?y"
    using tcp_fail [of True ?i "sy_state serving"] by (intro current) (simp add: d)
  ultimately have r: "(sys_step True)\<^sup>*\<^sup>* booted ?y" using booted_serving by (meson rtranclp.rtrancl_into_rtrancl)
  show ?thesis
  proof (intro exI [of _ ?y] conjI)
    show "let y' = stopDNSServer True ?y in \<exists>i \<in> set (sy_old y'). di_udp i = Serving \<and> di_watch i \<noteq> None \<and>
        di_watch i \<noteq> Some (StopChannel (sy_state y')) \<and> the (di_watch i) \<notin> set (ds_closed (sy_state y'))"
      by (simp add: d stopDNSServer_def resetAndStart_def startDNSServer_def)
  qed (use r in \<open>simp_all add: d stopDNSServer_def\<close>)
qed

end
