(* ===== verification/Sessions.thy ===== *)
theory Sessions
  imports Lifecycle HostPort
begin

text \<open>
  Interactive sessions, \<^verbatim>\<open>main_tui_server.go\<close> and \<^verbatim>\<open>main_client.go\<close>: one client at a time holds the session
  mutex, a second one is told who holds it, and a client started with \<^verbatim>\<open>--kill\<close> disconnects the current one and
  waits.  The goroutines of the connections interleave; a connection is a number.  Also the line ends of the
  session, the banner that the client reads, the address it connects to, and the terminal listener.
\<close>

subsection \<open>Sessions\<close>

text \<open>Where a goroutine that serves a connection is: it has read the first line (\<open>Greeting\<close>, with whether it was the
  kill command), is about to close the connection it has taken from the daemon state, waits for the mutex, did not
  get it, holds it, runs the commands, has returned from them, has cleared the record of the client, has released
  the mutex, or has ended; \<open>Refused\<close> has the address and the time it was told.\<close>

datatype session_phase =
    Greeting bool
  | Closing_Other "(nat \<times> bool) option"
  | Waiting_Lock
  | Turned_Away
  | Holding
  | Running
  | Finished
  | Cleared
  | Unlocked
  | Session_Ended
  | Refused gostr gotime

record sessions =
  se_state :: daemon_state
  se_lock :: "nat option"
  se_phase :: "nat \<Rightarrow> session_phase option"
  se_addr :: "nat \<Rightarrow> gostr"
  se_tcp :: "nat \<Rightarrow> bool"
  se_closed :: "nat list"

definition close_conn :: "(nat \<times> bool) option \<Rightarrow> sessions \<Rightarrow> sessions" where
  "close_conn c y = (case c of None \<Rightarrow> y | Some (i, tcp) \<Rightarrow> y\<lparr>se_closed := i # se_closed y\<rparr>)"

definition at :: "nat \<Rightarrow> session_phase \<Rightarrow> sessions \<Rightarrow> sessions" where
  "at i p y = y\<lparr>se_phase := (se_phase y)(i \<mapsto> p)\<rparr>"

text \<open>\<^verbatim>\<open>acceptInteractiveSessions\<close> starts \<^verbatim>\<open>serveInteractiveSession\<close> for a new connection.\<close>

definition acceptSession :: "nat \<Rightarrow> bool \<Rightarrow> gostr \<Rightarrow> bool \<Rightarrow> sessions \<Rightarrow> sessions" where
  "acceptSession i kill addr tcp y =
     (at i (Greeting kill) y)\<lparr>se_addr := (se_addr y)(i := addr), se_tcp := (se_tcp y)(i := tcp)\<rparr>"

text \<open>The first half of \<^verbatim>\<open>DisconnectCurrentTUIClient\<close>, under the mutex of the client record, or \<^verbatim>\<open>TryLock\<close>.\<close>

definition greet :: "nat \<Rightarrow> bool \<Rightarrow> sessions \<Rightarrow> sessions" where
  "greet i kill y =
     (if kill then
        (case DisconnectCurrentTUIClient (se_state y) of (s', conn) \<Rightarrow> at i (Closing_Other conn) (y\<lparr>se_state := s'\<rparr>))
      else if se_lock y = None then at i Holding (y\<lparr>se_lock := Some i\<rparr>)
      else at i Turned_Away y)"

definition closeOther :: "nat \<Rightarrow> (nat \<times> bool) option \<Rightarrow> sessions \<Rightarrow> sessions" where
  "closeOther i conn y = at i Waiting_Lock (close_conn conn y)"

text \<open>The busy banner: \<^verbatim>\<open>GetTUIClientInfo\<close> reads the client record after \<^verbatim>\<open>TryLock\<close> has failed, under another
  mutex.\<close>

definition tellBusy :: "nat \<Rightarrow> sessions \<Rightarrow> sessions" where
  "tellBusy i y =
     (at i (Refused (ds_tuiClientAddr (se_state y)) (ds_tuiClientSince (se_state y))) y)\<lparr>se_closed := i # se_closed y\<rparr>"

definition enterSession :: "gotime \<Rightarrow> nat \<Rightarrow> sessions \<Rightarrow> sessions" where
  "enterSession now i y =
     at i Running (y\<lparr>se_state := SetTUIClientSession now (Some (i, se_tcp y i)) (se_addr y i) (se_state y)\<rparr>)"

definition clearSession :: "nat \<Rightarrow> sessions \<Rightarrow> sessions" where
  "clearSession i y = at i Cleared (y\<lparr>se_state := ClearTUIClientSession (se_state y)\<rparr>)"

definition releaseSession :: "nat \<Rightarrow> sessions \<Rightarrow> sessions" where
  "releaseSession i y = (at i Unlocked y)\<lparr>se_lock := None\<rparr>"

definition endSession :: "nat \<Rightarrow> sessions \<Rightarrow> sessions" where
  "endSession i y = (at i Session_Ended y)\<lparr>se_closed := i # se_closed y\<rparr>"

inductive session_step :: "sessions \<Rightarrow> sessions \<Rightarrow> bool" where
  accept: "se_phase y i = None \<Longrightarrow> session_step y (acceptSession i kill addr tcp y)"
| greets: "se_phase y i = Some (Greeting kill) \<Longrightarrow> session_step y (greet i kill y)"
| closes: "se_phase y i = Some (Closing_Other conn) \<Longrightarrow> session_step y (closeOther i conn y)"
| tells: "se_phase y i = Some Turned_Away \<Longrightarrow> session_step y (tellBusy i y)"
| locks: "se_phase y i = Some Waiting_Lock \<Longrightarrow> se_lock y = None \<Longrightarrow> session_step y (at i Holding (y\<lparr>se_lock := Some i\<rparr>))"
| enters: "se_phase y i = Some Holding \<Longrightarrow> session_step y (enterSession now i y)"
| returns: "se_phase y i = Some Running \<Longrightarrow> session_step y (at i Finished y)"
| clears: "se_phase y i = Some Finished \<Longrightarrow> session_step y (clearSession i y)"
| releases: "se_phase y i = Some Cleared \<Longrightarrow> session_step y (releaseSession i y)"
| ends: "se_phase y i = Some Unlocked \<Longrightarrow> session_step y (endSession i y)"

definition no_sessions :: sessions where
  "no_sessions = \<lparr>se_state = NewState, se_lock = None, se_phase = (\<lambda>i. None), se_addr = (\<lambda>i. []), se_tcp = (\<lambda>i. False), se_closed = []\<rparr>"

definition in_session :: "session_phase option \<Rightarrow> bool" where
  "in_session p \<longleftrightarrow> p \<in> {Some Holding, Some Running, Some Finished, Some Cleared}"

text \<open>The client that the daemon reports, if any.\<close>

abbreviation reported :: "sessions \<Rightarrow> (nat \<times> bool) option" where
  "reported y \<equiv> ds_tuiClientConn (se_state y)"

text \<open>The holder of the mutex is the goroutine inside the session; the client that the daemon reports is the one
  that holds the mutex; whoever was told an address was told that of a connection that had entered the session.\<close>

definition sessions_ok :: "sessions \<Rightarrow> bool" where
  "sessions_ok y \<longleftrightarrow> (\<forall>i. in_session (se_phase y i) \<longleftrightarrow> se_lock y = Some i) \<and>
     (\<forall>i tcp. reported y = Some (i, tcp) \<longrightarrow>
        se_phase y i \<in> {Some Running, Some Finished} \<and> ds_tuiClientAddr (se_state y) = se_addr y i \<and> tcp = se_tcp y i) \<and>
     (reported y = None \<longrightarrow> ds_tuiClientAddr (se_state y) = [])"

definition has_entered :: "session_phase option \<Rightarrow> bool" where
  "has_entered p \<longleftrightarrow> p \<in> {Some Running, Some Finished, Some Cleared, Some Unlocked, Some Session_Ended}"

definition told_ok :: "sessions \<Rightarrow> bool" where
  "told_ok y \<longleftrightarrow> (\<forall>i a t. se_phase y i = Some (Refused a t) \<longrightarrow> a = [] \<or> (\<exists>j. has_entered (se_phase y j) \<and> a = se_addr y j))"

lemmas session_defs = acceptSession_def greet_def closeOther_def tellBusy_def enterSession_def clearSession_def releaseSession_def
  endSession_def at_def close_conn_def DisconnectCurrentTUIClient_def SetTUIClientSession_def ClearTUIClientSession_def in_session_def

lemma session_step_ok:
  assumes "session_step y y'" "sessions_ok y"
  shows "sessions_ok y'"
proof -
  have lock: "in_session (se_phase y i) \<longleftrightarrow> se_lock y = Some i" for i using assms(2) by (simp add: sessions_ok_def)
  show ?thesis
    using assms(1)
  proof (cases rule: session_step.cases)
    case (accept i kill addr tcp)
    then show ?thesis using assms(2) lock [of i] by (auto simp: sessions_ok_def session_defs)
  next
    case (greets i kill)
    then show ?thesis using assms(2) lock [of i] by (auto simp: sessions_ok_def session_defs split: option.splits)
  next
    case (closes i conn)
    then show ?thesis using assms(2) lock [of i] by (auto simp: sessions_ok_def session_defs split: option.splits)
  next
    case (tells i)
    then show ?thesis using assms(2) lock [of i] by (auto simp: sessions_ok_def session_defs)
  next
    case (locks i)
    then show ?thesis using assms(2) lock [of i] by (auto simp: sessions_ok_def session_defs)
  next
    case (enters i now)
    then show ?thesis using assms(2) lock [of i] by (auto simp: sessions_ok_def session_defs)
  next
    case (returns i)
    then show ?thesis using assms(2) lock [of i] by (auto simp: sessions_ok_def session_defs)
  next
    case (clears i)
    then show ?thesis using assms(2) lock [of i] by (auto simp: sessions_ok_def session_defs)
  next
    case (releases i)
    then show ?thesis using assms(2) lock [of i] by (auto simp: sessions_ok_def session_defs)
  next
    case (ends i)
    then show ?thesis using assms(2) lock [of i] by (auto simp: sessions_ok_def session_defs)
  qed
qed

text \<open>A step keeps the addresses of the connections and what had entered, and only \<open>tellBusy\<close> refuses.\<close>

lemma session_step_entered:
  assumes "session_step y y'" "has_entered (se_phase y j)"
  shows "has_entered (se_phase y' j) \<and> se_addr y' j = se_addr y j"
  using assms by cases (auto simp: session_defs has_entered_def split: option.splits)

lemma session_step_refused:
  assumes "session_step y y'" "se_phase y' i = Some (Refused a t)"
  shows "se_phase y i = Some (Refused a t) \<or> a = ds_tuiClientAddr (se_state y)"
  using assms by cases (auto simp: session_defs split: option.splits if_splits)

lemma told_step:
  assumes "session_step y y'" "sessions_ok y" "told_ok y"
  shows "told_ok y'"
  unfolding told_ok_def
proof (intro allI impI)
  fix i a t
  assume "se_phase y' i = Some (Refused a t)"
  from session_step_refused [OF assms(1) this]
  have "a = [] \<or> (\<exists>j. has_entered (se_phase y j) \<and> a = se_addr y j)"
  proof
    assume a: "a = ds_tuiClientAddr (se_state y)"
    show ?thesis
    proof (cases "reported y")
      case None
      then show ?thesis using assms(2) a by (simp add: sessions_ok_def)
    next
      case (Some c)
      then have "has_entered (se_phase y (fst c)) \<and> a = se_addr y (fst c)"
        using assms(2) a by (cases c) (auto simp: sessions_ok_def has_entered_def)
      then show ?thesis by blast
    qed
  qed (use assms(3) in \<open>auto simp: told_ok_def\<close>)
  then show "a = [] \<or> (\<exists>j. has_entered (se_phase y' j) \<and> a = se_addr y' j)"
    using session_step_entered [OF assms(1)] by metis
qed

lemma reachable_sessions_ok: "session_step\<^sup>*\<^sup>* no_sessions y \<Longrightarrow> sessions_ok y \<and> told_ok y"
proof (induction rule: rtranclp_induct)
  case base
  show ?case by (simp add: sessions_ok_def told_ok_def no_sessions_def NewState_def ResetDNSChannels_def in_session_def)
next
  case (step y z)
  then show ?case using session_step_ok told_step by blast
qed

text \<open>C33.  Under every interleaving at most one connection is inside the session; the client that the daemon reports
  is the one that holds the mutex.  A client that does not get the mutex is told, when it asks who holds it, the
  address and the start of the session that the daemon reports at that moment: the holder's, if a client is
  reported, and no address otherwise (the holder is not recorded yet, a kill has removed it, or it has gone); an
  address told at any time is that of a connection that has been in the session.  And while a connection has not
  ended, some goroutine can proceed.\<close>

theorem one_session_at_a_time:
  assumes "session_step\<^sup>*\<^sup>* no_sessions y"
  shows "(\<forall>i j. in_session (se_phase y i) \<and> in_session (se_phase y j) \<longrightarrow> i = j) \<and>
    (\<forall>i tcp. reported y = Some (i, tcp) \<longrightarrow> se_lock y = Some i \<and> ds_tuiClientAddr (se_state y) = se_addr y i) \<and>
    (\<forall>i. se_phase (tellBusy i y) i =
       Some (Refused (case reported y of Some (j, tcp) \<Rightarrow> se_addr y j | None \<Rightarrow> []) (ds_tuiClientSince (se_state y)))) \<and>
    (\<forall>i a t. se_phase y i = Some (Refused a t) \<longrightarrow> a = [] \<or> (\<exists>j. has_entered (se_phase y j) \<and> a = se_addr y j)) \<and>
    (\<forall>i p. se_phase y i = Some p \<and> p \<noteq> Session_Ended \<and> (\<forall>a t. p \<noteq> Refused a t) \<longrightarrow>
       (\<exists>y' j. session_step y y' \<and> se_phase y j \<noteq> None \<and> se_phase y' j \<noteq> se_phase y j))"
proof -
  have ok: "sessions_ok y" and hist: "told_ok y" using reachable_sessions_ok [OF assms] by auto
  have lock: "in_session (se_phase y i) \<longleftrightarrow> se_lock y = Some i" for i using ok by (simp add: sessions_ok_def)
  have client: "se_lock y = Some i \<and> ds_tuiClientAddr (se_state y) = se_addr y i" if "reported y = Some (i, tcp)" for i tcp
    using ok that lock [of i] by (auto simp: sessions_ok_def in_session_def)
  have told: "se_phase (tellBusy i y) i =
      Some (Refused (case reported y of Some (j, tcp) \<Rightarrow> se_addr y j | None \<Rightarrow> []) (ds_tuiClientSince (se_state y)))" for i
    using ok client by (cases "reported y") (auto simp: sessions_ok_def tellBusy_def at_def)
  have inside: "\<exists>y' j. session_step y y' \<and> se_phase y j \<noteq> None \<and> se_phase y' j \<noteq> se_phase y j" if "in_session (se_phase y i)" for i
    using that enters [of y i 0] returns [of y i] clears [of y i] releases [of y i]
    by (fastforce simp: in_session_def session_defs)
  have live: "\<exists>y' j. session_step y y' \<and> se_phase y j \<noteq> None \<and> se_phase y' j \<noteq> se_phase y j"
    if "se_phase y i = Some p" "p \<noteq> Session_Ended" "\<forall>a t. p \<noteq> Refused a t" for i p
  proof (cases p)
    case (Greeting k)
    then show ?thesis using that(1) greets [of y i k]
      by (intro exI [of _ "greet i k y"] exI [of _ i]) (auto simp: session_defs split: option.splits)
  next
    case (Closing_Other c)
    then show ?thesis using that(1) closes [of y i c]
      by (intro exI [of _ "closeOther i c y"] exI [of _ i]) (auto simp: session_defs split: option.splits)
  next
    case Turned_Away
    then show ?thesis using that(1) tells [of y i] by (intro exI [of _ "tellBusy i y"] exI [of _ i]) (auto simp: session_defs)
  next
    case Unlocked
    then show ?thesis using that(1) ends [of y i] by (intro exI [of _ "endSession i y"] exI [of _ i]) (auto simp: session_defs)
  next
    case Waiting_Lock
    show ?thesis
    proof (cases "se_lock y")
      case None
      then show ?thesis using that(1) Waiting_Lock locks [of y i]
        by (intro exI [of _ "at i Holding (y\<lparr>se_lock := Some i\<rparr>)"] exI [of _ i]) (auto simp: at_def)
    next
      case (Some j)
      then show ?thesis using inside [of j] lock [of j] by simp
    qed
  qed (use that inside [of i] in \<open>auto simp: in_session_def\<close>)
  have one: "i = j" if "in_session (se_phase y i)" "in_session (se_phase y j)" for i j
    using that lock [of i] lock [of j] by simp
  show ?thesis using one client told hist [unfolded told_ok_def] live by (intro conjI allI impI) blast+
qed

text \<open>A kill that arrives between taking the mutex and recording the client finds no connection to close: it waits,
  and the session it wanted to end goes on.\<close>

definition missed_kill :: sessions where
  "missed_kill = enterSession 5 0 (closeOther 1 None (greet 1 True (acceptSession 1 True ''b'' True
     (greet 0 False (acceptSession 0 False ''a'' True no_sessions)))))"

lemma missed_kill_reachable: "session_step\<^sup>*\<^sup>* no_sessions missed_kill"
proof -
  let ?y1 = "acceptSession 0 False ''a'' True no_sessions"
  let ?y2 = "greet 0 False ?y1"
  let ?y3 = "acceptSession 1 True ''b'' True ?y2"
  let ?y4 = "greet 1 True ?y3"
  let ?y5 = "closeOther 1 None ?y4"
  note d = session_defs no_sessions_def NewState_def ResetDNSChannels_def
  have "session_step no_sessions ?y1" by (rule accept) (simp add: no_sessions_def)
  moreover have "session_step ?y1 ?y2" by (rule greets) (simp add: session_defs)
  moreover have "session_step ?y2 ?y3" by (rule accept) (simp add: session_defs no_sessions_def)
  moreover have "session_step ?y3 ?y4" by (rule greets) (simp add: session_defs)
  moreover have "session_step ?y4 ?y5" by (rule closes) (simp add: d)
  moreover have "session_step ?y5 missed_kill" unfolding missed_kill_def by (rule enters) (simp add: d)
  ultimately show ?thesis by (meson converse_rtranclp_into_rtranclp rtranclp.rtrancl_refl)
qed

lemma kill_can_miss:
  "session_step\<^sup>*\<^sup>* no_sessions missed_kill \<and> se_phase missed_kill 0 = Some Running \<and> se_phase missed_kill 1 = Some Waiting_Lock \<and>
   se_closed missed_kill = []"
  using missed_kill_reachable
  by (simp add: missed_kill_def session_defs no_sessions_def NewState_def ResetDNSChannels_def)

theorem one_session_at_a_time_witness:
  "reported missed_kill = Some (0, True) \<and> se_lock missed_kill = Some 0 \<and> ds_tuiClientAddr (se_state missed_kill) = se_addr missed_kill 0 \<and>
   se_phase (tellBusy 2 missed_kill) 2 = Some (Refused ''a'' 5)"
proof -
  have r: "reported missed_kill = Some (0, True)" "se_addr missed_kill 0 = ''a''" "ds_tuiClientSince (se_state missed_kill) = 5"
    by (simp_all add: missed_kill_def session_defs no_sessions_def NewState_def ResetDNSChannels_def)
  note t = one_session_at_a_time [OF missed_kill_reachable]
  have "se_lock missed_kill = Some 0 \<and> ds_tuiClientAddr (se_state missed_kill) = se_addr missed_kill 0" using t r(1) by blast
  moreover have "se_phase (tellBusy 2 missed_kill) 2 = Some (Refused ''a'' 5)"
    using t [THEN conjunct2, THEN conjunct2, THEN conjunct1, THEN spec, of 2] by (simp add: r)
  ultimately show ?thesis using r(1) by blast
qed

subsection \<open>Line ends\<close>

text \<open>The writer of a session turns a line feed into carriage return and line feed unless it follows a carriage
  return, across calls: \<open>prev\<close> is the last byte of the previous call.\<close>

fun crlf :: "char \<Rightarrow> gostr \<Rightarrow> gostr" where
  "crlf prev [] = []"
| "crlf prev (b # p) =
     (if b = CHR 0x0A then (if prev = CHR 0x0D then [b] else [CHR 0x0D, b]) else [b]) @ crlf b p"

definition crlfWriter_Write :: "bool \<Rightarrow> gostr \<Rightarrow> char \<Rightarrow> gostr \<times> char \<times> nat" where
  "crlfWriter_Write ok p prev = (if ok then (crlf prev p, last (prev # p), length p) else ([], prev, 0))"

lemma crlf_append: "crlf prev (p @ q) = crlf prev p @ crlf (last (prev # p)) q"
  by (induction p arbitrary: prev) auto

text \<open>Every line feed that is written follows a carriage return, and removing the added ones gives the text.\<close>

fun bare_feed :: "char \<Rightarrow> gostr \<Rightarrow> bool" where
  "bare_feed prev [] = False"
| "bare_feed prev (b # p) = ((b = CHR 0x0A \<and> prev \<noteq> CHR 0x0D) \<or> bare_feed b p)"

lemma crlf_complete: "\<not> bare_feed prev (crlf prev p)"
  by (induction p arbitrary: prev) auto

lemma crlf_idempotent: "\<not> bare_feed prev p \<Longrightarrow> crlf prev p = p"
  by (induction p arbitrary: prev) auto

text \<open>However the output is cut into calls, what reaches the client is the same, has no bare line feed, and is
  not changed by a second pass.\<close>

theorem session_output_cut_anywhere:
  "fst (crlfWriter_Write True (p @ q) prev) =
     fst (crlfWriter_Write True p prev) @ fst (crlfWriter_Write True q (fst (snd (crlfWriter_Write True p prev)))) \<and>
   \<not> bare_feed prev (fst (crlfWriter_Write True p prev)) \<and>
   crlf prev (fst (crlfWriter_Write True p prev)) = fst (crlfWriter_Write True p prev)"
  by (simp add: crlfWriter_Write_def crlf_append crlf_complete crlf_idempotent)

subsection \<open>The client\<close>

definition tuiBannerPrefix :: gostr where "tuiBannerPrefix = ''dnsplane-tui''"

definition tuiBannerBusy :: gostr where "tuiBannerBusy = ''dnsplane-tui-busy''"

definition busyBanner :: "gostr \<Rightarrow> gostr \<Rightarrow> gostr" where
  "busyBanner addr since = tuiBannerBusy @ '' '' @ addr @ '' '' @ since @ [CHR 0x0A]"

datatype banner = Busy gostr gostr | Server gostr | Foreign

definition readBanner :: "gostr \<Rightarrow> banner" where
  "readBanner line =
     (let b = TrimSpace line in
      if HasPrefix b tuiBannerBusy then
        (let rest = TrimSpace (TrimPrefix b tuiBannerBusy);
             addr = takeWhile (\<lambda>c. c \<noteq> CHR '' '') rest
         in Busy (if addr = [] then ''unknown'' else addr) (drop (Suc (length addr)) rest))
      else if \<not> HasPrefix b tuiBannerPrefix then Foreign
      else Server (TrimSpace (TrimPrefix b tuiBannerPrefix)))"

definition resolveInteractiveTarget :: "gostr \<Rightarrow> gostr \<Rightarrow> gostr \<times> gostr" where
  "resolveInteractiveTarget defaultSocket t =
     (let target = TrimSpace t in
      if target = [] then (''unix'', defaultSocket)
      else if CHR ''/'' \<in> set target \<or> CHR 0x5C \<in> set target \<or> HasPrefix target ''@'' then (''unix'', target)
      else
        let target = TrimPrefix target ''tcp://'' in
        if HasPrefix target ''unix://'' then (''unix'', TrimPrefix target ''unix://'')
        else case SplitHostPort target of
          Inr (host, port) \<Rightarrow> (''tcp'', JoinHostPort (if host = [] then ''127.0.0.1'' else host) port)
        | Inl e \<Rightarrow> (''tcp'', JoinHostPort (if target = [] then ''127.0.0.1'' else target) ''8053''))"

text \<open>The prefixes of a URL are never seen: such a target has a slash and is taken for the path of a socket.\<close>

lemma url_taken_for_socket: "resolveInteractiveTarget d ''tcp://10.0.0.1:8053'' = (''unix'', ''tcp://10.0.0.1:8053'')"
proof -
  have "TrimSpace ''tcp://10.0.0.1:8053'' = ''tcp://10.0.0.1:8053''" by code_simp
  then show ?thesis by (simp add: resolveInteractiveTarget_def)
qed

lemma busy_banner_read: "readBanner (busyBanner ''10.0.0.1:4000'' ''2026-01-02T03:04:05Z'') = Busy ''10.0.0.1:4000'' ''2026-01-02T03:04:05Z''"
  by code_simp

lemma Server_banner_not_busy: "readBanner (tuiBannerPrefix @ '' 1.4.193'' @ [CHR 0x0A]) = Server ''1.4.193''"
  by code_simp

subsection \<open>The terminal listener\<close>

text \<open>\<^verbatim>\<open>startClientTCPListener\<close> and \<^verbatim>\<open>stopClientTCPListener\<close>: the listener (its address), the state, and whether
  \<^verbatim>\<open>net.Listen\<close> succeeds.\<close>

definition startClientTCPListener :: "(gostr \<Rightarrow> bool) \<Rightarrow> gostr option \<times> daemon_state \<Rightarrow> gostr option \<times> daemon_state" where
  "startClientTCPListener listens ls = (case ls of
      (Some l, s) \<Rightarrow> (Some l, s)
    | (None, s) \<Rightarrow>
        let a = TrimSpace (ls_ClientTCPAddress (ds_listener s)); addr = (if a = [] then '':8053'' else a) in
        if listens addr then (Some addr, UpdateListener (\<lambda>l. l\<lparr>ls_ClientTCPAddress := addr\<rparr>) s) else (None, s))"

definition stopClientTCPListener :: "gostr option \<times> daemon_state \<Rightarrow> gostr option \<times> daemon_state" where
  "stopClientTCPListener ls = (None, snd ls)"

lemma restart_same_address:
  assumes "startClientTCPListener listens (None, s) = (Some a, s')" "TrimSpace a = a" "a \<noteq> []"
  shows "startClientTCPListener listens (stopClientTCPListener (Some a, s')) = (Some a, s')"
proof -
  have "listens a" "s' = UpdateListener (\<lambda>l. l\<lparr>ls_ClientTCPAddress := a\<rparr>) s"
    using assms(1) by (auto simp: startClientTCPListener_def Let_def split: if_splits)
  then show ?thesis using assms(2,3) by (simp add: startClientTCPListener_def stopClientTCPListener_def UpdateListener_def)
qed

end
