(* ===== verification/Axfr.thy ===== *)
theory Axfr
  imports DnsRecords Config HostPort "HOL-Library.Multiset" "HOL-Library.List_Lexorder" "HOL-Library.Char_ord"
begin

text \<open>
  Zone transfers, \<^verbatim>\<open>dnsserve/axfr.go\<close>: who may ask for one, and what it contains; with
  \<^verbatim>\<open>net.ParseCIDR\<close> and \<^verbatim>\<open>IPNet.Contains\<close> of the Go library.  The functions of the DNS library that only
  this path needs are the record \<open>zone_lib\<close>.  \<^verbatim>\<open>sort.Slice\<close> promises a sorted permutation and nothing
  about the order of equal elements, so the sorting function is an argument with the law \<open>sorts\<close>.
\<close>

record zone_lib =
  zl_SetReply :: "dns_msg \<Rightarrow> dns_msg"
  zl_CanonicalName :: "gostr \<Rightarrow> gostr"
  zl_IsSubDomain :: "gostr \<Rightarrow> gostr \<Rightarrow> bool"
  zl_sort :: "(dns_record \<Rightarrow> dns_record \<Rightarrow> bool) \<Rightarrow> dns_record list \<Rightarrow> dns_record list"

subsection \<open>Networks\<close>

record IPNet =
  nt_IP :: "u8 list"
  nt_Mask :: "u8 list"

text \<open>\<^verbatim>\<open>CIDRMask\<close> of a number of leading ones, in \<open>l\<close> bytes.\<close>

fun cidr_mask :: "nat \<Rightarrow> nat \<Rightarrow> u8 list" where
  "cidr_mask n 0 = []"
| "cidr_mask n (Suc l) = (if n \<ge> 8 then 255 # cidr_mask (n - 8) l else NOT (drop_bit n 255) # cidr_mask 0 l)"

text \<open>\<^verbatim>\<open>dtoi\<close> on the whole string: digits only, below \<^verbatim>\<open>0xFFFFFF\<close>.\<close>

definition dtoi :: "gostr \<Rightarrow> nat option" where
  "dtoi s = (if s \<noteq> [] \<and> list_all is_digit s \<and> int (dec_value 0 s) < 16777215 then Some (dec_value 0 s) else None)"

text \<open>The bytes of an address as written: four for a dotted one, sixteen otherwise.\<close>

definition parse_bytes :: "gostr \<Rightarrow> u8 list option" where
  "parse_bytes s = (case ParseIP s of
      None \<Rightarrow> None
    | Some ip \<Rightarrow> if CHR '':'' \<in> set s then Some ip else Some (drop 12 ip))"

definition ParseCIDR :: "gostr \<Rightarrow> IPNet option" where
  "ParseCIDR s = (case Index s ''/'' of
      None \<Rightarrow> None
    | Some i \<Rightarrow>
        (case (parse_bytes (take i s), dtoi (drop (Suc i) s)) of
           (Some b, Some n) \<Rightarrow>
             if n > 8 * length b then None
             else let m = cidr_mask n (length b) in Some \<lparr>nt_IP = map2 (AND) b m, nt_Mask = m\<rparr>
         | _ \<Rightarrow> None))"

definition To4 :: "u8 list \<Rightarrow> u8 list option" where
  "To4 ip = (if length ip = 4 then Some ip
             else if length ip = 16 \<and> take 12 ip = v4InV6Prefix then Some (drop 12 ip) else None)"

definition IPNet_Contains :: "IPNet \<Rightarrow> u8 list \<Rightarrow> bool" where
  "IPNet_Contains n ip0 =
     (let ip = (case To4 ip0 of Some x \<Rightarrow> x | None \<Rightarrow> ip0);
          nn = (case To4 (nt_IP n) of Some x \<Rightarrow> x | None \<Rightarrow> nt_IP n);
          m = (if length (nt_Mask n) = 16 \<and> length nn = 4 then drop 12 (nt_Mask n) else nt_Mask n)
      in length ip = length nn \<and> list_all (\<lambda>((a, b), k). a AND k = b AND k) (zip (zip nn ip) m))"

fun parseCIDRs :: "gostr list \<Rightarrow> IPNet list option" where
  "parseCIDRs [] = Some []"
| "parseCIDRs (s # ss) =
     (if TrimSpace s = [] then parseCIDRs ss
      else case ParseCIDR (TrimSpace s) of
        None \<Rightarrow> None
      | Some n \<Rightarrow> map_option ((#) n) (parseCIDRs ss))"

definition clientIPAllowed :: "gostr \<Rightarrow> IPNet list \<Rightarrow> bool" where
  "clientIPAllowed ip0 nets =
     (let ip = TrimSpace ip0 in
      if ip = [] \<or> ip = ''unknown'' then False
      else case ParseIP ip of None \<Rightarrow> False | Some addr \<Rightarrow> list_ex (\<lambda>n. IPNet_Contains n addr) nets)"

subsection \<open>Records of a zone\<close>

text \<open>\<^verbatim>\<open>strings.SplitN(val, " ", 2)\<close>, when it has two parts.\<close>

definition split_space :: "gostr \<Rightarrow> (gostr \<times> gostr) option" where
  "split_space s = (case Index s '' '' of None \<Rightarrow> None | Some i \<Rightarrow> Some (take i s, drop (Suc i) s))"

definition dnsRecordToRR :: "dnslib \<Rightarrow> zone_lib \<Rightarrow> dns_record \<Rightarrow> rr option" where
  "dnsRecordToRR L Z rec =
     (let name = TrimSpace (dr_Name rec) in
      if name = [] then None
      else
        let name = zl_CanonicalName Z name;
            ttl = (if dr_TTL rec = 0 then 3600 else dr_TTL rec);
            ty = ToUpper (TrimSpace (dr_Type rec));
            val = TrimSpace (dr_Value rec);
            val = (if ty \<in> {''NS'', ''CNAME'', ''PTR''} then (if val \<noteq> [] then zl_CanonicalName Z val else val)
                   else if ty = ''MX'' then
                     (case split_space val of
                        Some (p, h) \<Rightarrow> TrimSpace p @ '' '' @ zl_CanonicalName Z (TrimSpace h)
                      | None \<Rightarrow> val)
                   else val)
        in lib_NewRR L (name @ '' '' @ dec (unat ttl) @ '' IN '' @ ty @ '' '' @ val))"

definition is_SOA :: "dns_record \<Rightarrow> bool" where
  "is_SOA r = EqualFold (TrimSpace (dr_Type r)) ''SOA''"

definition axfr_key :: "dns_record \<Rightarrow> gostr" where
  "axfr_key r = normalizeRecordNameKey (dr_Name r) @ ''|'' @ normalizeRecordType (dr_Type r)"

definition axfr_less :: "dns_record \<Rightarrow> dns_record \<Rightarrow> bool" where
  "axfr_less a b = (if axfr_key a \<noteq> axfr_key b then axfr_key a < axfr_key b else dr_Value a < dr_Value b)"

definition in_zone :: "zone_lib \<Rightarrow> gostr \<Rightarrow> dns_record list \<Rightarrow> dns_record list" where
  "in_zone Z zone recs = filter (\<lambda>r. zl_IsSubDomain Z zone (zl_CanonicalName Z (dr_Name r))) recs"

definition axfrRecordsForZone :: "dnslib \<Rightarrow> zone_lib \<Rightarrow> dns_record list \<Rightarrow> gostr \<Rightarrow> rr list option" where
  "axfrRecordsForZone L Z recs zone =
     (let inZone = in_zone Z zone recs in
      case find is_SOA inZone of
        None \<Rightarrow> None
      | Some soa \<Rightarrow>
          let others = zl_sort Z axfr_less (filter (\<lambda>r. \<not> is_SOA r) inZone) in
          (case dnsRecordToRR L Z soa of
             None \<Rightarrow> None
           | Some rr \<Rightarrow> Some (rr # List.map_filter (dnsRecordToRR L Z) others @ [rr])))"

subsection \<open>Serving\<close>

record ServeMeta =
  sm_ClientIP :: gostr
  sm_Protocol :: gostr

text \<open>\<open>None\<close>: not a zone transfer.\<close>

definition tryServeAXFR :: "dnslib \<Rightarrow> zone_lib \<Rightarrow> Config \<Rightarrow> dns_record list \<Rightarrow> dns_msg \<Rightarrow> ServeMeta \<Rightarrow> dns_msg option" where
  "tryServeAXFR L Z st recs req meta =
     (let refuse = (\<lambda>code. Some (lib_SetRcode L (zl_SetReply Z req) req code)) in
      if m_Opcode req \<noteq> OpcodeQuery \<or> length (m_Question req) \<noteq> 1 then None
      else if q_Qtype (hd (m_Question req)) \<noteq> TypeAXFR then None
      else if TrimSpace (sm_Protocol meta) \<notin> {''tcp'', ''dot''} then refuse RcodeNotImplemented
      else if \<not> cf_AXFREnabled st then refuse RcodeRefused
      else case parseCIDRs (cf_AXFRAllowedNetworks st) of
        None \<Rightarrow> refuse RcodeRefused
      | Some nets \<Rightarrow>
          if length nets = 0 then refuse RcodeRefused
          else if \<not> clientIPAllowed (sm_ClientIP meta) nets then refuse RcodeRefused
          else case axfrRecordsForZone L Z recs (zl_CanonicalName Z (q_Name (hd (m_Question req)))) of
            None \<Rightarrow> refuse RcodeRefused
          | Some rrs \<Rightarrow> Some ((zl_SetReply Z req)\<lparr>m_Authoritative := True, m_Answer := rrs\<rparr>))"

subsection \<open>A network is the addresses with its prefix\<close>

definition addr_bit :: "u8 list \<Rightarrow> nat \<Rightarrow> bool" where
  "addr_bit bs k = bit (bs ! (k div 8)) (7 - k mod 8)"

lemma length_cidr_mask [simp]: "length (cidr_mask n l) = l"
  by (induction n l rule: cidr_mask.induct) auto

lemma bit_cidr_mask: "i < l \<Longrightarrow> j < 8 \<Longrightarrow> bit (cidr_mask n l ! i) j \<longleftrightarrow> 8 * i + (7 - j) < n"
proof (induction n l arbitrary: i rule: cidr_mask.induct)
  case (2 n l)
  have ones: "bit (255 :: u8) k \<longleftrightarrow> k < 8" for k
  proof -
    have "(255 :: u8) = mask 8" by (simp add: mask_eq_decr_exp)
    then show ?thesis by (simp only: bit_mask_iff) simp
  qed
  show ?case
  proof (cases i)
    case 0
    then show ?thesis using 2 ones by (auto simp: bit_not_iff bit_drop_bit_eq)
  next
    case (Suc k)
    have z: "\<not> bit (cidr_mask 0 l ! k) j" if "n < 8" using 2(2)[of k] 2(3,4) Suc that by simp
    show ?thesis using 2(1)[of k] 2(3,4) Suc z by auto
  qed
qed simp

text \<open>Equality under the mask is equality of the leading bits.\<close>

lemma masked_eq_iff:
  assumes "length a = l" "length b = l" "n \<le> 8 * l"
  shows "list_all (\<lambda>((x, y), k). x AND k = y AND k) (zip (zip a b) (cidr_mask n l)) \<longleftrightarrow> (\<forall>k < n. addr_bit a k = addr_bit b k)"
proof -
  have byte: "x AND m = y AND m \<longleftrightarrow> (\<forall>j < 8. bit m j \<longrightarrow> bit x j = bit y j)" for x y m :: u8
    by (auto simp: bit_eq_iff bit_and_iff)
  have "list_all (\<lambda>((x, y), k). x AND k = y AND k) (zip (zip a b) (cidr_mask n l)) \<longleftrightarrow>
      (\<forall>i < l. \<forall>j < 8. 8 * i + (7 - j) < n \<longrightarrow> bit (a ! i) j = bit (b ! i) j)"
    using assms(1,2) by (auto simp: list_all_length byte bit_cidr_mask)
  also have "\<dots> \<longleftrightarrow> (\<forall>k < n. addr_bit a k = addr_bit b k)"
  proof
    assume *: "\<forall>i < l. \<forall>j < 8. 8 * i + (7 - j) < n \<longrightarrow> bit (a ! i) j = bit (b ! i) j"
    show "\<forall>k < n. addr_bit a k = addr_bit b k"
    proof (intro allI impI)
      fix k assume "k < n"
      moreover have "8 * (k div 8) + (7 - (7 - k mod 8)) = k" by presburger
      ultimately show "addr_bit a k = addr_bit b k" using * assms(3) by (simp add: addr_bit_def)
    qed
  next
    assume *: "\<forall>k < n. addr_bit a k = addr_bit b k"
    show "\<forall>i < l. \<forall>j < 8. 8 * i + (7 - j) < n \<longrightarrow> bit (a ! i) j = bit (b ! i) j"
    proof (intro allI impI)
      fix i j assume j: "j < (8 :: nat)" "8 * i + (7 - j) < n"
      define t where "t = 7 - j"
      then have "t < 8" "7 - t = j" using j(1) by simp_all
      then have "(8 * i + t) div 8 = i" "7 - (8 * i + t) mod 8 = j" by simp_all
      moreover have "8 * i + t < n" using j(2) by (simp add: t_def)
      ultimately show "bit (a ! i) j = bit (b ! i) j" using spec [OF *, of "8 * i + t"] by (simp add: addr_bit_def)
    qed
  qed
  finally show ?thesis .
qed

lemma addr_bit_masked:
  assumes "length b = l" "k < n" "n \<le> 8 * l"
  shows "addr_bit (map2 (AND) b (cidr_mask n l)) k = addr_bit b k"
proof -
  have "k div 8 < l" "8 * (k div 8) + (7 - (7 - k mod 8)) < n" using assms(2,3) by presburger+
  then show ?thesis using assms(1) by (simp add: addr_bit_def bit_and_iff bit_cidr_mask)
qed

text \<open>The bytes of a client's address, as the networks compare them.\<close>

definition short_addr :: "u8 list \<Rightarrow> u8 list" where
  "short_addr ip = (case To4 ip of Some x \<Rightarrow> x | None \<Rightarrow> ip)"

lemma parse_bytes_dotted: "parse_bytes s = Some b \<Longrightarrow> CHR '':'' \<notin> set s \<Longrightarrow> ParseIP s = Some ip \<Longrightarrow> b = drop 12 ip"
  by (simp add: parse_bytes_def)

text \<open>A network in CIDR notation contains exactly the addresses that agree with its address on the
  leading bits: for a dotted network these are IPv4 addresses (also when the client's address is an
  IPv6 address with an embedded IPv4 one), for the others IPv6 addresses.\<close>

theorem ParseCIDR_Contains:
  assumes "ParseCIDR s = Some net" "Index s ''/'' = Some i" "parse_bytes (take i s) = Some b" "dtoi (drop (Suc i) s) = Some n"
    and "length b = 4 \<or> length b = 16 \<and> To4 (nt_IP net) = None"
  shows "IPNet_Contains net ip \<longleftrightarrow> length (short_addr ip) = length b \<and> (\<forall>k < n. addr_bit (short_addr ip) k = addr_bit b k)"
proof -
  let ?m = "cidr_mask n (length b)" and ?x = "short_addr ip"
  have n: "n \<le> 8 * length b" and net: "nt_IP net = map2 (AND) b ?m" "nt_Mask net = ?m"
    using assms(1-4) by (auto simp: ParseCIDR_def Let_def split: if_splits)
  have nn: "(case To4 (nt_IP net) of Some x \<Rightarrow> x | None \<Rightarrow> nt_IP net) = nt_IP net"
    using assms(5) net by (auto simp: To4_def)
  have m: "(if length (nt_Mask net) = 16 \<and> length (nt_IP net) = 4 then drop 12 (nt_Mask net) else nt_Mask net) = ?m"
    using net by (cases "length b = 16") simp_all
  have c: "IPNet_Contains net ip \<longleftrightarrow> length ?x = length (nt_IP net) \<and>
      list_all (\<lambda>((a, b), k). a AND k = b AND k) (zip (zip (nt_IP net) ?x) ?m)"
    unfolding IPNet_Contains_def nn Let_def m short_addr_def by (rule refl)
  show ?thesis
  proof (cases "length ?x = length b")
    case True
    have "list_all (\<lambda>((a, b), k). a AND k = b AND k) (zip (zip (nt_IP net) ?x) ?m) \<longleftrightarrow>
        (\<forall>k < n. addr_bit (nt_IP net) k = addr_bit ?x k)"
      using net True n by (intro masked_eq_iff) simp_all
    then show ?thesis unfolding c using net True n by (auto simp: addr_bit_masked)
  qed (simp add: c net)
qed

lemma sample_index: "Index ''10.20.0.0/14'' ''/'' = Some 9"
  by code_simp

lemma sample_dtoi: "dtoi (drop (Suc 9) ''10.20.0.0/14'') = Some 14"
  by code_simp

lemma sample_mask: "cidr_mask 14 4 = [255, 252, 0, 0]"
proof -
  have "cidr_mask 14 (Suc (Suc (Suc (Suc 0)))) = [255, 252, 0, 0]" by simp
  then show ?thesis by (simp add: numeral_eq_Suc)
qed

lemma sample_bytes: "parse_bytes (take 9 ''10.20.0.0/14'') = Some [10, 20, 0, 0]"
  by code_simp

lemmas sample_cidr = sample_index sample_bytes sample_dtoi

lemma sample_net: "ParseCIDR ''10.20.0.0/14'' = Some \<lparr>nt_IP = [10, 20, 0, 0], nt_Mask = [255, 252, 0, 0]\<rparr>"
  unfolding ParseCIDR_def sample_cidr(1) option.case sample_cidr(2,3) prod.case
  by (simp add: sample_mask)

theorem ParseCIDR_Contains_witness:
  "IPNet_Contains \<lparr>nt_IP = [10, 20, 0, 0], nt_Mask = [255, 252, 0, 0]\<rparr> (v4InV6Prefix @ [10, 23, 255, 1])"
proof -
  have "short_addr (v4InV6Prefix @ [10, 23, 255, 1]) = [10, 23, 255, 1]"
    by (simp add: short_addr_def To4_def v4InV6Prefix_def)
  moreover have "list_all (\<lambda>k. addr_bit [10, 23, 255, 1] k = addr_bit [10, 20, 0, 0] k) [0..<14]"
    by (simp add: upt_conv_Cons addr_bit_def)
  ultimately show ?thesis using ParseCIDR_Contains [OF sample_net sample_cidr(1-3)] by (simp add: list_all_iff)
qed

subsection \<open>Who gets a zone, and what it is\<close>

text \<open>What the code relies on: \<^verbatim>\<open>SetReply\<close> on a new message gives one without answers, \<^verbatim>\<open>SetRcode\<close> sets the
  code and leaves the sections alone, and \<^verbatim>\<open>sort.Slice\<close> sorts by a strict weak order.\<close>

definition replies_empty :: "dnslib \<Rightarrow> zone_lib \<Rightarrow> bool" where
  "replies_empty L Z \<longleftrightarrow> (\<forall>req. m_Answer (zl_SetReply Z req) = []) \<and>
     (\<forall>resp req c. m_Answer (lib_SetRcode L resp req c) = m_Answer resp \<and> m_Ns (lib_SetRcode L resp req c) = m_Ns resp \<and>
        m_Extra (lib_SetRcode L resp req c) = m_Extra resp \<and> m_Rcode (lib_SetRcode L resp req c) = c)"

definition sorts :: "zone_lib \<Rightarrow> bool" where
  "sorts Z \<longleftrightarrow> (\<forall>less xs. mset (zl_sort Z less xs) = mset xs \<and>
     ((\<forall>x y z. (less x y \<longrightarrow> \<not> less y x) \<and> (less x z \<longrightarrow> less x y \<or> less y z)) \<longrightarrow>
        sorted_wrt (\<lambda>x y. \<not> less y x) (zl_sort Z less xs)))"

lemma axfr_less_order: "axfr_less x y \<Longrightarrow> \<not> axfr_less y x" "axfr_less x z \<Longrightarrow> axfr_less x y \<or> axfr_less y z"
  by (auto simp: axfr_less_def split: if_splits)

lemma axfr_others:
  assumes "sorts Z"
  shows "mset (zl_sort Z axfr_less xs) = mset xs \<and> sorted_wrt (\<lambda>x y. \<not> axfr_less y x) (zl_sort Z axfr_less xs)"
proof -
  have "\<forall>x y z. (axfr_less x y \<longrightarrow> \<not> axfr_less y x) \<and> (axfr_less x z \<longrightarrow> axfr_less x y \<or> axfr_less y z)"
    by (intro allI conjI impI axfr_less_order)
  with assms show ?thesis by (simp add: sorts_def)
qed

lemma parseCIDRs_sound: "parseCIDRs ss = Some nets \<Longrightarrow> n \<in> set nets \<Longrightarrow> \<exists>s \<in> set ss. ParseCIDR (TrimSpace s) = Some n"
  by (induction ss arbitrary: nets) (auto split: if_splits option.splits)

lemma find_in_filter:
  assumes "find P (filter Q xs) = Some x"
  shows "\<exists>us vs. xs = us @ x # vs \<and> Q x \<and> P x \<and> (\<forall>u \<in> set us. Q u \<longrightarrow> \<not> P u)"
  using assms
proof (induction xs)
  case (Cons y ys)
  show ?case
  proof (cases "Q y \<and> P y")
    case True
    then have "x = y" using Cons.prems by simp
    with True show ?thesis by (intro exI [of _ "[]"] exI [of _ ys]) simp
  next
    case False
    then obtain us vs where "ys = us @ x # vs" "Q x" "P x" "\<forall>u \<in> set us. Q u \<longrightarrow> \<not> P u"
      using Cons by (auto split: if_splits)
    with False show ?thesis by (intro exI [of _ "y # us"] exI [of _ vs]) simp
  qed
qed simp

lemma tryServeAXFR_answers:
  assumes "tryServeAXFR L Z st recs req meta = Some resp" "replies_empty L Z" "m_Answer resp \<noteq> []"
  obtains nets where "TrimSpace (sm_Protocol meta) \<in> {''tcp'', ''dot''}" "cf_AXFREnabled st"
    "parseCIDRs (cf_AXFRAllowedNetworks st) = Some nets" "clientIPAllowed (sm_ClientIP meta) nets"
    "axfrRecordsForZone L Z recs (zl_CanonicalName Z (q_Name (hd (m_Question req)))) = Some (m_Answer resp)"
  using assms by (auto simp: tryServeAXFR_def replies_empty_def Let_def split: if_splits option.splits)

abbreviation in_requested_zone :: "zone_lib \<Rightarrow> dns_msg \<Rightarrow> dns_record \<Rightarrow> bool" where
  "in_requested_zone Z req r \<equiv> zl_IsSubDomain Z (zl_CanonicalName Z (q_Name (hd (m_Question req)))) (zl_CanonicalName Z (dr_Name r))"

text \<open>C11.  A zone is transferred only over TCP or TLS, only when transfers are enabled, and only to a client
  whose address lies in one of the configured networks.  The answer is the first of the records whose
  name lies in the requested zone and whose type is SOA, then all the other records whose name lies in
  the zone sorted by name, type and value, less those that are SOA records or that the library does not
  accept as resource records, then the first one again.\<close>

theorem axfr_authorised_and_complete:
  assumes "tryServeAXFR L Z st recs req meta = Some resp" "replies_empty L Z" "sorts Z" "m_Answer resp \<noteq> []"
  shows "TrimSpace (sm_Protocol meta) \<in> {''tcp'', ''dot''} \<and> cf_AXFREnabled st \<and>
    (\<exists>s net ip. s \<in> set (cf_AXFRAllowedNetworks st) \<and> ParseCIDR (TrimSpace s) = Some net \<and>
       ParseIP (TrimSpace (sm_ClientIP meta)) = Some ip \<and> IPNet_Contains net ip) \<and>
    (\<exists>before soa after rr others. recs = before @ soa # after \<and> in_requested_zone Z req soa \<and> is_SOA soa \<and>
       (\<forall>r \<in> set before. in_requested_zone Z req r \<longrightarrow> \<not> is_SOA r) \<and> dnsRecordToRR L Z soa = Some rr \<and>
       mset others = mset (filter (\<lambda>r. in_requested_zone Z req r \<and> \<not> is_SOA r) recs) \<and>
       sorted_wrt (\<lambda>x y. \<not> axfr_less y x) others \<and>
       m_Answer resp = rr # List.map_filter (dnsRecordToRR L Z) others @ [rr])"
proof -
  obtain nets where a: "TrimSpace (sm_Protocol meta) \<in> {''tcp'', ''dot''}" "cf_AXFREnabled st"
      "parseCIDRs (cf_AXFRAllowedNetworks st) = Some nets" "clientIPAllowed (sm_ClientIP meta) nets"
      "axfrRecordsForZone L Z recs (zl_CanonicalName Z (q_Name (hd (m_Question req)))) = Some (m_Answer resp)"
    using tryServeAXFR_answers [OF assms(1,2,4)] .
  from a(4) obtain ip net where ip: "ParseIP (TrimSpace (sm_ClientIP meta)) = Some ip" "net \<in> set nets" "IPNet_Contains net ip"
    by (auto simp: clientIPAllowed_def Let_def list_ex_iff split: if_splits option.splits)
  from parseCIDRs_sound [OF a(3) ip(2)] obtain s where s: "s \<in> set (cf_AXFRAllowedNetworks st)" "ParseCIDR (TrimSpace s) = Some net" by blast
  let ?in = "in_zone Z (zl_CanonicalName Z (q_Name (hd (m_Question req)))) recs"
  from a(5) obtain soa rr where soa: "find is_SOA ?in = Some soa" "dnsRecordToRR L Z soa = Some rr"
      "m_Answer resp = rr # List.map_filter (dnsRecordToRR L Z) (zl_sort Z axfr_less (filter (\<lambda>r. \<not> is_SOA r) ?in)) @ [rr]"
    by (auto simp: axfrRecordsForZone_def Let_def split: option.splits)
  from find_in_filter [OF soa(1) [unfolded in_zone_def]] obtain before after where split: "recs = before @ soa # after"
      "in_requested_zone Z req soa" "is_SOA soa" "\<forall>r \<in> set before. in_requested_zone Z req r \<longrightarrow> \<not> is_SOA r" by blast
  have "filter (\<lambda>r. \<not> is_SOA r) ?in = filter (\<lambda>r. in_requested_zone Z req r \<and> \<not> is_SOA r) recs" by (simp add: in_zone_def conj_commute)
  then obtain others where "mset others = mset (filter (\<lambda>r. in_requested_zone Z req r \<and> \<not> is_SOA r) recs)"
      "sorted_wrt (\<lambda>x y. \<not> axfr_less y x) others" "m_Answer resp = rr # List.map_filter (dnsRecordToRR L Z) others @ [rr]"
    using soa(3) axfr_others [OF assms(3)] by metis
  with a(1,2) ip s soa(2) split show ?thesis by blast
qed

text \<open>An instance: insertion sort, names in lower case with a final dot, suffixes as subdomains.\<close>

fun insert_by :: "('a \<Rightarrow> 'a \<Rightarrow> bool) \<Rightarrow> 'a \<Rightarrow> 'a list \<Rightarrow> 'a list" where
  "insert_by lt x [] = [x]"
| "insert_by lt x (y # ys) = (if lt y x then y # insert_by lt x ys else x # y # ys)"

definition sort_by :: "('a \<Rightarrow> 'a \<Rightarrow> bool) \<Rightarrow> 'a list \<Rightarrow> 'a list" where
  "sort_by lt xs = foldr (insert_by lt) xs []"

lemma mset_insert_by [simp]: "mset (insert_by lt x ys) = add_mset x (mset ys)"
  by (induction ys) auto

lemma set_insert_by [simp]: "set (insert_by lt x ys) = insert x (set ys)"
  by (induction ys) auto

lemma sorted_insert_by:
  assumes "\<forall>x y z. (lt x y \<longrightarrow> \<not> lt y x) \<and> (lt x z \<longrightarrow> lt x y \<or> lt y z)" "sorted_wrt (\<lambda>x y. \<not> lt y x) ys"
  shows "sorted_wrt (\<lambda>x y. \<not> lt y x) (insert_by lt x ys)"
  using assms(2) by (induction ys) (use assms(1) in auto)

lemma sort_by_correct:
  "mset (sort_by lt xs) = mset xs"
  "\<forall>x y z. (lt x y \<longrightarrow> \<not> lt y x) \<and> (lt x z \<longrightarrow> lt x y \<or> lt y z) \<Longrightarrow> sorted_wrt (\<lambda>x y. \<not> lt y x) (sort_by lt xs)"
  unfolding sort_by_def by (induction xs) (simp_all add: sorted_insert_by)

definition sample_zone :: zone_lib where
  "sample_zone = \<lparr>
     zl_SetReply = (\<lambda>req. req\<lparr>m_Rcode := 0, m_Answer := [], m_Ns := [], m_Extra := [], m_Edns0 := None\<rparr>),
     zl_CanonicalName = (\<lambda>s. if HasSuffix s ''.'' then ToLower s else ToLower s @ ''.''),
     zl_IsSubDomain = (\<lambda>zone n. HasSuffix n zone), zl_sort = sort_by\<rparr>"

lemma sample_zone_laws: "sorts sample_zone" "replies_empty (sample_lib\<lparr>lib_NewRR := f\<rparr>) sample_zone"
  by (auto simp: sorts_def sample_zone_def sort_by_correct replies_empty_def)

definition axfr_config :: Config where
  "axfr_config = empty_Config\<lparr>cf_AXFREnabled := True, cf_AXFRAllowedNetworks := ['' 10.20.0.0/14 '']\<rparr>"

definition axfr_records :: "dns_record list" where
  "axfr_records = map (\<lambda>(n, t, v). empty_record\<lparr>dr_Name := n, dr_Type := t, dr_Value := v, dr_TTL := 5\<rparr>)
     [(''www.lan'', ''A'', ''10.0.0.1''), (''lan'', ''SOA'', ''ns.lan. root.lan. 1 2 3 4 5''), (''mail.lan'', ''A'', ''10.0.0.2''),
      (''other.net'', ''A'', ''10.0.0.3'')]"

definition echo_lib :: dnslib where
  "echo_lib = sample_lib\<lparr>lib_NewRR := (\<lambda>s. Some (RR \<lparr>h_Name = s, h_Rrtype = 0, h_Class = 1, h_Ttl = 0\<rparr> (RD_Other [])))\<rparr>"

definition axfr_request :: dns_msg where
  "axfr_request = \<lparr>m_Id = 7, m_Opcode = 0, m_Authoritative = False, m_AuthenticatedData = False, m_Rcode = 0,
     m_Question = [\<lparr>q_Name = ''LAN.'', q_Qtype = 252, q_Qclass = 1\<rparr>], m_Answer = [], m_Ns = [], m_Extra = [], m_Edns0 = None\<rparr>"

definition axfr_client :: ServeMeta where
  "axfr_client = \<lparr>sm_ClientIP = ''10.23.255.1'', sm_Protocol = ''tcp''\<rparr>"

lemma sample_transfer:
  "map_option (\<lambda>m. map (\<lambda>r. h_Name (rr_Hdr r)) (m_Answer m))
     (tryServeAXFR echo_lib sample_zone axfr_config axfr_records axfr_request axfr_client) =
   Some [''lan. 5 IN SOA ns.lan. root.lan. 1 2 3 4 5'', ''mail.lan. 5 IN A 10.0.0.2'', ''www.lan. 5 IN A 10.0.0.1'',
     ''lan. 5 IN SOA ns.lan. root.lan. 1 2 3 4 5'']"
  by code_simp

theorem axfr_authorised_and_complete_witness:
  "cf_AXFREnabled axfr_config \<and> (\<exists>soa rr. in_requested_zone sample_zone axfr_request soa \<and> is_SOA soa \<and>
     dnsRecordToRR echo_lib sample_zone soa = Some rr)"
proof -
  obtain resp where resp: "tryServeAXFR echo_lib sample_zone axfr_config axfr_records axfr_request axfr_client = Some resp"
      "m_Answer resp \<noteq> []"
  proof (cases "tryServeAXFR echo_lib sample_zone axfr_config axfr_records axfr_request axfr_client")
    case None
    show ?thesis using sample_transfer unfolding None by (simp only: option.map option.distinct)
  next
    case (Some resp)
    have "m_Answer resp \<noteq> []" using sample_transfer unfolding Some option.map option.inject by (rule contrapos_pn) simp
    with Some show ?thesis by (rule that)
  qed
  have "replies_empty echo_lib sample_zone" unfolding echo_lib_def by (rule sample_zone_laws)
  from axfr_authorised_and_complete [OF resp(1) this sample_zone_laws(1) resp(2)]
  show ?thesis by (elim conjE exE) (intro conjI exI)
qed

end
