(* ===== verification/DnsServe.thy ===== *)
theory DnsServe
  imports Axfr Limiters ResolverAnswers
begin

text \<open>
  The path of a DNS request from a listener to the resolver: \<^verbatim>\<open>dnsserve/serve.go\<close>, the handlers of
  \<^verbatim>\<open>main_dns_inbound.go\<close> for UDP, TCP, DoT and DoH, the addresses the listeners bind to
  (\<^verbatim>\<open>main_dns_server.go\<close>), and the drop counters of \<^verbatim>\<open>data/dns_metrics.go\<close>.  This is where the limiters,
  the zone transfers and the resolver meet.  Both limiters and the resolver are those of the running
  process; a question whose handler waits forever makes the whole request \<open>None\<close>.  Packing and unpacking
  messages is done by the DNS library and is an argument.
\<close>

record serve_env =
  se_resolver :: resolver_env
  se_zone :: zone_lib
  se_Pack :: "dns_msg \<Rightarrow> u8 list option"
  se_Unpack :: "u8 list \<Rightarrow> dns_msg option"
  se_query :: upstream
  se_sched :: "nat \<Rightarrow> par_src list"
  se_rnd :: "u64 option"
  se_now :: gotime
  se_done :: gotime

record drop_counters =
  dc_QueryRate :: u64
  dc_Sliding :: u64
  dc_RRL :: u64

definition RecordLimiterDrop :: "gostr \<Rightarrow> drop_counters \<Rightarrow> drop_counters" where
  "RecordLimiterDrop reason c =
     (if reason = ''query_rate'' then c\<lparr>dc_QueryRate := dc_QueryRate c + 1\<rparr>
      else if reason = ''response_sliding'' then c\<lparr>dc_Sliding := dc_Sliding c + 1\<rparr>
      else if reason = ''response_rrl'' then c\<lparr>dc_RRL := dc_RRL c + 1\<rparr>
      else c)"

record server =
  sv_data :: resolver_data
  sv_limiter :: ResponseLimiter
  sv_queries :: "PerIP option"
  sv_drops :: drop_counters

abbreviation slib :: "serve_env \<Rightarrow> dnslib" where
  "slib env \<equiv> rlib (se_resolver env)"

subsection \<open>\<^verbatim>\<open>ServeDNS\<close>\<close>

definition hasANYQuestion :: "dns_msg \<Rightarrow> bool" where
  "hasANYQuestion req = list_ex (\<lambda>q. q_Qtype q = TypeANY) (m_Question req)"

definition primaryQname :: "dns_msg \<Rightarrow> gostr" where
  "primaryQname req = (case m_Question req of q # _ \<Rightarrow> q_Name q | [] \<Rightarrow> ''.'')"

text \<open>Dropping the additional section drops the OPT record.  The product is a 64-bit one.\<close>

definition clampAmplified :: "serve_env \<Rightarrow> dns_msg \<Rightarrow> int \<Rightarrow> dns_msg \<Rightarrow> dns_msg" where
  "clampAmplified env req maxRatio resp =
     (if maxRatio \<le> 0 then resp
      else case (se_Pack env req, se_Pack env resp) of
        (Some rw, Some pw) \<Rightarrow>
          if length rw = 0 then resp
          else if int (length pw) \<le> sint (word_of_int (maxRatio * int (length rw)) :: 64 word) then resp
          else lib_SetRcode (slib env) (resp\<lparr>m_Answer := [], m_Ns := [], m_Extra := [], m_Edns0 := None\<rparr>) req RcodeServerFailure
      | _ \<Rightarrow> resp)"

definition clampEDNS :: "u16 \<Rightarrow> dns_msg \<Rightarrow> dns_msg" where
  "clampEDNS maxPayload resp =
     (if maxPayload = 0 then resp
      else case m_Edns0 resp of
        None \<Rightarrow> resp
      | Some opt \<Rightarrow> if opt_UDPSize opt > maxPayload then resp\<lparr>m_Edns0 := Some (opt\<lparr>opt_UDPSize := maxPayload\<rparr>)\<rparr> else resp)"

text \<open>The questions of the request in order; the third component collects the questions that a
  background refresh was started for.\<close>

fun handleQuestions :: "serve_env \<Rightarrow> nat \<Rightarrow> question list \<Rightarrow> query_state \<Rightarrow> (query_state \<times> question list) option" where
  "handleQuestions env i [] st = Some (st, [])"
| "handleQuestions env i (q # qs) st =
     (case HandleQuestion (se_resolver env) (se_query env) (se_sched env i) q st of
        None \<Rightarrow> None
      | Some (out, st', stale) \<Rightarrow>
          map_option (\<lambda>(st'', bg). (st'', if stale then q # bg else bg)) (handleQuestions env (Suc i) qs st'))"

definition clientName :: "ServeMeta \<Rightarrow> gostr" where
  "clientName meta = (let ip = TrimSpace (sm_ClientIP meta) in if ip = [] then ''unknown'' else ip)"

text \<open>The limiter of queries; a nil pointer allows everything.\<close>

definition Query_Allow :: "PerIP option \<Rightarrow> gotime \<Rightarrow> gostr \<Rightarrow> PerIP option \<times> bool" where
  "Query_Allow p now ip = (case p of None \<Rightarrow> (None, True) | Some l \<Rightarrow> (case PerIP_Allow l now ip of (l', ok) \<Rightarrow> (Some l', ok)))"

definition ServeDNS :: "serve_env \<Rightarrow> dns_msg \<Rightarrow> ServeMeta \<Rightarrow> server \<Rightarrow> (server \<times> dns_msg \<times> question list) option" where
  "ServeDNS env req meta s =
     (let L = slib env;
          resp = (zl_SetReply (se_zone env) req)\<lparr>m_Authoritative := False\<rparr>;
          clientIP = clientName meta;
          st = rd_Settings (sv_data s)
      in
      if m_Opcode req = OpcodeUpdate then Some (s, lib_SetRcode L resp req RcodeNotImplemented, [])
      else if cf_DNSRefuseANY st \<and> hasANYQuestion req then Some (s, lib_SetRcode L resp req RcodeNotImplemented, [])
      else
        let (ql, allowed) = Query_Allow (sv_queries s) (se_now env) clientIP;
            s = s\<lparr>sv_queries := ql\<rparr>
        in
        if \<not> allowed then
          Some (s\<lparr>sv_drops := RecordLimiterDrop ''query_rate'' (sv_drops s)\<rparr>, lib_SetRcode L resp req RcodeRefused, [])
        else
          let qname = primaryQname req in
          if \<not> Limiter_Allow (sv_limiter s) (se_rnd env) (se_now env) clientIP qname then
            Some (s\<lparr>sv_drops := RecordLimiterDrop
                       (if cf_DNSResponseLimitMode st = ''rrl'' then ''response_rrl'' else ''response_sliding'') (sv_drops s)\<rparr>,
                  lib_SetRcode L resp req RcodeRefused, [])
          else
            let recorded = Limiter_RecordResponse (sv_limiter s) (se_done env) clientIP qname in
            case tryServeAXFR L (se_zone env) st (rd_DNSRecords (sv_data s)) req meta of
              Some axfrResp \<Rightarrow> Some (s\<lparr>sv_limiter := recorded\<rparr>, clampEDNS (cf_DNSMaxEDNSUDPPayload st) axfrResp, [])
            | None \<Rightarrow>
                (case handleQuestions env 0 (m_Question req) (sv_data s, resp) of
                   None \<Rightarrow> None
                 | Some ((d, resp), bg) \<Rightarrow>
                     let resp = clampEDNS (cf_DNSMaxEDNSUDPPayload st) resp;
                         resp = (if cf_DNSAmplificationMaxRatio st > 0
                                 then clampAmplified env req (cf_DNSAmplificationMaxRatio st) resp else resp)
                     in Some (s\<lparr>sv_data := d, sv_limiter := recorded\<rparr>, resp, bg)))"

subsection \<open>Listeners\<close>

text \<open>The client's address as the handlers pass it on; the empty string stands for no address.\<close>

definition requesterIP :: "gostr \<Rightarrow> gostr" where
  "requesterIP remoteAddr =
     (if remoteAddr = [] then ''unknown''
      else case SplitHostPort remoteAddr of Inr (host, port) \<Rightarrow> host | Inl e \<Rightarrow> remoteAddr)"

definition with_request :: "serve_env \<Rightarrow> dns_msg \<Rightarrow> serve_env" where
  "with_request env req = env\<lparr>se_resolver := (se_resolver env)\<lparr>rv_req := Some req\<rparr>\<rparr>"

definition count_query :: "server \<Rightarrow> server" where
  "count_query s = s\<lparr>sv_data := IncrementTotalQueries (sv_data s)\<rparr>"

text \<open>The handler of UDP, TCP and DoT.\<close>

definition handleRequestProto :: "serve_env \<Rightarrow> gostr \<Rightarrow> dns_msg \<Rightarrow> gostr \<Rightarrow> server \<Rightarrow> (server \<times> dns_msg \<times> question list) option" where
  "handleRequestProto env remoteAddr request proto s =
     map_option (\<lambda>(s, response, bg). (count_query s, response, bg))
       (ServeDNS (with_request env request) request \<lparr>sm_ClientIP = requesterIP remoteAddr, sm_Protocol = proto\<rparr> s)"

text \<open>\<^verbatim>\<open>base64.RawURLEncoding\<close>: line breaks are skipped, padding is an error, trailing bits are ignored.\<close>

definition b64_value :: "char \<Rightarrow> nat option" where
  "b64_value c =
     (let n = (of_char c :: nat) in
      if 65 \<le> n \<and> n \<le> 90 then Some (n - 65)
      else if 97 \<le> n \<and> n \<le> 122 then Some (n - 71)
      else if 48 \<le> n \<and> n \<le> 57 then Some (n + 4)
      else if n = 45 then Some 62
      else if n = 95 then Some 63 else None)"

fun b64_bytes :: "nat list \<Rightarrow> u8 list option" where
  "b64_bytes [] = Some []"
| "b64_bytes [a] = None"
| "b64_bytes [a, b] = Some [of_nat (4 * a + b div 16)]"
| "b64_bytes [a, b, c] = Some [of_nat (4 * a + b div 16), of_nat (16 * b + c div 4)]"
| "b64_bytes (a # b # c # d # rest) =
     map_option ((@) [of_nat (4 * a + b div 16), of_nat (16 * b + c div 4), of_nat (64 * c + d)]) (b64_bytes rest)"

definition RawURLEncoding_Decode :: "gostr \<Rightarrow> u8 list option" where
  "RawURLEncoding_Decode s =
     (let vs = map b64_value (filter (\<lambda>c. of_char c \<noteq> (10 :: nat) \<and> of_char c \<noteq> (13 :: nat)) s) in
      if None \<in> set vs then None else b64_bytes (map the vs))"

record http_request =
  hr_Path :: gostr
  hr_Method :: gostr
  hr_DnsParam :: gostr
  hr_ContentType :: gostr
  hr_Body :: "u8 list option"
  hr_RemoteAddr :: gostr

datatype http_response = HttpError nat gostr | HttpOK "u8 list"

text \<open>The wire message of a DoH request, or the refusal.\<close>

definition doh_wire :: "http_request \<Rightarrow> http_response + u8 list" where
  "doh_wire r =
     (if hr_Method r = ''GET'' then
        (if hr_DnsParam r = [] then Inl (HttpError 400 ''missing dns query parameter'')
         else case RawURLEncoding_Decode (hr_DnsParam r) of
           None \<Rightarrow> Inl (HttpError 400 ''invalid dns parameter'')
         | Some wire \<Rightarrow> Inr wire)
      else if hr_ContentType r \<noteq> [] \<and> \<not> HasPrefix (hr_ContentType r) ''application/dns-message''
      then Inl (HttpError 415 ''unsupported media type'')
      else case hr_Body r of
        None \<Rightarrow> Inl (HttpError 400 ''invalid body'')
      | Some body \<Rightarrow> Inr (take 65535 body))"

definition doHHandler :: "serve_env \<Rightarrow> http_request \<Rightarrow> gostr \<Rightarrow> server \<Rightarrow> (server \<times> http_response \<times> question list) option" where
  "doHHandler env r path s =
     (if hr_Path r \<noteq> path then Some (s, HttpError 404 ''404 page not found'', [])
      else if hr_Method r \<noteq> ''GET'' \<and> hr_Method r \<noteq> ''POST'' then Some (s, HttpError 405 ''method not allowed'', [])
      else case doh_wire r of
        Inl err \<Rightarrow> Some (s, err, [])
      | Inr wire \<Rightarrow>
          if length wire < 12 then Some (s, HttpError 400 ''message too short'', [])
          else case se_Unpack env wire of
            None \<Rightarrow> Some (s, HttpError 400 ''invalid DNS message'', [])
          | Some req \<Rightarrow>
              (case ServeDNS (with_request env req) req \<lparr>sm_ClientIP = requesterIP (hr_RemoteAddr r), sm_Protocol = ''doh''\<rparr> s of
                 None \<Rightarrow> None
               | Some (s', resp, bg) \<Rightarrow>
                   (case se_Pack env resp of
                      None \<Rightarrow> Some (s', HttpError 500 ''internal error'', bg)
                    | Some out \<Rightarrow> Some (count_query s', HttpOK out, bg))))"

definition listenAddr :: "gostr \<Rightarrow> gostr \<Rightarrow> gostr" where
  "listenAddr bind0 port = (let bind = TrimSpace bind0 in if bind = [] then '':'' @ port else JoinHostPort bind port)"

definition default_to :: "gostr \<Rightarrow> gostr \<Rightarrow> gostr" where
  "default_to d s = (let t = TrimSpace s in if t = [] then d else t)"

definition dnsListenAddr :: "Config \<Rightarrow> gostr \<Rightarrow> gostr" where
  "dnsListenAddr st port = listenAddr (cf_DNSBind st) (default_to ''53'' port)"

definition dotListenAddr :: "Config \<Rightarrow> gostr" where
  "dotListenAddr st = listenAddr (cf_DOTBind st) (default_to ''853'' (cf_DOTPort st))"

definition dohListenAddr :: "Config \<Rightarrow> gostr" where
  "dohListenAddr st = listenAddr (cf_DOHBind st) (default_to ''8443'' (cf_DOHPort st))"

definition dohPath :: "Config \<Rightarrow> gostr" where
  "dohPath st = (let path = default_to ''/dns-query'' (cf_DOHPath st) in if HasPrefix path ''/'' then path else ''/'' @ path)"

text \<open>The network that the upstream client uses for an endpoint (\<^verbatim>\<open>resolver/upstream.go\<close>), and its timeout.\<close>

definition clientFor :: "endpoint \<Rightarrow> gostr" where
  "clientFor ep =
     (let t = ToLower (TrimSpace (ep_Transport ep)) in
      if t = ''tcp'' then ''tcp'' else if t = ''dot'' then ''tcp-tls'' else if t = ''doh'' then ''https'' else ''udp'')"

definition NewDNSClient :: "duration \<Rightarrow> duration" where
  "NewDNSClient timeout = (if timeout \<le> 0 then 2 * Second else timeout)"

text \<open>Which of the encrypted listeners \<^verbatim>\<open>startInboundDNSListeners\<close> starts.\<close>

definition startInboundDNSListeners :: "Config \<Rightarrow> bool \<times> bool" where
  "startInboundDNSListeners st =
     (cf_DOTEnabled st \<and> TrimSpace (cf_DOTCertFile st) \<noteq> [] \<and> TrimSpace (cf_DOTKeyFile st) \<noteq> [],
      cf_DOHEnabled st \<and> TrimSpace (cf_DOHCertFile st) \<noteq> [] \<and> TrimSpace (cf_DOHKeyFile st) \<noteq> [])"

subsection \<open>Refusals\<close>

text \<open>A request reaches the response limiter, and is admitted to the zone transfers and the resolver.\<close>

definition reaches_limiter :: "serve_env \<Rightarrow> dns_msg \<Rightarrow> ServeMeta \<Rightarrow> server \<Rightarrow> bool" where
  "reaches_limiter env req meta s \<longleftrightarrow> m_Opcode req \<noteq> OpcodeUpdate \<and>
     \<not> (cf_DNSRefuseANY (rd_Settings (sv_data s)) \<and> hasANYQuestion req) \<and>
     snd (Query_Allow (sv_queries s) (se_now env) (clientName meta))"

definition admitted :: "serve_env \<Rightarrow> dns_msg \<Rightarrow> ServeMeta \<Rightarrow> server \<Rightarrow> bool" where
  "admitted env req meta s \<longleftrightarrow> reaches_limiter env req meta s \<and>
     Limiter_Allow (sv_limiter s) (se_rnd env) (se_now env) (clientName meta) (primaryQname req)"

text \<open>C7.  A request that is not admitted (an update, a refused ANY, a client over one of its limits) is answered
  at once with NOTIMP or REFUSED and no records; the data of the resolver and the response limiter stay
  as they are, and nothing is asked upstream.\<close>

theorem refused_request_touches_nothing:
  assumes "\<not> admitted env req meta s" "replies_empty (slib env) (se_zone env)"
  shows "\<exists>s' resp. ServeDNS env req meta s = Some (s', resp, []) \<and> sv_data s' = sv_data s \<and> sv_limiter s' = sv_limiter s \<and>
    m_Answer resp = [] \<and> m_Rcode resp \<in> {RcodeNotImplemented, RcodeRefused}"
  using assms by (auto simp: ServeDNS_def admitted_def reaches_limiter_def replies_empty_def Let_def case_prod_beta)

text \<open>What an admitted request goes through.\<close>

lemma ServeDNS_admitted:
  assumes "admitted env req meta s"
  shows "ServeDNS env req meta s =
    (let st = rd_Settings (sv_data s);
         s1 = s\<lparr>sv_queries := fst (Query_Allow (sv_queries s) (se_now env) (clientName meta)),
                sv_limiter := Limiter_RecordResponse (sv_limiter s) (se_done env) (clientName meta) (primaryQname req)\<rparr>
     in case tryServeAXFR (slib env) (se_zone env) st (rd_DNSRecords (sv_data s)) req meta of
          Some axfrResp \<Rightarrow> Some (s1, clampEDNS (cf_DNSMaxEDNSUDPPayload st) axfrResp, [])
        | None \<Rightarrow>
            (case handleQuestions env 0 (m_Question req) (sv_data s, (zl_SetReply (se_zone env) req)\<lparr>m_Authoritative := False\<rparr>) of
               None \<Rightarrow> None
             | Some ((d, resp), bg) \<Rightarrow>
                 Some (s1\<lparr>sv_data := d\<rparr>,
                   (let resp = clampEDNS (cf_DNSMaxEDNSUDPPayload st) resp
                    in if cf_DNSAmplificationMaxRatio st > 0 then clampAmplified env req (cf_DNSAmplificationMaxRatio st) resp else resp), bg)))"
  using assms
  by (auto simp: ServeDNS_def admitted_def reaches_limiter_def Let_def case_prod_beta split: option.split)

lemma ServeDNS_refused:
  assumes "\<not> admitted env req meta s"
  shows "\<exists>s' resp. ServeDNS env req meta s = Some (s', resp, []) \<and> sv_data s' = sv_data s \<and> sv_limiter s' = sv_limiter s"
  using assms by (auto simp: ServeDNS_def admitted_def reaches_limiter_def Let_def case_prod_beta)

subsection \<open>The frame of a request\<close>

lemma handleQuestions_step:
  assumes "handleQuestions env i qs (d, resp) = Some ((d', resp'), bg)"
  shows "data_step\<^sup>*\<^sup>* d d' \<and> same_config d d' \<and>
    st_TotalQueriesAnswered (rd_Stats d') = st_TotalQueriesAnswered (rd_Stats d) + int (length qs) \<and> set bg \<subseteq> set qs"
  using assms
proof (induction qs arbitrary: i d resp bg)
  case (Cons q qs)
  from Cons.prems obtain out d1 resp1 stale bg1 where h:
      "HandleQuestion (se_resolver env) (se_query env) (se_sched env i) q (d, resp) = Some (out, (d1, resp1), stale)"
      "handleQuestions env (Suc i) qs (d1, resp1) = Some ((d', resp'), bg1)" "bg = (if stale then q # bg1 else bg1)"
    by (auto split: option.splits)
  note a = HandleQuestion_step [OF h(1)] and b = Cons.IH [OF h(2)]
  from a b have "data_step\<^sup>*\<^sup>* d d'" by auto
  moreover have "same_config d d'" using a b by (simp add: same_config_def)
  ultimately show ?case using a b h(3) by (auto simp: counters_def)
qed simp

text \<open>Whatever a request asks, it changes the shared data only by steps of the data machine: the
  indexes stay current and the settings, servers, local records and block list stay the same.  Unless it
  is refused or a zone transfer it counts as many answered queries as it has questions, and background
  refreshes are started only for its own questions.\<close>

theorem ServeDNS_frame:
  assumes "ServeDNS env req meta s = Some (s', resp, bg)"
  shows "data_step\<^sup>*\<^sup>* (sv_data s) (sv_data s') \<and> (indexed (sv_data s) \<longrightarrow> indexed (sv_data s')) \<and> same_config (sv_data s) (sv_data s') \<and>
    set bg \<subseteq> set (m_Question req) \<and>
    st_TotalQueriesAnswered (rd_Stats (sv_data s')) = st_TotalQueriesAnswered (rd_Stats (sv_data s)) +
      (if admitted env req meta s \<and> tryServeAXFR (slib env) (se_zone env) (rd_Settings (sv_data s)) (rd_DNSRecords (sv_data s)) req meta = None
       then int (length (m_Question req)) else 0)"
proof -
  have *: "data_step\<^sup>*\<^sup>* (sv_data s) (sv_data s') \<and> same_config (sv_data s) (sv_data s') \<and>
    set bg \<subseteq> set (m_Question req) \<and>
    st_TotalQueriesAnswered (rd_Stats (sv_data s')) = st_TotalQueriesAnswered (rd_Stats (sv_data s)) +
      (if admitted env req meta s \<and> tryServeAXFR (slib env) (se_zone env) (rd_Settings (sv_data s)) (rd_DNSRecords (sv_data s)) req meta = None
       then int (length (m_Question req)) else 0)"
  proof (cases "admitted env req meta s")
    case False
    then show ?thesis using assms ServeDNS_refused by fastforce
  next
    case True
    with assms show ?thesis
      by (auto simp: ServeDNS_admitted Let_def split: option.splits dest!: handleQuestions_step)
  qed
  then have "data_step\<^sup>*\<^sup>* (sv_data s) (sv_data s')" by blast
  then have "indexed (sv_data s) \<longrightarrow> indexed (sv_data s')" by (induction rule: rtranclp_induct) (auto intro: data_step_indexed)
  with * show ?thesis by blast
qed

subsection \<open>Amplification\<close>

lemma sint_small: "0 \<le> k \<Longrightarrow> k < 2 ^ 63 \<Longrightarrow> sint (word_of_int k :: 64 word) = k"
  by transfer (simp add: signed_take_bit_int_eq_self)

text \<open>C10.  With a positive ratio \<open>r\<close>, the answer to a request that is admitted and is not a zone transfer is at
  most \<open>r\<close> times as long as the request, or it is a server failure without records, provided request and
  answer can be packed.  Zone transfers are not bounded.\<close>

theorem amplification_bounded:
  assumes "ServeDNS env req meta s = Some (s', resp, bg)" "admitted env req meta s"
    and "tryServeAXFR (slib env) (se_zone env) (rd_Settings (sv_data s)) (rd_DNSRecords (sv_data s)) req meta = None"
    and "cf_DNSAmplificationMaxRatio (rd_Settings (sv_data s)) = r" "0 < r"
    and "se_Pack env req = Some rw" "rw \<noteq> []" "se_Pack env resp = Some pw" "r * int (length rw) < 2 ^ 63"
    and "replies_empty (slib env) (se_zone env)"
  shows "int (length pw) \<le> r * int (length rw) \<or>
    m_Rcode resp = RcodeServerFailure \<and> m_Answer resp = [] \<and> m_Ns resp = [] \<and> m_Extra resp = []"
proof -
  obtain m where resp: "resp = clampAmplified env req r m"
    using assms(1-5) by (auto simp: ServeDNS_admitted Let_def split: option.splits)
  obtain mw where mw: "se_Pack env m = Some mw"
    using assms(5,6,8) by (cases "se_Pack env m") (simp_all add: resp clampAmplified_def)
  have w: "sint (word_of_int (r * int (length rw)) :: 64 word) = r * int (length rw)"
    using assms(5,9) by (intro sint_small) simp_all
  show ?thesis
  proof (cases "int (length mw) \<le> r * int (length rw)")
    case True
    then have "resp = m" using assms(5,6) mw w by (simp add: resp clampAmplified_def)
    then show ?thesis using True mw assms(8) by simp
  next
    case False
    then show ?thesis using assms(5-7,10) mw w by (simp add: resp clampAmplified_def replies_empty_def)
  qed
qed

subsection \<open>Responses per client\<close>

type_synonym request = "serve_env \<times> dns_msg \<times> ServeMeta"

abbreviation req_time :: "request \<Rightarrow> gotime" where
  "req_time r \<equiv> se_now (fst r)"

text \<open>The time at which a request is read and the time at which its response is recorded.\<close>

definition timing :: "request \<Rightarrow> gotime \<times> gotime \<times> unit" where
  "timing r = (se_now (fst r), se_done (fst r), ())"

text \<open>Requests one after the other; the admitted ones with the time of the response, client and name.\<close>

fun serve_all :: "request list \<Rightarrow> server \<Rightarrow> (server \<times> (gotime \<times> gostr \<times> gostr) list) option" where
  "serve_all [] s = Some (s, [])"
| "serve_all ((env, req, meta) # rs) s =
     (case ServeDNS env req meta s of
        None \<Rightarrow> None
      | Some (s', resp, bg) \<Rightarrow>
          map_option (\<lambda>(s'', evs). (s'', if admitted env req meta s then (se_done env, clientName meta, primaryQname req) # evs else evs))
            (serve_all rs s'))"

lemma ServeDNS_limiter:
  assumes "ServeDNS env req meta s = Some (s', resp, bg)"
  shows "sv_limiter s' = (if admitted env req meta s
    then Limiter_RecordResponse (sv_limiter s) (se_done env) (clientName meta) (primaryQname req) else sv_limiter s)"
proof (cases "admitted env req meta s")
  case True
  then show ?thesis using assms by (auto simp: ServeDNS_admitted Let_def split: option.splits)
next
  case False
  then show ?thesis using assms ServeDNS_refused [OF False] by auto
qed

text \<open>The admitted requests are those that the limiter lets through among the ones that reach it; \<open>mklim\<close> is
  the kind of limiter and \<open>key\<close> what it counts by.\<close>

lemma serve_all_limited:
  assumes "serve_all rs s = Some (s', evs)" "sv_limiter s = mklim w" "ok w" "in_sequence l (map timing rs)"
    and allow: "\<And>w r ip qn. ok w \<Longrightarrow> r \<in> set rs \<Longrightarrow> Limiter_Allow (mklim w) (se_rnd (fst r)) (req_time r) ip qn = allow w (req_time r) (key ip qn)"
    and resp: "\<And>w t ip qn. ok w \<Longrightarrow> Limiter_RecordResponse (mklim w) t ip qn = mklim (record_resp w t (key ip qn)) \<and> ok (record_resp w t (key ip qn))"
  shows "\<exists>evs0. map (\<lambda>(t, ip, qn). (t, key ip qn)) evs = limited_run allow record_resp evs0 w \<and> in_sequence l evs0"
  using assms(1-4) allow
proof (induction rs arbitrary: s w evs l)
  case Nil
  then show ?case by (intro exI [of _ "[]"]) simp
next
  case (Cons r rs)
  obtain env req meta where r: "r = (env, req, meta)" by (cases r) auto
  let ?k = "key (clientName meta) (primaryQname req)"
  from Cons.prems(1) obtain s1 out bg evs1 where h: "ServeDNS env req meta s = Some (s1, out, bg)" "serve_all rs s1 = Some (s', evs1)"
      "evs = (if admitted env req meta s then (se_done env, clientName meta, primaryQname req) # evs1 else evs1)"
    by (auto simp: r split: option.splits)
  have t: "timing r = (se_now env, se_done env, ())" by (simp add: r timing_def)
  have seq: "l \<le> se_now env" "se_now env \<le> se_done env" "in_sequence (se_done env) (map timing rs)" "in_sequence l (map timing rs)"
    using Cons.prems(4) in_sequence_earlier [of "se_done env" "map timing rs" l] by (auto simp: t)
  have IH: "\<exists>evs0. map (\<lambda>(t, ip, qn). (t, key ip qn)) evs1 = limited_run allow record_resp evs0 w' \<and> in_sequence l' evs0"
    if "sv_limiter s1 = mklim w'" "ok w'" "in_sequence l' (map timing rs)" for w' l'
    using Cons.IH [OF h(2) that] Cons.prems(5) by simp
  show ?case
  proof (cases "admitted env req meta s")
    case True
    then have al: "allow w (se_now env) ?k"
      using Cons.prems(5) [OF Cons.prems(3), of r] Cons.prems(2) by (simp add: admitted_def r)
    have "sv_limiter s1 = mklim (record_resp w (se_done env) ?k)"
      using ServeDNS_limiter [OF h(1)] True Cons.prems(2) resp [OF Cons.prems(3)] by simp
    from IH [OF this _ seq(3)] resp [OF Cons.prems(3)] obtain evs0 where
      "map (\<lambda>(t, ip, qn). (t, key ip qn)) evs1 = limited_run allow record_resp evs0 (record_resp w (se_done env) ?k)" "in_sequence (se_done env) evs0" by blast
    with True h(3) al seq show ?thesis by (intro exI [of _ "(se_now env, se_done env, ?k) # evs0"]) simp
  next
    case False
    then have "sv_limiter s1 = mklim w" using ServeDNS_limiter [OF h(1)] Cons.prems(2) by simp
    from IH [OF this Cons.prems(3) seq(4)] False h(3) show ?thesis by simp
  qed
qed

text \<open>C9.  The whole server keeps the promise of its response limiter when requests are served one after the
  other, each read after the previous response was recorded, however long the answers take.  With the
  sliding-window limiter, in every interval of a window's length fewer than twice the configured number of
  responses that pass the limiter go to one client; with the limiter per client and name, fewer than twice
  the configured number go to one bucket, as long as no request slips through by chance.  This is whatever
  the requests are and whatever other clients do, from a limiter that has no entry of the client or bucket, or
  one whose window has begun and counts at least one response and at most the configured number.\<close>

theorem served_within_limit:
  assumes "serve_all rs s = Some (s', evs)" "in_sequence l (map timing rs)"
  shows "(\<forall>w ip. sv_limiter s = LimitSliding w \<and> 0 < sw_maxPerIP w \<and> 0 < sw_window w \<and> sw_window w < 2 ^ 63 \<and>
        entry_ok (sw_maxPerIP w) l (map_of (sw_m w) ip) \<longrightarrow>
      int (answered_in (sw_window w) a ip (map (\<lambda>(t, ip, qn). (t, ip)) evs)) \<le> 2 * sw_maxPerIP w - 1) \<and>
    (\<forall>r k. sv_limiter s = LimitRRL r \<and> 0 < rrl_maxPerWin r \<and> 0 < rrl_window r \<and> rrl_window r < 2 ^ 63 \<and>
        entry_ok (rrl_maxPerWin r) l (map_of (rrl_buckets r) k) \<and> (\<forall>x \<in> set rs. \<not> slipPass (se_rnd (fst x)) (rrl_slip r)) \<longrightarrow>
      int (answered_in (rrl_window r) a k (map (\<lambda>(t, ip, qn). (t, rrlKey ip qn)) evs)) \<le> 2 * rrl_maxPerWin r - 1)"
proof (intro conjI allI impI; elim conjE)
  fix w ip
  assume w: "sv_limiter s = LimitSliding w" "0 < sw_maxPerIP w" "0 < sw_window w" "sw_window w < 2 ^ 63"
    "entry_ok (sw_maxPerIP w) l (map_of (sw_m w) ip)"
  obtain evs0 where "map (\<lambda>(t, ip, qn). (t, ip)) evs = limited_run SlidingWindow_Allow SlidingWindow_RecordResponse evs0 w" "in_sequence l evs0"
    using serve_all_limited [where mklim = LimitSliding and w = w and ok = "\<lambda>w. True" and l = l and allow = SlidingWindow_Allow
        and key = "\<lambda>ip qn. ip" and record_resp = SlidingWindow_RecordResponse, OF assms(1) w(1) TrueI assms(2)]
    by (auto simp: Limiter_Allow_def Limiter_RecordResponse_def)
  with w show "int (answered_in (sw_window w) a ip (map (\<lambda>(t, ip, qn). (t, ip)) evs)) \<le> 2 * sw_maxPerIP w - 1"
    by (simp only:) (intro sw.window_bound [of w _ _ l], simp_all)
next
  fix r k
  assume r: "sv_limiter s = LimitRRL r" "0 < rrl_maxPerWin r" "0 < rrl_window r" "rrl_window r < 2 ^ 63"
    "entry_ok (rrl_maxPerWin r) l (map_of (rrl_buckets r) k)" "\<forall>x \<in> set rs. \<not> slipPass (se_rnd (fst x)) (rrl_slip r)"
  have slip: "rrl_slip (rrl_record_key r' t k) = rrl_slip r'" for r' t k by (simp add: rrl_record_key_def)
  have a: "rrl_allow_key r' rnd now k = rrl_allow_key r' None now k" if "\<not> slipPass rnd (rrl_slip r')" for r' rnd now k
    using that by (simp add: rrl_allow_key_def slipPass_def split: option.split)
  obtain evs0 where "map (\<lambda>(t, ip, qn). (t, rrlKey ip qn)) evs = limited_run (\<lambda>r. rrl_allow_key r None) rrl_record_key evs0 r" "in_sequence l evs0"
    using serve_all_limited [where mklim = LimitRRL and w = r and ok = "\<lambda>r'. rrl_slip r' = rrl_slip r" and l = l
        and allow = "\<lambda>r. rrl_allow_key r None" and key = rrlKey and record_resp = rrl_record_key, OF assms(1) r(1) refl assms(2)] r(6) a slip
    by (auto simp: Limiter_Allow_def Limiter_RecordResponse_def RRL_Allow_def RRL_RecordResponse_def)
  with r(2-5) show "int (answered_in (rrl_window r) a k (map (\<lambda>(t, ip, qn). (t, rrlKey ip qn)) evs)) \<le> 2 * rrl_maxPerWin r - 1"
    by (simp only:) (intro rrl.window_bound [of r _ _ l], simp_all)
qed

text \<open>C8.  A request is answered: one with at most one question, whose concurrent parts all deliver their
  messages, in whatever order, never leaves the client without a response.\<close>

theorem ServeDNS_returns:
  assumes "length (m_Question req) \<le> 1"
    and "list_all (\<lambda>q. complete_sched (sv_data s) q (length (serversToQuery (sv_data s) q)) (se_sched env 0)) (m_Question req)"
  shows "\<exists>s' resp bg. ServeDNS env req meta s = Some (s', resp, bg)"
proof (cases "admitted env req meta s")
  case False
  then show ?thesis using ServeDNS_refused by blast
next
  case True
  have "handleQuestions env 0 (m_Question req) (sv_data s, resp) \<noteq> None" for resp
  proof (cases "m_Question req")
    case (Cons q qs)
    then have "qs = []" "complete_sched (sv_data s) q (length (serversToQuery (sv_data s) q)) (se_sched env 0)"
      using assms by simp_all
    from HandleQuestion_returns [OF this(2), of "se_resolver env" "se_query env" resp] this(1) show ?thesis
      by (auto simp: Cons split: option.split)
  qed simp
  then show ?thesis using ServeDNS_admitted [OF True] by (auto simp: Let_def split: option.splits)
qed

subsection \<open>A concrete server\<close>

definition sample_senv :: serve_env where
  "sample_senv = \<lparr>se_resolver = sample_renv, se_zone = sample_zone, se_Pack = (\<lambda>m. Some (0 # map (\<lambda>q. 1) (m_Question m))),
     se_Unpack = (\<lambda>w. None), se_query = no_reply, se_sched = (\<lambda>i. [SUp 0]), se_rnd = None, se_now = 0, se_done = 0\<rparr>"

definition sample_server :: server where
  "sample_server = \<lparr>sv_data = fallback_data\<lparr>rd_Settings := (rd_Settings fallback_data)\<lparr>cf_DNSAmplificationMaxRatio := 3\<rparr>\<rparr>,
     sv_limiter = LimitSliding (NewSlidingWindow Second 1 0), sv_queries = None, sv_drops = \<lparr>dc_QueryRate = 0, dc_Sliding = 0, dc_RRL = 0\<rparr>\<rparr>"

definition sample_req :: dns_msg where
  "sample_req = axfr_request\<lparr>m_Question := [sample_q]\<rparr>"

definition sample_client :: ServeMeta where
  "sample_client = \<lparr>sm_ClientIP = ''10.0.0.1'', sm_Protocol = ''udp''\<rparr>"

lemma sample_serve_laws: "replies_empty (slib sample_senv) (se_zone sample_senv)"
  by (simp add: replies_empty_def sample_senv_def sample_zone_def sample_renv_def sample_crypto_def dnslib.defs)

lemma sample_admitted: "admitted sample_senv sample_req sample_client sample_server"
  by code_simp

lemma sample_not_axfr: "tryServeAXFR (slib sample_senv) (se_zone sample_senv) (rd_Settings (sv_data sample_server))
    (rd_DNSRecords (sv_data sample_server)) sample_req sample_client = None"
  by code_simp

lemma sample_serve_run: "map_option (\<lambda>(s, resp, bg). (st_TotalQueriesAnswered (rd_Stats (sv_data s)), length (m_Question resp), bg))
    (ServeDNS sample_senv sample_req sample_client sample_server) = Some (1, 1, [])"
  by code_simp

lemma sample_run: obtains s resp where "ServeDNS sample_senv sample_req sample_client sample_server = Some (s, resp, [])"
    "length (m_Question resp) = 1"
  using sample_serve_run by (cases "ServeDNS sample_senv sample_req sample_client sample_server") auto

theorem refused_request_touches_nothing_witness:
  "\<exists>s' resp. ServeDNS sample_senv (sample_req\<lparr>m_Opcode := 5\<rparr>) sample_client sample_server = Some (s', resp, []) \<and>
     sv_data s' = sv_data sample_server \<and> m_Answer resp = []"
proof -
  have "\<not> admitted sample_senv (sample_req\<lparr>m_Opcode := 5\<rparr>) sample_client sample_server"
    by (simp add: admitted_def reaches_limiter_def OpcodeUpdate_def)
  from refused_request_touches_nothing [OF this sample_serve_laws] show ?thesis
    by (elim exE conjE) (intro exI conjI)
qed

theorem ServeDNS_frame_witness:
  "\<exists>s resp. ServeDNS sample_senv sample_req sample_client sample_server = Some (s, resp, []) \<and>
     st_TotalQueriesAnswered (rd_Stats (sv_data s)) = st_TotalQueriesAnswered (rd_Stats (sv_data sample_server)) + 1"
proof -
  obtain s resp where r: "ServeDNS sample_senv sample_req sample_client sample_server = Some (s, resp, [])" by (rule sample_run)
  moreover have "length (m_Question sample_req) = 1" by (simp add: sample_req_def)
  ultimately show ?thesis using ServeDNS_frame [OF r] sample_admitted sample_not_axfr by simp
qed

theorem amplification_bounded_witness:
  "\<exists>s resp. ServeDNS sample_senv sample_req sample_client sample_server = Some (s, resp, []) \<and>
     (int (length [0 :: u8, 1]) \<le> 3 * int (length [0 :: u8, 1]) \<or> m_Answer resp = [])"
proof -
  obtain s resp where r: "ServeDNS sample_senv sample_req sample_client sample_server = Some (s, resp, [])" "length (m_Question resp) = 1"
    by (rule sample_run)
  have "se_Pack sample_senv sample_req = Some [0, 1]" "se_Pack sample_senv resp = Some [0, 1]"
    "cf_DNSAmplificationMaxRatio (rd_Settings (sv_data sample_server)) = 3"
    using r(2) by (auto simp: sample_senv_def sample_req_def sample_server_def length_Suc_conv)
  with amplification_bounded [OF r(1) sample_admitted sample_not_axfr this(3) _ this(1) _ this(2) _ sample_serve_laws] r(1)
  show ?thesis by (intro exI conjI) auto
qed

lemma sample_two_requests: "map_option (\<lambda>(s, evs). map (\<lambda>(t, ip, qn). (t, ip)) evs)
    (serve_all [(sample_senv, sample_req, sample_client), (sample_senv, sample_req, sample_client)] sample_server) = Some [(0, ''10.0.0.1'')]"
  by code_simp

theorem served_within_limit_witness: "answered_in Second 0 ''10.0.0.1'' [(0, ''10.0.0.1'')] \<le> 1"
proof -
  let ?rs = "[(sample_senv, sample_req, sample_client), (sample_senv, sample_req, sample_client)]" and ?w = "NewSlidingWindow Second 1 0"
  obtain s' qn where run: "serve_all ?rs sample_server = Some (s', [(0, ''10.0.0.1'', qn)])" using sample_two_requests by auto
  have "sv_limiter sample_server = LimitSliding ?w" "entry_ok 1 0 (map_of (sw_m ?w) ''10.0.0.1'')" "sw_window ?w = Second" "sw_maxPerIP ?w = 1"
    "Second < 2 ^ 63" "0 < Second"
    by (simp_all add: sample_server_def NewSlidingWindow_def entry_ok_def)
  moreover have "in_sequence 0 (map timing ?rs)" by (simp add: timing_def sample_senv_def)
  note served_within_limit [OF run this, of 0, THEN conjunct1, THEN spec, of ?w, THEN spec, of "''10.0.0.1''"]
  ultimately show ?thesis by simp
qed

theorem ServeDNS_returns_witness:
  "\<exists>s' resp bg. ServeDNS sample_senv sample_req sample_client sample_server = Some (s', resp, bg)"
proof (rule ServeDNS_returns)
  show "length (m_Question sample_req) \<le> 1" by (simp add: sample_req_def)
  show "list_all (\<lambda>q. complete_sched (sv_data sample_server) q (length (serversToQuery (sv_data sample_server) q)) (se_sched sample_senv 0)) (m_Question sample_req)"
  proof -
    have "length (serversToQuery (sv_data sample_server) sample_q) = 1" by code_simp
    then show ?thesis
      by (auto simp: sample_req_def sample_senv_def complete_sched_def prefilled_def isPTR_def sample_q_def TypePTR_def)
  qed
qed

end
