(* ===== verification/FullStats.thy ===== *)
theory FullStats
  imports GoPrelude
begin

text \<open>
  The statistics of \<^verbatim>\<open>fullstats/fullstats.go\<close>: per request and per requester counter_map, kept in a database and,
  since the start of the process, in memory, fed by a queue of bounded length that a worker empties.  The
  database is a pair of maps; a transaction succeeds or leaves them as they are.  Counters are 64-bit words.
\<close>

type_synonym counter_map = "gostr \<rightharpoonup> u64"

record recordReq =
  rq_key :: gostr
  rq_requesterIP :: gostr
  rq_recordType :: gostr
  rq_source :: gostr

record RequestStats =
  rs_FirstSeen :: gotime
  rs_LastSeen :: gotime
  rs_Count :: u64
  rs_SourceCount :: counter_map

record RequesterStats =
  rqr_FirstSeen :: gotime
  rqr_TypeCount :: counter_map
  rqr_SourceCount :: counter_map

record Tracker =
  tr_requests :: "gostr \<rightharpoonup> RequestStats"
  tr_requesters :: "gostr \<rightharpoonup> RequesterStats"
  tr_sessionRequests :: "gostr \<rightharpoonup> RequestStats"
  tr_sessionRequesters :: "gostr \<rightharpoonup> RequesterStats"
  tr_queue :: "recordReq list"

definition asyncQueueSize :: nat where
  "asyncQueueSize = 10000"

definition normalizeSource :: "gostr \<Rightarrow> gostr" where
  "normalizeSource s0 = (let s = ToLower (TrimSpace s0) in if s = [] then ''unknown'' else s)"

definition counter :: "counter_map \<Rightarrow> gostr \<Rightarrow> u64" where
  "counter m k = (case m k of None \<Rightarrow> 0 | Some n \<Rightarrow> n)"

definition bump :: "gostr \<Rightarrow> counter_map \<Rightarrow> counter_map" where
  "bump k m = m(k \<mapsto> counter m k + 1)"

text \<open>The row of a request, and the row of a requester, after one more request.  The database and the session
  are updated in the same way.\<close>

definition touchRequest :: "gotime \<Rightarrow> gostr \<Rightarrow> RequestStats option \<Rightarrow> RequestStats" where
  "touchRequest now source old = (case old of
      None \<Rightarrow> \<lparr>rs_FirstSeen = now, rs_LastSeen = now, rs_Count = 1, rs_SourceCount = bump source Map.empty\<rparr>
    | Some st \<Rightarrow> st\<lparr>rs_LastSeen := now, rs_Count := rs_Count st + 1, rs_SourceCount := bump source (rs_SourceCount st)\<rparr>)"

definition touchRequester :: "gotime \<Rightarrow> gostr \<Rightarrow> gostr \<Rightarrow> RequesterStats option \<Rightarrow> RequesterStats" where
  "touchRequester now recordType source old = (case old of
      None \<Rightarrow> \<lparr>rqr_FirstSeen = now, rqr_TypeCount = bump recordType Map.empty, rqr_SourceCount = bump source Map.empty\<rparr>
    | Some st \<Rightarrow> st\<lparr>rqr_TypeCount := bump recordType (rqr_TypeCount st), rqr_SourceCount := bump source (rqr_SourceCount st)\<rparr>)"

text \<open>\<open>ok\<close>: the transaction succeeds.  When it fails nothing is counted.\<close>

definition recordRequestSync :: "gotime \<Rightarrow> bool \<Rightarrow> recordReq \<Rightarrow> Tracker \<Rightarrow> Tracker" where
  "recordRequestSync now ok r t =
     (if \<not> ok then t
      else
        let k = rq_key r; ip = rq_requesterIP r;
            req = touchRequest now (rq_source r); reqr = touchRequester now (rq_recordType r) (rq_source r)
        in t\<lparr>tr_requests := (tr_requests t)(k \<mapsto> req (tr_requests t k)),
             tr_requesters := (tr_requesters t)(ip \<mapsto> reqr (tr_requesters t ip)),
             tr_sessionRequests := (tr_sessionRequests t)(k \<mapsto> req (tr_sessionRequests t k)),
             tr_sessionRequesters := (tr_sessionRequesters t)(ip \<mapsto> reqr (tr_sessionRequesters t ip))\<rparr>)"

definition RecordRequest :: "gostr \<Rightarrow> gostr \<Rightarrow> gostr \<Rightarrow> gostr \<Rightarrow> Tracker \<Rightarrow> Tracker" where
  "RecordRequest key requesterIP recordType source t =
     (if length (tr_queue t) < asyncQueueSize
      then t\<lparr>tr_queue := tr_queue t @ [\<lparr>rq_key = key, rq_requesterIP = requesterIP, rq_recordType = recordType,
                                       rq_source = normalizeSource source\<rparr>]\<rparr>
      else t)"

text \<open>One round of the worker.\<close>

definition asyncWorker :: "gotime \<Rightarrow> bool \<Rightarrow> Tracker \<Rightarrow> Tracker" where
  "asyncWorker now ok t = (case tr_queue t of
      [] \<Rightarrow> t
    | r # rest \<Rightarrow> recordRequestSync now ok r (t\<lparr>tr_queue := rest\<rparr>))"

definition GetRequestStats :: "gostr \<Rightarrow> Tracker \<Rightarrow> RequestStats option" where
  "GetRequestStats key t = tr_requests t key"

definition GetRequesterStats :: "gostr \<Rightarrow> Tracker \<Rightarrow> RequesterStats option" where
  "GetRequesterStats ip t = tr_requesters t ip"

definition ClearStats :: "bool \<Rightarrow> Tracker \<Rightarrow> Tracker" where
  "ClearStats ok t =
     (if ok then t\<lparr>tr_requests := Map.empty, tr_requesters := Map.empty, tr_sessionRequests := Map.empty,
                   tr_sessionRequesters := Map.empty\<rparr>
      else t)"

text \<open>A tracker that has just been opened over a database.\<close>

definition NewTracker :: "(gostr \<rightharpoonup> RequestStats) \<Rightarrow> (gostr \<rightharpoonup> RequesterStats) \<Rightarrow> Tracker" where
  "NewTracker reqs reqrs = \<lparr>tr_requests = reqs, tr_requesters = reqrs, tr_sessionRequests = Map.empty,
     tr_sessionRequesters = Map.empty, tr_queue = []\<rparr>"

text \<open>\<^verbatim>\<open>Close\<close>: the worker empties the queue; the times and outcomes of its rounds are given.\<close>

definition CloseStats :: "(gotime \<times> bool) list \<Rightarrow> Tracker \<Rightarrow> Tracker" where
  "CloseStats rounds t = fold (\<lambda>(now, ok). asyncWorker now ok) rounds t"

subsection \<open>What is counted\<close>

definition req_count :: "RequestStats option \<Rightarrow> u64" where
  "req_count st = (case st of None \<Rightarrow> 0 | Some s \<Rightarrow> rs_Count s)"

definition req_source :: "gostr \<Rightarrow> RequestStats option \<Rightarrow> u64" where
  "req_source src st = (case st of None \<Rightarrow> 0 | Some s \<Rightarrow> counter (rs_SourceCount s) src)"

definition reqr_type :: "gostr \<Rightarrow> RequesterStats option \<Rightarrow> u64" where
  "reqr_type ty st = (case st of None \<Rightarrow> 0 | Some s \<Rightarrow> counter (rqr_TypeCount s) ty)"

definition reqr_source :: "gostr \<Rightarrow> RequesterStats option \<Rightarrow> u64" where
  "reqr_source src st = (case st of None \<Rightarrow> 0 | Some s \<Rightarrow> counter (rqr_SourceCount s) src)"

lemma counter_empty [simp]: "counter Map.empty k = 0"
  by (simp add: counter_def)

lemma counter_bump: "counter (bump k m) x = counter m x + (if x = k then 1 else 0)"
  by (simp add: counter_def bump_def)

lemmas stat_defs = req_count_def req_source_def reqr_type_def reqr_source_def touchRequest_def touchRequester_def counter_bump

lemma touchRequest_counts:
  "req_count (Some (touchRequest now src st)) = req_count st + 1"
  "req_source s (Some (touchRequest now src st)) = req_source s st + (if s = src then 1 else 0)"
  by (cases st; simp add: stat_defs)+

lemma touchRequester_counts:
  "reqr_type ty (Some (touchRequester now rt src st)) = reqr_type ty st + (if ty = rt then 1 else 0)"
  "reqr_source s (Some (touchRequester now rt src st)) = reqr_source s st + (if s = src then 1 else 0)"
  by (cases st; simp add: stat_defs)+

lemma counts_None [simp]: "req_count None = 0" "req_source s None = 0" "reqr_type ty None = 0" "reqr_source s None = 0"
  by (simp_all add: stat_defs)

text \<open>The requests that were written, in order.\<close>

definition run_sync :: "(gotime \<times> recordReq) list \<Rightarrow> Tracker \<Rightarrow> Tracker" where
  "run_sync rs t = fold (\<lambda>(now, r). recordRequestSync now True r) rs t"

definition how_many :: "(recordReq \<Rightarrow> bool) \<Rightarrow> (gotime \<times> recordReq) list \<Rightarrow> u64" where
  "how_many P rs = of_nat (length (filter (\<lambda>(now, r). P r) rs))"

lemma how_many_simps [simp]:
  "how_many P [] = 0" "how_many P ((now, r) # rs) = (if P r then 1 else 0) + how_many P rs"
  by (simp_all add: how_many_def)

lemma run_sync_Cons: "run_sync ((now, r) # rs) t = run_sync rs (recordRequestSync now True r t)"
  by (simp add: run_sync_def)

lemma run_sync_requests:
  "req_count (tr_requests (run_sync rs t) k) = req_count (tr_requests t k) + how_many (\<lambda>r. rq_key r = k) rs"
  "req_count (tr_sessionRequests (run_sync rs t) k) = req_count (tr_sessionRequests t k) + how_many (\<lambda>r. rq_key r = k) rs"
  "req_source s (tr_requests (run_sync rs t) k) = req_source s (tr_requests t k) + how_many (\<lambda>r. rq_key r = k \<and> rq_source r = s) rs"
proof (induction rs arbitrary: t)
  case (Cons x rs)
  obtain now r where x: "x = (now, r)" by (cases x)
  { case 1 then show ?case unfolding x run_sync_Cons Cons.IH by (simp add: recordRequestSync_def Let_def touchRequest_counts)
  next
    case 2 then show ?case unfolding x run_sync_Cons Cons.IH by (simp add: recordRequestSync_def Let_def touchRequest_counts)
  next
    case 3 then show ?case unfolding x run_sync_Cons Cons.IH by (simp add: recordRequestSync_def Let_def touchRequest_counts) }
qed (simp_all add: run_sync_def)

lemma run_sync_requesters:
  "reqr_type ty (tr_requesters (run_sync rs t) ip) =
     reqr_type ty (tr_requesters t ip) + how_many (\<lambda>r. rq_requesterIP r = ip \<and> rq_recordType r = ty) rs"
  "reqr_source s (tr_requesters (run_sync rs t) ip) =
     reqr_source s (tr_requesters t ip) + how_many (\<lambda>r. rq_requesterIP r = ip \<and> rq_source r = s) rs"
proof (induction rs arbitrary: t)
  case (Cons x rs)
  obtain now r where x: "x = (now, r)" by (cases x)
  { case 1 then show ?case unfolding x run_sync_Cons Cons.IH by (simp add: recordRequestSync_def Let_def touchRequester_counts)
  next
    case 2 then show ?case unfolding x run_sync_Cons Cons.IH by (simp add: recordRequestSync_def Let_def touchRequester_counts) }
qed (simp_all add: run_sync_def)

subsection \<open>The queue and the worker\<close>

text \<open>Events of the tracker: a query is observed, the worker does a round.  The log is not in the code: it holds
  what was written, with the times.\<close>

datatype stat_event = Observe gostr gostr gostr gostr | WorkerRound gotime bool

fun run_event :: "stat_event \<Rightarrow> Tracker \<times> (gotime \<times> recordReq) list \<Rightarrow> Tracker \<times> (gotime \<times> recordReq) list" where
  "run_event (Observe key ip ty src) (t, log) = (RecordRequest key ip ty src t, log)"
| "run_event (WorkerRound now ok) (t, log) =
     (asyncWorker now ok t, case tr_queue t of [] \<Rightarrow> log | r # rest \<Rightarrow> if ok then log @ [(now, r)] else log)"

definition run_events :: "stat_event list \<Rightarrow> Tracker \<Rightarrow> Tracker \<times> (gotime \<times> recordReq) list" where
  "run_events evs t = fold run_event evs (t, [])"

definition observed :: "stat_event list \<Rightarrow> recordReq list" where
  "observed evs = concat (map (\<lambda>e. case e of
      Observe key ip ty src \<Rightarrow> [\<lparr>rq_key = key, rq_requesterIP = ip, rq_recordType = ty, rq_source = normalizeSource src\<rparr>]
    | WorkerRound now ok \<Rightarrow> []) evs)"

definition rounds_ok :: "stat_event list \<Rightarrow> bool" where
  "rounds_ok evs = list_all (\<lambda>e. case e of WorkerRound now ok \<Rightarrow> ok | _ \<Rightarrow> True) evs"

lemma run_sync_snoc: "run_sync (log @ [(now, r)]) t = recordRequestSync now True r (run_sync log t)"
  by (simp add: run_sync_def)

lemma run_event_log:
  assumes "t = (run_sync log t0)\<lparr>tr_queue := q\<rparr>" "run_event e (t, log) = (t', log')"
  shows "t' = (run_sync log' t0)\<lparr>tr_queue := tr_queue t'\<rparr>"
proof (cases e)
  case (Observe key ip ty src)
  then show ?thesis using assms by (auto simp: RecordRequest_def)
next
  case (WorkerRound now ok)
  then show ?thesis
  proof (cases q)
    case (Cons r rest)
    then show ?thesis
      using assms WorkerRound
      by (cases ok) (auto simp: asyncWorker_def run_sync_snoc recordRequestSync_def Let_def)
  qed (use assms WorkerRound in \<open>auto simp: asyncWorker_def\<close>)
qed

lemma run_events_log: "run_events evs t0 = (t, log) \<Longrightarrow> t = (run_sync log t0)\<lparr>tr_queue := tr_queue t\<rparr>"
proof (induction evs arbitrary: t log rule: rev_induct)
  case Nil
  then show ?case by (simp add: run_events_def run_sync_def)
next
  case (snoc e evs)
  obtain t1 log1 where 1: "run_events evs t0 = (t1, log1)" by fastforce
  then have "run_event e (t1, log1) = (t, log)" using snoc.prems by (simp add: run_events_def)
  then show ?case using run_event_log [OF snoc.IH [OF 1]] by blast
qed

lemma run_event_queue: "length (tr_queue t) \<le> asyncQueueSize \<Longrightarrow> length (tr_queue (fst (run_event e (t, log)))) \<le> asyncQueueSize"
  by (cases e) (auto simp: RecordRequest_def asyncWorker_def recordRequestSync_def Let_def split: list.splits)

lemma run_events_queue: "length (tr_queue (fst (run_events evs (NewTracker a b)))) \<le> asyncQueueSize"
proof (induction evs rule: rev_induct)
  case (snoc e evs)
  then show ?case using run_event_queue by (cases "run_events evs (NewTracker a b)") (simp add: run_events_def)
qed (simp add: run_events_def NewTracker_def)

text \<open>The queue has room whenever a query is observed.\<close>

definition never_full :: "stat_event list \<Rightarrow> Tracker \<Rightarrow> bool" where
  "never_full evs t0 \<longleftrightarrow> (\<forall>n < length evs. case evs ! n of
      Observe key ip ty src \<Rightarrow> length (tr_queue (fst (run_events (take n evs) t0))) < asyncQueueSize
    | WorkerRound now ok \<Rightarrow> True)"

lemma never_full_snoc:
  assumes "never_full (evs @ [e]) t0"
  shows "never_full evs t0"
    "e = Observe key ip ty src \<Longrightarrow> length (tr_queue (fst (run_events evs t0))) < asyncQueueSize"
proof -
  show "never_full evs t0"
    unfolding never_full_def
  proof (intro allI impI)
    fix n assume "n < length evs"
    then show "case evs ! n of Observe key ip ty src \<Rightarrow> length (tr_queue (fst (run_events (take n evs) t0))) < asyncQueueSize
        | WorkerRound now ok \<Rightarrow> True"
      using assms [unfolded never_full_def, rule_format, of n] by (simp add: nth_append split: stat_event.splits)
  qed
  show "e = Observe key ip ty src \<Longrightarrow> length (tr_queue (fst (run_events evs t0))) < asyncQueueSize"
    using assms [unfolded never_full_def, rule_format, of "length evs"] by simp
qed

lemma run_events_fifo:
  "rounds_ok evs \<Longrightarrow> never_full evs (NewTracker a b) \<Longrightarrow> run_events evs (NewTracker a b) = (t, log) \<Longrightarrow>
     map snd log @ tr_queue t = observed evs"
proof (induction evs arbitrary: t log rule: rev_induct)
  case Nil
  then show ?case by (auto simp: run_events_def NewTracker_def observed_def)
next
  case (snoc e evs)
  obtain t1 log1 where 1: "run_events evs (NewTracker a b) = (t1, log1)" by fastforce
  then have e: "run_event e (t1, log1) = (t, log)" using snoc.prems by (simp add: run_events_def)
  have IH: "map snd log1 @ tr_queue t1 = observed evs"
    using snoc.IH [OF _ never_full_snoc(1) [OF snoc.prems(2)] 1] snoc.prems by (simp add: rounds_ok_def)
  show ?case
  proof (cases e)
    case (Observe key ip ty src)
    then have "length (tr_queue t1) < asyncQueueSize" using never_full_snoc(2) [OF snoc.prems(2)] 1 by simp
    then show ?thesis using e IH Observe by (auto simp: RecordRequest_def observed_def)
  next
    case (WorkerRound now ok)
    then have "ok" using snoc.prems(1) by (simp add: rounds_ok_def)
    then show ?thesis
      using e IH WorkerRound
      by (cases "tr_queue t1") (auto simp: asyncWorker_def recordRequestSync_def Let_def observed_def)
  qed
qed

text \<open>In particular when no more is observed than the queue holds.\<close>

lemma few_never_full:
  "rounds_ok evs \<Longrightarrow> length (observed evs) \<le> asyncQueueSize \<Longrightarrow> never_full evs (NewTracker a b)"
proof (induction evs rule: rev_induct)
  case Nil
  then show ?case by (simp add: never_full_def)
next
  case (snoc e evs)
  obtain t log where r: "run_events evs (NewTracker a b) = (t, log)" by fastforce
  have ok: "rounds_ok evs" "length (observed evs) \<le> asyncQueueSize" using snoc.prems by (simp_all add: rounds_ok_def observed_def)
  then have nf: "never_full evs (NewTracker a b)" by (rule snoc.IH)
  have len: "length (tr_queue t) \<le> length (observed evs)" using arg_cong [OF run_events_fifo [OF ok(1) nf r], of length] by simp
  show ?case
    unfolding never_full_def
  proof (intro allI impI)
    fix n assume n: "n < length (evs @ [e])"
    show "case (evs @ [e]) ! n of
        Observe key ip ty src \<Rightarrow> length (tr_queue (fst (run_events (take n (evs @ [e])) (NewTracker a b)))) < asyncQueueSize
      | WorkerRound now ok \<Rightarrow> True"
    proof (cases "n < length evs")
      case True
      then show ?thesis using nf [unfolded never_full_def, rule_format, of n] by (simp add: nth_append split: stat_event.splits)
    next
      case False
      then have "n = length evs" using n by simp
      moreover have "length (observed (evs @ [e])) = length (observed evs) + length (observed [e])" by (simp add: observed_def)
      ultimately show ?thesis using r len snoc.prems(2) by (cases e) (simp_all add: observed_def [of "[_]"])
    qed
  qed
qed

text \<open>C34.  The statistics count exactly: over any interleaving of queries and rounds of the worker, the count of a
  request in the database is what it was at the start plus the number of its rows that were written, the count
  of the session is that number, and the counts per reply path add up in the same way; the queue never exceeds
  its size.  When every transaction succeeds and the queue has room at every query, in particular when at most
  10000 queries are observed, what was written followed by what is still queued is exactly what was observed, in
  order; otherwise rows are lost.\<close>

theorem full_stats_exact:
  assumes "run_events evs (NewTracker db dbr) = (t, log)"
  shows "req_count (GetRequestStats k t) = req_count (db k) + how_many (\<lambda>r. rq_key r = k) log \<and>
    req_count (tr_sessionRequests t k) = how_many (\<lambda>r. rq_key r = k) log \<and>
    req_source src (GetRequestStats k t) = req_source src (db k) + how_many (\<lambda>r. rq_key r = k \<and> rq_source r = src) log \<and>
    reqr_type ty (GetRequesterStats ip t) = reqr_type ty (dbr ip) + how_many (\<lambda>r. rq_requesterIP r = ip \<and> rq_recordType r = ty) log \<and>
    length (tr_queue t) \<le> asyncQueueSize \<and>
    (rounds_ok evs \<and> (never_full evs (NewTracker db dbr) \<or> length (observed evs) \<le> asyncQueueSize) \<longrightarrow>
       map snd log @ tr_queue t = observed evs)"
proof -
  let ?t0 = "NewTracker db dbr"
  have same: "tr_requests t = tr_requests (run_sync log ?t0)" "tr_requesters t = tr_requesters (run_sync log ?t0)"
    "tr_sessionRequests t = tr_sessionRequests (run_sync log ?t0)"
    using run_events_log [OF assms] by (metis Tracker.select_convs Tracker.surjective Tracker.update_convs(5))+
  have "length (tr_queue t) \<le> asyncQueueSize" using run_events_queue [of evs db dbr] assms by simp
  moreover have "rounds_ok evs \<and> (never_full evs ?t0 \<or> length (observed evs) \<le> asyncQueueSize) \<longrightarrow> map snd log @ tr_queue t = observed evs"
    using run_events_fifo [OF _ _ assms] few_never_full [of evs db dbr] by blast
  ultimately show ?thesis
    unfolding GetRequestStats_def GetRequesterStats_def same
    by (simp add: run_sync_requests run_sync_requesters NewTracker_def)
qed

theorem full_stats_exact_witness:
  "let (t, log) = run_events [Observe ''a.x:A'' ''10.0.0.1'' ''A'' '' Cache '', WorkerRound 5 True, Observe ''a.x:A'' ''10.0.0.2'' ''A'' ''local'']
       (NewTracker Map.empty Map.empty)
   in req_count (GetRequestStats ''a.x:A'' t) = 1 \<and> length (tr_queue t) = 1"
proof -
  let ?evs = "[Observe ''a.x:A'' ''10.0.0.1'' ''A'' '' Cache '', WorkerRound 5 True, Observe ''a.x:A'' ''10.0.0.2'' ''A'' ''local'']"
  obtain t log where r: "run_events ?evs (NewTracker Map.empty Map.empty) = (t, log)" by fastforce
  have "length (tr_queue t) = 1 \<and> length (filter (\<lambda>(now, r). rq_key r = ''a.x:A'') log) = 1"
    using r by (auto simp: run_events_def RecordRequest_def NewTracker_def asyncQueueSize_def asyncWorker_def recordRequestSync_def Let_def)
  then show ?thesis using full_stats_exact [OF r, of "''a.x:A''"] r by (simp add: how_many_def)
qed

end
