(* ===== verification/Metrics.thy ===== *)
theory Metrics
  imports DnsServe FullStats
begin

text \<open>
  Counters for the operator: the timing of queries (\<^verbatim>\<open>data/resolver_perf.go\<close>) with its histograms in the format of
  Prometheus (\<^verbatim>\<open>data/prometheus_metrics.go\<close>), the outcomes of DNSSEC (\<^verbatim>\<open>data/dns_metrics.go\<close>), and the live view of the
  dashboard (\<^verbatim>\<open>data/dashboard_live.go\<close>).  Counters are 64-bit words that wrap.  The atomic additions of one
  call are one step: additions commute, so only the order of calls could matter, and it does not.
\<close>

subsection \<open>Counters\<close>

text \<open>An operation that adds a weight to a counter, folded over the events: the counter is the sum.\<close>

locale event_counter =
  fixes step :: "'e \<Rightarrow> 's \<Rightarrow> 's" and get :: "'s \<Rightarrow> u64" and weight :: "'e \<Rightarrow> u64"
  assumes get_step: "get (step e s) = get s + weight e"
begin

lemma get_fold: "get (fold step es s) = get s + sum_list (map weight es)"
  by (induction es arbitrary: s) (simp_all add: get_step add.assoc)

end

lemma sum_indicator: "sum_list (map (\<lambda>e. if P e then 1 else 0 :: u64) es) = of_nat (length (filter P es))"
  by (induction es) simp_all

subsection \<open>Timing of queries\<close>

datatype perf_outcome = PerfOutcomeLocal | PerfOutcomeCache | PerfOutcomeUpstream | PerfOutcomeNone

text \<open>The arguments of \<^verbatim>\<open>RecordResolverAResolve\<close>.\<close>

record perf_event =
  pe_outcome :: perf_outcome
  pe_totalNs :: u64
  pe_prepNs :: u64
  pe_maxUpstreamNs :: u64
  pe_upstreamWaitNs :: u64
  pe_upstreamServers :: int
  pe_qtype :: gostr

record perfQTStats =
  qt_total :: u64
  qt_sumTotalNs :: u64
  qt_outLocal :: u64
  qt_outCache :: u64
  qt_outUpstream :: u64
  qt_outNone :: u64
  qt_hist :: "u64 list"

record perf_state =
  pf_ATotal :: u64
  pf_OutcomeLocal :: u64
  pf_OutcomeCache :: u64
  pf_OutcomeUpstream :: u64
  pf_OutcomeNone :: u64
  pf_SumTotalNs :: u64
  pf_SumPrepNs :: u64
  pf_SumUpstreamWaitNs :: u64
  pf_SumMaxUpstreamNs :: u64
  pf_MaxTotalNs :: u64
  pf_HistTotal :: "u64 list"
  pf_HistUpstream :: "u64 list"
  pf_HistLocal :: "u64 list"
  pf_HistCache :: "u64 list"
  pf_HistNone :: "u64 list"
  pf_UpstreamCountSum :: u64
  pf_FirstRecord :: int
  pf_MaxTotalLocalNs :: u64
  pf_MaxTotalCacheNs :: u64
  pf_MaxTotalNoneNs :: u64
  pf_SumTotalLocalNs :: u64
  pf_SumTotalCacheNs :: u64
  pf_SumTotalNoneNs :: u64
  pf_QT :: "gostr \<rightharpoonup> perfQTStats"

definition perfBucketIndex :: "u64 \<Rightarrow> nat" where
  "perfBucketIndex totalNs =
     (let ms = totalNs div 1000000 in
      if ms < 1 then 0 else if ms < 2 then 1 else if ms < 4 then 2 else if ms < 8 then 3
      else if ms < 16 then 4 else if ms < 32 then 5 else if ms < 64 then 6 else 7)"

definition inc :: "nat \<Rightarrow> u64 list \<Rightarrow> u64 list" where
  "inc b h = h[b := h ! b + 1]"

definition empty_qt :: perfQTStats where
  "empty_qt = \<lparr>qt_total = 0, qt_sumTotalNs = 0, qt_outLocal = 0, qt_outCache = 0, qt_outUpstream = 0, qt_outNone = 0,
     qt_hist = replicate 8 0\<rparr>"

definition ResetResolverPerf :: perf_state where
  "ResetResolverPerf = \<lparr>pf_ATotal = 0, pf_OutcomeLocal = 0, pf_OutcomeCache = 0, pf_OutcomeUpstream = 0, pf_OutcomeNone = 0,
     pf_SumTotalNs = 0, pf_SumPrepNs = 0, pf_SumUpstreamWaitNs = 0, pf_SumMaxUpstreamNs = 0, pf_MaxTotalNs = 0,
     pf_HistTotal = replicate 8 0, pf_HistUpstream = replicate 8 0, pf_HistLocal = replicate 8 0, pf_HistCache = replicate 8 0,
     pf_HistNone = replicate 8 0, pf_UpstreamCountSum = 0, pf_FirstRecord = 0, pf_MaxTotalLocalNs = 0, pf_MaxTotalCacheNs = 0,
     pf_MaxTotalNoneNs = 0, pf_SumTotalLocalNs = 0, pf_SumTotalCacheNs = 0, pf_SumTotalNoneNs = 0, pf_QT = Map.empty\<rparr>"

definition recordQT :: "perf_event \<Rightarrow> perfQTStats \<Rightarrow> perfQTStats" where
  "recordQT e q =
     (let q = q\<lparr>qt_total := qt_total q + 1, qt_sumTotalNs := qt_sumTotalNs q + pe_totalNs e,
                qt_hist := inc (perfBucketIndex (pe_totalNs e)) (qt_hist q)\<rparr>
      in case pe_outcome e of
        PerfOutcomeLocal \<Rightarrow> q\<lparr>qt_outLocal := qt_outLocal q + 1\<rparr>
      | PerfOutcomeCache \<Rightarrow> q\<lparr>qt_outCache := qt_outCache q + 1\<rparr>
      | PerfOutcomeUpstream \<Rightarrow> q\<lparr>qt_outUpstream := qt_outUpstream q + 1\<rparr>
      | PerfOutcomeNone \<Rightarrow> q\<lparr>qt_outNone := qt_outNone q + 1\<rparr>)"

definition recordOutcome :: "perf_event \<Rightarrow> perf_state \<Rightarrow> perf_state" where
  "recordOutcome e s =
     (let b = perfBucketIndex (pe_totalNs e); n = pe_totalNs e in
      case pe_outcome e of
        PerfOutcomeLocal \<Rightarrow> s\<lparr>pf_OutcomeLocal := pf_OutcomeLocal s + 1, pf_HistLocal := inc b (pf_HistLocal s),
          pf_SumTotalLocalNs := pf_SumTotalLocalNs s + n, pf_MaxTotalLocalNs := max n (pf_MaxTotalLocalNs s)\<rparr>
      | PerfOutcomeCache \<Rightarrow> s\<lparr>pf_OutcomeCache := pf_OutcomeCache s + 1, pf_HistCache := inc b (pf_HistCache s),
          pf_SumTotalCacheNs := pf_SumTotalCacheNs s + n, pf_MaxTotalCacheNs := max n (pf_MaxTotalCacheNs s)\<rparr>
      | PerfOutcomeUpstream \<Rightarrow> s\<lparr>pf_OutcomeUpstream := pf_OutcomeUpstream s + 1, pf_HistUpstream := inc b (pf_HistUpstream s),
          pf_SumMaxUpstreamNs := pf_SumMaxUpstreamNs s + pe_maxUpstreamNs e,
          pf_SumUpstreamWaitNs := pf_SumUpstreamWaitNs s + pe_upstreamWaitNs e,
          pf_UpstreamCountSum := pf_UpstreamCountSum s + NonNegativeIntToUint64 (pe_upstreamServers e)\<rparr>
      | PerfOutcomeNone \<Rightarrow> s\<lparr>pf_OutcomeNone := pf_OutcomeNone s + 1, pf_HistNone := inc b (pf_HistNone s),
          pf_SumTotalNoneNs := pf_SumTotalNoneNs s + n, pf_MaxTotalNoneNs := max n (pf_MaxTotalNoneNs s)\<rparr>)"

definition RecordResolverAResolve :: "int \<Rightarrow> perf_event \<Rightarrow> perf_state \<Rightarrow> perf_state" where
  "RecordResolverAResolve nowNano e s =
     (let b = perfBucketIndex (pe_totalNs e);
          s = (if pf_FirstRecord s = 0 then s\<lparr>pf_FirstRecord := nowNano\<rparr> else s);
          s = (if pe_qtype e \<noteq> []
               then s\<lparr>pf_QT := (pf_QT s)(pe_qtype e \<mapsto>
                        recordQT e (case pf_QT s (pe_qtype e) of None \<Rightarrow> empty_qt | Some q \<Rightarrow> q))\<rparr>
               else s);
          s = recordOutcome e s
      in s\<lparr>pf_ATotal := pf_ATotal s + 1, pf_SumTotalNs := pf_SumTotalNs s + pe_totalNs e,
           pf_SumPrepNs := pf_SumPrepNs s + pe_prepNs e, pf_HistTotal := inc b (pf_HistTotal s),
           pf_MaxTotalNs := max (pe_totalNs e) (pf_MaxTotalNs s)\<rparr>)"

text \<open>The report, less its constant texts: averages are \<^verbatim>\<open>float64\<close> quotients, zero when there is nothing to divide
  by; the instant of the first query is given as Unix nanoseconds, which the code prints.\<close>

definition f64_of_u64 :: "u64 \<Rightarrow> rat" where
  "f64_of_u64 w = f64_round (of_nat (unat w))"

definition avgMs :: "u64 \<Rightarrow> u64 \<Rightarrow> rat" where
  "avgMs ns n = (if n > 0 then f64_div (f64_div (f64_of_u64 ns) (f64_of_u64 n)) 1000000 else 0)"

definition perfHistLabels :: "gostr list" where
  "perfHistLabels = [''[0,1)'', ''[1,2)'', ''[2,4)'', ''[4,8)'', ''[8,16)'', ''[16,32)'', ''[32,64)'', ''[64,inf)'']"

record perf_report =
  pr_SinceFirst :: "int option"
  pr_Total :: u64
  pr_Local :: u64
  pr_Cache :: u64
  pr_Upstream :: u64
  pr_None :: u64
  pr_AvgTotalMs :: rat
  pr_AvgPrepMs :: rat
  pr_MaxTotalMs :: rat
  pr_AvgUpstreamWaitMs :: rat
  pr_AvgMaxUpstreamMs :: rat
  pr_AvgUpstreamServers :: rat
  pr_HistTotalMs :: "(gostr \<times> u64) list"
  pr_HistUpstreamMs :: "(gostr \<times> u64) list"
  pr_HistLocalMs :: "(gostr \<times> u64) list"
  pr_HistCacheMs :: "(gostr \<times> u64) list"
  pr_HistNoneMs :: "(gostr \<times> u64) list"
  pr_AvgTotalMsLocalOnly :: rat
  pr_MaxTotalMsLocalOnly :: rat
  pr_AvgTotalMsCacheOnly :: rat
  pr_MaxTotalMsCacheOnly :: rat
  pr_ByQueryType :: "gostr \<rightharpoonup> u64 \<times> rat \<times> u64 \<times> u64 \<times> u64 \<times> u64"

definition queryTypeRow :: "perfQTStats \<Rightarrow> u64 \<times> rat \<times> u64 \<times> u64 \<times> u64 \<times> u64" where
  "queryTypeRow q = (qt_total q, avgMs (qt_sumTotalNs q) (qt_total q), qt_outLocal q, qt_outCache q, qt_outUpstream q, qt_outNone q)"

definition GetResolverPerfReport :: "perf_state \<Rightarrow> perf_report" where
  "GetResolverPerfReport s =
     (let ms = (\<lambda>w. f64_div (f64_of_u64 w) 1000000); nu = pf_OutcomeUpstream s in
      \<lparr>pr_SinceFirst = (if pf_FirstRecord s > 0 then Some (pf_FirstRecord s) else None), pr_Total = pf_ATotal s, pr_Local = pf_OutcomeLocal s, pr_Cache = pf_OutcomeCache s, pr_Upstream = nu, pr_None = pf_OutcomeNone s,
       pr_AvgTotalMs = avgMs (pf_SumTotalNs s) (pf_ATotal s), pr_AvgPrepMs = avgMs (pf_SumPrepNs s) (pf_ATotal s),
       pr_MaxTotalMs = ms (pf_MaxTotalNs s),
       pr_AvgUpstreamWaitMs = avgMs (pf_SumUpstreamWaitNs s) nu, pr_AvgMaxUpstreamMs = avgMs (pf_SumMaxUpstreamNs s) nu,
       pr_AvgUpstreamServers = (if nu > 0 then f64_div (f64_of_u64 (pf_UpstreamCountSum s)) (f64_of_u64 nu) else 0),
       pr_HistTotalMs = zip perfHistLabels (pf_HistTotal s), pr_HistUpstreamMs = zip perfHistLabels (pf_HistUpstream s),
       pr_HistLocalMs = zip perfHistLabels (pf_HistLocal s), pr_HistCacheMs = zip perfHistLabels (pf_HistCache s),
       pr_HistNoneMs = zip perfHistLabels (pf_HistNone s),
       pr_AvgTotalMsLocalOnly = avgMs (pf_SumTotalLocalNs s) (pf_OutcomeLocal s),
       pr_MaxTotalMsLocalOnly = (if pf_OutcomeLocal s > 0 then ms (pf_MaxTotalLocalNs s) else 0),
       pr_AvgTotalMsCacheOnly = avgMs (pf_SumTotalCacheNs s) (pf_OutcomeCache s),
       pr_MaxTotalMsCacheOnly = (if pf_OutcomeCache s > 0 then ms (pf_MaxTotalCacheNs s) else 0),
       pr_ByQueryType = (\<lambda>k. Option.bind (pf_QT s k) (\<lambda>q. if qt_total q = 0 then None else Some (queryTypeRow q)))\<rparr>)"

subsection \<open>Prometheus\<close>

fun cumulative :: "u64 \<Rightarrow> u64 list \<Rightarrow> u64 list" where
  "cumulative acc [] = []"
| "cumulative acc (c # cs) = (acc + c) # cumulative (acc + c) cs"

definition cumulativeFromBuckets :: "u64 list \<Rightarrow> u64 list" where
  "cumulativeFromBuckets counts = cumulative 0 counts"

definition prometheusResolveBucketLe :: "gostr list" where
  "prometheusResolveBucketLe = [''0.001'', ''0.002'', ''0.004'', ''0.008'', ''0.016'', ''0.032'', ''0.064'', ''+Inf'']"

definition bucketLine :: "gostr \<Rightarrow> gostr \<Rightarrow> u64 \<Rightarrow> gostr" where
  "bucketLine lbls le n =
     ''dnsplane_dns_resolve_duration_seconds_bucket{'' @ (if lbls = [] then [] else lbls @ '','') @ ''le='' @ [CHR 0x22] @ le @ [CHR 0x22] @
     ''} '' @ dec (unat n) @ [CHR 0x0A]"

definition writeHistogramSeries :: "(rat \<Rightarrow> gostr) \<Rightarrow> gostr \<Rightarrow> u64 list \<Rightarrow> rat \<Rightarrow> u64 \<Rightarrow> gostr" where
  "writeHistogramSeries g lbls counts sm n =
     (let series = (\<lambda>name. ''dnsplane_dns_resolve_duration_seconds_'' @ name @ (if lbls = [] then [] else ''{'' @ lbls @ ''}'') @ '' '') in
      concat (map (\<lambda>(le, c). bucketLine lbls le c) (zip prometheusResolveBucketLe (cumulativeFromBuckets counts))) @
      series ''sum'' @ g sm @ [CHR 0x0A] @ series ''count'' @ dec (unat n) @ [CHR 0x0A])"

definition prometheusEscapeLabelValue :: "gostr \<Rightarrow> gostr" where
  "prometheusEscapeLabelValue s =
     ReplaceAll (ReplaceAll s [CHR 0x5C] [CHR 0x5C, CHR 0x5C]) [CHR 0x22] [CHR 0x5C, CHR 0x22]"

text \<open>The \<^verbatim>\<open>%g\<close> verb of \<^verbatim>\<open>fmt\<close> is the parameter \<open>g\<close>.  The types are visited in an order that the map does not fix: \<open>visit\<close> is that order.\<close>

definition WriteResolverPerfPrometheus :: "(rat \<Rightarrow> gostr) \<Rightarrow> gostr list \<Rightarrow> perf_state \<Rightarrow> gostr" where
  "WriteResolverPerfPrometheus g visit s =
     ''# HELP dnsplane_dns_resolve_duration_seconds DNS fast-path resolve latency (seconds)'' @ [CHR 0x0A] @
     ''# TYPE dnsplane_dns_resolve_duration_seconds histogram'' @ [CHR 0x0A] @
     writeHistogramSeries g [] (pf_HistTotal s) (f64_div (f64_of_u64 (pf_SumTotalNs s)) 1000000000) (pf_ATotal s) @
     concat (map (\<lambda>k. case pf_QT s k of
         None \<Rightarrow> []
       | Some q \<Rightarrow> if k = [] \<or> qt_total q = 0 then []
                   else writeHistogramSeries g (''qtype='' @ [CHR 0x22] @ prometheusEscapeLabelValue k @ [CHR 0x22]) (qt_hist q)
                          (f64_div (f64_of_u64 (qt_sumTotalNs q)) 1000000000) (qt_total q)) visit)"

subsection \<open>Outcomes of DNSSEC\<close>

record dnssec_counters =
  do_off :: u64
  do_insecure :: u64
  do_verified :: u64
  do_bogus :: u64
  do_skipped :: u64

definition RecordDNSSECOutcome :: "gostr \<Rightarrow> dnssec_counters \<Rightarrow> dnssec_counters" where
  "RecordDNSSECOutcome outcome c =
     (if outcome = ''off'' then c\<lparr>do_off := do_off c + 1\<rparr>
      else if outcome = ''insecure'' then c\<lparr>do_insecure := do_insecure c + 1\<rparr>
      else if outcome = ''verified'' then c\<lparr>do_verified := do_verified c + 1\<rparr>
      else if outcome = ''bogus'' then c\<lparr>do_bogus := do_bogus c + 1\<rparr>
      else if outcome = ''skipped_local'' then c\<lparr>do_skipped := do_skipped c + 1\<rparr>
      else c\<lparr>do_insecure := do_insecure c + 1\<rparr>)"

definition outcomeLine :: "gostr \<Rightarrow> u64 \<Rightarrow> gostr" where
  "outcomeLine label v =
     ''dnsplane_dnssec_outcomes_total{outcome='' @ [CHR 0x22] @ label @ [CHR 0x22] @ ''} '' @ dec (unat v) @ [CHR 0x0A]"

definition dropLine :: "gostr \<Rightarrow> u64 \<Rightarrow> gostr" where
  "dropLine reason v =
     ''dnsplane_dns_limiter_drops_total{reason='' @ [CHR 0x22] @ reason @ [CHR 0x22] @ ''} '' @ dec (unat v) @ [CHR 0x0A]"

definition WriteDNSAbusePrometheus :: "dnssec_counters \<Rightarrow> drop_counters \<Rightarrow> gostr" where
  "WriteDNSAbusePrometheus c d =
     ''# HELP dnsplane_dnssec_outcomes_total DNSSEC validation outcomes'' @ [CHR 0x0A] @
     ''# TYPE dnsplane_dnssec_outcomes_total counter'' @ [CHR 0x0A] @
     outcomeLine ''off'' (do_off c) @ outcomeLine ''insecure'' (do_insecure c) @ outcomeLine ''verified'' (do_verified c) @
     outcomeLine ''bogus'' (do_bogus c) @ outcomeLine ''skipped_local'' (do_skipped c) @
     ''# HELP dnsplane_dns_limiter_drops_total Queries refused by limiter type'' @ [CHR 0x0A] @
     ''# TYPE dnsplane_dns_limiter_drops_total counter'' @ [CHR 0x0A] @
     dropLine ''query_rate'' (dc_QueryRate d) @ dropLine ''response_sliding'' (dc_Sliding d) @ dropLine ''response_rrl'' (dc_RRL d)"

subsection \<open>The live view of the dashboard\<close>

record DashboardResolution =
  dr_At :: gotime
  dr_ClientIP :: gostr
  dr_Qname :: gostr
  dr_Qtype :: gostr
  dr_Outcome :: gostr
  dr_Upstream :: gostr
  dr_Record :: gostr
  dr_DurationMs :: rat

record minuteAgg =
  ma_count :: u64
  ma_sumMs :: rat

record secondAgg =
  sa_total :: u64
  sa_local :: u64
  sa_cache :: u64
  sa_upstream :: u64
  sa_none :: u64
  sa_blocked :: u64

record dashboardLive =
  dl_cap :: int
  dl_log :: "DashboardResolution list"
  dl_minute :: "int \<rightharpoonup> minuteAgg"
  dl_second :: "int \<rightharpoonup> secondAgg"

definition empty_live :: dashboardLive where
  "empty_live = \<lparr>dl_cap = 0, dl_log = [], dl_minute = Map.empty, dl_second = Map.empty\<rparr>"

definition empty_minute :: minuteAgg where
  "empty_minute = \<lparr>ma_count = 0, ma_sumMs = 0\<rparr>"

definition empty_second :: secondAgg where
  "empty_second = \<lparr>sa_total = 0, sa_local = 0, sa_cache = 0, sa_upstream = 0, sa_none = 0, sa_blocked = 0\<rparr>"

definition lastN :: "int \<Rightarrow> 'a list \<Rightarrow> 'a list" where
  "lastN n xs = (if int (length xs) > n then drop (length xs - nat n) xs else xs)"

definition SetDashboardResolutionLogCap :: "int \<Rightarrow> dashboardLive \<Rightarrow> dashboardLive" where
  "SetDashboardResolutionLogCap n0 s =
     (let n = (if n0 \<le> 0 then 1000 else n0); n = (if n > 1000000 then 1000000 else n)
      in s\<lparr>dl_cap := n, dl_log := lastN n (dl_log s)\<rparr>)"

definition DashboardLogCap :: "dashboardLive \<Rightarrow> int" where
  "DashboardLogCap s = (if dl_cap s \<le> 0 then 1000 else dl_cap s)"

text \<open>Go's quotient of integers truncates.\<close>

definition minuteOf :: "gotime \<Rightarrow> int" where
  "minuteOf t = (let u = time_Unix t in sgn u * (\<bar>u\<bar> div 60))"

definition stampAt :: "gotime \<Rightarrow> DashboardResolution \<Rightarrow> DashboardResolution" where
  "stampAt now e = (if time_IsZero (dr_At e) then e\<lparr>dr_At := now\<rparr> else e)"

definition prune :: "int \<Rightarrow> (int \<rightharpoonup> 'b) \<Rightarrow> (int \<rightharpoonup> 'b)" where
  "prune oldest m = (\<lambda>k. if k < oldest then None else m k)"

definition tallySecond :: "DashboardResolution \<Rightarrow> secondAgg \<Rightarrow> secondAgg" where
  "tallySecond e sb0 =
     (let sb = sb0\<lparr>sa_total := sa_total sb0 + 1\<rparr>; outcome = ToLower (TrimSpace (dr_Outcome e)) in
      if outcome = ''local'' then sb\<lparr>sa_local := sa_local sb + 1\<rparr>
      else if outcome = ''cache'' then sb\<lparr>sa_cache := sa_cache sb + 1\<rparr>
      else if outcome = ''upstream'' then sb\<lparr>sa_upstream := sa_upstream sb + 1\<rparr>
      else if outcome = ''none'' then sb\<lparr>sa_none := sa_none sb + 1\<rparr>
      else if outcome = ''blocked'' then sb\<lparr>sa_blocked := sa_blocked sb + 1\<rparr>
      else sb)"

definition tallyMinute :: "DashboardResolution \<Rightarrow> minuteAgg \<Rightarrow> minuteAgg" where
  "tallyMinute e agg = agg\<lparr>ma_count := ma_count agg + 1, ma_sumMs := f64_add (ma_sumMs agg) (dr_DurationMs e)\<rparr>"

definition RecordDashboardResolution :: "gotime \<Rightarrow> DashboardResolution \<Rightarrow> dashboardLive \<Rightarrow> dashboardLive" where
  "RecordDashboardResolution now e0 s =
     (let e = stampAt now e0; sk = time_Unix (dr_At e);
          sb = (case dl_second s sk of None \<Rightarrow> empty_second | Some sb \<Rightarrow> sb);
          s = s\<lparr>dl_second := prune (sk - 65) ((dl_second s)(sk \<mapsto> tallySecond e sb))\<rparr>;
          s = s\<lparr>dl_log := lastN (DashboardLogCap s) (dl_log s @ [e])\<rparr>;
          mk = minuteOf (dr_At e);
          agg = (case dl_minute s mk of None \<Rightarrow> empty_minute | Some agg \<Rightarrow> agg)
      in s\<lparr>dl_minute := prune (mk - 60 - 1) ((dl_minute s)(mk \<mapsto> tallyMinute e agg))\<rparr>)"

definition GetDashboardLogNewestFirst :: "int \<Rightarrow> dashboardLive \<Rightarrow> DashboardResolution list" where
  "GetDashboardLogNewestFirst limit0 s =
     (let limit = (if limit0 \<le> 0 then 100 else limit0);
          limit = (if limit > DashboardLogCap s then DashboardLogCap s else limit)
      in take (nat limit) (rev (dl_log s)))"

definition ClearDashboardResolutionLog :: "dashboardLive \<Rightarrow> dashboardLive" where
  "ClearDashboardResolutionLog s = s\<lparr>dl_log := []\<rparr>"

text \<open>A point of the chart: the Unix second that \<^verbatim>\<open>T\<close> prints, the replies and their average.\<close>

record DashboardMinutePoint =
  mp_T :: int
  mp_Replies :: u64
  mp_AvgMs :: rat

definition minutePoint :: "dashboardLive \<Rightarrow> int \<Rightarrow> DashboardMinutePoint" where
  "minutePoint s mk = (case dl_minute s mk of
      None \<Rightarrow> \<lparr>mp_T = mk * 60, mp_Replies = 0, mp_AvgMs = 0\<rparr>
    | Some agg \<Rightarrow> \<lparr>mp_T = mk * 60, mp_Replies = ma_count agg,
        mp_AvgMs = (if ma_count agg > 0 then f64_div (ma_sumMs agg) (f64_of_u64 (ma_count agg)) else 0)\<rparr>)"

definition GetDashboardSeries :: "gotime \<Rightarrow> dashboardLive \<Rightarrow> DashboardMinutePoint list" where
  "GetDashboardSeries now s = map (\<lambda>i. minutePoint s (minuteOf now - 60 + 1 + int i)) [0..<60]"

record DashboardPerSecRates =
  ps_WindowSeconds :: int
  ps_Resolutions :: rat
  ps_Local :: rat
  ps_Cache :: rat
  ps_Upstream :: rat
  ps_None :: rat
  ps_Blocked :: rat

definition rateWindow :: "int \<Rightarrow> int" where
  "rateWindow w = (let w = (if w < 1 then 5 else w) in if w > 60 then 60 else w)"

definition sumSeconds :: "(secondAgg \<Rightarrow> u64) \<Rightarrow> gotime \<Rightarrow> nat \<Rightarrow> dashboardLive \<Rightarrow> u64" where
  "sumSeconds get now w s =
     sum_list (map (\<lambda>i. case dl_second s (time_Unix now - 1 - int i) of None \<Rightarrow> 0 | Some sb \<Rightarrow> get sb) [0..<w])"

definition GetDashboardPerSecRates :: "gotime \<Rightarrow> int \<Rightarrow> dashboardLive \<Rightarrow> DashboardPerSecRates" where
  "GetDashboardPerSecRates now w0 s =
     (let w = rateWindow w0; rate = (\<lambda>get. f64_div (f64_of_u64 (sumSeconds get now (nat w) s)) (of_int w)) in
      \<lparr>ps_WindowSeconds = w, ps_Resolutions = rate sa_total, ps_Local = rate sa_local, ps_Cache = rate sa_cache,
       ps_Upstream = rate sa_upstream, ps_None = rate sa_none, ps_Blocked = rate sa_blocked\<rparr>)"

subsection \<open>The counters count\<close>

text \<open>Every counter of a recorded query, as the sum of what the queries added to it.\<close>

abbreviation record_query :: "int \<times> perf_event \<Rightarrow> perf_state \<Rightarrow> perf_state" where
  "record_query ev \<equiv> RecordResolverAResolve (fst ev) (snd ev)"

abbreviation outcome_is :: "perf_outcome \<Rightarrow> int \<times> perf_event \<Rightarrow> bool" where
  "outcome_is out ev \<equiv> pe_outcome (snd ev) = out"

abbreviation bucket_of :: "int \<times> perf_event \<Rightarrow> nat" where
  "bucket_of ev \<equiv> perfBucketIndex (pe_totalNs (snd ev))"

lemma perfBucketIndex_bound [simp]: "perfBucketIndex n < 8"
  by (simp add: perfBucketIndex_def Let_def)

lemma inc_nth: "b < length h \<Longrightarrow> inc b h ! i = h ! i + (if i = b then 1 else 0)"
  by (cases "i = b") (simp_all add: inc_def)

lemma inc_length [simp]: "length (inc b h) = length h"
  by (simp add: inc_def)

lemmas record_simps = RecordResolverAResolve_def recordOutcome_def Let_def

interpretation queries: event_counter record_query pf_ATotal "\<lambda>ev. 1"
  by unfold_locales (simp add: record_simps split: perf_outcome.split)

interpretation total_time: event_counter record_query pf_SumTotalNs "\<lambda>ev. pe_totalNs (snd ev)"
  by unfold_locales (simp add: record_simps split: perf_outcome.split)

interpretation answered_locally: event_counter record_query pf_OutcomeLocal "\<lambda>ev. if outcome_is PerfOutcomeLocal ev then 1 else 0"
  by unfold_locales (simp add: record_simps split: perf_outcome.split)

interpretation answered_cached: event_counter record_query pf_OutcomeCache "\<lambda>ev. if outcome_is PerfOutcomeCache ev then 1 else 0"
  by unfold_locales (simp add: record_simps split: perf_outcome.split)

interpretation answered_upstream: event_counter record_query pf_OutcomeUpstream "\<lambda>ev. if outcome_is PerfOutcomeUpstream ev then 1 else 0"
  by unfold_locales (simp add: record_simps split: perf_outcome.split)

interpretation unanswered: event_counter record_query pf_OutcomeNone "\<lambda>ev. if outcome_is PerfOutcomeNone ev then 1 else 0"
  by unfold_locales (simp add: record_simps split: perf_outcome.split)

interpretation all_outcomes: event_counter RecordDNSSECOutcome
    "\<lambda>c. do_off c + do_insecure c + do_verified c + do_bogus c + do_skipped c" "\<lambda>e. 1"
  by unfold_locales (simp add: RecordDNSSECOutcome_def)

interpretation bogus_outcomes: event_counter RecordDNSSECOutcome do_bogus "\<lambda>e. if e = ''bogus'' then 1 else 0"
  by unfold_locales (simp add: RecordDNSSECOutcome_def)

interpretation rate_drops: event_counter RecordLimiterDrop dc_QueryRate "\<lambda>e. if e = ''query_rate'' then 1 else 0"
  by unfold_locales (simp add: RecordLimiterDrop_def)

text \<open>The histogram, and the tables of the types of queries.\<close>

lemma hist_length_step: "length (pf_HistTotal (record_query ev s)) = length (pf_HistTotal s)"
  by (simp add: record_simps split: perf_outcome.split)

lemma hist_step:
  "length (pf_HistTotal s) = 8 \<Longrightarrow>
   pf_HistTotal (record_query ev s) ! i = pf_HistTotal s ! i + (if bucket_of ev = i then 1 else 0)"
  by (simp add: record_simps inc_nth split: perf_outcome.split)

lemma hist_fold:
  "length (pf_HistTotal s) = 8 \<Longrightarrow>
   length (pf_HistTotal (fold record_query evs s)) = 8 \<and>
   pf_HistTotal (fold record_query evs s) ! i = pf_HistTotal s ! i + of_nat (length (filter (\<lambda>ev. bucket_of ev = i) evs))"
proof (induction evs arbitrary: s)
  case (Cons ev evs)
  have "length (pf_HistTotal (record_query ev s)) = 8" using Cons.prems hist_length_step by simp
  from Cons.IH [OF this] show ?case by (simp add: hist_step [OF Cons.prems])
qed simp

lemma max_fold: "pf_MaxTotalNs (fold record_query evs s) = fold (\<lambda>ev. max (pe_totalNs (snd ev))) evs (pf_MaxTotalNs s)"
  by (induction evs arbitrary: s) (simp_all add: record_simps split: perf_outcome.split)

abbreviation qt_row :: "perf_state \<Rightarrow> gostr \<Rightarrow> perfQTStats" where
  "qt_row s k \<equiv> (case pf_QT s k of None \<Rightarrow> empty_qt | Some q \<Rightarrow> q)"

lemma qt_step:
  "pf_QT (record_query ev s) k =
     (if k \<noteq> [] \<and> pe_qtype (snd ev) = k then Some (recordQT (snd ev) (qt_row s k)) else pf_QT s k)"
  by (cases "k = []"; simp add: record_simps split: perf_outcome.split)

lemma recordQT_total [simp]: "qt_total (recordQT e q) = qt_total q + 1"
  by (simp add: recordQT_def Let_def split: perf_outcome.split)

lemma qt_fold:
  "k \<noteq> [] \<Longrightarrow> qt_total (qt_row (fold record_query evs s) k) =
     qt_total (qt_row s k) + of_nat (length (filter (\<lambda>ev. pe_qtype (snd ev) = k) evs))"
  by (induction evs arbitrary: s) (simp_all add: qt_step)

lemma cumulative_nth:
  "i < length cs \<Longrightarrow> cumulative acc cs ! i = acc + sum_list (take (Suc i) cs)"
proof (induction cs arbitrary: acc i)
  case (Cons c cs)
  then show ?case by (cases i) (simp_all add: add.assoc)
qed simp

lemma length_filter_Suc:
  "length (filter (\<lambda>x. f x < Suc n) xs) = length (filter (\<lambda>x. f x < n) xs) + length (filter (\<lambda>x. f x = n) xs)"
  by (induction xs) (auto simp: less_Suc_eq)

lemma sum_buckets:
  assumes "\<And>b. b < n \<Longrightarrow> h ! b = (of_nat (length (filter (\<lambda>x. f x = b) xs)) :: u64)" "n \<le> length h"
  shows "sum_list (take n h) = of_nat (length (filter (\<lambda>x. f x < n) xs))"
  using assms by (induction n) (simp_all add: take_Suc_conv_app_nth length_filter_Suc)

lemma max_above: "m \<le> fold (\<lambda>x. max (f x)) xs m" for m :: u64
  by (induction xs arbitrary: m) (auto intro: order_trans [OF max.cobounded2])

lemma max_attained:
  "fold (\<lambda>x. max (f x)) xs m = m \<or> (\<exists>x \<in> set xs. fold (\<lambda>x. max (f x)) xs m = f x)" for m :: u64
proof (induction xs arbitrary: m)
  case (Cons x xs)
  then show ?case using Cons.IH [of "max (f x) m"] by (auto simp: max_def)
qed simp

lemma max_bounds: "x \<in> set xs \<Longrightarrow> f x \<le> fold (\<lambda>x. max (f x)) xs m" for m :: u64
proof (induction xs arbitrary: m)
  case (Cons y ys)
  have "f y \<le> fold (\<lambda>x. max (f x)) ys (max (f y) m)"
    using max_above [of "max (f y) m" f ys] by simp
  then show ?case using Cons by auto
qed simp

lemma reset_row [simp]: "qt_row ResetResolverPerf k = empty_qt" "qt_total empty_qt = 0"
  by (simp_all add: ResetResolverPerf_def empty_qt_def)

lemma reset_counts [simp]:
  "pf_ATotal ResetResolverPerf = 0" "pf_OutcomeLocal ResetResolverPerf = 0" "pf_OutcomeCache ResetResolverPerf = 0"
  "pf_OutcomeUpstream ResetResolverPerf = 0" "pf_OutcomeNone ResetResolverPerf = 0" "pf_SumTotalNs ResetResolverPerf = 0"
  "pf_MaxTotalNs ResetResolverPerf = 0" "pf_HistTotal ResetResolverPerf = replicate 8 0"
  by (simp_all add: ResetResolverPerf_def)

lemma hist_reset:
  "b < 8 \<Longrightarrow> pf_HistTotal (fold record_query evs ResetResolverPerf) ! b = of_nat (length (filter (\<lambda>ev. bucket_of ev = b) evs))"
  "length (pf_HistTotal (fold record_query evs ResetResolverPerf)) = 8"
  using hist_fold [of ResetResolverPerf evs b] by simp_all

lemma cumulative_hist:
  assumes "b < 8"
  shows "cumulativeFromBuckets (pf_HistTotal (fold record_query evs ResetResolverPerf)) ! b =
           of_nat (length (filter (\<lambda>ev. bucket_of ev \<le> b) evs))"
proof -
  have "sum_list (take (Suc b) (pf_HistTotal (fold record_query evs ResetResolverPerf))) =
          of_nat (length (filter (\<lambda>ev. bucket_of ev < Suc b) evs))"
    by (rule sum_buckets) (use assms in \<open>simp_all add: hist_reset\<close>)
  then show ?thesis using assms by (simp add: cumulativeFromBuckets_def cumulative_nth hist_reset(2) less_Suc_eq_le)
qed

text \<open>A duration falls into the bucket whose bounds, in whole milliseconds, enclose it.\<close>

lemma bucket_below:
  assumes "b < 7"
  shows "perfBucketIndex n \<le> b \<longleftrightarrow> unat n < 2 ^ b * 1000000"
proof -
  have ms: "unat (n div 1000000) = unat n div 1000000" by (simp add: unat_div)
  have lt: "n div 1000000 < m \<longleftrightarrow> unat n div 1000000 < unat m" for m by (simp add: word_less_nat_alt ms)
  have zero: "n div 1000000 = 0 \<longleftrightarrow> unat n < 1000000" using lt [of 1] by (simp add: div_eq_0_iff)
  have "b \<in> {0, 1, 2, 3, 4, 5, 6}" using assms by auto
  then show ?thesis by (auto simp: perfBucketIndex_def Let_def lt zero div_less_iff_less_mult)
qed

text \<open>The timing counters are exact.  After any queries since the last reset, taken in any interleaving of their
  whole calls, the report's total is their number, the outcomes partition it, the number under a type of query is the
  number of queries of that type, the maximum is the largest duration, and the Prometheus bucket with bound \<open>2 ^ b\<close>
  milliseconds holds the number of the queries that took less than that, the last bucket all of them.  Counters wrap at
  64 bits.\<close>

theorem perf_counters_exact:
  fixes evs :: "(int \<times> perf_event) list"
  defines "s \<equiv> fold record_query evs ResetResolverPerf"
  defines "r \<equiv> GetResolverPerfReport s" and "cum \<equiv> cumulativeFromBuckets (pf_HistTotal s)"
  shows "pr_Total r = of_nat (length evs) \<and> pr_Total r = pr_Local r + pr_Cache r + pr_Upstream r + pr_None r \<and>
         pr_Cache r = of_nat (length (filter (outcome_is PerfOutcomeCache) evs)) \<and>
         (\<forall>k. k \<noteq> [] \<longrightarrow> qt_total (qt_row s k) = of_nat (length (filter (\<lambda>ev. pe_qtype (snd ev) = k) evs))) \<and>
         (\<forall>ev \<in> set evs. pe_totalNs (snd ev) \<le> pf_MaxTotalNs s) \<and>
         (evs \<noteq> [] \<longrightarrow> (\<exists>ev \<in> set evs. pf_MaxTotalNs s = pe_totalNs (snd ev))) \<and>
         (\<forall>b < 7. cum ! b = of_nat (length (filter (\<lambda>ev. unat (pe_totalNs (snd ev)) < 2 ^ b * 1000000) evs))) \<and>
         cum ! 7 = pr_Total r"
proof (intro conjI allI ballI impI)
  show n: "pr_Total r = of_nat (length evs)"
    by (simp add: r_def s_def GetResolverPerfReport_def Let_def queries.get_fold sum_list_triv)
  show "pr_Cache r = of_nat (length (filter (outcome_is PerfOutcomeCache) evs))"
    by (simp add: r_def s_def GetResolverPerfReport_def Let_def answered_cached.get_fold sum_indicator)
  have "(of_nat (length evs) :: u64) =
      of_nat (length (filter (outcome_is PerfOutcomeLocal) evs)) + of_nat (length (filter (outcome_is PerfOutcomeCache) evs)) +
      of_nat (length (filter (outcome_is PerfOutcomeUpstream) evs)) + of_nat (length (filter (outcome_is PerfOutcomeNone) evs))"
  proof (induction evs)
    case (Cons ev evs)
    then show ?case by (cases "pe_outcome (snd ev)") simp_all
  qed simp
  with n show "pr_Total r = pr_Local r + pr_Cache r + pr_Upstream r + pr_None r"
    by (simp add: r_def s_def GetResolverPerfReport_def Let_def sum_indicator answered_locally.get_fold
        answered_cached.get_fold answered_upstream.get_fold unanswered.get_fold)
  show "qt_total (qt_row s k) = of_nat (length (filter (\<lambda>ev. pe_qtype (snd ev) = k) evs))" if "k \<noteq> []" for k
    using qt_fold [OF that, of evs ResetResolverPerf] by (simp add: s_def)
  show "pe_totalNs (snd ev) \<le> pf_MaxTotalNs s" if "ev \<in> set evs" for ev
    using max_bounds [OF that, of "\<lambda>ev. pe_totalNs (snd ev)"] by (simp add: s_def max_fold)
  show "\<exists>ev \<in> set evs. pf_MaxTotalNs s = pe_totalNs (snd ev)" if "evs \<noteq> []"
  proof -
    from \<open>evs \<noteq> []\<close> obtain ev where ev: "ev \<in> set evs" by (cases evs) auto
    show ?thesis
      using max_attained [of "\<lambda>ev. pe_totalNs (snd ev)" evs 0] max_bounds [OF ev, of "\<lambda>ev. pe_totalNs (snd ev)" 0] ev
      by (auto simp: s_def max_fold)
  qed
  show "cum ! b = of_nat (length (filter (\<lambda>ev. unat (pe_totalNs (snd ev)) < 2 ^ b * 1000000) evs))" if "b < 7" for b
    using that cumulative_hist [of b evs] by (simp add: cum_def s_def bucket_below)
  have "filter (\<lambda>ev. bucket_of ev \<le> 7) evs = evs"
    using perfBucketIndex_bound by (simp add: filter_id_conv less_Suc_eq_le [symmetric])
  then show "cum ! 7 = pr_Total r" using cumulative_hist [of 7 evs] n by (simp add: cum_def s_def)
qed

definition sample_perf :: "perf_outcome \<Rightarrow> u64 \<Rightarrow> gostr \<Rightarrow> int \<times> perf_event" where
  "sample_perf out ns qt = (1, \<lparr>pe_outcome = out, pe_totalNs = ns, pe_prepNs = 0, pe_maxUpstreamNs = 0, pe_upstreamWaitNs = 0,
     pe_upstreamServers = 2, pe_qtype = qt\<rparr>)"

text \<open>Three queries, one of them of exactly one millisecond: the bucket with the bound 0.001 leaves it out.\<close>

theorem perf_counters_exact_witness:
  "cumulativeFromBuckets (pf_HistTotal (fold record_query
      [sample_perf PerfOutcomeCache 500000 ''A'', sample_perf PerfOutcomeCache 1000000 ''A'', sample_perf PerfOutcomeUpstream 90000000 ''MX'']
      ResetResolverPerf)) ! 0 = 1"
proof -
  let ?evs = "[sample_perf PerfOutcomeCache 500000 ''A'', sample_perf PerfOutcomeCache 1000000 ''A'',
               sample_perf PerfOutcomeUpstream 90000000 ''MX'']"
  have "\<forall>b < 7. cumulativeFromBuckets (pf_HistTotal (fold record_query ?evs ResetResolverPerf)) ! b =
          of_nat (length (filter (\<lambda>ev. unat (pe_totalNs (snd ev)) < 2 ^ b * 1000000) ?evs))"
    using perf_counters_exact [of ?evs] by blast
  then have "cumulativeFromBuckets (pf_HistTotal (fold record_query ?evs ResetResolverPerf)) ! 0 =
          of_nat (length (filter (\<lambda>ev. unat (pe_totalNs (snd ev)) < 2 ^ 0 * 1000000) ?evs))"
    by (elim allE [of _ 0]) simp
  then show ?thesis by (simp add: sample_perf_def)
qed

subsection \<open>The live view shows what was recorded\<close>

text \<open>Buckets of time, of which those too far behind the event at hand are dropped.  A bucket that no event drops
  is the fold over the events that fell into it.\<close>

locale windowed_buckets =
  fixes step :: "'e \<Rightarrow> 's \<Rightarrow> 's" and buckets :: "'s \<Rightarrow> int \<rightharpoonup> 'b" and key :: "'e \<Rightarrow> int"
    and upd :: "'e \<Rightarrow> 'b \<Rightarrow> 'b" and fresh :: 'b and retain :: int
  assumes bucket_step: "buckets (step e s) k =
      (if k < key e - retain then None
       else if k = key e then Some (upd e (case buckets s k of None \<Rightarrow> fresh | Some b \<Rightarrow> b)) else buckets s k)"
begin

definition bucket :: "'s \<Rightarrow> int \<Rightarrow> 'b" where
  "bucket s k = (case buckets s k of None \<Rightarrow> fresh | Some b \<Rightarrow> b)"

lemma bucket_fold:
  "(\<And>e. e \<in> set es \<Longrightarrow> key e - retain \<le> k) \<Longrightarrow> bucket (fold step es s) k = fold upd (filter (\<lambda>e. key e = k) es) (bucket s k)"
proof (induction es arbitrary: s)
  case (Cons e es)
  have "key e - retain \<le> k" using Cons.prems by simp
  then have "bucket (step e s) k = (if key e = k then upd e (bucket s k) else bucket s k)"
    by (simp add: bucket_def bucket_step)
  then show ?case using Cons by simp
qed simp

end

abbreviation record_live :: "gotime \<times> DashboardResolution \<Rightarrow> dashboardLive \<Rightarrow> dashboardLive" where
  "record_live ev \<equiv> RecordDashboardResolution (fst ev) (snd ev)"

abbreviation stamped :: "gotime \<times> DashboardResolution \<Rightarrow> DashboardResolution" where
  "stamped ev \<equiv> stampAt (fst ev) (snd ev)"

interpretation minutes: windowed_buckets record_live dl_minute "\<lambda>ev. minuteOf (dr_At (stamped ev))"
    "\<lambda>ev. tallyMinute (stamped ev)" empty_minute 61
  by unfold_locales (simp add: RecordDashboardResolution_def Let_def prune_def)

interpretation seconds: windowed_buckets record_live dl_second "\<lambda>ev. time_Unix (dr_At (stamped ev))"
    "\<lambda>ev. tallySecond (stamped ev)" empty_second 65
  by unfold_locales (simp add: RecordDashboardResolution_def Let_def prune_def)

interpretation minute_count: event_counter "\<lambda>ev. tallyMinute (stamped ev)" ma_count "\<lambda>ev. 1"
  by unfold_locales (simp add: tallyMinute_def)

text \<open>The counters of a second: all resolutions, and those with each outcome.\<close>

definition outcome_of :: "DashboardResolution \<Rightarrow> gostr" where
  "outcome_of e = ToLower (TrimSpace (dr_Outcome e))"

abbreviation counts_second :: "(secondAgg \<Rightarrow> u64) \<Rightarrow> (DashboardResolution \<Rightarrow> bool) \<Rightarrow> bool" where
  "counts_second get P \<equiv> event_counter (\<lambda>ev. tallySecond (stamped ev)) get (\<lambda>ev. if P (stamped ev) then 1 else 0)"

interpretation second_total: event_counter "\<lambda>ev. tallySecond (stamped ev)" sa_total "\<lambda>ev. if True then 1 else 0"
  by unfold_locales (simp add: tallySecond_def Let_def)

interpretation second_local: event_counter "\<lambda>ev. tallySecond (stamped ev)" sa_local "\<lambda>ev. if outcome_of (stamped ev) = ''local'' then 1 else 0"
  by unfold_locales (simp add: tallySecond_def outcome_of_def Let_def)

interpretation second_cache: event_counter "\<lambda>ev. tallySecond (stamped ev)" sa_cache "\<lambda>ev. if outcome_of (stamped ev) = ''cache'' then 1 else 0"
  by unfold_locales (simp add: tallySecond_def outcome_of_def Let_def)

interpretation second_upstream: event_counter "\<lambda>ev. tallySecond (stamped ev)" sa_upstream "\<lambda>ev. if outcome_of (stamped ev) = ''upstream'' then 1 else 0"
  by unfold_locales (simp add: tallySecond_def outcome_of_def Let_def)

interpretation second_none: event_counter "\<lambda>ev. tallySecond (stamped ev)" sa_none "\<lambda>ev. if outcome_of (stamped ev) = ''none'' then 1 else 0"
  by unfold_locales (simp add: tallySecond_def outcome_of_def Let_def)

interpretation second_blocked: event_counter "\<lambda>ev. tallySecond (stamped ev)" sa_blocked "\<lambda>ev. if outcome_of (stamped ev) = ''blocked'' then 1 else 0"
  by unfold_locales (simp add: tallySecond_def outcome_of_def Let_def)

lemma empty_counts [simp]: "ma_count empty_minute = 0" "sa_total empty_second = 0" "sa_local empty_second = 0" "sa_cache empty_second = 0"
  "sa_upstream empty_second = 0" "sa_none empty_second = 0" "sa_blocked empty_second = 0"
  by (simp_all add: empty_minute_def empty_second_def)

lemma time_Unix_mono: "t \<le> u \<Longrightarrow> time_Unix t \<le> time_Unix u"
  by (simp add: time_Unix_def zdiv_mono1)

lemma minuteOf_mono:
  assumes "t \<le> u"
  shows "minuteOf t \<le> minuteOf u"
proof -
  have "time_Unix t \<le> time_Unix u" by (rule time_Unix_mono) (rule assms)
  moreover have "sgn a * (\<bar>a\<bar> div 60) \<le> sgn b * (\<bar>b\<bar> div 60)" if "a \<le> b" for a b :: int
  proof (cases "0 \<le> a")
    case True
    then show ?thesis using that by (simp add: sgn_if zdiv_mono1 pos_imp_zdiv_nonneg_iff)
  next
    case False
    have "sgn a * (\<bar>a\<bar> div 60) = - (- a div 60)" using False by (simp add: sgn_if)
    moreover have "0 \<le> - a div 60" using False by (simp add: pos_imp_zdiv_nonneg_iff)
    moreover have "0 \<le> b \<Longrightarrow> 0 \<le> sgn b * (\<bar>b\<bar> div 60)" by (simp add: sgn_if pos_imp_zdiv_nonneg_iff)
    moreover have "b < 0 \<Longrightarrow> sgn b * (\<bar>b\<bar> div 60) = - (- b div 60)" by (simp add: sgn_if)
    moreover have "- b div 60 \<le> - a div 60" using that by (simp add: zdiv_mono1)
    ultimately show ?thesis by (cases "0 \<le> b") linarith+
  qed
  ultimately show ?thesis by (simp add: minuteOf_def Let_def)
qed

lemma cap_kept [simp]: "DashboardLogCap (record_live ev s) = DashboardLogCap s"
  by (simp add: RecordDashboardResolution_def DashboardLogCap_def Let_def)

lemma cap_fold [simp]: "DashboardLogCap (fold record_live evs s) = DashboardLogCap s"
  by (induction evs arbitrary: s) simp_all

lemma cap_positive [simp]: "0 < DashboardLogCap s"
  by (simp add: DashboardLogCap_def)

lemma lastN_lastN: "0 \<le> n \<Longrightarrow> lastN n (lastN n xs @ ys) = lastN n (xs @ ys)"
  by (auto simp: lastN_def add.commute)

lemma log_step: "dl_log (record_live ev s) = lastN (DashboardLogCap s) (dl_log s @ [stamped ev])"
  by (simp add: RecordDashboardResolution_def DashboardLogCap_def Let_def)

lemma log_fold:
  "dl_log (fold record_live evs s) =
     (if evs = [] then dl_log s else lastN (DashboardLogCap s) (dl_log s @ map stamped evs))"
proof (induction evs arbitrary: s)
  case (Cons ev evs)
  show ?case using Cons.IH [of "record_live ev s"] lastN_lastN [of "DashboardLogCap s" "dl_log s @ [stamped ev]" "map stamped evs"]
    by (simp add: log_step order_less_imp_le)
qed simp

lemma take_rev_lastN: "0 \<le> m \<Longrightarrow> m \<le> n \<Longrightarrow> take (nat m) (rev (lastN n xs)) = take (nat m) (rev xs)"
  by (auto simp: lastN_def rev_drop min_def nat_le_iff)

lemma interval_count:
  "sum_list (map (\<lambda>i. of_nat (length (filter (\<lambda>x. f x = a - 1 - int i) xs))) [0..<w]) =
     (of_nat (length (filter (\<lambda>x. a - int w \<le> f x \<and> f x < a) xs)) :: u64)"
proof (induction w)
  case (Suc w)
  have "length (filter (\<lambda>x. a - int (Suc w) \<le> f x \<and> f x < a) xs) =
        length (filter (\<lambda>x. a - int w \<le> f x \<and> f x < a) xs) + length (filter (\<lambda>x. f x = a - 1 - int w) xs)"
    by (induction xs) auto
  then show ?case using Suc by simp
qed simp

lemma sumSeconds_buckets:
  "get empty_second = 0 \<Longrightarrow>
   sumSeconds get now w s = sum_list (map (\<lambda>i. get (seconds.bucket s (time_Unix now - 1 - int i))) [0..<w])"
  unfolding sumSeconds_def seconds.bucket_def
  by (rule arg_cong [where f = sum_list], rule map_cong [OF refl]) (simp split: option.split)

lemma empty_view [simp]:
  "minutes.bucket (SetDashboardResolutionLogCap n empty_live) k = empty_minute"
  "seconds.bucket (SetDashboardResolutionLogCap n empty_live) k = empty_second"
  "dl_log (SetDashboardResolutionLogCap n empty_live) = []"
  by (simp_all add: SetDashboardResolutionLogCap_def empty_live_def minutes.bucket_def seconds.bucket_def Let_def lastN_def)

lemma minutePoint_bucket:
  "minutePoint s mk = (let agg = minutes.bucket s mk in \<lparr>mp_T = mk * 60, mp_Replies = ma_count agg,
     mp_AvgMs = (if ma_count agg > 0 then f64_div (ma_sumMs agg) (f64_of_u64 (ma_count agg)) else 0)\<rparr>)"
  by (simp add: minutePoint_def minutes.bucket_def split: option.split)

lemma minute_sum:
  "ma_sumMs (fold (\<lambda>ev. tallyMinute (stamped ev)) evs agg) = foldl f64_add (ma_sumMs agg) (map (\<lambda>ev. dr_DurationMs (stamped ev)) evs)"
  by (induction evs arbitrary: agg) (simp_all add: tallyMinute_def)

text \<open>What the chart should show for a minute: the resolutions that fall into it and the mean of their durations.\<close>

definition point_of :: "int \<Rightarrow> DashboardResolution list \<Rightarrow> DashboardMinutePoint" where
  "point_of mk es = (let xs = filter (\<lambda>e. minuteOf (dr_At e) = mk) es; n = of_nat (length xs) in
     \<lparr>mp_T = mk * 60, mp_Replies = n, mp_AvgMs = (if n > 0 then f64_div (foldl f64_add 0 (map dr_DurationMs xs)) (f64_of_u64 n) else 0)\<rparr>)"

lemma shown_point:
  assumes past: "\<forall>ev \<in> set evs. dr_At (stamped ev) \<le> now" and mk: "minuteOf now - 61 \<le> mk"
  shows "minutePoint (fold record_live evs (SetDashboardResolutionLogCap n empty_live)) mk = point_of mk (map stamped evs)"
proof -
  let ?xs = "filter (\<lambda>ev. minuteOf (dr_At (stamped ev)) = mk) evs"
  have "minuteOf (dr_At (stamped ev)) - 61 \<le> mk" if "ev \<in> set evs" for ev
    using minuteOf_mono [of "dr_At (stamped ev)" now] past mk that by fastforce
  then have b: "minutes.bucket (fold record_live evs (SetDashboardResolutionLogCap n empty_live)) mk =
        fold (\<lambda>ev. tallyMinute (stamped ev)) ?xs empty_minute"
    using minutes.bucket_fold [of evs mk] by simp
  have z: "ma_sumMs empty_minute = 0" by (simp add: empty_minute_def)
  have m: "filter (\<lambda>e. minuteOf (dr_At e) = mk) (map stamped evs) = map stamped ?xs" by (simp add: filter_map comp_def)
  show ?thesis
    by (simp add: minutePoint_bucket b point_of_def m Let_def minute_count.get_fold sum_list_triv minute_sum z comp_def
        del: filter_map)
qed

text \<open>The resolutions with a property in the last \<open>w\<close> whole seconds before \<open>now\<close>, per second.\<close>

definition rate_of :: "gotime \<Rightarrow> int \<Rightarrow> DashboardResolution list \<Rightarrow> (DashboardResolution \<Rightarrow> bool) \<Rightarrow> rat" where
  "rate_of now w es P = f64_div (f64_of_u64 (of_nat (length (filter (\<lambda>e. P e \<and> time_Unix now - w \<le> time_Unix (dr_At e) \<and>
     time_Unix (dr_At e) < time_Unix now) es)))) (of_int w)"

lemma shown_rate:
  assumes past: "\<forall>ev \<in> set evs. dr_At (stamped ev) \<le> now" and w: "w \<le> 60"
    and get: "counts_second get P" "get empty_second = 0"
  shows "sumSeconds get now w (fold record_live evs (SetDashboardResolutionLogCap n empty_live)) =
    of_nat (length (filter (\<lambda>e. P e \<and> time_Unix now - int w \<le> time_Unix (dr_At e) \<and> time_Unix (dr_At e) < time_Unix now) (map stamped evs)))"
proof -
  let ?s = "fold record_live evs (SetDashboardResolutionLogCap n empty_live)" and ?evs = "filter (\<lambda>ev. P (stamped ev)) evs"
  have "get (seconds.bucket ?s (time_Unix now - 1 - int i)) =
      of_nat (length (filter (\<lambda>ev. time_Unix (dr_At (stamped ev)) = time_Unix now - 1 - int i) ?evs))" if "i < w" for i
  proof -
    have "time_Unix (dr_At (stamped ev)) - 65 \<le> time_Unix now - 1 - int i" if "ev \<in> set evs" for ev
      using time_Unix_mono [of "dr_At (stamped ev)" now] past w that \<open>i < w\<close> by fastforce
    then have b: "seconds.bucket ?s (time_Unix now - 1 - int i) =
        fold (\<lambda>ev. tallySecond (stamped ev)) (filter (\<lambda>ev. time_Unix (dr_At (stamped ev)) = time_Unix now - 1 - int i) evs) empty_second"
      using seconds.bucket_fold [of evs "time_Unix now - 1 - int i"] by simp
    show ?thesis
      unfolding b event_counter.get_fold [OF get(1)] sum_indicator get(2) by (simp add: conj_commute)
  qed
  then have "map (\<lambda>i. get (seconds.bucket ?s (time_Unix now - 1 - int i))) [0..<w] =
      map (\<lambda>i. of_nat (length (filter (\<lambda>ev. time_Unix (dr_At (stamped ev)) = time_Unix now - 1 - int i) ?evs))) [0..<w]"
    by (intro map_cong) simp_all
  then show ?thesis
    by (simp only: sumSeconds_buckets [of get, OF get(2)] interval_count) (simp add: filter_map comp_def conj_ac)
qed

lemma shown_rates:
  assumes past: "\<forall>ev \<in> set evs. dr_At (stamped ev) \<le> now"
  shows "GetDashboardPerSecRates now w (fold record_live evs (SetDashboardResolutionLogCap n empty_live)) =
    (let r = rate_of now (rateWindow w) (map stamped evs); outcome = (\<lambda>out. r (\<lambda>e. outcome_of e = out)) in
      \<lparr>ps_WindowSeconds = rateWindow w, ps_Resolutions = r (\<lambda>e. True), ps_Local = outcome ''local'', ps_Cache = outcome ''cache'',
       ps_Upstream = outcome ''upstream'', ps_None = outcome ''none'', ps_Blocked = outcome ''blocked''\<rparr>)"
proof -
  have w: "int (nat (rateWindow w)) = rateWindow w" "nat (rateWindow w) \<le> 60" by (simp_all add: rateWindow_def Let_def nat_le_iff)
  note r = shown_rate [OF past w(2), where n = n, unfolded w(1)]
  show ?thesis
    unfolding GetDashboardPerSecRates_def Let_def rate_of_def
    by (simp only: r [OF second_total.event_counter_axioms empty_counts(2)] r [OF second_local.event_counter_axioms empty_counts(3)]
        r [OF second_cache.event_counter_axioms empty_counts(4)] r [OF second_upstream.event_counter_axioms empty_counts(5)]
        r [OF second_none.event_counter_axioms empty_counts(6)] r [OF second_blocked.event_counter_axioms empty_counts(7)])
qed

text \<open>Resolutions and purges of the log.\<close>

datatype live_op = Resolved gotime DashboardResolution | Purged

fun live_step :: "live_op \<Rightarrow> dashboardLive \<Rightarrow> dashboardLive" where
  "live_step (Resolved now e) s = RecordDashboardResolution now e s"
| "live_step Purged s = ClearDashboardResolutionLog s"

definition resolutions :: "live_op list \<Rightarrow> (gotime \<times> DashboardResolution) list" where
  "resolutions ops = List.map_filter (\<lambda>x. case x of Resolved now e \<Rightarrow> Some (now, e) | Purged \<Rightarrow> None) ops"

definition since_purge :: "live_op list \<Rightarrow> live_op list" where
  "since_purge ops = rev (takeWhile (\<lambda>x. x \<noteq> Purged) (rev ops))"

lemma resolutions_simps [simp]: "resolutions [] = []" "resolutions (Resolved now e # ops) = (now, e) # resolutions ops"
  "resolutions (Purged # ops) = resolutions ops" "resolutions (ops @ ops') = resolutions ops @ resolutions ops'"
  by (simp_all add: resolutions_def List.map_filter_def)

lemma since_purge_simps [simp]: "since_purge [] = []" "since_purge (ops @ [Resolved now e]) = since_purge ops @ [Resolved now e]"
  "since_purge (ops @ [Purged]) = []"
  by (simp_all add: since_purge_def)

text \<open>A purge leaves chart and rates alone.\<close>

lemma purge_keeps_counts:
  "dl_second s = dl_second t \<Longrightarrow> dl_minute s = dl_minute t \<Longrightarrow> dl_cap s = dl_cap t \<Longrightarrow>
   dl_second (fold live_step ops s) = dl_second (fold record_live (resolutions ops) t) \<and>
   dl_minute (fold live_step ops s) = dl_minute (fold record_live (resolutions ops) t) \<and>
   dl_cap (fold live_step ops s) = dl_cap (fold record_live (resolutions ops) t)"
proof (induction ops arbitrary: s t)
  case (Cons x ops)
  show ?case
  proof (cases x)
    case (Resolved now e)
    then show ?thesis using Cons.IH [of "live_step x s" "record_live (now, e) t"] Cons.prems
      by (simp add: RecordDashboardResolution_def Let_def)
  next
    case Purged
    then show ?thesis using Cons.IH [of "live_step x s" t] Cons.prems by (simp add: ClearDashboardResolutionLog_def)
  qed
qed simp

lemma log_since_purge:
  assumes "dl_log s = []"
  shows "dl_log (fold live_step ops s) = lastN (DashboardLogCap s) (map stamped (resolutions (since_purge ops)))"
proof (induction ops rule: rev_induct)
  case (snoc x ops)
  have "dl_cap (fold live_step ops s) = dl_cap (fold record_live (resolutions ops) s)" using purge_keeps_counts [of s s ops] by simp
  then have "DashboardLogCap (fold live_step ops s) = DashboardLogCap (fold record_live (resolutions ops) s)" by (simp add: DashboardLogCap_def)
  then have c: "DashboardLogCap (fold live_step ops s) = DashboardLogCap s" by simp
  show ?case
  proof (cases x)
    case (Resolved now e)
    then show ?thesis
      using snoc log_step [of "(now, e)" "fold live_step ops s"]
        lastN_lastN [of "DashboardLogCap s" "map stamped (resolutions (since_purge ops))" "[stampAt now e]"] c
      by (simp add: order_less_imp_le)
  next
    case Purged
    then show ?thesis by (simp add: ClearDashboardResolutionLog_def lastN_def order_less_imp_le)
  qed
qed (simp add: assms lastN_def)

text \<open>C36.  After any sequence of resolutions and purges of the log, the live view of the dashboard shows exactly what
  was recorded, as long as no resolution lies in the future: the chart's sixty points are the counts and mean durations
  of the resolutions of those minutes (the pruning of old minutes never removes one that is still shown); the rates are,
  in total and for each of the outcomes local, cache, upstream, none and blocked, the numbers of resolutions in the last
  whole seconds of the window over its length; and the log is the newest resolutions since the last purge first, cut at
  the limit and the configured size.\<close>

theorem dashboard_exact:
  assumes past: "\<forall>ev \<in> set (resolutions ops). dr_At (stamped ev) \<le> now"
    and s: "s = fold live_step ops (SetDashboardResolutionLogCap n empty_live)" and es: "es = map stamped (resolutions ops)"
  shows "GetDashboardSeries now s = map (\<lambda>i. point_of (minuteOf now - 59 + int i) es) [0..<60] \<and>
         GetDashboardPerSecRates now w s =
           (let r = rate_of now (rateWindow w) es; outcome = (\<lambda>out. r (\<lambda>e. outcome_of e = out)) in
             \<lparr>ps_WindowSeconds = rateWindow w, ps_Resolutions = r (\<lambda>e. True), ps_Local = outcome ''local'', ps_Cache = outcome ''cache'',
              ps_Upstream = outcome ''upstream'', ps_None = outcome ''none'', ps_Blocked = outcome ''blocked''\<rparr>) \<and>
         GetDashboardLogNewestFirst k s =
           take (nat (min (if k \<le> 0 then 100 else k) (if n \<le> 0 then 1000 else min n 1000000)))
             (rev (map stamped (resolutions (since_purge ops))))"
proof -
  let ?s0 = "SetDashboardResolutionLogCap n empty_live" and ?t = "fold record_live (resolutions ops) (SetDashboardResolutionLogCap n empty_live)"
  note k = purge_keeps_counts [of ?s0 ?s0 ops, simplified, folded s]
  have "GetDashboardSeries now s = GetDashboardSeries now ?t" by (simp add: GetDashboardSeries_def minutePoint_def k)
  also have "\<dots> = map (\<lambda>i. point_of (minuteOf now - 59 + int i) es) [0..<60]"
    using shown_point [OF past] by (simp add: GetDashboardSeries_def es)
  finally have chart: "GetDashboardSeries now s = map (\<lambda>i. point_of (minuteOf now - 59 + int i) es) [0..<60]" .
  have rates: "GetDashboardPerSecRates now w s = GetDashboardPerSecRates now w ?t"
    by (simp add: GetDashboardPerSecRates_def sumSeconds_def k)
  have "DashboardLogCap s = DashboardLogCap ?t" by (simp add: DashboardLogCap_def k)
  then have c0: "DashboardLogCap s = DashboardLogCap ?s0" by simp
  then have c: "DashboardLogCap s = (if n \<le> 0 then 1000 else min n 1000000)"
    by (simp add: DashboardLogCap_def SetDashboardResolutionLogCap_def Let_def)
  have "dl_log s = lastN (DashboardLogCap s) (map stamped (resolutions (since_purge ops)))"
    using log_since_purge [of ?s0 ops] unfolding c0 by (simp add: s)
  then have "GetDashboardLogNewestFirst k s =
      take (nat (min (if k \<le> 0 then 100 else k) (if n \<le> 0 then 1000 else min n 1000000))) (rev (map stamped (resolutions (since_purge ops))))"
    using cap_positive [of s]
    by (simp add: GetDashboardLogNewestFirst_def Let_def take_rev_lastN order_less_imp_le c [symmetric] min_def del: cap_positive)
  with chart rates show ?thesis unfolding es shown_rates [OF past] by blast
qed

definition sample_resolution :: "gotime \<Rightarrow> gostr \<Rightarrow> DashboardResolution" where
  "sample_resolution t out = \<lparr>dr_At = t, dr_ClientIP = ''10.0.0.1'', dr_Qname = ''a.test'', dr_Qtype = ''A'', dr_Outcome = out,
     dr_Upstream = [], dr_Record = [], dr_DurationMs = 2\<rparr>"

text \<open>Two resolutions in one second, one of them stamped on arrival, a purge and a third one.\<close>

definition sample_live :: "live_op list" where
  "sample_live = [Resolved (63000000000 * Second) (sample_resolution 0 ''cache''), Resolved (63000000000 * Second) (sample_resolution 0 ''local''),
     Purged, Resolved (63000000001 * Second) (sample_resolution (63000000000 * Second) '' Local '')]"

theorem dashboard_exact_witness:
  "ps_Local (GetDashboardPerSecRates (63000000001 * Second) 5 (fold live_step sample_live (SetDashboardResolutionLogCap 1 empty_live))) =
     rate_of (63000000001 * Second) 5 (map stamped (resolutions sample_live)) (\<lambda>e. outcome_of e = ''local'') \<and>
   GetDashboardLogNewestFirst 5 (fold live_step sample_live (SetDashboardResolutionLogCap 1 empty_live)) =
     [sample_resolution (63000000000 * Second) '' Local '']"
proof -
  have p: "\<forall>ev \<in> set (resolutions sample_live). dr_At (stamped ev) \<le> 63000000001 * Second"
    by (simp add: sample_live_def stampAt_def sample_resolution_def time_IsZero_def)
  have l: "resolutions (since_purge sample_live) = [(63000000001 * Second, sample_resolution (63000000000 * Second) '' Local '')]"
    by (simp add: sample_live_def since_purge_def)
  have w: "rateWindow 5 = 5" by (simp add: rateWindow_def)
  from dashboard_exact [OF p refl refl, where n = 1 and w = 5 and k = 5]
  show ?thesis by (simp add: l w Let_def stampAt_def sample_resolution_def time_IsZero_def)
qed

end
