(* ===== verification/StatsBrowse.thy ===== *)
theory StatsBrowse
  imports FullStats Axfr
begin

text \<open>
  The pages of the statistics (\<^verbatim>\<open>api/fullstats_browse.go\<close>): a table of requests or of requesters is collected from a
  map, filtered by a search text, sorted and cut into pages.  Go visits a map in an order that changes from one
  loop to the next, and \<^verbatim>\<open>sort.Slice\<close> is not stable: both are part of the environment of a request.
\<close>

subsection \<open>Parameters of a request\<close>

record fullStatsBrowseParams =
  fp_Scope :: gostr
  fp_Table :: gostr
  fp_Sort :: gostr
  fp_Query :: gostr
  fp_Page :: int
  fp_PerPage :: int

definition defaultSortForTable :: "gostr \<Rightarrow> gostr" where
  "defaultSortForTable tbl = (if tbl = ''requesters'' then ''total_desc'' else ''count_desc'')"

definition validSortForTable :: "gostr \<Rightarrow> gostr \<Rightarrow> bool" where
  "validSortForTable tbl srt \<longleftrightarrow>
     (if tbl = ''requests'' then srt \<in> set [''count_desc'', ''count_asc'', ''key_asc'', ''key_desc'', ''type_asc'', ''type_desc'',
        ''last_seen_desc'', ''last_seen_asc'', ''first_seen_desc'', ''first_seen_asc'']
      else if tbl = ''requesters''
      then srt \<in> set [''total_desc'', ''total_asc'', ''ip_asc'', ''ip_desc'', ''first_seen_desc'', ''first_seen_asc'']
      else False)"

definition textParam :: "gostr \<Rightarrow> gostr \<Rightarrow> gostr" where
  "textParam given dflt = (let s = TrimSpace (ToLower given) in if s = [] then dflt else s)"

definition positiveParam :: "gostr \<Rightarrow> int \<Rightarrow> (int \<Rightarrow> bool) \<Rightarrow> int option" where
  "positiveParam given dflt bad = (let s = TrimSpace given in if s = [] then Some dflt else
     case Atoi s of None \<Rightarrow> None | Some n \<Rightarrow> if n < 1 \<or> bad n then None else Some n)"

definition parseFullStatsBrowseParams :: "(gostr \<Rightarrow> gostr) \<Rightarrow> gostr + fullStatsBrowseParams" where
  "parseFullStatsBrowseParams q =
     (let scope = textParam (q ''scope'') ''total'';
          tbl = textParam (q ''table'') ''requests'';
          srt = textParam (q ''sort'') (defaultSortForTable tbl);
          search = TrimSpace (q ''q'')
      in if scope \<notin> set [''total'', ''session''] then Inl ''scope must be total or session''
         else if tbl \<notin> set [''requests'', ''requesters''] then Inl ''table must be requests or requesters''
         else if \<not> validSortForTable tbl srt then Inl ''invalid sort for table''
         else case positiveParam (q ''page'') 1 (\<lambda>n. False) of
           None \<Rightarrow> Inl ''page must be a positive integer''
         | Some page \<Rightarrow>
             (case positiveParam (q ''per_page'') 25 (\<lambda>n. n > 100) of
                None \<Rightarrow> Inl ''per_page must be between 1 and 100''
              | Some perPage \<Rightarrow>
                  if length search > 256 then Inl ''q must be at most 256 characters''
                  else Inr \<lparr>fp_Scope = scope, fp_Table = tbl, fp_Sort = srt, fp_Query = search, fp_Page = page, fp_PerPage = perPage\<rparr>))"

subsection \<open>Rows\<close>

definition splitDomainType :: "gostr \<Rightarrow> gostr \<times> gostr" where
  "splitDomainType key =
     (if key = [] then ([], []) else case LastIndexByte key CHR '':'' of
        Some i \<Rightarrow> (take i key, drop (i + 1) key)
      | None \<Rightarrow> (key, []))"

text \<open>The rows that are sorted, and the environment: the order in which the maps are visited (the table; the types
  and the reply paths of a row), the error of the database, and \<^verbatim>\<open>sort.Slice\<close>.\<close>

type_synonym requestRow = "gostr \<times> RequestStats"

record requesterRow =
  rr_ip :: gostr
  rr_st :: RequesterStats
  rr_total :: u64

record browse_env =
  be_rows :: "gostr list"
  be_types :: "gostr \<Rightarrow> gostr list"
  be_sources :: "gostr \<Rightarrow> gostr list"
  be_dbErr :: "gostr option"
  be_sortRequests :: "(requestRow \<Rightarrow> requestRow \<Rightarrow> bool) \<Rightarrow> requestRow list \<Rightarrow> requestRow list"
  be_sortRequesters :: "(requesterRow \<Rightarrow> requesterRow \<Rightarrow> bool) \<Rightarrow> requesterRow list \<Rightarrow> requesterRow list"

definition visited :: "gostr list \<Rightarrow> (gostr \<rightharpoonup> 'v) \<Rightarrow> (gostr \<times> 'v) list" where
  "visited ks m = List.map_filter (\<lambda>k. map_option (Pair k) (m k)) ks"

definition collectRequestRows :: "browse_env \<Rightarrow> gostr \<Rightarrow> Tracker \<Rightarrow> gostr + requestRow list" where
  "collectRequestRows E scope t =
     (if scope = ''session'' then Inr (visited (be_rows E) (tr_sessionRequests t))
      else case be_dbErr E of Some e \<Rightarrow> Inl e | None \<Rightarrow> Inr (visited (be_rows E) (tr_requests t)))"

definition requesterTotal :: "gostr list \<Rightarrow> RequesterStats \<Rightarrow> u64" where
  "requesterTotal ks st = sum_list (map snd (visited ks (rqr_TypeCount st)))"

definition requesterRows :: "browse_env \<Rightarrow> (gostr \<rightharpoonup> RequesterStats) \<Rightarrow> requesterRow list" where
  "requesterRows E m =
     map (\<lambda>(ip, st). \<lparr>rr_ip = ip, rr_st = st, rr_total = requesterTotal (be_types E ip) st\<rparr>) (visited (be_rows E) m)"

definition collectRequesterRows :: "browse_env \<Rightarrow> gostr \<Rightarrow> Tracker \<Rightarrow> gostr + requesterRow list" where
  "collectRequesterRows E scope t =
     (if scope = ''session'' then Inr (requesterRows E (tr_sessionRequesters t))
      else case be_dbErr E of Some e \<Rightarrow> Inl e | None \<Rightarrow> Inr (requesterRows E (tr_requesters t)))"

definition containsFold :: "gostr \<Rightarrow> gostr \<Rightarrow> bool" where
  "containsFold n s \<longleftrightarrow> Contains (ToLower s) n"

definition requestMatches :: "browse_env \<Rightarrow> gostr \<Rightarrow> requestRow \<Rightarrow> bool" where
  "requestMatches E n row \<longleftrightarrow>
     (let (key, st) = row; (dn, rtype) = splitDomainType key in
      containsFold n key \<or> containsFold n dn \<or> containsFold n rtype \<or>
      list_ex (\<lambda>(sk, c). containsFold n sk) (visited (be_sources E key) (rs_SourceCount st)))"

definition filterRequestRows :: "browse_env \<Rightarrow> gostr \<Rightarrow> requestRow list \<Rightarrow> requestRow list" where
  "filterRequestRows E needle rows = (if needle = [] then rows else filter (requestMatches E (ToLower needle)) rows)"

definition requesterMatches :: "browse_env \<Rightarrow> gostr \<Rightarrow> requesterRow \<Rightarrow> bool" where
  "requesterMatches E n row \<longleftrightarrow>
     containsFold n (rr_ip row) \<or>
     list_ex (\<lambda>(rk, c). containsFold n rk) (visited (be_types E (rr_ip row)) (rqr_TypeCount (rr_st row))) \<or>
     list_ex (\<lambda>(sk, c). containsFold n sk) (visited (be_sources E (rr_ip row)) (rqr_SourceCount (rr_st row)))"

definition filterRequesterRows :: "browse_env \<Rightarrow> gostr \<Rightarrow> requesterRow list \<Rightarrow> requesterRow list" where
  "filterRequesterRows E needle rows = (if needle = [] then rows else filter (requesterMatches E (ToLower needle)) rows)"

subsection \<open>Order\<close>

definition request_less :: "gostr \<Rightarrow> requestRow \<Rightarrow> requestRow \<Rightarrow> bool" where
  "request_less sortKey ra rb =
     (let (ka, a) = ra; (kb, b) = rb; ta = snd (splitDomainType ka); tb = snd (splitDomainType kb) in
      if sortKey = ''count_asc'' then (if rs_Count a \<noteq> rs_Count b then rs_Count a < rs_Count b else ka < kb)
      else if sortKey = ''key_asc'' then ka < kb
      else if sortKey = ''key_desc'' then ka > kb
      else if sortKey = ''type_asc'' then (if ta \<noteq> tb then ta < tb else ka < kb)
      else if sortKey = ''type_desc'' then (if ta \<noteq> tb then ta > tb else ka < kb)
      else if sortKey = ''last_seen_desc'' then (if rs_LastSeen a \<noteq> rs_LastSeen b then rs_LastSeen a > rs_LastSeen b else ka < kb)
      else if sortKey = ''last_seen_asc'' then (if rs_LastSeen a \<noteq> rs_LastSeen b then rs_LastSeen a < rs_LastSeen b else ka < kb)
      else if sortKey = ''first_seen_desc'' then (if rs_FirstSeen a \<noteq> rs_FirstSeen b then rs_FirstSeen a > rs_FirstSeen b else ka < kb)
      else if sortKey = ''first_seen_asc'' then (if rs_FirstSeen a \<noteq> rs_FirstSeen b then rs_FirstSeen a < rs_FirstSeen b else ka < kb)
      else (if rs_Count a \<noteq> rs_Count b then rs_Count a > rs_Count b else ka < kb))"

definition requester_less :: "gostr \<Rightarrow> requesterRow \<Rightarrow> requesterRow \<Rightarrow> bool" where
  "requester_less sortKey a b =
     (let fa = rqr_FirstSeen (rr_st a); fb = rqr_FirstSeen (rr_st b) in
      if sortKey = ''total_asc'' then (if rr_total a \<noteq> rr_total b then rr_total a < rr_total b else rr_ip a < rr_ip b)
      else if sortKey = ''ip_asc'' then rr_ip a < rr_ip b
      else if sortKey = ''ip_desc'' then rr_ip a > rr_ip b
      else if sortKey = ''first_seen_desc'' then (if fa \<noteq> fb then fa > fb else rr_ip a < rr_ip b)
      else if sortKey = ''first_seen_asc'' then (if fa \<noteq> fb then fa < fb else rr_ip a < rr_ip b)
      else (if rr_total a \<noteq> rr_total b then rr_total a > rr_total b else rr_ip a < rr_ip b))"

subsection \<open>Pages\<close>

definition paginateSlice :: "'a list \<Rightarrow> int \<Rightarrow> int \<Rightarrow> int \<times> int \<times> 'a list" where
  "paginateSlice rows page perPage =
     (let n = int (length rows);
          totalPages = (if n > 0 then (n + perPage - 1) div perPage else 1);
          outPage = (if page < 1 then 1 else page);
          outPage = (if outPage > totalPages then totalPages else outPage)
      in if n = 0 then (outPage, totalPages, [])
         else let offset = (outPage - 1) * perPage; e = offset + perPage; e = (if e > n then n else e)
              in (outPage, totalPages, take (nat (e - offset)) (drop (nat offset) rows)))"

text \<open>The rows of the reply.  An instant is printed, unless it is zero.\<close>

definition formatRFC3339 :: "gotime \<Rightarrow> gotime option" where
  "formatRFC3339 t = (if time_IsZero t then None else Some t)"

record fullStatsRequestRowJSON =
  qj_Key :: gostr
  qj_Domain :: gostr
  qj_RecordType :: gostr
  qj_Count :: u64
  qj_SourceCount :: counter_map
  qj_FirstSeen :: "gotime option"
  qj_LastSeen :: "gotime option"

record fullStatsRequesterRowJSON =
  rj_IP :: gostr
  rj_TotalRequests :: u64
  rj_FirstSeen :: "gotime option"
  rj_ByType :: counter_map
  rj_BySource :: counter_map

record 'r fullStatsBrowseResponseJSON =
  br_Scope :: gostr
  br_Table :: gostr
  br_Sort :: gostr
  br_Q :: gostr
  br_Page :: int
  br_PerPage :: int
  br_TotalRows :: nat
  br_TotalPages :: int
  br_Rows :: "'r list"

definition requestRowJSON :: "requestRow \<Rightarrow> fullStatsRequestRowJSON" where
  "requestRowJSON row = (let (key, st) = row in
     \<lparr>qj_Key = key, qj_Domain = fst (splitDomainType key), qj_RecordType = snd (splitDomainType key), qj_Count = rs_Count st,
      qj_SourceCount = rs_SourceCount st, qj_FirstSeen = formatRFC3339 (rs_FirstSeen st), qj_LastSeen = formatRFC3339 (rs_LastSeen st)\<rparr>)"

definition requesterRowJSON :: "requesterRow \<Rightarrow> fullStatsRequesterRowJSON" where
  "requesterRowJSON row =
     \<lparr>rj_IP = rr_ip row, rj_TotalRequests = rr_total row, rj_FirstSeen = formatRFC3339 (rqr_FirstSeen (rr_st row)),
      rj_ByType = rqr_TypeCount (rr_st row), rj_BySource = rqr_SourceCount (rr_st row)\<rparr>"

definition browseResponse :: "fullStatsBrowseParams \<Rightarrow> ('a \<Rightarrow> 'r) \<Rightarrow> 'a list \<Rightarrow> 'r fullStatsBrowseResponseJSON" where
  "browseResponse P json rows =
     (let (page, totalPages, slice) = paginateSlice rows (fp_Page P) (fp_PerPage P) in
      \<lparr>br_Scope = fp_Scope P, br_Table = fp_Table P, br_Sort = fp_Sort P, br_Q = fp_Query P, br_Page = page,
       br_PerPage = fp_PerPage P, br_TotalRows = length rows, br_TotalPages = totalPages, br_Rows = map json slice\<rparr>)"

datatype browse_reply =
    BrowseStatus int
  | BrowseDisabled
  | BrowseError int gostr
  | BrowseRequests "fullStatsRequestRowJSON fullStatsBrowseResponseJSON"
  | BrowseRequesters "fullStatsRequesterRowJSON fullStatsBrowseResponseJSON"

definition browseRequests :: "browse_env \<Rightarrow> Tracker \<Rightarrow> fullStatsBrowseParams \<Rightarrow> browse_reply" where
  "browseRequests E t P = (case collectRequestRows E (fp_Scope P) t of
      Inl e \<Rightarrow> BrowseError 500 e
    | Inr rows \<Rightarrow> BrowseRequests (browseResponse P requestRowJSON
        (be_sortRequests E (request_less (fp_Sort P)) (filterRequestRows E (fp_Query P) rows))))"

definition browseRequesters :: "browse_env \<Rightarrow> Tracker \<Rightarrow> fullStatsBrowseParams \<Rightarrow> browse_reply" where
  "browseRequesters E t P = (case collectRequesterRows E (fp_Scope P) t of
      Inl e \<Rightarrow> BrowseError 500 e
    | Inr rows \<Rightarrow> BrowseRequesters (browseResponse P requesterRowJSON
        (be_sortRequesters E (requester_less (fp_Sort P)) (filterRequesterRows E (fp_Query P) rows))))"

definition fullstatsBrowseHandler :: "browse_env \<Rightarrow> bool \<Rightarrow> Tracker option \<Rightarrow> gostr \<Rightarrow> (gostr \<Rightarrow> gostr) \<Rightarrow> browse_reply" where
  "fullstatsBrowseHandler E enabled tracker method q =
     (if method \<noteq> ''GET'' then BrowseStatus 405
      else if \<not> enabled then BrowseStatus 404
      else case tracker of None \<Rightarrow> BrowseDisabled
      | Some t \<Rightarrow> (case parseFullStatsBrowseParams q of
          Inl e \<Rightarrow> BrowseError 400 e
        | Inr P \<Rightarrow> if fp_Table P = ''requests'' then browseRequests E t P
                   else if fp_Table P = ''requesters'' then browseRequesters E t P
                   else BrowseError 400 ''invalid table''))"

subsection \<open>Order and pages\<close>

text \<open>What \<^verbatim>\<open>sort.Slice\<close> promises.\<close>

definition sorts_slices :: "(('a \<Rightarrow> 'a \<Rightarrow> bool) \<Rightarrow> 'a list \<Rightarrow> 'a list) \<Rightarrow> bool" where
  "sorts_slices f \<longleftrightarrow> (\<forall>less xs. mset (f less xs) = mset xs \<and>
     ((\<forall>x y z. (less x y \<longrightarrow> \<not> less y x) \<and> (less x z \<longrightarrow> less x y \<or> less y z)) \<longrightarrow>
        sorted_wrt (\<lambda>x y. \<not> less y x) (f less xs)))"

lemma sort_by_sorts: "sorts_slices sort_by"
  by (auto simp: sorts_slices_def sort_by_correct)

lemma sorted_unique:
  "mset xs = mset ys \<Longrightarrow> sorted_wrt R xs \<Longrightarrow> sorted_wrt R ys \<Longrightarrow>
   (\<And>x y. x \<in> set xs \<Longrightarrow> y \<in> set xs \<Longrightarrow> R x y \<Longrightarrow> R y x \<Longrightarrow> x = y) \<Longrightarrow> xs = ys"
proof (induction xs arbitrary: ys)
  case (Cons x xs)
  then obtain y ys' where ys: "ys = y # ys'" by (cases ys) auto
  have same: "set (x # xs) = set ys" using Cons.prems(1) by (metis set_mset_mset)
  have "x = y"
  proof (rule ccontr)
    assume "x \<noteq> y"
    then have "R y x" "R x y" using same Cons.prems(2,3) ys by auto
    moreover have "y \<in> set (x # xs)" using same ys by simp
    ultimately show False using Cons.prems(4) [of x y] \<open>x \<noteq> y\<close> by simp
  qed
  then show ?case using Cons ys by auto
qed simp

text \<open>A table whose rows have distinct keys, and an order in which only rows with the same key are tied: the sorted
  table does not depend on how it was collected nor on the algorithm that sorts it.\<close>

locale keyed_order =
  fixes less :: "'r \<Rightarrow> 'r \<Rightarrow> bool" and key :: "'r \<Rightarrow> gostr"
  assumes asym: "less x y \<Longrightarrow> \<not> less y x"
    and split_between: "less x z \<Longrightarrow> less x y \<or> less y z"
    and tied: "\<not> less x y \<Longrightarrow> \<not> less y x \<Longrightarrow> key x = key y"
begin

lemma sorted_by_any:
  assumes "sorts_slices f"
  shows "mset (f less xs) = mset xs" "sorted_wrt (\<lambda>x y. \<not> less y x) (f less xs)"
proof -
  have "\<forall>x y z. (less x y \<longrightarrow> \<not> less y x) \<and> (less x z \<longrightarrow> less x y \<or> less y z)"
    by (intro allI conjI impI asym split_between)
  then show "mset (f less xs) = mset xs" "sorted_wrt (\<lambda>x y. \<not> less y x) (f less xs)"
    using assms by (simp_all add: sorts_slices_def)
qed

lemma canonical:
  assumes "sorts_slices f" "sorts_slices g" "mset xs = mset ys" "distinct (map key xs)"
  shows "f less xs = g less ys"
proof (rule sorted_unique)
  show "mset (f less xs) = mset (g less ys)" using sorted_by_any assms by simp
  have "set (f less xs) = set xs" using sorted_by_any(1) [OF assms(1)] by (metis set_mset_mset)
  then show "x = y" if "x \<in> set (f less xs)" "y \<in> set (f less xs)" "\<not> less y x" "\<not> less x y" for x y
    using that tied [of x y] assms(4) by (auto simp: distinct_map inj_on_def)
qed (use sorted_by_any assms in auto)

end

text \<open>The orders of the code: by a column with the key to break ties, up or down, or by the key alone.\<close>

definition ascending_by :: "('r \<Rightarrow> 'a::linorder) \<Rightarrow> ('r \<Rightarrow> gostr) \<Rightarrow> 'r \<Rightarrow> 'r \<Rightarrow> bool" where
  "ascending_by col key x y \<longleftrightarrow> (if col x \<noteq> col y then col x < col y else key x < key y)"

definition descending_by :: "('r \<Rightarrow> 'a::linorder) \<Rightarrow> ('r \<Rightarrow> gostr) \<Rightarrow> 'r \<Rightarrow> 'r \<Rightarrow> bool" where
  "descending_by col key x y \<longleftrightarrow> (if col x \<noteq> col y then col x > col y else key x < key y)"

lemma keyed_orders:
  "keyed_order (ascending_by col key) key" "keyed_order (descending_by col key) key"
  "keyed_order (\<lambda>x y. key x < key y) key" "keyed_order (\<lambda>x y. key x > key y) key"
  by (unfold_locales; auto simp: ascending_by_def descending_by_def split: if_splits)+

lemma if_applied: "(if b then f else g) x = (if b then f x else g x)"
  by simp

lemma request_less_cases:
  "request_less srt =
     (if srt = ''count_asc'' then ascending_by (\<lambda>r. rs_Count (snd r)) fst
      else if srt = ''key_asc'' then (\<lambda>x y. fst x < fst y)
      else if srt = ''key_desc'' then (\<lambda>x y. fst x > fst y)
      else if srt = ''type_asc'' then ascending_by (\<lambda>r. snd (splitDomainType (fst r))) fst
      else if srt = ''type_desc'' then descending_by (\<lambda>r. snd (splitDomainType (fst r))) fst
      else if srt = ''last_seen_desc'' then descending_by (\<lambda>r. rs_LastSeen (snd r)) fst
      else if srt = ''last_seen_asc'' then ascending_by (\<lambda>r. rs_LastSeen (snd r)) fst
      else if srt = ''first_seen_desc'' then descending_by (\<lambda>r. rs_FirstSeen (snd r)) fst
      else if srt = ''first_seen_asc'' then ascending_by (\<lambda>r. rs_FirstSeen (snd r)) fst
      else descending_by (\<lambda>r. rs_Count (snd r)) fst)"
  unfolding request_less_def ascending_by_def descending_by_def Let_def by (intro ext) (simp add: case_prod_beta if_applied cong: if_cong split del: if_split)

lemma requester_less_cases:
  "requester_less srt =
     (if srt = ''total_asc'' then ascending_by rr_total rr_ip
      else if srt = ''ip_asc'' then (\<lambda>x y. rr_ip x < rr_ip y)
      else if srt = ''ip_desc'' then (\<lambda>x y. rr_ip x > rr_ip y)
      else if srt = ''first_seen_desc'' then descending_by (\<lambda>r. rqr_FirstSeen (rr_st r)) rr_ip
      else if srt = ''first_seen_asc'' then ascending_by (\<lambda>r. rqr_FirstSeen (rr_st r)) rr_ip
      else descending_by rr_total rr_ip)"
  unfolding requester_less_def ascending_by_def descending_by_def Let_def by (intro ext) (simp add: if_applied cong: if_cong split del: if_split)

interpretation request_order: keyed_order "request_less srt" fst for srt
  unfolding request_less_cases by (simp add: keyed_orders)

interpretation requester_order: keyed_order "requester_less srt" rr_ip for srt
  unfolding requester_less_cases by (simp add: keyed_orders)

lemma chunks: "concat (map (\<lambda>p. take k (drop (p * k) xs)) [0..<m]) = take (m * k) xs"
proof (induction m)
  case (Suc m)
  have "take (Suc m * k) xs = take (m * k) xs @ take k (drop (m * k) xs)"
    using take_add [of "m * k" k xs] by (simp add: add.commute)
  then show ?case using Suc by simp
qed simp

definition page_of :: "'a list \<Rightarrow> int \<Rightarrow> int \<Rightarrow> 'a list" where
  "page_of rows page perPage = snd (snd (paginateSlice rows page perPage))"

definition page_count :: "'a list \<Rightarrow> int \<Rightarrow> int" where
  "page_count rows perPage = fst (snd (paginateSlice rows 1 perPage))"

lemma page_count_eq:
  "page_count rows k = (if rows = [] then 1 else (int (length rows) + k - 1) div k)"
  "fst (snd (paginateSlice rows page k)) = page_count rows k"
  by (simp_all add: page_count_def paginateSlice_def Let_def)

lemma page_length:
  assumes "1 \<le> k"
  shows "int (length (page_of rows page k)) \<le> k"
  using assms by (auto simp: page_of_def paginateSlice_def Let_def)

lemma pages_cover:
  assumes "1 \<le> k"
  shows "concat (map (\<lambda>p. page_of rows (int p + 1) k) [0..<nat (page_count rows k)]) = rows"
proof (cases "rows = []")
  case False
  let ?n = "int (length rows)" and ?m = "page_count rows k"
  have m: "?m = (?n + k - 1) div k" using False by (simp add: page_count_eq)
  have page: "page_of rows (int p + 1) k = take (nat k) (drop (p * nat k) rows)" if "p < nat ?m" for p
  proof -
    have "\<not> ?m < int p + 1" using that by linarith
    then have "page_of rows (int p + 1) k =
        take (nat ((if int p * k + k > ?n then ?n else int p * k + k) - int p * k)) (drop (nat (int p * k)) rows)"
      using False m by (simp add: page_of_def paginateSlice_def Let_def)
    also have "\<dots> = take (nat k) (drop (p * nat k) rows)"
    proof -
      obtain j where k: "k = int j" using assms by (metis nat_0_le order_trans zero_le_one)
      then show ?thesis by (auto simp: of_nat_mult [symmetric] nat_diff_distrib simp del: of_nat_mult)
    qed
    finally show ?thesis .
  qed
  have "?n \<le> ?m * k"
  proof -
    have "?n + k - 1 = ?m * k + (?n + k - 1) mod k" using m by simp
    moreover have "(?n + k - 1) mod k < k" using assms by simp
    ultimately show ?thesis by linarith
  qed
  then have "length rows \<le> nat ?m * nat k"
    using assms nat_mono [of ?n "?m * k"] by (simp add: nat_mult_distrib_neg nat_mult_distrib mult.commute)
  moreover have "concat (map (\<lambda>p. page_of rows (int p + 1) k) [0..<nat ?m]) = concat (map (\<lambda>p. take (nat k) (drop (p * nat k) rows)) [0..<nat ?m])"
    using page by (intro arg_cong [where f = concat] map_cong) auto
  ultimately show ?thesis by (simp add: chunks)
qed (simp add: page_of_def paginateSlice_def)

subsection \<open>Collecting and filtering\<close>

lemma visited_set: "set (visited ks m) = {(k, v). k \<in> set ks \<and> m k = Some v}"
  by (induction ks) (auto simp: visited_def List.map_filter_def)

lemma visited_distinct: "distinct ks \<Longrightarrow> distinct (map fst (visited ks m))"
  by (induction ks) (auto simp: visited_def List.map_filter_def split: option.splits)

lemma same_rows:
  assumes "distinct ks" "distinct ks'" "set ks = set ks'"
  shows "mset (visited ks m) = mset (visited ks' m)"
proof -
  have "distinct (visited ks m)" "distinct (visited ks' m)" using assms visited_distinct by (auto simp: distinct_map)
  then show ?thesis using assms by (simp add: set_eq_iff_mset_eq_distinct [symmetric] visited_set)
qed

lemma positiveParam_bounds: "positiveParam g d bad = Some n \<Longrightarrow> n = d \<or> 1 \<le> n \<and> \<not> bad n"
  by (auto simp: positiveParam_def Let_def split: if_splits option.splits)

lemma parse_bounds:
  assumes "parseFullStatsBrowseParams q = Inr P"
  shows "1 \<le> fp_PerPage P \<and> fp_PerPage P \<le> 100" "1 \<le> fp_Page P" "fp_Table P \<in> {''requests'', ''requesters''}"
    "validSortForTable (fp_Table P) (fp_Sort P)"
proof -
  obtain page perPage where pp: "positiveParam (q ''page'') 1 (\<lambda>n. False) = Some page" "positiveParam (q ''per_page'') 25 (\<lambda>n. n > 100) = Some perPage"
      "fp_Page P = page" "fp_PerPage P = perPage"
    and tbl: "fp_Table P \<in> {''requests'', ''requesters''}" "validSortForTable (fp_Table P) (fp_Sort P)"
    using assms unfolding parseFullStatsBrowseParams_def Let_def
    by (simp split: if_split_asm option.split_asm) fastforce
  show "1 \<le> fp_PerPage P \<and> fp_PerPage P \<le> 100" "1 \<le> fp_Page P"
    using positiveParam_bounds [OF pp(1)] positiveParam_bounds [OF pp(2)] pp(3,4) by auto
  show "fp_Table P \<in> {''requests'', ''requesters''}" "validSortForTable (fp_Table P) (fp_Sort P)" by (rule tbl)+
qed

definition requestTable :: "gostr \<Rightarrow> Tracker \<Rightarrow> gostr \<rightharpoonup> RequestStats" where
  "requestTable scope t = (if scope = ''session'' then tr_sessionRequests t else tr_requests t)"

text \<open>The environment of a request: the loops visit every entry of the maps once, in some order, the database answers
  and \<^verbatim>\<open>sort.Slice\<close> sorts.\<close>

definition visits_requests :: "browse_env \<Rightarrow> (gostr \<rightharpoonup> RequestStats) \<Rightarrow> bool" where
  "visits_requests E m \<longleftrightarrow> distinct (be_rows E) \<and> set (be_rows E) = dom m \<and> be_dbErr E = None \<and> sorts_slices (be_sortRequests E) \<and>
     (\<forall>k st. m k = Some st \<longrightarrow> set (be_sources E k) = dom (rs_SourceCount st))"

definition request_hit :: "gostr \<Rightarrow> requestRow \<Rightarrow> bool" where
  "request_hit needle row \<longleftrightarrow>
     needle = [] \<or> containsFold (ToLower needle) (fst row) \<or> containsFold (ToLower needle) (fst (splitDomainType (fst row))) \<or>
     containsFold (ToLower needle) (snd (splitDomainType (fst row))) \<or>
     (\<exists>sk \<in> dom (rs_SourceCount (snd row)). containsFold (ToLower needle) sk)"

lemma filterRequestRows_hits:
  assumes "visits_requests E m"
  shows "filterRequestRows E needle (visited (be_rows E) m) = filter (request_hit needle) (visited (be_rows E) m)"
proof (cases "needle = []")
  case False
  have "requestMatches E (ToLower needle) row = request_hit needle row" if "row \<in> set (visited (be_rows E) m)" for row
  proof -
    obtain k st where row: "row = (k, st)" "m k = Some st" using \<open>row \<in> _\<close> by (auto simp: visited_set)
    then have "set (be_sources E k) = dom (rs_SourceCount st)" using assms by (simp add: visits_requests_def)
    then show ?thesis using row(1) False
      by (auto simp: requestMatches_def request_hit_def list_ex_iff visited_set Let_def split: prod.split)
  qed
  then show ?thesis using False by (simp add: filterRequestRows_def cong: filter_cong)
qed (simp add: filterRequestRows_def request_hit_def)

definition sorted_requests :: "browse_env \<Rightarrow> fullStatsBrowseParams \<Rightarrow> (gostr \<rightharpoonup> RequestStats) \<Rightarrow> requestRow list" where
  "sorted_requests E P m = be_sortRequests E (request_less (fp_Sort P)) (filter (request_hit (fp_Query P)) (visited (be_rows E) m))"

lemma browseRequests_sorted:
  assumes "visits_requests E (requestTable (fp_Scope P) t)"
  shows "browseRequests E t P = BrowseRequests (browseResponse P requestRowJSON (sorted_requests E P (requestTable (fp_Scope P) t)))"
proof -
  have "collectRequestRows E (fp_Scope P) t = Inr (visited (be_rows E) (requestTable (fp_Scope P) t))"
    using assms by (simp add: collectRequestRows_def requestTable_def visits_requests_def)
  then show ?thesis using filterRequestRows_hits [OF assms] by (simp add: browseRequests_def sorted_requests_def)
qed

lemma sorted_requests_canonical:
  assumes "visits_requests E m" "visits_requests E' m"
  shows "sorted_requests E P m = sorted_requests E' P m"
proof -
  let ?f = "filter (request_hit (fp_Query P))"
  have E: "distinct (be_rows E)" "distinct (be_rows E')" "set (be_rows E) = set (be_rows E')"
    "sorts_slices (be_sortRequests E)" "sorts_slices (be_sortRequests E')"
    using assms by (simp_all add: visits_requests_def)
  have "mset (?f (visited (be_rows E) m)) = mset (?f (visited (be_rows E') m))"
    using same_rows [OF E(1,2,3), of m] by (simp add: mset_filter)
  moreover have "distinct (map fst (?f (visited (be_rows E) m)))"
    using visited_distinct [OF E(1), of m] by (simp add: distinct_map_filter)
  ultimately show ?thesis unfolding sorted_requests_def by (intro request_order.canonical E)
qed

lemma sorted_requests_rows:
  assumes "visits_requests E m"
  shows "distinct (map fst (sorted_requests E P m))" "set (sorted_requests E P m) = {(k, st). m k = Some st \<and> request_hit (fp_Query P) (k, st)}"
    "sorted_wrt (\<lambda>x y. \<not> request_less (fp_Sort P) y x) (sorted_requests E P m)"
proof -
  let ?xs = "filter (request_hit (fp_Query P)) (visited (be_rows E) m)"
  have E: "distinct (be_rows E)" "set (be_rows E) = dom m" "sorts_slices (be_sortRequests E)"
    using assms by (simp_all add: visits_requests_def)
  have ms: "mset (sorted_requests E P m) = mset ?xs"
    unfolding sorted_requests_def by (rule request_order.sorted_by_any(1)) (rule E)
  have "distinct (map fst ?xs)" using visited_distinct [OF E(1), of m] by (simp add: distinct_map_filter)
  moreover have "mset (map fst (sorted_requests E P m)) = mset (map fst ?xs)" using ms by simp
  ultimately show "distinct (map fst (sorted_requests E P m))" by (metis mset_eq_imp_distinct_iff)
  have "set (sorted_requests E P m) = set ?xs" using ms by (metis set_mset_mset)
  then show "set (sorted_requests E P m) = {(k, st). m k = Some st \<and> request_hit (fp_Query P) (k, st)}"
    using E(2) by (auto simp: visited_set)
  show "sorted_wrt (\<lambda>x y. \<not> request_less (fp_Sort P) y x) (sorted_requests E P m)"
    unfolding sorted_requests_def by (rule request_order.sorted_by_any(2)) (rule E)
qed

text \<open>Page \<open>p\<close> of the requests, counted from zero, in an environment of its own, and what it says of the number of
  pages.\<close>

definition request_page :: "browse_env \<Rightarrow> Tracker \<Rightarrow> fullStatsBrowseParams \<Rightarrow> nat \<Rightarrow> fullStatsRequestRowJSON list \<times> int" where
  "request_page E t P p = (case browseRequests E t (P\<lparr>fp_Page := int p + 1\<rparr>) of
      BrowseRequests r \<Rightarrow> (br_Rows r, br_TotalPages r)
    | _ \<Rightarrow> ([], 0))"

lemma request_page_eq:
  assumes "visits_requests E (requestTable (fp_Scope P) t)"
  shows "request_page E t P p =
    (let xs = sorted_requests E P (requestTable (fp_Scope P) t) in
     (map requestRowJSON (page_of xs (int p + 1) (fp_PerPage P)), page_count xs (fp_PerPage P)))"
proof -
  let ?P = "P\<lparr>fp_Page := int p + 1\<rparr>"
  have v: "visits_requests E (requestTable (fp_Scope ?P) t)" using assms by simp
  have s: "sorted_requests E ?P m = sorted_requests E P m" for m by (simp add: sorted_requests_def)
  show ?thesis
    unfolding request_page_def browseRequests_sorted [OF v] s browseResponse_def
    by (simp add: page_of_def page_count_eq(2) [symmetric, of _ _ "int p + 1"] Let_def split: prod.split)
qed

text \<open>C37.  Paging through the statistics misses and repeats nothing.  For accepted parameters, and while the tracker does
  not change, the pages are computed independently, each with its own order of visiting the maps and its own sorting
  algorithm; still the pages, one after the other, are one list without repetitions: exactly the rows of the table
  that match the search, in the order that was asked for.  Every page has at most a hundred rows and announces the
  same number of pages.\<close>

theorem browse_pages:
  fixes E :: "nat \<Rightarrow> browse_env"
  assumes "parseFullStatsBrowseParams q = Inr P" and env: "\<forall>p. visits_requests (E p) (requestTable (fp_Scope P) t)"
  shows "\<exists>xs total.
     concat (map (\<lambda>p. fst (request_page (E p) t P p)) [0..<total]) = map requestRowJSON xs \<and>
     (\<forall>p. snd (request_page (E p) t P p) = int total \<and> length (fst (request_page (E p) t P p)) \<le> 100) \<and>
     distinct (map fst xs) \<and> set xs = {(k, st). requestTable (fp_Scope P) t k = Some st \<and> request_hit (fp_Query P) (k, st)} \<and>
     sorted_wrt (\<lambda>x y. \<not> request_less (fp_Sort P) y x) xs"
proof -
  let ?m = "requestTable (fp_Scope P) t" and ?k = "fp_PerPage P"
  define xs where "xs = sorted_requests (E 0) P ?m"
  have k: "1 \<le> ?k" "?k \<le> 100" using parse_bounds [OF assms(1)] by simp_all
  have v: "visits_requests (E p) ?m" for p using env by simp
  have page: "request_page (E p) t P p = (map requestRowJSON (page_of xs (int p + 1) ?k), page_count xs ?k)" for p
    using request_page_eq [OF v] sorted_requests_canonical [OF v [of p] v [of 0]] by (simp add: xs_def Let_def)
  have total: "int (nat (page_count xs ?k)) = page_count xs ?k"
    using k by (simp add: page_count_eq(1) pos_imp_zdiv_nonneg_iff)
  have "concat (map (\<lambda>p. fst (request_page (E p) t P p)) [0..<nat (page_count xs ?k)]) = map requestRowJSON xs"
    using arg_cong [OF pages_cover [OF k(1), of xs], of "map requestRowJSON"] by (simp add: page map_concat comp_def)
  moreover have "length (page_of xs (int p + 1) ?k) \<le> 100" for p
    using page_length [OF k(1), of xs "int p + 1"] k(2) by linarith
  ultimately show ?thesis
    using sorted_requests_rows [OF v [of 0], of P] page total
    by (intro exI [of _ xs] exI [of _ "nat (page_count xs ?k)"]) (simp add: xs_def)
qed

text \<open>Three requests on pages of two, sorted by their counts; every page visits the table in another order.\<close>

definition sample_stat :: "u64 \<Rightarrow> RequestStats" where
  "sample_stat n = \<lparr>rs_FirstSeen = 1, rs_LastSeen = 2, rs_Count = n, rs_SourceCount = Map.empty\<rparr>"

definition sample_tracker :: Tracker where
  "sample_tracker = NewTracker [''a.x:A'' \<mapsto> sample_stat 1, ''b.x:A'' \<mapsto> sample_stat 7, ''c.x:MX'' \<mapsto> sample_stat 1] Map.empty"

definition sample_browse :: "nat \<Rightarrow> browse_env" where
  "sample_browse p = \<lparr>be_rows = (if even p then [''c.x:MX'', ''a.x:A'', ''b.x:A''] else [''a.x:A'', ''b.x:A'', ''c.x:MX'']),
     be_types = (\<lambda>k. []), be_sources = (\<lambda>k. []), be_dbErr = None, be_sortRequests = sort_by, be_sortRequesters = sort_by\<rparr>"

definition sample_query :: "gostr \<Rightarrow> gostr" where
  "sample_query k = (if k = ''per_page'' then ''2'' else [])"

definition sample_params :: fullStatsBrowseParams where
  "sample_params = \<lparr>fp_Scope = ''total'', fp_Table = ''requests'', fp_Sort = ''count_desc'', fp_Query = [], fp_Page = 1, fp_PerPage = 2\<rparr>"

lemma sample_parse: "parseFullStatsBrowseParams sample_query = Inr sample_params"
  by code_simp

lemma sample_visits: "visits_requests (sample_browse p) (requestTable (fp_Scope sample_params) sample_tracker)"
  by (auto simp: visits_requests_def sample_browse_def requestTable_def sample_params_def sample_tracker_def NewTracker_def
      sample_stat_def sort_by_sorts split: if_splits)

theorem browse_pages_witness:
  "\<exists>xs total. concat (map (\<lambda>p. fst (request_page (sample_browse p) sample_tracker sample_params p)) [0..<total]) = map requestRowJSON xs \<and>
     distinct (map fst xs) \<and> (''b.x:A'', sample_stat 7) \<in> set xs"
proof -
  have "\<forall>p. visits_requests (sample_browse p) (requestTable (fp_Scope sample_params) sample_tracker)" by (simp add: sample_visits)
  from browse_pages [OF sample_parse this] obtain xs total where
    "concat (map (\<lambda>p. fst (request_page (sample_browse p) sample_tracker sample_params p)) [0..<total]) = map requestRowJSON xs"
    "distinct (map fst xs)"
    and s: "set xs = {(k, st). requestTable (fp_Scope sample_params) sample_tracker k = Some st \<and> request_hit (fp_Query sample_params) (k, st)}"
    by blast
  moreover have "(''b.x:A'', sample_stat 7) \<in> set xs"
    unfolding s by (simp add: requestTable_def sample_params_def sample_tracker_def NewTracker_def request_hit_def)
  ultimately show ?thesis by blast
qed

end
