(* ===== verification/ConfigFile.thy ===== *)
theory ConfigFile
  imports Storage
begin

text \<open>
  The configuration file, \<^verbatim>\<open>config/config.go\<close>: the JSON document that \<^verbatim>\<open>json.Marshal\<close> makes of a
  configuration, the methods \<^verbatim>\<open>UnmarshalJSON\<close> that read one, and the functions that look for the file, read,
  create and save it.  A document is a value of the type \<open>json\<close>; that printing and parsing its text are
  inverse is the library's part.  A file is given by what reading and parsing it give.

  What is saved is read again except for the settings that \<^verbatim>\<open>UnmarshalJSON\<close> does not mention: those have their
  zero value whatever the file says, and four switches that are on by default cannot be stored as off.
\<close>

subsection \<open>JSON values\<close>

datatype json =
    JNull
  | JBool bool
  | JInt int
  | JFloat rat
  | JStr gostr
  | JArr "json list"
  | JObj "(gostr \<times> json) list"

text \<open>\<^verbatim>\<open>json.Unmarshal\<close> into a variable: the new content of the variable, given the old one.  A value of another
  type and \<^verbatim>\<open>null\<close> leave scalars and structs alone, \<^verbatim>\<open>null\<close> empties a slice; an element of a wrong type is the
  empty string; an integer that does not fit into 64 bits is a value of another type.\<close>

definition int64_ok :: "int \<Rightarrow> bool" where
  "int64_ok n \<longleftrightarrow> - (2 ^ 63) \<le> n \<and> n < 2 ^ 63"

definition json_str :: "json \<Rightarrow> gostr \<Rightarrow> gostr" where
  "json_str j v = (case j of JStr s \<Rightarrow> s | _ \<Rightarrow> v)"

definition json_bool :: "json \<Rightarrow> bool \<Rightarrow> bool" where
  "json_bool j v = (case j of JBool b \<Rightarrow> b | _ \<Rightarrow> v)"

definition json_int :: "json \<Rightarrow> int \<Rightarrow> int" where
  "json_int j v = (case j of JInt n \<Rightarrow> if int64_ok n then n else v | _ \<Rightarrow> v)"

definition json_strs :: "json \<Rightarrow> gostr list \<Rightarrow> gostr list" where
  "json_strs j v = (case j of JArr js \<Rightarrow> map (\<lambda>e. json_str e []) js | JNull \<Rightarrow> [] | _ \<Rightarrow> v)"

text \<open>A \<^verbatim>\<open>map[string]json.RawMessage\<close>: the last value of a key counts.  A struct instead takes every key in order
  and ignores the case of letters.\<close>

definition raw_map :: "(gostr \<times> json) list \<Rightarrow> gostr \<Rightarrow> json option" where
  "raw_map kvs k = map_of (rev kvs) k"

definition unmarshal :: "(json \<Rightarrow> 'a \<Rightarrow> 'a) \<Rightarrow> json option \<Rightarrow> 'a \<Rightarrow> 'a" where
  "unmarshal f r v = (case r of None \<Rightarrow> v | Some j \<Rightarrow> f j v)"

fun getStr :: "(gostr \<Rightarrow> json option) \<Rightarrow> gostr list \<Rightarrow> gostr" where
  "getStr raw [] = []"
| "getStr raw (k # ks) = (case raw k of Some (JStr s) \<Rightarrow> s | Some JNull \<Rightarrow> [] | _ \<Rightarrow> getStr raw ks)"

fun getBool :: "(gostr \<Rightarrow> json option) \<Rightarrow> gostr list \<Rightarrow> bool option" where
  "getBool raw [] = None"
| "getBool raw (k # ks) = (case raw k of Some (JBool b) \<Rightarrow> Some b | Some JNull \<Rightarrow> Some False | _ \<Rightarrow> getBool raw ks)"

subsection \<open>Reading\<close>

definition sourceField :: "gostr \<times> json \<Rightarrow> RecordsSourceConfig \<Rightarrow> RecordsSourceConfig" where
  "sourceField kv rs = (case kv of (k, j) \<Rightarrow>
     if EqualFold k ''type'' then rs\<lparr>rsc_Type := json_str j (rsc_Type rs)\<rparr>
     else if EqualFold k ''location'' then rs\<lparr>rsc_Location := json_str j (rsc_Location rs)\<rparr>
     else if EqualFold k ''refresh_interval_seconds'' then
       rs\<lparr>rsc_RefreshIntervalSeconds := json_int j (rsc_RefreshIntervalSeconds rs)\<rparr>
     else if EqualFold k ''include_pattern'' then rs\<lparr>rsc_IncludePattern := json_str j (rsc_IncludePattern rs)\<rparr>
     else if EqualFold k ''named_conf'' then rs\<lparr>rsc_NamedConf := json_str j (rsc_NamedConf rs)\<rparr>
     else if EqualFold k ''watch'' then rs\<lparr>rsc_Watch := json_bool j (rsc_Watch rs)\<rparr>
     else rs)"

definition empty_source :: RecordsSourceConfig where
  "empty_source = \<lparr>rsc_Type = [], rsc_Location = [], rsc_RefreshIntervalSeconds = 0, rsc_IncludePattern = [],
     rsc_NamedConf = [], rsc_Watch = False\<rparr>"

definition decodeSource :: "json \<Rightarrow> RecordsSourceConfig option \<Rightarrow> RecordsSourceConfig option" where
  "decodeSource j rso = (let rs = (case rso of None \<Rightarrow> empty_source | Some rs \<Rightarrow> rs) in
     case j of JNull \<Rightarrow> None | JObj kvs \<Rightarrow> Some (fold sourceField kvs rs) | _ \<Rightarrow> Some rs)"

definition unmarshalFileLocations :: "(gostr \<Rightarrow> json option) \<Rightarrow> FileLocations \<Rightarrow> FileLocations" where
  "unmarshalFileLocations raw fl =
     (let rs = unmarshal decodeSource (raw ''records_source'') (fl_RecordsSource fl);
          legacyPath = getStr raw [''dnsrecords'', ''dnsrecords_file'']
      in \<lparr>fl_DNSServerFile = getStr raw [''dnsservers'', ''dnsserver_file''],
          fl_CacheFile = getStr raw [''cache'', ''cache_file''],
          fl_RecordsSource = (if rs = None \<and> legacyPath \<noteq> [] then Some (file_source legacyPath) else rs)\<rparr>)"

definition decodeFileLocations :: "json \<Rightarrow> FileLocations \<Rightarrow> FileLocations" where
  "decodeFileLocations j fl = (case j of
      JObj kvs \<Rightarrow> unmarshalFileLocations (raw_map kvs) fl
    | JNull \<Rightarrow> unmarshalFileLocations (raw_map []) fl
    | _ \<Rightarrow> fl)"

definition settingsField :: "gostr \<times> json \<Rightarrow> DNSRecordSettings \<Rightarrow> DNSRecordSettings" where
  "settingsField kv s = (case kv of (k, j) \<Rightarrow>
     if EqualFold k ''auto_build_ptr_from_a'' then s\<lparr>drs_AutoBuildPTRFromA := json_bool j (drs_AutoBuildPTRFromA s)\<rparr>
     else if EqualFold k ''forward_ptr_queries'' then s\<lparr>drs_ForwardPTRQueries := json_bool j (drs_ForwardPTRQueries s)\<rparr>
     else if EqualFold k ''add_updates_records'' then s\<lparr>drs_AddUpdatesRecords := json_bool j (drs_AddUpdatesRecords s)\<rparr>
     else s)"

definition decodeRecordSettings :: "json \<Rightarrow> DNSRecordSettings \<Rightarrow> DNSRecordSettings" where
  "decodeRecordSettings j s = (case j of JObj kvs \<Rightarrow> fold settingsField kvs s | _ \<Rightarrow> s)"

definition logField :: "gostr \<times> json \<Rightarrow> LogConfig \<Rightarrow> LogConfig" where
  "logField kv l = (case kv of (k, j) \<Rightarrow>
     if EqualFold k ''log_dir'' then l\<lparr>log_Dir := json_str j (log_Dir l)\<rparr>
     else if EqualFold k ''log_severity'' then l\<lparr>log_Severity := json_str j (log_Severity l)\<rparr>
     else if EqualFold k ''log_rotation'' then l\<lparr>log_Rotation := json_str j (log_Rotation l)\<rparr>
     else if EqualFold k ''log_rotation_size_mb'' then l\<lparr>log_RotationSizeMB := json_int j (log_RotationSizeMB l)\<rparr>
     else if EqualFold k ''log_rotation_time_days'' then l\<lparr>log_RotationDays := json_int j (log_RotationDays l)\<rparr>
     else l)"

definition decodeLog :: "json \<Rightarrow> LogConfig \<Rightarrow> LogConfig" where
  "decodeLog j l = (case j of JObj kvs \<Rightarrow> fold logField kvs l | _ \<Rightarrow> l)"

text \<open>\<^verbatim>\<open>Config.UnmarshalJSON\<close>.  The assignments touch different fields; only the interval of the discovery depends on
  another field, which is read before it.\<close>

definition readServerKeys :: "(gostr \<Rightarrow> json option) \<Rightarrow> Config \<Rightarrow> Config" where
  "readServerKeys raw c = c\<lparr>
     cf_FallbackServerIP := unmarshal json_str (raw ''fallback_server_ip'') (cf_FallbackServerIP c),
     cf_FallbackServerPort := unmarshal json_str (raw ''fallback_server_port'') (cf_FallbackServerPort c),
     cf_Timeout := unmarshal json_int (raw ''timeout'') (cf_Timeout c),
     cf_APIAuthToken := unmarshal json_str (raw ''api_auth_token'') (cf_APIAuthToken c),
     cf_CacheRecords := unmarshal json_bool (raw ''cache_records'') (cf_CacheRecords c),
     cf_LocalRecordsEnabled := unmarshal json_bool (raw ''local_records_enabled'') (cf_LocalRecordsEnabled c),
     cf_FullStats := unmarshal json_bool (raw ''full_stats'') (cf_FullStats c),
     cf_FullStatsDir := unmarshal json_str (raw ''full_stats_dir'') (cf_FullStatsDir c),
     cf_FileLocations := unmarshal decodeFileLocations (raw ''file_locations'') (cf_FileLocations c),
     cf_DNSRecordSettings := unmarshal decodeRecordSettings (raw ''DNSRecordSettings'') (cf_DNSRecordSettings c),
     cf_Log := unmarshal decodeLog (raw ''log'') (cf_Log c),
     cf_DNSPort := getStr raw [''port'', ''dns_port''], cf_RESTPort := getStr raw [''apiport'', ''rest_port''],
     cf_APIEnabled := (case getBool raw [''api'', ''api_enabled''] of None \<Rightarrow> cf_APIEnabled c | Some b \<Rightarrow> b),
     cf_ClientSocketPath := getStr raw [''server_socket'', ''client_socket_path''],
     cf_ClientTCPAddress := getStr raw [''server_tcp'', ''client_tcp_address'']\<rparr>"

definition readDataKeys :: "(gostr \<Rightarrow> json option) \<Rightarrow> Config \<Rightarrow> Config" where
  "readDataKeys raw c = c\<lparr>
     cf_AdblockListFiles := unmarshal json_strs (raw ''adblock_list_files'') (cf_AdblockListFiles c),
     cf_UpstreamHealthCheckEnabled := unmarshal json_bool (raw ''upstream_health_check_enabled'') (cf_UpstreamHealthCheckEnabled c),
     cf_UpstreamHealthCheckFailures := unmarshal json_int (raw ''upstream_health_check_failures'') (cf_UpstreamHealthCheckFailures c),
     cf_UpstreamHealthCheckIntervalSeconds := unmarshal json_int (raw ''upstream_health_check_interval_seconds'') (cf_UpstreamHealthCheckIntervalSeconds c),
     cf_UpstreamHealthCheckQueryName := unmarshal json_str (raw ''upstream_health_check_query_name'') (cf_UpstreamHealthCheckQueryName c),
     cf_MinCacheTTLSeconds := unmarshal json_int (raw ''min_cache_ttl_seconds'') (cf_MinCacheTTLSeconds c),
     cf_StaleWhileRevalidate := unmarshal json_bool (raw ''stale_while_revalidate'') (cf_StaleWhileRevalidate c),
     cf_CacheWarmEnabled := unmarshal json_bool (raw ''cache_warm_enabled'') (cf_CacheWarmEnabled c),
     cf_CacheWarmIntervalSeconds := unmarshal json_int (raw ''cache_warm_interval_seconds'') (cf_CacheWarmIntervalSeconds c),
     cf_CacheCompactEnabled := unmarshal json_bool (raw ''cache_compact_enabled'') (cf_CacheCompactEnabled c),
     cf_CacheCompactIntervalSeconds := unmarshal json_int (raw ''cache_compact_interval_seconds'') (cf_CacheCompactIntervalSeconds c),
     cf_StatsDashboardEnabled := unmarshal json_bool (raw ''stats_dashboard_enabled'') (cf_StatsDashboardEnabled c),
     cf_DashboardResolutionLogCap := unmarshal json_int (raw ''dashboard_resolution_log_cap'') (cf_DashboardResolutionLogCap c),
     cf_PprofEnabled := unmarshal json_bool (raw ''pprof_enabled'') (cf_PprofEnabled c),
     cf_PprofListen := unmarshal json_str (raw ''pprof_listen'') (cf_PprofListen c),
     cf_PrettyJSON := unmarshal json_bool (raw ''pretty_json'') (cf_PrettyJSON c)\<rparr>"

definition absentKeys :: "(gostr \<Rightarrow> json option) \<Rightarrow> Config \<Rightarrow> Config" where
  "absentKeys raw c = c\<lparr>
     cf_LocalRecordsEnabled := (if raw ''local_records_enabled'' = None then True else cf_LocalRecordsEnabled c),
     cf_CacheWarmEnabled := (if raw ''cache_warm_enabled'' = None then True else cf_CacheWarmEnabled c),
     cf_CacheWarmIntervalSeconds := (if raw ''cache_warm_interval_seconds'' = None then 10 else cf_CacheWarmIntervalSeconds c),
     cf_CacheCompactEnabled := (if raw ''cache_compact_enabled'' = None then True else cf_CacheCompactEnabled c),
     cf_CacheCompactIntervalSeconds :=
       (if raw ''cache_compact_interval_seconds'' = None then 1800 else cf_CacheCompactIntervalSeconds c),
     cf_StatsDashboardEnabled := (if raw ''stats_dashboard_enabled'' = None then True else cf_StatsDashboardEnabled c)\<rparr>"

definition readClusterKeys :: "(gostr \<Rightarrow> json option) \<Rightarrow> Config \<Rightarrow> Config" where
  "readClusterKeys raw c = c\<lparr>
     cf_ClusterEnabled := unmarshal json_bool (raw ''cluster_enabled'') (cf_ClusterEnabled c),
     cf_ClusterListenAddr := unmarshal json_str (raw ''cluster_listen_addr'') (cf_ClusterListenAddr c),
     cf_ClusterPeers := unmarshal json_strs (raw ''cluster_peers'') (cf_ClusterPeers c),
     cf_ClusterAuthToken := unmarshal json_str (raw ''cluster_auth_token'') (cf_ClusterAuthToken c),
     cf_ClusterNodeID := unmarshal json_str (raw ''cluster_node_id'') (cf_ClusterNodeID c),
     cf_ClusterSyncIntervalSeconds := unmarshal json_int (raw ''cluster_sync_interval_seconds'') (cf_ClusterSyncIntervalSeconds c),
     cf_ClusterAdvertiseAddr := unmarshal json_str (raw ''cluster_advertise_addr'') (cf_ClusterAdvertiseAddr c),
     cf_ClusterReplicaOnly := unmarshal json_bool (raw ''cluster_replica_only'') (cf_ClusterReplicaOnly c),
     cf_ClusterRejectLocalWrites := unmarshal json_bool (raw ''cluster_reject_local_writes'') (cf_ClusterRejectLocalWrites c),
     cf_ClusterAdmin := unmarshal json_bool (raw ''cluster_admin'') (cf_ClusterAdmin c),
     cf_ClusterAdminToken := unmarshal json_str (raw ''cluster_admin_token'') (cf_ClusterAdminToken c),
     cf_ClusterSyncPolicy := unmarshal json_str (raw ''cluster_sync_policy'') (cf_ClusterSyncPolicy c),
     cf_ClusterAllowedWriterNodeIDs := unmarshal json_strs (raw ''cluster_allowed_writer_node_ids'') (cf_ClusterAllowedWriterNodeIDs c),
     cf_ClusterDiscoverySRV := unmarshal json_str (raw ''cluster_discovery_srv'') (cf_ClusterDiscoverySRV c),
     cf_ClusterDiscoveryIntervalSeconds := unmarshal json_int (raw ''cluster_discovery_interval_seconds'') (cf_ClusterDiscoveryIntervalSeconds c),
     cf_AXFREnabled := unmarshal json_bool (raw ''axfr_enabled'') (cf_AXFREnabled c),
     cf_AXFRAllowedNetworks := unmarshal json_strs (raw ''axfr_allowed_networks'') (cf_AXFRAllowedNetworks c)\<rparr>"

definition discoveryDefault :: "(gostr \<Rightarrow> json option) \<Rightarrow> Config \<Rightarrow> Config" where
  "discoveryDefault raw c =
     (if raw ''cluster_discovery_interval_seconds'' = None \<and> TrimSpace (cf_ClusterDiscoverySRV c) \<noteq> []
      then c\<lparr>cf_ClusterDiscoveryIntervalSeconds := 60\<rparr> else c)"

definition unmarshalConfig :: "(gostr \<Rightarrow> json option) \<Rightarrow> Config \<Rightarrow> Config" where
  "unmarshalConfig raw c =
     discoveryDefault raw (readClusterKeys raw (absentKeys raw (readDataKeys raw (readServerKeys raw c))))"

text \<open>\<^verbatim>\<open>extractLegacyRecordSettings\<close> reads the same key once more, through a struct: any error makes it give up.\<close>

definition legacy_ok :: "json \<Rightarrow> bool" where
  "legacy_ok j = (case j of
      JNull \<Rightarrow> True
    | JObj kvs \<Rightarrow> list_all (\<lambda>(k, v).
        (EqualFold k ''auto_build_ptr_from_a'' \<or> EqualFold k ''forward_ptr_queries'' \<or> EqualFold k ''add_updates_records'') \<longrightarrow>
        (case v of JBool b \<Rightarrow> True | JNull \<Rightarrow> True | _ \<Rightarrow> False)) kvs
    | _ \<Rightarrow> False)"

definition legacyValue :: "json \<Rightarrow> DNSRecordSettings option \<Rightarrow> DNSRecordSettings option" where
  "legacyValue j acc = (case j of
      JObj kvs \<Rightarrow> Some (decodeRecordSettings j (case acc of None \<Rightarrow> empty_DNSRecordSettings | Some s \<Rightarrow> s))
    | _ \<Rightarrow> None)"

definition extractLegacyRecordSettings :: "(gostr \<times> json) list \<Rightarrow> DNSRecordSettings option" where
  "extractLegacyRecordSettings kvs =
     (let vs = map snd (filter (\<lambda>kv. EqualFold (fst kv) ''DNSRecordSettings'') kvs)
      in if list_all legacy_ok vs then fold legacyValue vs None else None)"

text \<open>A file: it does not exist, cannot be read, is blank, is not JSON, or holds a document.\<close>

datatype config_file = NoFile | NotReadable gostr | BlankFile | NotJson gostr | ConfigDoc json

datatype read_error = NotExist | CannotRead gostr

definition readConfig :: "gostr \<Rightarrow> config_file \<Rightarrow> read_error + Config" where
  "readConfig path f =
     (let decoded = (\<lambda>kvs. let c = unmarshalConfig (raw_map kvs) empty_Config in
            Inr (case extractLegacyRecordSettings kvs of None \<Rightarrow> c | Some s \<Rightarrow> c\<lparr>cf_DNSRecordSettings := s\<rparr>))
      in case f of
        NoFile \<Rightarrow> Inl NotExist
      | NotReadable e \<Rightarrow> Inl (CannotRead e)
      | BlankFile \<Rightarrow> Inl (CannotRead (''config: file '' @ path @ '' is empty''))
      | NotJson e \<Rightarrow> Inl (CannotRead (''config: parse '' @ path @ '': '' @ e))
      | ConfigDoc (JObj kvs) \<Rightarrow> decoded kvs
      | ConfigDoc JNull \<Rightarrow> decoded []
      | ConfigDoc j \<Rightarrow> Inl (CannotRead (''config: parse '' @ path @ '': cannot unmarshal'')))"

subsection \<open>Writing\<close>

text \<open>The struct tags: with \<^verbatim>\<open>omitempty\<close> a zero value is left out (\<open>None\<close>).\<close>

definition put_str :: "gostr \<Rightarrow> json option" where "put_str s = Some (JStr s)"
definition put_bool :: "bool \<Rightarrow> json option" where "put_bool b = Some (JBool b)"
definition put_int :: "int \<Rightarrow> json option" where "put_int n = Some (JInt n)"
definition omit_str :: "gostr \<Rightarrow> json option" where "omit_str s = (if s = [] then None else Some (JStr s))"
definition omit_bool :: "bool \<Rightarrow> json option" where "omit_bool b = (if b then Some (JBool True) else None)"
definition omit_int :: "int \<Rightarrow> json option" where "omit_int n = (if n = 0 then None else Some (JInt n))"
definition omit_float :: "rat \<Rightarrow> json option" where "omit_float q = (if q = 0 then None else Some (JFloat q))"
definition omit_word :: "u16 \<Rightarrow> json option" where "omit_word w = (if w = 0 then None else Some (JInt (uint w)))"
definition omit_strs :: "gostr list \<Rightarrow> json option" where "omit_strs ss = (if ss = [] then None else Some (JArr (map JStr ss)))"

lemmas put_defs = put_str_def put_bool_def put_int_def omit_str_def omit_bool_def omit_int_def omit_float_def
  omit_word_def omit_strs_def

definition present :: "(gostr \<times> json option) list \<Rightarrow> (gostr \<times> json) list" where
  "present fs = concat (map (\<lambda>(k, v). case v of None \<Rightarrow> [] | Some j \<Rightarrow> [(k, j)]) fs)"

definition marshalSource :: "RecordsSourceConfig \<Rightarrow> json" where
  "marshalSource rs = JObj (present
     [(''type'', put_str (rsc_Type rs)), (''location'', put_str (rsc_Location rs)),
      (''refresh_interval_seconds'', omit_int (rsc_RefreshIntervalSeconds rs)),
      (''include_pattern'', omit_str (rsc_IncludePattern rs)), (''named_conf'', omit_str (rsc_NamedConf rs)),
      (''watch'', omit_bool (rsc_Watch rs))])"

definition marshalFileLocations :: "FileLocations \<Rightarrow> json" where
  "marshalFileLocations fl = JObj
     [(''dnsservers'', JStr (fl_DNSServerFile fl)), (''cache'', JStr (fl_CacheFile fl)),
      (''records_source'', case fl_RecordsSource fl of None \<Rightarrow> JNull | Some rs \<Rightarrow> marshalSource rs)]"

definition marshalRecordSettings :: "DNSRecordSettings \<Rightarrow> json" where
  "marshalRecordSettings s = JObj (present
     [(''auto_build_ptr_from_a'', put_bool (drs_AutoBuildPTRFromA s)), (''forward_ptr_queries'', put_bool (drs_ForwardPTRQueries s)),
      (''add_updates_records'', omit_bool (drs_AddUpdatesRecords s))])"

definition marshalLog :: "LogConfig \<Rightarrow> json" where
  "marshalLog l = JObj
     [(''log_dir'', JStr (log_Dir l)), (''log_severity'', JStr (log_Severity l)), (''log_rotation'', JStr (log_Rotation l)),
      (''log_rotation_size_mb'', JInt (log_RotationSizeMB l)), (''log_rotation_time_days'', JInt (log_RotationDays l))]"

definition configFields :: "Config \<Rightarrow> (gostr \<times> json option) list" where
  "configFields c =
     [(''fallback_server_ip'', put_str (cf_FallbackServerIP c)), (''fallback_server_port'', put_str (cf_FallbackServerPort c)),
      (''timeout'', put_int (cf_Timeout c)), (''port'', put_str (cf_DNSPort c)), (''apiport'', put_str (cf_RESTPort c)),
      (''api'', put_bool (cf_APIEnabled c)), (''api_auth_token'', omit_str (cf_APIAuthToken c)),
      (''dns_bind'', omit_str (cf_DNSBind c)), (''api_bind'', omit_str (cf_APIBind c)),
      (''api_tls_cert'', omit_str (cf_APITLSCertFile c)), (''api_tls_key'', omit_str (cf_APITLSKeyFile c)),
      (''api_rate_limit_rps'', omit_float (cf_APIRateLimitPerIP c)), (''api_rate_limit_burst'', omit_int (cf_APIRateLimitBurst c)),
      (''dns_rate_limit_rps'', omit_float (cf_DNSRateLimitPerIP c)), (''dns_rate_limit_burst'', omit_int (cf_DNSRateLimitBurst c)),
      (''dns_amplification_max_ratio'', omit_int (cf_DNSAmplificationMaxRatio c)),
      (''fallback_server_transport'', omit_str (cf_FallbackServerTransport c)), (''dot_enabled'', omit_bool (cf_DOTEnabled c)),
      (''dot_bind'', omit_str (cf_DOTBind c)), (''dot_port'', omit_str (cf_DOTPort c)),
      (''dot_cert_file'', omit_str (cf_DOTCertFile c)), (''dot_key_file'', omit_str (cf_DOTKeyFile c)),
      (''doh_enabled'', omit_bool (cf_DOHEnabled c)), (''doh_bind'', omit_str (cf_DOHBind c)),
      (''doh_port'', omit_str (cf_DOHPort c)), (''doh_path'', omit_str (cf_DOHPath c)),
      (''doh_cert_file'', omit_str (cf_DOHCertFile c)), (''doh_key_file'', omit_str (cf_DOHKeyFile c)),
      (''dns_response_limit_mode'', omit_str (cf_DNSResponseLimitMode c)),
      (''dns_sliding_window_seconds'', omit_int (cf_DNSSlidingWindowSeconds c)),
      (''dns_max_responses_per_ip_window'', omit_int (cf_DNSMaxResponsesPerIPWindow c)),
      (''dns_rrl_max_per_bucket'', omit_int (cf_DNSRRLMaxPerBucket c)),
      (''dns_rrl_window_seconds'', omit_int (cf_DNSRRLWindowSeconds c)), (''dns_rrl_slip'', omit_float (cf_DNSRRLSlip c)),
      (''dnssec_validate'', omit_bool (cf_DNSSECValidate c)), (''dnssec_validate_strict'', omit_bool (cf_DNSSECValidateStrict c)),
      (''dnssec_trust_anchor_file'', omit_str (cf_DNSSECTrustAnchorFile c)),
      (''dnssec_sign_enabled'', omit_bool (cf_DNSSECSignEnabled c)), (''dnssec_sign_zone'', omit_str (cf_DNSSECSignZone c)),
      (''dnssec_sign_key_file'', omit_str (cf_DNSSECSignKeyFile c)),
      (''dnssec_sign_private_key_file'', omit_str (cf_DNSSECSignPrivateKeyFile c)),
      (''dns_refuse_any'', omit_bool (cf_DNSRefuseANY c)), (''dns_max_edns_udp_payload'', omit_word (cf_DNSMaxEDNSUDPPayload c)),
      (''cache_records'', put_bool (cf_CacheRecords c)), (''local_records_enabled'', omit_bool (cf_LocalRecordsEnabled c)),
      (''full_stats'', put_bool (cf_FullStats c)), (''full_stats_dir'', put_str (cf_FullStatsDir c)),
      (''server_socket'', put_str (cf_ClientSocketPath c)), (''server_tcp'', put_str (cf_ClientTCPAddress c)),
      (''file_locations'', Some (marshalFileLocations (cf_FileLocations c))),
      (''DNSRecordSettings'', Some (marshalRecordSettings (cf_DNSRecordSettings c))), (''log'', Some (marshalLog (cf_Log c))),
      (''adblock_list_files'', omit_strs (cf_AdblockListFiles c)),
      (''upstream_health_check_enabled'', omit_bool (cf_UpstreamHealthCheckEnabled c)),
      (''upstream_health_check_failures'', omit_int (cf_UpstreamHealthCheckFailures c)),
      (''upstream_health_check_interval_seconds'', omit_int (cf_UpstreamHealthCheckIntervalSeconds c)),
      (''upstream_health_check_query_name'', omit_str (cf_UpstreamHealthCheckQueryName c)),
      (''min_cache_ttl_seconds'', omit_int (cf_MinCacheTTLSeconds c)),
      (''stale_while_revalidate'', omit_bool (cf_StaleWhileRevalidate c)),
      (''cache_warm_enabled'', omit_bool (cf_CacheWarmEnabled c)),
      (''cache_warm_interval_seconds'', omit_int (cf_CacheWarmIntervalSeconds c)),
      (''cache_compact_enabled'', omit_bool (cf_CacheCompactEnabled c)),
      (''cache_compact_interval_seconds'', omit_int (cf_CacheCompactIntervalSeconds c)),
      (''stats_dashboard_enabled'', omit_bool (cf_StatsDashboardEnabled c)),
      (''dashboard_resolution_log_cap'', omit_int (cf_DashboardResolutionLogCap c)),
      (''pprof_enabled'', omit_bool (cf_PprofEnabled c)), (''pprof_listen'', omit_str (cf_PprofListen c)),
      (''pretty_json'', omit_bool (cf_PrettyJSON c)), (''cluster_enabled'', omit_bool (cf_ClusterEnabled c)),
      (''cluster_listen_addr'', omit_str (cf_ClusterListenAddr c)), (''cluster_peers'', omit_strs (cf_ClusterPeers c)),
      (''cluster_auth_token'', omit_str (cf_ClusterAuthToken c)), (''cluster_node_id'', omit_str (cf_ClusterNodeID c)),
      (''cluster_sync_interval_seconds'', omit_int (cf_ClusterSyncIntervalSeconds c)),
      (''cluster_advertise_addr'', omit_str (cf_ClusterAdvertiseAddr c)),
      (''cluster_replica_only'', omit_bool (cf_ClusterReplicaOnly c)),
      (''cluster_reject_local_writes'', omit_bool (cf_ClusterRejectLocalWrites c)),
      (''cluster_admin'', omit_bool (cf_ClusterAdmin c)), (''cluster_admin_token'', omit_str (cf_ClusterAdminToken c)),
      (''cluster_sync_policy'', omit_str (cf_ClusterSyncPolicy c)),
      (''cluster_allowed_writer_node_ids'', omit_strs (cf_ClusterAllowedWriterNodeIDs c)),
      (''cluster_discovery_srv'', omit_str (cf_ClusterDiscoverySRV c)),
      (''cluster_discovery_interval_seconds'', omit_int (cf_ClusterDiscoveryIntervalSeconds c)),
      (''axfr_enabled'', omit_bool (cf_AXFREnabled c)), (''axfr_allowed_networks'', omit_strs (cf_AXFRAllowedNetworks c))]"

definition marshalConfig :: "Config \<Rightarrow> json" where
  "marshalConfig c = JObj (present (configFields c))"

subsection \<open>Finding, loading and saving the file\<close>

text \<open>What the process sees of the system: the files, which paths are directories, and whether directories
  and files can be created; a write that breaks off leaves something else in the file.\<close>

record config_world =
  cw_os :: os_env
  cw_file :: "gostr \<Rightarrow> config_file"
  cw_isDir :: "gostr \<Rightarrow> bool"
  cw_mkdir :: "gostr \<Rightarrow> gostr option"
  cw_write :: "gostr \<Rightarrow> write_outcome"
  cw_leftover :: "gostr \<Rightarrow> config_file"
  cw_exec :: "gostr + gostr"
  cw_cwd :: "gostr + gostr"

record Loaded =
  ld_Path :: gostr
  ld_Created :: bool
  ld_Config :: Config

definition FileName :: gostr where "FileName = ''dnsplane.json''"

definition systemConfigPath :: gostr where "systemConfigPath = ''/etc/dnsplane.json''"

definition userConfigPath :: "os_env \<Rightarrow> gostr option" where
  "userConfigPath os = map_option (\<lambda>dir. JoinPath [dir, ''dnsplane'', FileName]) (os_UserConfigDir os)"

definition candidatePaths :: "config_world \<Rightarrow> gostr + gostr list" where
  "candidatePaths w = (case cw_exec w of
      Inl e \<Rightarrow> Inl (''config: determine executable path: '' @ e)
    | Inr execPath \<Rightarrow>
        let paths = appendIfMissing [] (JoinPath [Dir execPath, FileName]);
            paths' = (case userConfigPath (cw_os w) of
              Some userPath \<Rightarrow> if userPath \<noteq> [] then appendIfMissing paths userPath else paths
            | None \<Rightarrow> paths)
        in Inr (appendIfMissing paths' systemConfigPath))"

definition writeConfig :: "gostr \<Rightarrow> Config \<Rightarrow> config_world \<Rightarrow> gostr option \<times> config_world" where
  "writeConfig path c w = (case cw_write w path of
      Written \<Rightarrow> (None, w\<lparr>cw_file := (cw_file w)(path := ConfigDoc (marshalConfig c))\<rparr>)
    | NotCreated e \<Rightarrow> (Some (''config: write '' @ path @ '': '' @ e), w)
    | BrokenOff e \<Rightarrow> (Some (''config: write '' @ path @ '': '' @ e), w\<lparr>cw_file := (cw_file w)(path := cw_leftover w path)\<rparr>))"

definition ReadPath :: "gostr \<Rightarrow> config_world \<Rightarrow> read_error + Config" where
  "ReadPath path w = map_sum (\<lambda>e. e) (applyDefaults (cw_os w) (Dir path)) (readConfig path (cw_file w path))"


definition readError :: "gostr \<Rightarrow> gostr \<Rightarrow> gostr" where
  "readError path e = ''config: failed to read '' @ path @ '': '' @ e"

fun loadFirst :: "config_world \<Rightarrow> gostr list \<Rightarrow> (gostr + Loaded) option" where
  "loadFirst w [] = None"
| "loadFirst w (path # paths) = (case ReadPath path w of
      Inr c \<Rightarrow> Some (Inr \<lparr>ld_Path = path, ld_Created = False, ld_Config = c\<rparr>)
    | Inl NotExist \<Rightarrow> loadFirst w paths
    | Inl (CannotRead e) \<Rightarrow> Some (Inl (readError path e)))"

definition createDefault :: "gostr \<Rightarrow> gostr \<Rightarrow> config_world \<Rightarrow> (gostr + Loaded) \<times> config_world" where
  "createDefault path dir w =
     (case writeConfig path (defaultConfig (cw_os w) dir) w of
        (Some e, w') \<Rightarrow> (Inl e, w')
      | (None, w') \<Rightarrow>
          (Inr \<lparr>ld_Path = path, ld_Created = True, ld_Config = applyDefaults (cw_os w) dir (defaultConfig (cw_os w) dir)\<rparr>, w'))"

definition Load :: "config_world \<Rightarrow> (gostr + Loaded) \<times> config_world" where
  "Load w = (case candidatePaths w of
      Inl e \<Rightarrow> (Inl e, w)
    | Inr candidates \<Rightarrow>
        (case loadFirst w candidates of
           Some res \<Rightarrow> (res, w)
         | None \<Rightarrow>
             (case cw_cwd w of
                Inl e \<Rightarrow> (Inl (''config: determine working directory: '' @ e), w)
              | Inr defaultDir \<Rightarrow> createDefault (JoinPath [defaultDir, FileName]) defaultDir w)))"

text \<open>\<^verbatim>\<open>filepath.Base\<close> of a clean path, and the choice between a file and a directory that the command line shares.\<close>

definition Base :: "gostr \<Rightarrow> gostr" where
  "Base p = (if p = ''/'' then p else rev (takeWhile (\<lambda>c. c \<noteq> CHR ''/'') (rev p)))"

definition in_directory :: "(gostr \<Rightarrow> bool) \<Rightarrow> gostr \<Rightarrow> gostr \<Rightarrow> gostr" where
  "in_directory isDir path name =
     (if HasSuffix path ''/'' \<or> isDir path \<or> CHR ''.'' \<notin> set (Base path)
      then JoinPath [TrimSuffix path ''/'', name] else path)"

definition resolveConfigPath :: "(gostr \<Rightarrow> bool) \<Rightarrow> gostr \<Rightarrow> gostr + gostr" where
  "resolveConfigPath isDir p =
     (let path = Clean (TrimSpace p) in
      if path = [] \<or> path = ''.'' then Inl ''config: path is empty'' else Inr (in_directory isDir path FileName))"

definition LoadFromPath :: "gostr \<Rightarrow> config_world \<Rightarrow> (gostr + Loaded) \<times> config_world" where
  "LoadFromPath p w =
     (if TrimSpace p = [] then (Inl ''config: path is empty'', w)
      else case resolveConfigPath (cw_isDir w) (TrimSpace p) of
        Inl e \<Rightarrow> (Inl e, w)
      | Inr configPath \<Rightarrow>
          (case ReadPath configPath w of
             Inr c \<Rightarrow> (Inr \<lparr>ld_Path = configPath, ld_Created = False, ld_Config = c\<rparr>, w)
           | Inl (CannotRead e) \<Rightarrow> (Inl (readError configPath e), w)
           | Inl NotExist \<Rightarrow>
               (case cw_mkdir w (Dir configPath) of
                  Some e \<Rightarrow> (Inl (''config: ensure config directory '' @ Dir configPath @ '': '' @ e), w)
                | None \<Rightarrow> createDefault configPath (Dir configPath) w)))"

subsection \<open>Documents\<close>

lemma map_of_rev_distinct: "distinct (map fst xs) \<Longrightarrow> map_of (rev xs) = map_of xs"
proof (rule ext)
  fix k
  assume d: "distinct (map fst xs)"
  show "map_of (rev xs) k = map_of xs k"
  proof (cases "map_of xs k")
    case None
    then have "map_of (rev xs) k = None" by (simp add: map_of_eq_None_iff)
    with None show ?thesis by simp
  next
    case (Some v)
    then show ?thesis using d by (simp add: map_of_eq_Some_iff rev_map [symmetric])
  qed
qed

lemma fst_present: "set (map fst (present fs)) \<subseteq> set (map fst fs)"
  by (force simp: present_def split: option.splits)

lemma present_Cons: "present ((k, v) # fs) = (case v of None \<Rightarrow> present fs | Some j \<Rightarrow> (k, j) # present fs)"
  by (simp add: present_def split: option.split)

lemma distinct_present: "distinct (map fst fs) \<Longrightarrow> distinct (map fst (present fs))"
proof (induction fs)
  case (Cons f fs)
  obtain k v where f: "f = (k, v)" by (cases f)
  have "k \<notin> set (map fst (present fs))" using Cons.prems f fst_present [of fs] by auto
  then show ?case using Cons f by (simp add: present_Cons split: option.split)
qed (simp add: present_def)

lemma map_of_present: "distinct (map fst fs) \<Longrightarrow> map_of (present fs) k = Option.bind (map_of fs k) (\<lambda>v. v)"
proof (induction fs)
  case (Cons f fs)
  obtain k' v where f: "f = (k', v)" by (cases f)
  have "k' \<notin> fst ` set fs" using Cons.prems f by auto
  then have n: "map_of fs k' = None" by (simp add: map_of_eq_None_iff)
  show ?case using Cons f n by (cases v) (auto simp: present_Cons)
qed (simp add: present_def)

lemma raw_present: "distinct (map fst fs) \<Longrightarrow> raw_map (present fs) k = Option.bind (map_of fs k) (\<lambda>v. v)"
  by (simp add: raw_map_def map_of_rev_distinct distinct_present map_of_present)


lemma field_keys: "map fst (configFields c) = map fst (configFields empty_Config)"
  by (simp add: configFields_def)

lemma field_keys_distinct: "distinct (map fst (configFields c))"
proof -
  have "distinct (map fst (configFields empty_Config))" by code_simp
  then show ?thesis by (simp only: field_keys [of c])
qed

text \<open>What is left of a configuration after it was saved and read: the settings that \<^verbatim>\<open>UnmarshalJSON\<close> mentions;
  all others have their zero values.\<close>

definition storable :: "Config \<Rightarrow> Config" where
  "storable c = empty_Config\<lparr>
     cf_FallbackServerIP := cf_FallbackServerIP c, cf_FallbackServerPort := cf_FallbackServerPort c, cf_Timeout := cf_Timeout c,
     cf_APIAuthToken := cf_APIAuthToken c, cf_CacheRecords := cf_CacheRecords c, cf_FullStats := cf_FullStats c,
     cf_FullStatsDir := cf_FullStatsDir c, cf_FileLocations := cf_FileLocations c, cf_DNSRecordSettings := cf_DNSRecordSettings c,
     cf_Log := cf_Log c, cf_DNSPort := cf_DNSPort c, cf_RESTPort := cf_RESTPort c, cf_APIEnabled := cf_APIEnabled c,
     cf_ClientSocketPath := cf_ClientSocketPath c, cf_ClientTCPAddress := cf_ClientTCPAddress c,
     cf_AdblockListFiles := cf_AdblockListFiles c, cf_UpstreamHealthCheckEnabled := cf_UpstreamHealthCheckEnabled c,
     cf_UpstreamHealthCheckFailures := cf_UpstreamHealthCheckFailures c,
     cf_UpstreamHealthCheckIntervalSeconds := cf_UpstreamHealthCheckIntervalSeconds c,
     cf_UpstreamHealthCheckQueryName := cf_UpstreamHealthCheckQueryName c, cf_MinCacheTTLSeconds := cf_MinCacheTTLSeconds c,
     cf_StaleWhileRevalidate := cf_StaleWhileRevalidate c, cf_DashboardResolutionLogCap := cf_DashboardResolutionLogCap c,
     cf_PprofEnabled := cf_PprofEnabled c, cf_PprofListen := cf_PprofListen c, cf_PrettyJSON := cf_PrettyJSON c,
     cf_LocalRecordsEnabled := True, cf_CacheWarmEnabled := True,
     cf_CacheWarmIntervalSeconds := (if cf_CacheWarmIntervalSeconds c = 0 then 10 else cf_CacheWarmIntervalSeconds c),
     cf_CacheCompactEnabled := True,
     cf_CacheCompactIntervalSeconds := (if cf_CacheCompactIntervalSeconds c = 0 then 1800 else cf_CacheCompactIntervalSeconds c),
     cf_StatsDashboardEnabled := True, cf_ClusterEnabled := cf_ClusterEnabled c, cf_ClusterListenAddr := cf_ClusterListenAddr c,
     cf_ClusterPeers := cf_ClusterPeers c, cf_ClusterAuthToken := cf_ClusterAuthToken c, cf_ClusterNodeID := cf_ClusterNodeID c,
     cf_ClusterSyncIntervalSeconds := cf_ClusterSyncIntervalSeconds c, cf_ClusterAdvertiseAddr := cf_ClusterAdvertiseAddr c,
     cf_ClusterReplicaOnly := cf_ClusterReplicaOnly c, cf_ClusterRejectLocalWrites := cf_ClusterRejectLocalWrites c,
     cf_ClusterAdmin := cf_ClusterAdmin c, cf_ClusterAdminToken := cf_ClusterAdminToken c,
     cf_ClusterSyncPolicy := cf_ClusterSyncPolicy c, cf_ClusterAllowedWriterNodeIDs := cf_ClusterAllowedWriterNodeIDs c,
     cf_ClusterDiscoverySRV := cf_ClusterDiscoverySRV c, cf_AXFREnabled := cf_AXFREnabled c,
     cf_AXFRAllowedNetworks := cf_AXFRAllowedNetworks c,
     cf_ClusterDiscoveryIntervalSeconds := (if cf_ClusterDiscoveryIntervalSeconds c = 0 \<and> TrimSpace (cf_ClusterDiscoverySRV c) \<noteq> [] then 60
        else cf_ClusterDiscoveryIntervalSeconds c)\<rparr>"

definition config_ints :: "Config \<Rightarrow> int list" where
  "config_ints c =
     [cf_Timeout c, cf_UpstreamHealthCheckFailures c, cf_UpstreamHealthCheckIntervalSeconds c, cf_MinCacheTTLSeconds c,
     cf_CacheWarmIntervalSeconds c, cf_CacheCompactIntervalSeconds c, cf_DashboardResolutionLogCap c,
     cf_ClusterSyncIntervalSeconds c, cf_ClusterDiscoveryIntervalSeconds c,
     log_RotationSizeMB (cf_Log c), log_RotationDays (cf_Log c)] @
     (case fl_RecordsSource (cf_FileLocations c) of None \<Rightarrow> [] | Some rs \<Rightarrow> [rsc_RefreshIntervalSeconds rs])"

lemma decodeLog_marshal:
  assumes "int64_ok (log_RotationSizeMB l)" "int64_ok (log_RotationDays l)"
  shows "decodeLog (marshalLog l) l' = l"
  using assms by (simp add: decodeLog_def marshalLog_def logField_def EqualFold_def ToLower_def lower_char_def json_str_def json_int_def)

lemma decodeRecordSettings_marshal: "decodeRecordSettings (marshalRecordSettings s) empty_DNSRecordSettings = s"
  by (simp add: decodeRecordSettings_def marshalRecordSettings_def present_def put_defs settingsField_def EqualFold_def ToLower_def
      lower_char_def json_bool_def empty_DNSRecordSettings_def)

lemma legacy_ok_marshal: "legacy_ok (marshalRecordSettings s)"
  by (simp add: legacy_ok_def marshalRecordSettings_def present_def put_defs)

lemma decodeSource_marshal:
  assumes "int64_ok (rsc_RefreshIntervalSeconds rs)"
  shows "decodeSource (marshalSource rs) None = Some rs"
  using assms
  by (simp add: decodeSource_def marshalSource_def present_def put_defs sourceField_def EqualFold_def ToLower_def
      lower_char_def json_str_def json_int_def json_bool_def empty_source_def Let_def)

lemma decodeFileLocations_marshal:
  assumes "\<And>rs. fl_RecordsSource fl = Some rs \<Longrightarrow> int64_ok (rsc_RefreshIntervalSeconds rs)"
  shows "decodeFileLocations (marshalFileLocations fl) empty_FileLocations = fl"
proof -
  have "unmarshal decodeSource (Some (case fl_RecordsSource fl of None \<Rightarrow> JNull | Some rs \<Rightarrow> marshalSource rs)) None = fl_RecordsSource fl"
    using assms by (cases "fl_RecordsSource fl") (simp_all add: unmarshal_def decodeSource_marshal, simp add: decodeSource_def)
  then show ?thesis
    by (simp add: decodeFileLocations_def marshalFileLocations_def unmarshalFileLocations_def raw_map_def empty_FileLocations_def Let_def)
qed

lemma unmarshal_put [simp]:
  "unmarshal json_str (put_str s) v = s" "unmarshal json_bool (put_bool b) v' = b" "unmarshal json_str (omit_str s) [] = s"
  "unmarshal json_bool (omit_bool b) False = b" "unmarshal json_strs (omit_strs ss) [] = ss"
  "int64_ok n \<Longrightarrow> unmarshal json_int (put_int n) m = n" "int64_ok n \<Longrightarrow> unmarshal json_int (omit_int n) 0 = n"
  by (simp_all add: unmarshal_def put_defs json_str_def json_bool_def json_int_def json_strs_def comp_def)

lemma getStr_put: "raw k = put_str s \<Longrightarrow> getStr raw (k # ks) = s"
  by (simp add: put_str_def)

lemma getBool_put: "raw k = put_bool b \<Longrightarrow> getBool raw (k # ks) = Some b"
  by (simp add: put_bool_def)

lemma default_on [simp]: "(if \<not> b then True else b) = True"
  by simp

lemma omitted [simp]: "omit_bool b = None \<longleftrightarrow> \<not> b" "omit_int n = None \<longleftrightarrow> n = 0"
  by (simp_all add: put_defs)

lemma all_fields: "list_all (\<lambda>(k, v). raw_map (present (configFields c)) k = v) (configFields c)"
proof -
  have "raw_map (present (configFields c)) k = v" if "(k, v) \<in> set (configFields c)" for k v
    using that field_keys_distinct [of c] by (simp add: raw_present)
  then show ?thesis by (auto simp: list_all_iff)
qed

lemma discoveryDefault_field:
  "discoveryDefault raw c = c\<lparr>cf_ClusterDiscoveryIntervalSeconds :=
     (if raw ''cluster_discovery_interval_seconds'' = None \<and> TrimSpace (cf_ClusterDiscoverySRV c) \<noteq> [] then 60
      else cf_ClusterDiscoveryIntervalSeconds c)\<rparr>"
  by (simp add: discoveryDefault_def)

lemma empty_Config_fields:
  "cf_FallbackServerIP empty_Config = []" "cf_FallbackServerPort empty_Config = []" "cf_Timeout empty_Config = 0"
  "cf_DNSPort empty_Config = []" "cf_RESTPort empty_Config = []" "cf_APIEnabled empty_Config = False"
  "cf_APIAuthToken empty_Config = []" "cf_CacheRecords empty_Config = False" "cf_LocalRecordsEnabled empty_Config = False"
  "cf_FullStats empty_Config = False" "cf_FullStatsDir empty_Config = []" "cf_ClientSocketPath empty_Config = []"
  "cf_ClientTCPAddress empty_Config = []" "cf_FileLocations empty_Config = empty_FileLocations"
  "cf_DNSRecordSettings empty_Config = empty_DNSRecordSettings" "cf_Log empty_Config = empty_LogConfig"
  "cf_AdblockListFiles empty_Config = []" "cf_UpstreamHealthCheckEnabled empty_Config = False"
  "cf_UpstreamHealthCheckFailures empty_Config = 0" "cf_UpstreamHealthCheckIntervalSeconds empty_Config = 0"
  "cf_UpstreamHealthCheckQueryName empty_Config = []" "cf_MinCacheTTLSeconds empty_Config = 0"
  "cf_StaleWhileRevalidate empty_Config = False" "cf_CacheWarmEnabled empty_Config = False"
  "cf_CacheWarmIntervalSeconds empty_Config = 0" "cf_CacheCompactEnabled empty_Config = False"
  "cf_CacheCompactIntervalSeconds empty_Config = 0" "cf_StatsDashboardEnabled empty_Config = False"
  "cf_DashboardResolutionLogCap empty_Config = 0" "cf_PprofEnabled empty_Config = False" "cf_PprofListen empty_Config = []"
  "cf_PrettyJSON empty_Config = False" "cf_ClusterEnabled empty_Config = False" "cf_ClusterListenAddr empty_Config = []"
  "cf_ClusterPeers empty_Config = []" "cf_ClusterAuthToken empty_Config = []" "cf_ClusterNodeID empty_Config = []"
  "cf_ClusterSyncIntervalSeconds empty_Config = 0" "cf_ClusterAdvertiseAddr empty_Config = []"
  "cf_ClusterReplicaOnly empty_Config = False" "cf_ClusterRejectLocalWrites empty_Config = False"
  "cf_ClusterAdmin empty_Config = False" "cf_ClusterAdminToken empty_Config = []" "cf_ClusterSyncPolicy empty_Config = []"
  "cf_ClusterAllowedWriterNodeIDs empty_Config = []" "cf_ClusterDiscoverySRV empty_Config = []"
  "cf_ClusterDiscoveryIntervalSeconds empty_Config = 0" "cf_AXFREnabled empty_Config = False"
  "cf_AXFRAllowedNetworks empty_Config = []"
  by (simp_all add: empty_Config_def)

lemma unmarshalConfig_fields:
  assumes keys: "list_all (\<lambda>(k, v). raw k = v) (configFields c)" and ok: "list_all int64_ok (config_ints c)"
  shows "unmarshalConfig raw empty_Config = storable c"
proof -
  have logs: "unmarshal decodeLog (Some (marshalLog (cf_Log c))) l = cf_Log c" for l
    using ok by (simp add: unmarshal_def config_ints_def decodeLog_marshal)
  have files: "unmarshal decodeFileLocations (Some (marshalFileLocations (cf_FileLocations c))) empty_FileLocations = cf_FileLocations c"
    using ok by (simp add: unmarshal_def, intro decodeFileLocations_marshal) (simp add: config_ints_def)
  have settings: "unmarshal decodeRecordSettings (Some (marshalRecordSettings (cf_DNSRecordSettings c))) empty_DNSRecordSettings =
      cf_DNSRecordSettings c"
    by (simp add: unmarshal_def decodeRecordSettings_marshal)
  have ints: "int64_ok (cf_Timeout c)" "int64_ok (cf_UpstreamHealthCheckFailures c)" "int64_ok (cf_UpstreamHealthCheckIntervalSeconds c)"
    "int64_ok (cf_MinCacheTTLSeconds c)" "int64_ok (cf_CacheWarmIntervalSeconds c)" "int64_ok (cf_CacheCompactIntervalSeconds c)"
    "int64_ok (cf_DashboardResolutionLogCap c)" "int64_ok (cf_ClusterSyncIntervalSeconds c)"
    "int64_ok (cf_ClusterDiscoveryIntervalSeconds c)"
    using ok by (simp_all add: config_ints_def)
  note k = keys [unfolded configFields_def list.pred_inject prod.case]
  show ?thesis
    by (simp add: unmarshalConfig_def readServerKeys_def readDataKeys_def absentKeys_def readClusterKeys_def discoveryDefault_field
        k empty_Config_fields logs files settings storable_def ints getStr_put getBool_put
        del: getStr.simps getBool.simps split del: if_split cong: if_cong)
qed

lemma filter_present: "filter (\<lambda>kv. P (fst kv)) (present fs) = present (filter (\<lambda>kv. P (fst kv)) fs)"
  by (induction fs) (auto simp: present_def split: option.split)

lemma filter_key:
  assumes "distinct (map fst fs)" "(k, v) \<in> set fs"
  shows "filter (\<lambda>kv. fst kv = k) fs = [(k, v)]"
  using assms
proof (induction fs)
  case (Cons f fs)
  show ?case
  proof (cases "fst f = k")
    case True
    then have "k \<notin> fst ` set fs" using Cons.prems(1) by auto
    then have "(k, v) \<notin> set fs" by (metis fst_conv image_eqI)
    then have "f = (k, v)" using Cons.prems(2) by simp
    moreover have "filter (\<lambda>kv. fst kv = k) fs = []" using \<open>k \<notin> fst ` set fs\<close> by (auto simp: filter_empty_conv)
    ultimately show ?thesis by simp
  qed (use Cons in auto)
qed simp

lemma legacy_of_document: "extractLegacyRecordSettings (present (configFields c)) = Some (cf_DNSRecordSettings c)"
proof -
  let ?P = "\<lambda>k. EqualFold k ''DNSRecordSettings''" and ?v = "marshalRecordSettings (cf_DNSRecordSettings c)"
  have "list_all (\<lambda>k. ?P k \<longleftrightarrow> k = ''DNSRecordSettings'') (map fst (configFields empty_Config))"
    by code_simp
  then have "filter (\<lambda>kv. ?P (fst kv)) (configFields c) = filter (\<lambda>kv. fst kv = ''DNSRecordSettings'') (configFields c)"
    by (intro filter_cong) (auto simp: list_all_iff field_keys [of c, symmetric])
  also have "\<dots> = [(''DNSRecordSettings'', Some ?v)]"
    by (rule filter_key [OF field_keys_distinct]) (simp add: configFields_def)
  finally have f: "filter (\<lambda>kv. ?P (fst kv)) (present (configFields c)) = [(''DNSRecordSettings'', ?v)]"
    unfolding filter_present [of ?P "configFields c"] by (simp add: present_def)
  have "legacyValue (marshalRecordSettings s) None = Some s" for s
    using decodeRecordSettings_marshal [of s] by (simp add: legacyValue_def marshalRecordSettings_def)
  then show ?thesis by (simp add: extractLegacyRecordSettings_def f legacy_ok_marshal)
qed

lemma readConfig_marshal:
  assumes "list_all int64_ok (config_ints c)"
  shows "readConfig path (ConfigDoc (marshalConfig c)) = Inr (storable c)"
proof -
  have "(storable c)\<lparr>cf_DNSRecordSettings := cf_DNSRecordSettings c\<rparr> = storable c" by (simp add: storable_def)
  then show ?thesis
    by (simp add: readConfig_def marshalConfig_def unmarshalConfig_fields [OF all_fields assms] legacy_of_document Let_def)
qed

subsection \<open>What the file keeps\<close>


lemma readServerKeys_unread:
  "cf_DNSRateLimitPerIP (readServerKeys raw c) = cf_DNSRateLimitPerIP c"
  "cf_DNSMaxResponsesPerIPWindow (readServerKeys raw c) = cf_DNSMaxResponsesPerIPWindow c"
  "cf_DNSRRLMaxPerBucket (readServerKeys raw c) = cf_DNSRRLMaxPerBucket c"
  "cf_DNSAmplificationMaxRatio (readServerKeys raw c) = cf_DNSAmplificationMaxRatio c"
  "cf_APIRateLimitPerIP (readServerKeys raw c) = cf_APIRateLimitPerIP c"
  "cf_DNSRefuseANY (readServerKeys raw c) = cf_DNSRefuseANY c"
  "cf_DNSSECValidate (readServerKeys raw c) = cf_DNSSECValidate c"
  "cf_DNSSECValidateStrict (readServerKeys raw c) = cf_DNSSECValidateStrict c"
  "cf_DNSSECSignEnabled (readServerKeys raw c) = cf_DNSSECSignEnabled c"
  "cf_DOTEnabled (readServerKeys raw c) = cf_DOTEnabled c" "cf_DOHEnabled (readServerKeys raw c) = cf_DOHEnabled c"
  "cf_DNSBind (readServerKeys raw c) = cf_DNSBind c" "cf_APIBind (readServerKeys raw c) = cf_APIBind c"
  "cf_APITLSCertFile (readServerKeys raw c) = cf_APITLSCertFile c"
  "cf_APITLSKeyFile (readServerKeys raw c) = cf_APITLSKeyFile c"
  by (simp_all add: readServerKeys_def split del: if_split)

lemma readDataKeys_unread:
  "cf_DNSRateLimitPerIP (readDataKeys raw c) = cf_DNSRateLimitPerIP c"
  "cf_DNSMaxResponsesPerIPWindow (readDataKeys raw c) = cf_DNSMaxResponsesPerIPWindow c"
  "cf_DNSRRLMaxPerBucket (readDataKeys raw c) = cf_DNSRRLMaxPerBucket c"
  "cf_DNSAmplificationMaxRatio (readDataKeys raw c) = cf_DNSAmplificationMaxRatio c"
  "cf_APIRateLimitPerIP (readDataKeys raw c) = cf_APIRateLimitPerIP c"
  "cf_DNSRefuseANY (readDataKeys raw c) = cf_DNSRefuseANY c" "cf_DNSSECValidate (readDataKeys raw c) = cf_DNSSECValidate c"
  "cf_DNSSECValidateStrict (readDataKeys raw c) = cf_DNSSECValidateStrict c"
  "cf_DNSSECSignEnabled (readDataKeys raw c) = cf_DNSSECSignEnabled c" "cf_DOTEnabled (readDataKeys raw c) = cf_DOTEnabled c"
  "cf_DOHEnabled (readDataKeys raw c) = cf_DOHEnabled c" "cf_DNSBind (readDataKeys raw c) = cf_DNSBind c"
  "cf_APIBind (readDataKeys raw c) = cf_APIBind c" "cf_APITLSCertFile (readDataKeys raw c) = cf_APITLSCertFile c"
  "cf_APITLSKeyFile (readDataKeys raw c) = cf_APITLSKeyFile c"
  by (simp_all add: readDataKeys_def split del: if_split)

lemma absentKeys_unread:
  "cf_DNSRateLimitPerIP (absentKeys raw c) = cf_DNSRateLimitPerIP c"
  "cf_DNSMaxResponsesPerIPWindow (absentKeys raw c) = cf_DNSMaxResponsesPerIPWindow c"
  "cf_DNSRRLMaxPerBucket (absentKeys raw c) = cf_DNSRRLMaxPerBucket c"
  "cf_DNSAmplificationMaxRatio (absentKeys raw c) = cf_DNSAmplificationMaxRatio c"
  "cf_APIRateLimitPerIP (absentKeys raw c) = cf_APIRateLimitPerIP c" "cf_DNSRefuseANY (absentKeys raw c) = cf_DNSRefuseANY c"
  "cf_DNSSECValidate (absentKeys raw c) = cf_DNSSECValidate c"
  "cf_DNSSECValidateStrict (absentKeys raw c) = cf_DNSSECValidateStrict c"
  "cf_DNSSECSignEnabled (absentKeys raw c) = cf_DNSSECSignEnabled c" "cf_DOTEnabled (absentKeys raw c) = cf_DOTEnabled c"
  "cf_DOHEnabled (absentKeys raw c) = cf_DOHEnabled c" "cf_DNSBind (absentKeys raw c) = cf_DNSBind c"
  "cf_APIBind (absentKeys raw c) = cf_APIBind c" "cf_APITLSCertFile (absentKeys raw c) = cf_APITLSCertFile c"
  "cf_APITLSKeyFile (absentKeys raw c) = cf_APITLSKeyFile c"
  by (simp_all add: absentKeys_def split del: if_split)

lemma readClusterKeys_unread:
  "cf_DNSRateLimitPerIP (readClusterKeys raw c) = cf_DNSRateLimitPerIP c"
  "cf_DNSMaxResponsesPerIPWindow (readClusterKeys raw c) = cf_DNSMaxResponsesPerIPWindow c"
  "cf_DNSRRLMaxPerBucket (readClusterKeys raw c) = cf_DNSRRLMaxPerBucket c"
  "cf_DNSAmplificationMaxRatio (readClusterKeys raw c) = cf_DNSAmplificationMaxRatio c"
  "cf_APIRateLimitPerIP (readClusterKeys raw c) = cf_APIRateLimitPerIP c"
  "cf_DNSRefuseANY (readClusterKeys raw c) = cf_DNSRefuseANY c"
  "cf_DNSSECValidate (readClusterKeys raw c) = cf_DNSSECValidate c"
  "cf_DNSSECValidateStrict (readClusterKeys raw c) = cf_DNSSECValidateStrict c"
  "cf_DNSSECSignEnabled (readClusterKeys raw c) = cf_DNSSECSignEnabled c"
  "cf_DOTEnabled (readClusterKeys raw c) = cf_DOTEnabled c" "cf_DOHEnabled (readClusterKeys raw c) = cf_DOHEnabled c"
  "cf_DNSBind (readClusterKeys raw c) = cf_DNSBind c" "cf_APIBind (readClusterKeys raw c) = cf_APIBind c"
  "cf_APITLSCertFile (readClusterKeys raw c) = cf_APITLSCertFile c"
  "cf_APITLSKeyFile (readClusterKeys raw c) = cf_APITLSKeyFile c"
  by (simp_all add: readClusterKeys_def split del: if_split)

lemma discoveryDefault_unread:
  "cf_DNSRateLimitPerIP (discoveryDefault raw c) = cf_DNSRateLimitPerIP c"
  "cf_DNSMaxResponsesPerIPWindow (discoveryDefault raw c) = cf_DNSMaxResponsesPerIPWindow c"
  "cf_DNSRRLMaxPerBucket (discoveryDefault raw c) = cf_DNSRRLMaxPerBucket c"
  "cf_DNSAmplificationMaxRatio (discoveryDefault raw c) = cf_DNSAmplificationMaxRatio c"
  "cf_APIRateLimitPerIP (discoveryDefault raw c) = cf_APIRateLimitPerIP c"
  "cf_DNSRefuseANY (discoveryDefault raw c) = cf_DNSRefuseANY c"
  "cf_DNSSECValidate (discoveryDefault raw c) = cf_DNSSECValidate c"
  "cf_DNSSECValidateStrict (discoveryDefault raw c) = cf_DNSSECValidateStrict c"
  "cf_DNSSECSignEnabled (discoveryDefault raw c) = cf_DNSSECSignEnabled c"
  "cf_DOTEnabled (discoveryDefault raw c) = cf_DOTEnabled c" "cf_DOHEnabled (discoveryDefault raw c) = cf_DOHEnabled c"
  "cf_DNSBind (discoveryDefault raw c) = cf_DNSBind c" "cf_APIBind (discoveryDefault raw c) = cf_APIBind c"
  "cf_APITLSCertFile (discoveryDefault raw c) = cf_APITLSCertFile c"
  "cf_APITLSKeyFile (discoveryDefault raw c) = cf_APITLSKeyFile c"
  by (simp_all add: discoveryDefault_field split del: if_split)

lemma applyDefaults_unread:
  "cf_DNSRateLimitPerIP (applyDefaults os dir c) = cf_DNSRateLimitPerIP c"
  "cf_DNSMaxResponsesPerIPWindow (applyDefaults os dir c) = cf_DNSMaxResponsesPerIPWindow c"
  "cf_DNSRRLMaxPerBucket (applyDefaults os dir c) = cf_DNSRRLMaxPerBucket c"
  "cf_APIRateLimitPerIP (applyDefaults os dir c) = cf_APIRateLimitPerIP c"
  "cf_DNSRefuseANY (applyDefaults os dir c) = cf_DNSRefuseANY c"
  "cf_DNSSECValidate (applyDefaults os dir c) = cf_DNSSECValidate c"
  "cf_DNSSECValidateStrict (applyDefaults os dir c) = cf_DNSSECValidateStrict c"
  "cf_DNSSECSignEnabled (applyDefaults os dir c) = cf_DNSSECSignEnabled c"
  "cf_DOTEnabled (applyDefaults os dir c) = cf_DOTEnabled c" "cf_DOHEnabled (applyDefaults os dir c) = cf_DOHEnabled c"
  "cf_DNSBind (applyDefaults os dir c) = cf_DNSBind c" "cf_APIBind (applyDefaults os dir c) = cf_APIBind c"
  "cf_APITLSCertFile (applyDefaults os dir c) = cf_APITLSCertFile c"
  "cf_APITLSKeyFile (applyDefaults os dir c) = cf_APITLSKeyFile c"
  by (simp_all add: applyDefaults_def applyScalarDefaults_def Let_def split del: if_split)

lemma applyDefaults_ratio: "cf_DNSAmplificationMaxRatio (applyDefaults os dir c) = notNeg (cf_DNSAmplificationMaxRatio c)"
  by (simp add: applyDefaults_def applyScalarDefaults_def Let_def)

lemmas unread = readServerKeys_unread readDataKeys_unread absentKeys_unread readClusterKeys_unread discoveryDefault_unread
  applyDefaults_unread applyDefaults_ratio

text \<open>No configuration file turns these protections on: whatever document a file holds, the configuration
  read from it has no query limit, no response limit, no limit on amplification, no limit of the REST API, no
  refusal of ANY, no DNSSEC validation or signing, no DoT, no DoH, and no address or certificate to listen with.\<close>

lemma unread_settings:
  assumes "ReadPath path w = Inr c"
  shows "cf_DNSRateLimitPerIP c = 0 \<and> cf_DNSMaxResponsesPerIPWindow c = 0 \<and> cf_DNSRRLMaxPerBucket c = 0 \<and>
    cf_DNSAmplificationMaxRatio c = 0 \<and> cf_APIRateLimitPerIP c = 0 \<and> \<not> cf_DNSRefuseANY c \<and> \<not> cf_DNSSECValidate c \<and>
    \<not> cf_DNSSECValidateStrict c \<and> \<not> cf_DNSSECSignEnabled c \<and> \<not> cf_DOTEnabled c \<and> \<not> cf_DOHEnabled c \<and>
    cf_DNSBind c = [] \<and> cf_APIBind c = [] \<and> cf_APITLSCertFile c = [] \<and> cf_APITLSKeyFile c = []"
proof -
  obtain c0 where c0: "readConfig path (cw_file w path) = Inr c0" and c: "c = applyDefaults (cw_os w) (Dir path) c0"
    using assms by (cases "readConfig path (cw_file w path)") (auto simp: ReadPath_def)
  obtain raw s where "c0 = unmarshalConfig raw empty_Config \<or> c0 = (unmarshalConfig raw empty_Config)\<lparr>cf_DNSRecordSettings := s\<rparr>"
    using c0 by (auto simp: readConfig_def Let_def split: config_file.splits json.splits option.splits)
  then show ?thesis
    by (elim disjE) (simp_all add: c unread unmarshalConfig_def empty_Config_def notNeg_def)
qed

subsection \<open>The file that is created\<close>

lemma storable_default: "storable (defaultConfig os dir) = defaultConfig os dir"
  by (rule Config.equality) (simp_all add: storable_def defaultConfig_def empty_Config_def)

lemma default_ints: "list_all int64_ok (config_ints (defaultConfig os dir))"
  by (simp add: config_ints_def defaultConfig_def empty_Config_def int64_ok_def file_source_def)

lemma createDefault_reads:
  assumes "createDefault path dir w = (Inr l, w')" "Dir path = dir"
  shows "ReadPath path w' = Inr (ld_Config l) \<and> ld_Path l = path \<and> cw_isDir w' = cw_isDir w"
proof -
  have "w' = w\<lparr>cw_file := (cw_file w)(path := ConfigDoc (marshalConfig (defaultConfig (cw_os w) dir)))\<rparr>"
    "l = \<lparr>ld_Path = path, ld_Created = True, ld_Config = applyDefaults (cw_os w) dir (defaultConfig (cw_os w) dir)\<rparr>"
    using assms(1) by (auto simp: createDefault_def writeConfig_def split: write_outcome.splits)
  then show ?thesis using assms(2) by (simp add: ReadPath_def readConfig_marshal [OF default_ints] storable_default)
qed

text \<open>When \<^verbatim>\<open>LoadFromPath\<close> had to create the file, loading again from the same path finds that file and gives
  the same configuration.\<close>

theorem created_config_reloads:
  assumes "LoadFromPath p w = (Inr l, w')" "ld_Created l"
  shows "LoadFromPath p w' = (Inr (l\<lparr>ld_Created := False\<rparr>), w')"
proof -
  obtain configPath where path: "TrimSpace p \<noteq> []" "resolveConfigPath (cw_isDir w) (TrimSpace p) = Inr configPath"
    using assms(1) by (auto simp: LoadFromPath_def split: if_splits sum.splits)
  have "createDefault configPath (Dir configPath) w = (Inr l, w')"
    using assms path by (auto simp: LoadFromPath_def split: sum.splits read_error.splits option.splits)
  from createDefault_reads [OF this] path show ?thesis
    by (cases l) (auto simp: LoadFromPath_def)
qed

text \<open>Without a path on the command line the working directory is the place where a default file is created, but
  it is not a place where a file is looked for: a file that was created there and edited is replaced by the
  default at the next start.\<close>

lemma load_replaces_edited_file:
  assumes "candidatePaths w = Inr ps" "list_all (\<lambda>p. cw_file w p = NoFile) ps" "cw_cwd w = Inr dir"
    and "cw_write w (JoinPath [dir, FileName]) = Written"
  shows "cw_file (snd (Load w)) (JoinPath [dir, FileName]) = ConfigDoc (marshalConfig (defaultConfig (cw_os w) dir))"
proof -
  have "loadFirst w ps = None" using assms(2) by (induction ps) (simp_all add: ReadPath_def readConfig_def)
  then show ?thesis using assms by (simp add: Load_def createDefault_def writeConfig_def)
qed

lemma load_first_candidate:
  assumes "candidatePaths w = Inr (ps @ path # qs)" "list_all (\<lambda>p. cw_file w p = NoFile) ps" "ReadPath path w = Inr c"
  shows "Load w = (Inr \<lparr>ld_Path = path, ld_Created = False, ld_Config = c\<rparr>, w)"
proof -
  have "loadFirst w (ps @ path # qs) = Some (Inr \<lparr>ld_Path = path, ld_Created = False, ld_Config = c\<rparr>)"
    using assms(2,3) by (induction ps) (simp_all add: ReadPath_def readConfig_def)
  then show ?thesis using assms(1) by (simp add: Load_def)
qed

lemma root_is_not_a_directory: "resolveConfigPath (\<lambda>d. True) ''/'' = Inr ''dnsplane.json''"
  by code_simp

definition sample_config_world :: config_world where
  "sample_config_world = \<lparr>cw_os = \<lparr>os_Root = True, os_TempDir = ''/tmp'', os_XDGRuntimeDir = [], os_UserConfigDir = None\<rparr>,
     cw_file = (\<lambda>p. NoFile), cw_isDir = (\<lambda>d. False), cw_mkdir = (\<lambda>d. None), cw_write = (\<lambda>p. Written), cw_leftover = (\<lambda>p. BlankFile),
     cw_exec = Inr ''/usr/bin/dnsplane'', cw_cwd = Inr ''/srv''\<rparr>"




theorem created_config_reloads_witness:
  "\<exists>l w'. LoadFromPath ''/etc/dnsplane.json'' sample_config_world = (Inr l, w') \<and> ld_Created l \<and>
     LoadFromPath ''/etc/dnsplane.json'' w' = (Inr (l\<lparr>ld_Created := False\<rparr>), w')"
proof -
  have "TrimSpace ''/etc/dnsplane.json'' = ''/etc/dnsplane.json''"
    "resolveConfigPath (\<lambda>d. False) ''/etc/dnsplane.json'' = Inr ''/etc/dnsplane.json''" by code_simp+
  then obtain l w' where r: "LoadFromPath ''/etc/dnsplane.json'' sample_config_world = (Inr l, w')" "ld_Created l"
    by (simp add: LoadFromPath_def sample_config_world_def ReadPath_def readConfig_def createDefault_def writeConfig_def)
  show ?thesis using r created_config_reloads [OF r] by blast
qed

end
