(* ===== verification/Startup.thy ===== *)
theory Startup
  imports ConfigFile DnsServe Lifecycle
begin

text \<open>
  The command \<^verbatim>\<open>server\<close> of \<^verbatim>\<open>main.go\<close> up to the moment at which the DNS server serves, and the REST listener
  (\<^verbatim>\<open>main_api.go\<close>, \<^verbatim>\<open>Start\<close> and \<^verbatim>\<open>Stop\<close> of \<^verbatim>\<open>api/server.go\<close>): the configuration file and the flags give the
  settings, the settings give the data files, the listeners, the limiters and the signer.  A flag is \<open>None\<close>
  when it was not given.  A step that ends the process is an error.
\<close>

record flags =
  fg_config :: gostr
  fg_port :: "gostr option"
  fg_apiport :: "gostr option"
  fg_api :: "bool option"
  fg_dnsservers :: gostr
  fg_dnsrecords :: gostr
  fg_cache :: gostr
  fg_serverSocket :: "gostr option"
  fg_serverTCP :: "gostr option"

subsection \<open>Paths and addresses\<close>

definition resolveDataPath :: "(gostr \<Rightarrow> bool) \<Rightarrow> gostr \<Rightarrow> gostr \<Rightarrow> gostr \<Rightarrow> gostr" where
  "resolveDataPath isDir v defaultFileName cwd =
     (let val = TrimSpace v in
      if val = [] then JoinPath [cwd, defaultFileName] else in_directory isDir (Clean val) defaultFileName)"

definition normalizeTCPAddress :: "gostr \<Rightarrow> gostr" where
  "normalizeTCPAddress a =
     (let addr = TrimSpace a in
      if addr = [] then []
      else if HasPrefix addr '':'' then ''0.0.0.0'' @ addr
      else if CHR '':'' \<notin> set addr then ''0.0.0.0:'' @ addr
      else addr)"

definition apiEndpoint :: "gostr \<Rightarrow> gostr \<Rightarrow> gostr" where
  "apiEndpoint bind0 port =
     (let b = TrimSpace bind0 in
      normalizeTCPAddress (if b \<noteq> [] then JoinHostPort b port else '':'' @ port))"

subsection \<open>Settings\<close>

definition flag :: "'a option \<Rightarrow> 'a \<Rightarrow> 'a" where
  "flag f v = (case f of None \<Rightarrow> v | Some x \<Rightarrow> x)"

definition withDataFiles :: "(gostr \<Rightarrow> bool) \<Rightarrow> gostr \<Rightarrow> flags \<Rightarrow> Config \<Rightarrow> Config" where
  "withDataFiles isDir cwd fs c =
     (let fl = cf_FileLocations c in
      c\<lparr>cf_FileLocations := fl
          \<lparr>fl_DNSServerFile := resolveDataPath isDir (fg_dnsservers fs) ''dnsservers.json'' cwd,
           fl_RecordsSource := (if fg_dnsrecords fs \<noteq> []
             then Some (file_source (resolveDataPath isDir (fg_dnsrecords fs) ''dnsrecords.json'' cwd)) else fl_RecordsSource fl),
           fl_CacheFile := resolveDataPath isDir (fg_cache fs) ''dnscache.json'' cwd\<rparr>\<rparr>)"

definition withListeners :: "flags \<Rightarrow> Config \<Rightarrow> Config" where
  "withListeners fs c = c\<lparr>
     cf_DNSPort := TrimSpace (flag (fg_port fs) (cf_DNSPort c)),
     cf_ClientSocketPath := TrimSpace (flag (fg_serverSocket fs) (cf_ClientSocketPath c)),
     cf_ClientTCPAddress := normalizeTCPAddress (TrimSpace (flag (fg_serverTCP fs) (cf_ClientTCPAddress c))),
     cf_APIEnabled := flag (fg_api fs) (cf_APIEnabled c),
     cf_RESTPort := TrimSpace (flag (fg_apiport fs) (cf_RESTPort c))\<rparr>"

definition listenerOf :: "Config \<Rightarrow> ListenerSettings" where
  "listenerOf c = \<lparr>ls_ClientSocketPath = cf_ClientSocketPath c, ls_ClientTCPAddress = cf_ClientTCPAddress c,
     ls_DNSPort = cf_DNSPort c, ls_APIPort = cf_RESTPort c,
     ls_APIEndpoint = (if cf_RESTPort c \<noteq> [] then apiEndpoint (cf_APIBind c) (cf_RESTPort c) else []),
     ls_APIEnabled = cf_APIEnabled c\<rparr>"

definition newQueryLimiter :: "Config \<Rightarrow> PerIP option" where
  "newQueryLimiter c =
     (if cf_DNSRateLimitPerIP c > 0
      then Some (NewPerIP (cf_DNSRateLimitPerIP c) (if cf_DNSRateLimitBurst c \<le> 0 then 50 else cf_DNSRateLimitBurst c))
      else None)"

definition newSigner :: "'a dnssec_lib_scheme \<Rightarrow> (gostr \<Rightarrow> gostr option) \<Rightarrow> Config \<Rightarrow> Signer option" where
  "newSigner L readFile c =
     (if cf_DNSSECSignEnabled c \<and> TrimSpace (cf_DNSSECSignZone c) \<noteq> [] \<and> TrimSpace (cf_DNSSECSignKeyFile c) \<noteq> [] \<and>
         TrimSpace (cf_DNSSECSignPrivateKeyFile c) \<noteq> []
      then (case LoadSigner L (cf_DNSSECSignZone c) (readFile (cf_DNSSECSignKeyFile c)) (readFile (cf_DNSSECSignPrivateKeyFile c)) of
              Inl e \<Rightarrow> None | Inr s \<Rightarrow> Some s)
      else None)"

subsection \<open>The REST listener\<close>

text \<open>\<^verbatim>\<open>api.Start\<close>: the address that the new HTTP server listens on, if one is started, and the new state.\<close>

definition api_Start :: "gostr \<Rightarrow> gostr \<Rightarrow> daemon_state \<Rightarrow> daemon_state \<times> gostr option" where
  "api_Start port bindIP s =
     (let trimmed = TrimSpace port; bind = TrimSpace bindIP in
      if trimmed = [] \<or> ds_apiRunning s then (s, None)
      else (SetAPIRunning True s, Some (if bind \<noteq> [] then JoinHostPort bind trimmed else '':'' @ trimmed)))"

definition startAPIAsync :: "Config \<Rightarrow> gostr \<Rightarrow> daemon_state \<Rightarrow> daemon_state \<times> gostr option" where
  "startAPIAsync st port0 s =
     (let port = (if port0 = [] then cf_RESTPort st else port0);
          trimmed = TrimSpace port;
          s' = UpdateListener (\<lambda>l. l\<lparr>ls_APIPort := trimmed, ls_APIEndpoint := apiEndpoint (cf_APIBind st) trimmed,
                                     ls_APIEnabled := True\<rparr>) s
      in if ds_apiRunning s' then (s', None) else api_Start trimmed (cf_APIBind st) s')"

text \<open>\<^verbatim>\<open>api.Stop\<close>, with whether a server is running.\<close>

definition stopAPIAsync :: "bool \<Rightarrow> daemon_state \<Rightarrow> daemon_state" where
  "stopAPIAsync haveServer s = (if haveServer then SetAPIRunning False s else s)"

record ServerListenerInfo =
  sli_DNSListeners :: "gostr list"
  sli_ClientSocket :: gostr
  sli_ClientSocketEnabled :: bool
  sli_ClientTCPEndpoint :: gostr
  sli_ClientTCPEnabled :: bool
  sli_ClientTCPRunning :: bool
  sli_APIEndpoint :: gostr
  sli_APIEnabled :: bool
  sli_APIRunning :: bool

definition currentServerListeners :: "Config \<Rightarrow> bool \<Rightarrow> daemon_state \<Rightarrow> ServerListenerInfo" where
  "currentServerListeners st tcpRunning s =
     (let l = ds_listener s;
          dnsPort = (if TrimSpace (ls_DNSPort l) = [] then TrimSpace (cf_DNSPort st) else TrimSpace (ls_DNSPort l));
          socket = TrimSpace (ls_ClientSocketPath l); tcp = TrimSpace (ls_ClientTCPAddress l);
          endpoint = TrimSpace (ls_APIEndpoint l)
      in \<lparr>sli_DNSListeners = [normalizeTCPAddress (dnsListenAddr st dnsPort)],
          sli_ClientSocket = socket, sli_ClientSocketEnabled = (socket \<noteq> []),
          sli_ClientTCPEndpoint = tcp, sli_ClientTCPEnabled = (tcp \<noteq> []), sli_ClientTCPRunning = tcpRunning,
          sli_APIEndpoint = (if endpoint = [] \<and> cf_RESTPort st \<noteq> [] then apiEndpoint (cf_APIBind st) (TrimSpace (cf_RESTPort st))
                             else endpoint),
          sli_APIEnabled = ls_APIEnabled l, sli_APIRunning = ds_apiRunning s\<rparr>)"

subsection \<open>\<^verbatim>\<open>runServer\<close>\<close>

text \<open>The process that is about to serve: the files, the daemon state, what \<^verbatim>\<open>ServeDNS\<close> depends on, the signer, the
  background tasks of the data, the address of the REST server, and the address for the terminal listener.\<close>

record started_server =
  su_world :: world
  su_state :: daemon_state
  su_server :: server
  su_signer :: "Signer option"
  su_tasks :: "task list"
  su_api :: "gostr option"
  su_socket :: gostr
  su_tcp :: gostr

definition no_drops :: drop_counters where
  "no_drops = \<lparr>dc_QueryRate = 0, dc_Sliding = 0, dc_RRL = 0\<rparr>"

definition loadConfig :: "flags \<Rightarrow> config_world \<Rightarrow> (gostr + Loaded) \<times> config_world" where
  "loadConfig fs cw = (if fg_config fs \<noteq> [] then LoadFromPath (fg_config fs) cw else Load cw)"

definition setUp ::
    "dnslib \<Rightarrow> 'a dnssec_lib_scheme \<Rightarrow> (gostr \<Rightarrow> gostr option) \<Rightarrow> gotime \<Rightarrow> flags \<Rightarrow> Config \<Rightarrow> world \<Rightarrow> gostr + started_server" where
  "setUp L S readFile now fs c0 w =
     (case InitializeJSONFiles (w\<lparr>wd_config := c0\<rparr>) of
        Inl e \<Rightarrow> Inl e
      | Inr w' \<Rightarrow>
          (case Initialize L w' now empty_data of
             (Some e, d, tasks) \<Rightarrow> Inl e
           | (None, d, tasks) \<Rightarrow>
               let c = withListeners fs (rd_Settings d);
                   s = UpdateListener (\<lambda>l. listenerOf c) NewState;
                   (s', api) = (if cf_APIEnabled c then startAPIAsync c (cf_RESTPort c) (SetDaemonMode True s)
                                else (SetDaemonMode True (SetAPIRunning False s), None))
               in Inr \<lparr>su_world = w', su_state = s',
                    su_server = \<lparr>sv_data = UpdateSettingsInMemory c d, sv_limiter = buildResponseLimiter c,
                      sv_queries = newQueryLimiter c, sv_drops = no_drops\<rparr>,
                    su_signer = newSigner S readFile c, su_tasks = tasks, su_api = api,
                    su_socket = cf_ClientSocketPath c, su_tcp = TrimSpace (flag (fg_serverTCP fs) (cf_ClientTCPAddress (rd_Settings d)))\<rparr>))"

definition runServer ::
    "dnslib \<Rightarrow> 'a dnssec_lib_scheme \<Rightarrow> (gostr \<Rightarrow> gostr option) \<Rightarrow> gotime \<Rightarrow> flags \<Rightarrow> config_world \<Rightarrow> world \<Rightarrow> gostr + started_server" where
  "runServer L S readFile now fs cw w =
     (case cw_cwd cw of
        Inl e \<Rightarrow> Inl e
      | Inr cwd \<Rightarrow>
          (case fst (loadConfig fs cw) of
             Inl e \<Rightarrow> Inl e
           | Inr loaded \<Rightarrow> setUp L S readFile now fs (withDataFiles (cw_isDir cw) cwd fs (ld_Config loaded)) w))"

subsection \<open>What the settings become\<close>

lemma CreateFileIfNotExists_config: "CreateFileIfNotExists f doc w = Inr w' \<Longrightarrow> wd_config w' = wd_config w"
  by (auto simp: CreateFileIfNotExists_def writeJSONFile_def split: file_state.splits write_outcome.splits)

lemma InitializeJSONFiles_config: "InitializeJSONFiles w = Inr w' \<Longrightarrow> wd_config w' = wd_config w"
  by (auto simp: InitializeJSONFiles_def dest!: CreateFileIfNotExists_config split: sum.splits option.splits if_splits)

lemma Initialize_None: "Initialize L w now d0 = (None, d, tasks) \<Longrightarrow> rd_Settings d = wd_config w \<and> indexed d"
  by (auto simp: Initialize_def indexed_def Let_def split: sum.splits prod.splits)

lemma setUp_started:
  assumes "setUp L S readFile now fs c0 w = Inr st"
  shows "rd_Settings (sv_data (su_server st)) = withListeners fs c0 \<and> indexed (sv_data (su_server st)) \<and>
    sv_limiter (su_server st) = buildResponseLimiter (withListeners fs c0) \<and>
    sv_queries (su_server st) = newQueryLimiter (withListeners fs c0) \<and>
    su_signer st = newSigner S readFile (withListeners fs c0) \<and> su_tcp st = TrimSpace (flag (fg_serverTCP fs) (cf_ClientTCPAddress c0))"
proof -
  obtain w' d tasks where i: "InitializeJSONFiles (w\<lparr>wd_config := c0\<rparr>) = Inr w'" "Initialize L w' now empty_data = (None, d, tasks)"
    using assms by (auto simp: setUp_def split: sum.splits prod.splits option.splits)
  have "rd_Settings d = c0" "indexed d"
    using InitializeJSONFiles_config [OF i(1)] Initialize_None [OF i(2)] by simp_all
  then show ?thesis using assms i by (auto simp: setUp_def UpdateSettingsInMemory_def indexed_def Let_def split: prod.splits)
qed

lemma runServer_started:
  assumes "runServer L S readFile now fs cw w = Inr st"
  obtains cwd l where "cw_cwd cw = Inr cwd" "fst (loadConfig fs cw) = Inr l"
    "setUp L S readFile now fs (withDataFiles (cw_isDir cw) cwd fs (ld_Config l)) w = Inr st"
  using assms by (auto simp: runServer_def split: sum.splits)

text \<open>The settings of a started server: a flag wins over the file, strings are trimmed, the terminal address is
  completed; but the files of the servers and of the cache come from the flags or from the working directory,
  whatever the configuration file says of them.\<close>

theorem start_up_settings:
  assumes "runServer L S readFile now fs cw w = Inr st"
  shows "\<exists>cwd l. cw_cwd cw = Inr cwd \<and> fst (loadConfig fs cw) = Inr l \<and>
    (let c = ld_Config l; c' = rd_Settings (sv_data (su_server st)) in
       cf_DNSPort c' = TrimSpace (case fg_port fs of None \<Rightarrow> cf_DNSPort c | Some p \<Rightarrow> p) \<and>
       cf_RESTPort c' = TrimSpace (case fg_apiport fs of None \<Rightarrow> cf_RESTPort c | Some p \<Rightarrow> p) \<and>
       cf_APIEnabled c' = (case fg_api fs of None \<Rightarrow> cf_APIEnabled c | Some b \<Rightarrow> b) \<and>
       fl_DNSServerFile (cf_FileLocations c') =
         (if TrimSpace (fg_dnsservers fs) = [] then JoinPath [cwd, ''dnsservers.json'']
          else in_directory (cw_isDir cw) (Clean (TrimSpace (fg_dnsservers fs))) ''dnsservers.json'') \<and>
       fl_CacheFile (cf_FileLocations c') =
         (if TrimSpace (fg_cache fs) = [] then JoinPath [cwd, ''dnscache.json'']
          else in_directory (cw_isDir cw) (Clean (TrimSpace (fg_cache fs))) ''dnscache.json'') \<and>
       (fg_dnsrecords fs = [] \<longrightarrow> fl_RecordsSource (cf_FileLocations c') = fl_RecordsSource (cf_FileLocations c)))"
proof -
  obtain cwd l where r: "cw_cwd cw = Inr cwd" "fst (loadConfig fs cw) = Inr l"
    "setUp L S readFile now fs (withDataFiles (cw_isDir cw) cwd fs (ld_Config l)) w = Inr st"
    by (rule runServer_started [OF assms])
  show ?thesis
    using r(1,2) setUp_started [OF r(3)]
    by (simp add: withListeners_def withDataFiles_def resolveDataPath_def flag_def Let_def)
qed

subsection \<open>Protections\<close>

text \<open>The settings of \<open>file_never_protects\<close>, for a configuration that was found or created.\<close>

definition unprotected :: "Config \<Rightarrow> bool" where
  "unprotected c \<longleftrightarrow> cf_DNSRateLimitPerIP c = 0 \<and> cf_DNSMaxResponsesPerIPWindow c = 0 \<and> cf_DNSRRLMaxPerBucket c = 0 \<and>
     cf_DNSAmplificationMaxRatio c = 0 \<and> \<not> cf_DNSRefuseANY c \<and> \<not> cf_DNSSECValidate c \<and> \<not> cf_DNSSECSignEnabled c \<and>
     \<not> cf_DOTEnabled c \<and> \<not> cf_DOHEnabled c"

lemma ReadPath_unprotected: "ReadPath path w = Inr c \<Longrightarrow> unprotected c"
  using unread_settings [of path w c] by (simp add: unprotected_def)

lemma createDefault_unprotected: "fst (createDefault path dir w) = Inr l \<Longrightarrow> unprotected (ld_Config l)"
  by (auto simp: createDefault_def unprotected_def unread defaultConfig_def empty_Config_def notNeg_def
      split: prod.splits option.splits)

lemma loadFirst_unprotected: "loadFirst w ps = Some (Inr l) \<Longrightarrow> unprotected (ld_Config l)"
  by (induction ps) (auto dest: ReadPath_unprotected split: sum.splits read_error.splits)

lemma loadConfig_unprotected: "fst (loadConfig fs cw) = Inr l \<Longrightarrow> unprotected (ld_Config l)"
  by (auto simp: loadConfig_def Load_def LoadFromPath_def
      dest: ReadPath_unprotected loadFirst_unprotected createDefault_unprotected
      split: sum.splits read_error.splits option.splits if_splits)

text \<open>C31.  However the configuration file and the flags are, the server starts without a limit on queries or
  responses, without DNSSEC validation or signing and without the encrypted listeners: every request that is not
  an update is admitted, whoever sends it and how often.\<close>

theorem started_without_protection:
  assumes "runServer L S readFile now fs cw w = Inr st"
  shows "sv_queries (su_server st) = None \<and> sv_limiter (su_server st) = NoLimiter \<and> su_signer st = None \<and>
    \<not> cf_DNSSECValidate (rd_Settings (sv_data (su_server st))) \<and>
    startInboundDNSListeners (rd_Settings (sv_data (su_server st))) = (False, False) \<and>
    (\<forall>env req meta. admitted env req meta (su_server st) \<longleftrightarrow> m_Opcode req \<noteq> OpcodeUpdate)"
proof -
  obtain cwd l where r: "cw_cwd cw = Inr cwd" "fst (loadConfig fs cw) = Inr l"
    "setUp L S readFile now fs (withDataFiles (cw_isDir cw) cwd fs (ld_Config l)) w = Inr st"
    by (rule runServer_started [OF assms])
  have "unprotected (withListeners fs (withDataFiles (cw_isDir cw) cwd fs (ld_Config l)))"
    using loadConfig_unprotected [OF r(2)] by (simp add: unprotected_def withListeners_def withDataFiles_def Let_def)
  then show ?thesis
    using setUp_started [OF r(3)]
    by (simp add: unprotected_def newQueryLimiter_def buildResponseLimiter_def newSigner_def startInboundDNSListeners_def
        admitted_def reaches_limiter_def Query_Allow_def Limiter_Allow_def Let_def)
qed

text \<open>The terminal listener is given the address as it was typed; only the settings get the completed one.\<close>

lemma terminal_address_not_completed:
  assumes "runServer L S readFile now fs cw w = Inr st" "fg_serverTCP fs = Some ''8053''"
  shows "su_tcp st = ''8053'' \<and> cf_ClientTCPAddress (rd_Settings (sv_data (su_server st))) = ''0.0.0.0:8053''"
proof -
  obtain cwd l where r: "cw_cwd cw = Inr cwd" "fst (loadConfig fs cw) = Inr l"
    "setUp L S readFile now fs (withDataFiles (cw_isDir cw) cwd fs (ld_Config l)) w = Inr st"
    by (rule runServer_started [OF assms(1)])
  have "TrimSpace ''8053'' = ''8053''" "normalizeTCPAddress ''8053'' = ''0.0.0.0:8053''" by code_simp+
  then show ?thesis using setUp_started [OF r(3)] assms(2) by (simp add: withListeners_def withDataFiles_def flag_def Let_def)
qed

subsection \<open>A concrete start\<close>

text \<open>The configuration file asks for validation and a limit; no data file exists yet.\<close>

definition hopeful_doc :: "(gostr \<times> json) list" where
  "hopeful_doc = [(''port'', JStr ''5353''), (''dnssec_validate'', JBool True), (''dns_rate_limit_rps'', JInt 10)]"

definition hopeful_world :: config_world where
  "hopeful_world = sample_config_world\<lparr>cw_file := (\<lambda>p. ConfigDoc (JObj hopeful_doc))\<rparr>"

definition sample_flags :: flags where
  "sample_flags = \<lparr>fg_config = ''/etc/dnsplane.json'', fg_port = None, fg_apiport = Some '' 81 '', fg_api = Some True, fg_dnsservers = [],
     fg_dnsrecords = ''/srv/r.json'', fg_cache = [], fg_serverSocket = None, fg_serverTCP = None\<rparr>"

lemma read_port: "cf_DNSPort (unmarshalConfig raw c) = getStr raw [''port'', ''dns_port'']"
proof -
  have "cf_DNSPort (readServerKeys raw c) = getStr raw [''port'', ''dns_port'']" for c
    by (simp add: readServerKeys_def del: getStr.simps)
  moreover have "cf_DNSPort (readDataKeys raw c) = cf_DNSPort c" "cf_DNSPort (absentKeys raw c) = cf_DNSPort c"
    "cf_DNSPort (readClusterKeys raw c) = cf_DNSPort c" "cf_DNSPort (discoveryDefault raw c) = cf_DNSPort c" for c
    by (simp_all add: readDataKeys_def absentKeys_def readClusterKeys_def discoveryDefault_field split del: if_split)
  ultimately show ?thesis by (simp add: unmarshalConfig_def del: getStr.simps)
qed

lemma default_port: "cf_DNSPort (applyDefaults os dir c) = ifEmpty (cf_DNSPort c) ''53''"
  by (simp add: applyDefaults_def applyScalarDefaults_def Let_def split del: if_split)

lemma hopeful_load:
  obtains l where "fst (loadConfig sample_flags hopeful_world) = Inr l" "cf_DNSPort (ld_Config l) = ''5353''"
proof -
  have "TrimSpace ''/etc/dnsplane.json'' = ''/etc/dnsplane.json''"
    "resolveConfigPath (\<lambda>d. False) ''/etc/dnsplane.json'' = Inr ''/etc/dnsplane.json''" by code_simp+
  then have r: "fst (loadConfig sample_flags hopeful_world) = Inr \<lparr>ld_Path = ''/etc/dnsplane.json'', ld_Created = False, ld_Config = c\<rparr>"
    if "ReadPath ''/etc/dnsplane.json'' hopeful_world = Inr c" for c
    using that by (simp add: loadConfig_def sample_flags_def LoadFromPath_def hopeful_world_def sample_config_world_def)
  have "filter (\<lambda>kv. EqualFold (fst kv) ''DNSRecordSettings'') hopeful_doc = []"
    "getStr (raw_map hopeful_doc) [''port'', ''dns_port''] = ''5353''" by code_simp+
  then have "ReadPath ''/etc/dnsplane.json'' hopeful_world =
      Inr (applyDefaults (cw_os hopeful_world) (Dir ''/etc/dnsplane.json'') (unmarshalConfig (raw_map hopeful_doc) empty_Config))"
    "cf_DNSPort (applyDefaults os dir (unmarshalConfig (raw_map hopeful_doc) empty_Config)) = ''5353''" for os dir
    by (simp_all add: ReadPath_def hopeful_world_def readConfig_def extractLegacyRecordSettings_def default_port read_port ifEmpty_def Let_def)
  with r that show thesis by simp
qed

lemma sample_start:
  obtains st where "runServer sample_lib sample_crypto (\<lambda>f. None) 7 sample_flags hopeful_world first_world = Inr st"
proof -
  obtain l where l: "fst (loadConfig sample_flags hopeful_world) = Inr l" by (rule hopeful_load)
  let ?c = "withDataFiles (\<lambda>d. False) ''/srv'' sample_flags (ld_Config l)"
  have p: "resolveDataPath (\<lambda>d. False) [] ''dnsservers.json'' ''/srv'' = ''/srv/dnsservers.json''"
    "resolveDataPath (\<lambda>d. False) [] ''dnscache.json'' ''/srv'' = ''/srv/dnscache.json''"
    "resolveDataPath (\<lambda>d. False) ''/srv/r.json'' ''dnsrecords.json'' ''/srv'' = ''/srv/r.json''" "TrimSpace ''/srv/r.json'' = ''/srv/r.json''"
    by code_simp+
  have fl: "cf_FileLocations ?c = \<lparr>fl_DNSServerFile = ''/srv/dnsservers.json'', fl_CacheFile = ''/srv/dnscache.json'',
      fl_RecordsSource = Some (file_source ''/srv/r.json'')\<rparr>"
    by (simp add: withDataFiles_def sample_flags_def p Let_def)
  let ?w = "first_world\<lparr>wd_config := ?c\<rparr>"
  have "\<exists>w' d tasks. InitializeJSONFiles ?w = Inr w' \<and> Initialize sample_lib w' 7 empty_data = (None, d, tasks) \<and>
      CachePersistWorker \<in> set tasks \<and> indexed d \<and> map srv_Active (rd_DNSServers d) = [False] \<and>
      map dr_Name (rd_DNSRecords d) = [''example.com'']"
    using file_source_writable [of ?c "''/srv/r.json''"]
    by (intro first_start [of ?w "file_source ''/srv/r.json''"]) (simp_all add: fl file_source_def p first_world_def)
  then obtain w' d tasks where "InitializeJSONFiles ?w = Inr w'" "Initialize sample_lib w' 7 empty_data = (None, d, tasks)" by blast
  then have "\<exists>st. setUp sample_lib sample_crypto (\<lambda>f. None) 7 sample_flags ?c first_world = Inr st"
    by (auto simp: setUp_def Let_def split: prod.splits)
  then show thesis
    using l that by (auto simp: runServer_def hopeful_world_def sample_config_world_def)
qed

theorem start_up_settings_witness:
  "\<exists>st. runServer sample_lib sample_crypto (\<lambda>f. None) 7 sample_flags hopeful_world first_world = Inr st \<and>
     cf_DNSPort (rd_Settings (sv_data (su_server st))) = ''5353'' \<and> cf_RESTPort (rd_Settings (sv_data (su_server st))) = ''81'' \<and>
     fl_CacheFile (cf_FileLocations (rd_Settings (sv_data (su_server st)))) = ''/srv/dnscache.json''"
proof -
  obtain st where st: "runServer sample_lib sample_crypto (\<lambda>f. None) 7 sample_flags hopeful_world first_world = Inr st" by (rule sample_start)
  obtain l where l: "fst (loadConfig sample_flags hopeful_world) = Inr l" "cf_DNSPort (ld_Config l) = ''5353''" by (rule hopeful_load)
  have "cw_cwd hopeful_world = Inr ''/srv''" "TrimSpace ''5353'' = ''5353''" "TrimSpace '' 81 '' = ''81''" "TrimSpace [] = []"
    "JoinPath [''/srv'', ''dnscache.json''] = ''/srv/dnscache.json''"
    by (simp add: hopeful_world_def sample_config_world_def) code_simp+
  with start_up_settings [OF st] l st show ?thesis by (auto simp: sample_flags_def Let_def)
qed

theorem started_without_protection_witness:
  "\<exists>st. runServer sample_lib sample_crypto (\<lambda>f. None) 7 sample_flags hopeful_world first_world = Inr st \<and>
     sv_queries (su_server st) = None \<and> \<not> cf_DNSSECValidate (rd_Settings (sv_data (su_server st)))"
proof -
  obtain st where st: "runServer sample_lib sample_crypto (\<lambda>f. None) 7 sample_flags hopeful_world first_world = Inr st" by (rule sample_start)
  with started_without_protection [OF st] show ?thesis by blast
qed

end
