(* ===== verification/Dashboard.thy ===== *)
theory Dashboard
  imports Metrics StatsBrowse Api Startup
begin

text \<open>
  What the dashboard is fed with: the cards of \<^verbatim>\<open>api/dashboard_status_features.go\<close>, the top lists of \<^verbatim>\<open>api/dashboard.go\<close>,
  the payload of \<^verbatim>\<open>api/dashboard_page.go\<close>, the handlers of \<^verbatim>\<open>api/dashboard_resolutions.go\<close> and \<^verbatim>\<open>api/perf.go\<close>, the metrics
  of \<^verbatim>\<open>api/server.go\<close> and the web socket of \<^verbatim>\<open>api/dashboard_ws.go\<close>.  The pages themselves, constant HTML, are left out.
\<close>

subsection \<open>Cards of protocols and features\<close>

record dashboardStatusFeature =
  sf_Key :: gostr
  sf_Label :: gostr
  sf_Value :: gostr
  sf_Variant :: gostr

definition card_of :: "gostr \<Rightarrow> gostr \<Rightarrow> gostr \<Rightarrow> gostr \<Rightarrow> dashboardStatusFeature" where
  "card_of k l v var = \<lparr>sf_Key = k, sf_Label = l, sf_Value = v, sf_Variant = var\<rparr>"

text \<open>A middle dot between spaces, in UTF-8.\<close>

definition middot :: gostr where
  "middot = '' '' @ [CHR 0xC2, CHR 0xB7] @ '' ''"

definition boolFeature :: "gostr \<Rightarrow> gostr \<Rightarrow> bool \<Rightarrow> dashboardStatusFeature" where
  "boolFeature key lbl on = (if on then card_of key lbl ''On'' ''ok'' else card_of key lbl ''Off'' ''neutral'')"

definition dotListenString :: "Config \<Rightarrow> gostr" where
  "dotListenString c =
     (let port = TrimSpace (cf_DOTPort c); port = (if port = [] then ''853'' else port); bnd = TrimSpace (cf_DOTBind c)
      in if bnd = [] then '':'' @ port else JoinHostPort bnd port)"

definition dohListenString :: "Config \<Rightarrow> gostr" where
  "dohListenString c =
     (let port = TrimSpace (cf_DOHPort c); port = (if port = [] then ''8443'' else port); bnd = TrimSpace (cf_DOHBind c);
          addr = '':'' @ port; addr = (if bnd \<noteq> [] then JoinHostPort bnd port else addr);
          path = TrimSpace (cf_DOHPath c); path = (if path = [] then ''/dns-query'' else path);
          path = (if \<not> HasPrefix path ''/'' then ''/'' @ path else path)
      in addr @ path)"

definition dotFeature :: "Config \<Rightarrow> bool \<Rightarrow> dashboardStatusFeature list" where
  "dotFeature cfg dnsUp =
     (if \<not> cf_DOTEnabled cfg then [card_of ''dot'' ''DoT'' ''Off'' ''neutral'']
      else if \<not> (TrimSpace (cf_DOTCertFile cfg) \<noteq> [] \<and> TrimSpace (cf_DOTKeyFile cfg) \<noteq> [])
      then [card_of ''dot'' ''DoT'' (''On'' @ middot @ ''missing TLS cert/key'') ''bad'']
      else if dnsUp then [card_of ''dot'' ''DoT'' (dotListenString cfg) ''ok'']
      else [card_of ''dot'' ''DoT'' (dotListenString cfg @ '' (DNS listener down)'') ''warn''])"

definition dohFeature :: "Config \<Rightarrow> bool \<Rightarrow> dashboardStatusFeature list" where
  "dohFeature cfg dnsUp =
     (if \<not> cf_DOHEnabled cfg then [card_of ''doh'' ''DoH'' ''Off'' ''neutral'']
      else if \<not> (TrimSpace (cf_DOHCertFile cfg) \<noteq> [] \<and> TrimSpace (cf_DOHKeyFile cfg) \<noteq> [])
      then [card_of ''doh'' ''DoH'' (''On'' @ middot @ ''missing TLS cert/key'') ''bad'']
      else if dnsUp then [card_of ''doh'' ''DoH'' (dohListenString cfg) ''ok'']
      else [card_of ''doh'' ''DoH'' (dohListenString cfg @ '' (DNS listener down)'') ''warn''])"

definition dnssecValidateFeature :: "Config \<Rightarrow> dashboardStatusFeature" where
  "dnssecValidateFeature cfg =
     (if \<not> cf_DNSSECValidate cfg then card_of ''dnssec_val'' ''DNSSEC validate'' ''Off'' ''neutral''
      else card_of ''dnssec_val'' ''DNSSEC validate''
        (''On'' @ (if cf_DNSSECValidateStrict cfg then middot @ ''strict'' else []) @
         (if TrimSpace (cf_DNSSECTrustAnchorFile cfg) \<noteq> [] then middot @ ''anchors file'' else [])) ''ok'')"

definition dnssecSignFeature :: "Config \<Rightarrow> dashboardStatusFeature" where
  "dnssecSignFeature cfg =
     (if \<not> cf_DNSSECSignEnabled cfg then card_of ''dnssec_sign'' ''DNSSEC sign (local)'' ''Off'' ''neutral''
      else let z = TrimSpace (cf_DNSSECSignZone cfg) in
           if z = [] then card_of ''dnssec_sign'' ''DNSSEC sign (local)'' (''On'' @ middot @ ''no zone set'') ''warn''
           else card_of ''dnssec_sign'' ''DNSSEC sign (local)'' z ''ok'')"

definition apiTLSFeature :: "Config \<Rightarrow> dashboardStatusFeature" where
  "apiTLSFeature cfg =
     (if \<not> (TrimSpace (cf_APITLSCertFile cfg) \<noteq> [] \<and> TrimSpace (cf_APITLSKeyFile cfg) \<noteq> [])
      then card_of ''api_tls'' ''API HTTPS'' ''Off (HTTP)'' ''neutral'' else card_of ''api_tls'' ''API HTTPS'' ''On'' ''ok'')"

definition apiAuthFeature :: "Config \<Rightarrow> dashboardStatusFeature" where
  "apiAuthFeature cfg =
     (if TrimSpace (cf_APIAuthToken cfg) = [] then card_of ''api_auth'' ''API auth'' ''Open'' ''neutral''
      else card_of ''api_auth'' ''API auth'' ''Bearer / X-API-Token'' ''ok'')"

definition pprofFeature :: "Config \<Rightarrow> dashboardStatusFeature" where
  "pprofFeature cfg =
     (if \<not> cf_PprofEnabled cfg then card_of ''pprof'' ''pprof HTTP'' ''Off'' ''neutral''
      else let addr = TrimSpace (cf_PprofListen cfg); addr = (if addr = [] then ''127.0.0.1:6060'' else addr)
           in card_of ''pprof'' ''pprof HTTP'' addr ''ok'')"

definition adblockFeature :: "resolver_data \<Rightarrow> dashboardStatusFeature" where
  "adblockFeature d =
     (let n = (case rd_BlockList d of None \<Rightarrow> 0 | Some bl \<Rightarrow> length bl) in
      if n \<le> 0 then card_of ''adblock'' ''Adblock'' ''Off'' ''neutral'' else card_of ''adblock'' ''Adblock'' (dec n @ '' domains'') ''ok'')"

text \<open>The verb \<^verbatim>\<open>%.0f\<close> rounds to an integer, ties to even; \<open>g\<close> is \<^verbatim>\<open>%v\<close> of a \<^verbatim>\<open>float64\<close>.\<close>

definition dnsRateLimitFeature :: "Config \<Rightarrow> dashboardStatusFeature" where
  "dnsRateLimitFeature cfg =
     (if cf_DNSRateLimitPerIP cfg \<le> 0 then card_of ''dns_rl'' ''DNS rate limit'' ''Off'' ''neutral''
      else let burst = cf_DNSRateLimitBurst cfg; burst = (if burst \<le> 0 then 50 else burst)
           in card_of ''dns_rl'' ''DNS rate limit'' (dec_int (round_half_even (cf_DNSRateLimitPerIP cfg)) @ ''/s'' @ middot @ ''burst '' @ dec_int burst) ''ok'')"

definition apiRateLimitFeature :: "(rat \<Rightarrow> gostr) \<Rightarrow> Config \<Rightarrow> dashboardStatusFeature" where
  "apiRateLimitFeature g cfg =
     (if cf_APIRateLimitPerIP cfg \<le> 0 then card_of ''api_rl'' ''HTTP rate limit'' ''Off'' ''neutral''
      else let burst = cf_APIRateLimitBurst cfg; burst = (if burst \<le> 0 then 20 else burst)
           in card_of ''api_rl'' ''HTTP rate limit'' (g (cf_APIRateLimitPerIP cfg) @ ''/s'' @ middot @ ''burst '' @ dec_int burst) ''ok'')"

definition cacheWarmFeature :: "Config \<Rightarrow> dashboardStatusFeature" where
  "cacheWarmFeature cfg =
     (if \<not> cf_CacheWarmEnabled cfg then card_of ''cache_warm'' ''Cache warm'' ''Off'' ''neutral''
      else let iv = cf_CacheWarmIntervalSeconds cfg; iv = (if iv \<le> 0 then 10 else iv)
           in card_of ''cache_warm'' ''Cache warm'' (''On'' @ middot @ ''every '' @ dec_int iv @ ''s'') ''ok'')"

definition responseCapFeature :: "Config \<Rightarrow> dashboardStatusFeature" where
  "responseCapFeature cfg =
     (let mode = ToLower (TrimSpace (cf_DNSResponseLimitMode cfg)); mode = (if mode = [] then ''sliding_window'' else mode) in
      if mode = ''rrl'' then
        (if cf_DNSRRLMaxPerBucket cfg \<le> 0 then card_of ''resp_cap'' ''Response cap'' (''RRL'' @ middot @ ''off (no bucket)'') ''neutral''
         else let win = cf_DNSRRLWindowSeconds cfg; win = (if win \<le> 0 then 1 else win)
              in card_of ''resp_cap'' ''Response cap'' (''RRL'' @ middot @ dec_int (cf_DNSRRLMaxPerBucket cfg) @ '' / '' @ dec_int win @ ''s'') ''ok'')
      else if cf_DNSMaxResponsesPerIPWindow cfg \<le> 0 then card_of ''resp_cap'' ''Response cap'' ''Off'' ''neutral''
      else let wsec = cf_DNSSlidingWindowSeconds cfg; wsec = (if wsec \<le> 0 then 1 else wsec)
           in card_of ''resp_cap'' ''Response cap'' (''Sliding'' @ middot @ dec_int (cf_DNSMaxResponsesPerIPWindow cfg) @ '' / '' @ dec_int wsec @ ''s'') ''ok'')"

definition buildDashboardStatusFeatures :: "(rat \<Rightarrow> gostr) \<Rightarrow> resolver_data \<Rightarrow> bool \<Rightarrow> dashboardStatusFeature list" where
  "buildDashboardStatusFeatures g d dnsUp =
     (let cfg = rd_Settings d in
      dotFeature cfg dnsUp @ dohFeature cfg dnsUp @
      [dnssecValidateFeature cfg, dnssecSignFeature cfg, apiTLSFeature cfg, apiAuthFeature cfg,
       boolFeature ''cluster'' ''Cluster sync'' (cf_ClusterEnabled cfg), boolFeature ''full_stats'' ''Full stats DB'' (cf_FullStats cfg),
       pprofFeature cfg, boolFeature ''cache'' ''Resolver cache'' (cf_CacheRecords cfg),
       boolFeature ''local_records'' ''Local records'' (cf_LocalRecordsEnabled cfg),
       boolFeature ''upstream_health'' ''Upstream health checks'' (cf_UpstreamHealthCheckEnabled cfg),
       adblockFeature d, dnsRateLimitFeature cfg, apiRateLimitFeature g cfg,
       boolFeature ''stale_revalidate'' ''Stale-while-revalidate'' (cf_StaleWhileRevalidate cfg), cacheWarmFeature cfg,
       boolFeature ''refuse_any'' ''Refuse ANY (NOTIMP)'' (cf_DNSRefuseANY cfg), responseCapFeature cfg] @
      (if cf_DNSAmplificationMaxRatio cfg > 0
       then [card_of ''amp_cap'' ''Amplification cap'' (''1:'' @ dec_int (cf_DNSAmplificationMaxRatio cfg)) ''ok''] else []) @
      (if cf_DNSMaxEDNSUDPPayload cfg > 0
       then [card_of ''edns_udp'' ''EDNS UDP max'' (dec (unat (cf_DNSMaxEDNSUDPPayload cfg)) @ '' B'') ''ok''] else []))"

subsection \<open>Top lists\<close>

definition topRequestersForDashboard ::
    "browse_env \<Rightarrow> (gostr \<rightharpoonup> RequesterStats) \<Rightarrow> nat \<Rightarrow> (gostr \<times> u64 \<times> gotime) list" where
  "topRequestersForDashboard E m limit =
     map (\<lambda>r. (rr_ip r, rr_total r, rqr_FirstSeen (rr_st r)))
       (take limit (be_sortRequesters E (\<lambda>a b. rr_total a > rr_total b) (requesterRows E m)))"

definition topDomainsForDashboard ::
    "browse_env \<Rightarrow> (gostr \<rightharpoonup> RequestStats) \<Rightarrow> nat \<Rightarrow> ((gostr \<times> gostr) \<times> u64 \<times> gotime \<times> gotime) list" where
  "topDomainsForDashboard E m limit =
     map (\<lambda>(k, st). (splitDomainType k, rs_Count st, rs_FirstSeen st, rs_LastSeen st))
       (take limit (be_sortRequests E (\<lambda>a b. rs_Count (snd a) > rs_Count (snd b)) (visited (be_rows E) m)))"

subsection \<open>The payload\<close>

record ('c, 'b) dashboard_payload =
  dp_counters :: DNSStats
  dp_perf :: perf_report
  dp_cacheHitRatio :: "rat option"
  dp_blockRate :: "rat option"
  dp_uptimeSeconds :: int
  dp_checksEnabled :: bool
  dp_active :: nat
  dp_rows :: nat
  dp_healthy :: nat
  dp_unhealthy :: nat
  dp_entries :: nat
  dp_compactEnabled :: bool
  dp_compactInterval :: int
  dp_nextCompact :: "gotime option"
  dp_lastCompact :: "gotime option"
  dp_lastRemoved :: int
  dp_series :: "DashboardMinutePoint list"
  dp_log :: "DashboardResolution list"
  dp_ready :: bool
  dp_apiUp :: bool
  dp_dnsUp :: bool
  dp_tuiAddr :: gostr
  dp_tuiSince :: "gotime option"
  dp_listeners :: "ListenerSettings option"
  dp_features :: "dashboardStatusFeature list"
  dp_topRequesters :: "(gostr \<times> u64 \<times> gotime) list"
  dp_topDomains :: "((gostr \<times> gostr) \<times> u64 \<times> gotime \<times> gotime) list"
  dp_fullstats :: "(nat \<times> nat \<times> nat \<times> nat) option"
  dp_cluster :: "'c option"
  dp_build :: 'b
  dp_rates :: DashboardPerSecRates

definition shown_time :: "gotime \<Rightarrow> gotime option" where
  "shown_time t = (if time_IsZero t then None else Some t)"

definition ratio_of :: "int \<Rightarrow> int \<Rightarrow> rat option" where
  "ratio_of part whole = (if whole > 0 then Some (f64_div (f64_round (of_int part)) (f64_round (of_int whole))) else None)"

text \<open>\<open>state\<close> is the daemon's, if it is set; the sizes of the statistics, the snapshot of the cluster manager and the build
  information are given; the errors of the statistics database are ignored, and the map is then empty.\<close>

definition buildDashboardPayload ::
    "(rat \<Rightarrow> gostr) \<Rightarrow> browse_env \<Rightarrow> gotime \<Rightarrow> resolver_data \<Rightarrow> perf_state \<Rightarrow> dashboardLive \<Rightarrow> daemon_state option \<Rightarrow> Tracker option \<Rightarrow>
     (nat \<times> nat \<times> nat \<times> nat) option \<Rightarrow> 'c option \<Rightarrow> 'b \<Rightarrow> ('c, 'b) dashboard_payload" where
  "buildDashboardPayload g E now d perf live state tracker counts snap build =
     (let stats = rd_Stats d; tq = st_TotalQueries stats; cfg = rd_Settings d;
          (st, checksOn) = UpstreamHealthStatuses (rd_upstreamHealth d) cfg (rd_DNSServers d);
          bad = length (filter hs_Unhealthy st);
          apiUp = (case state of None \<Rightarrow> False | Some s \<Rightarrow> ds_apiRunning s);
          dnsUp = (case state of None \<Rightarrow> False | Some s \<Rightarrow> ds_serverUp s)
      in \<lparr>dp_counters = stats, dp_perf = GetResolverPerfReport perf,
          dp_cacheHitRatio = ratio_of (st_TotalCacheHits stats) tq, dp_blockRate = ratio_of (st_TotalBlocks stats) tq,
          dp_uptimeSeconds = (let s = duration_Seconds (time_Sub now (st_ServerStartTime stats)) in if s < 0 then \<lceil>s\<rceil> else \<lfloor>s\<rfloor>),
          dp_checksEnabled = checksOn, dp_active = length (filter srv_Active (rd_DNSServers d)), dp_rows = length st,
          dp_healthy = (if st \<noteq> [] then length st - bad else 0), dp_unhealthy = (if st \<noteq> [] then bad else 0),
          dp_entries = length (rd_CacheRecords d), dp_compactEnabled = (cf_CacheCompactEnabled cfg \<and> cf_CacheRecords cfg),
          dp_compactInterval = cf_CacheCompactIntervalSeconds cfg, dp_nextCompact = shown_time (rd_nextCacheCompactAt d),
          dp_lastCompact = shown_time (rd_lastCacheCompactAt d), dp_lastRemoved = rd_lastCacheCompactRemoved d,
          dp_series = GetDashboardSeries now live, dp_log = GetDashboardLogNewestFirst 200 live,
          dp_ready = (apiUp \<and> dnsUp), dp_apiUp = apiUp, dp_dnsUp = dnsUp,
          dp_tuiAddr = (case state of None \<Rightarrow> [] | Some s \<Rightarrow> ds_tuiClientAddr s),
          dp_tuiSince = (case state of None \<Rightarrow> None | Some s \<Rightarrow> shown_time (ds_tuiClientSince s)),
          dp_listeners = map_option ds_listener state, dp_features = buildDashboardStatusFeatures g d dnsUp,
          dp_topRequesters = (case tracker of None \<Rightarrow> [] | Some t \<Rightarrow> topRequestersForDashboard E (if be_dbErr E = None then tr_requesters t else Map.empty) 10),
          dp_topDomains = (case tracker of None \<Rightarrow> [] | Some t \<Rightarrow> topDomainsForDashboard E (if be_dbErr E = None then tr_requests t else Map.empty) 10),
          dp_fullstats = counts, dp_cluster = snap, dp_build = build,
          dp_rates = GetDashboardPerSecRates now 5 live\<rparr>)"

subsection \<open>Handlers\<close>

text \<open>The state that the handlers of this group read and change, and their replies.\<close>

record dashboard_state =
  db_data :: resolver_data
  db_perf :: perf_state
  db_live :: dashboardLive

datatype feed_reply = FeedStatus int | FeedPerf perf_report | FeedResolutions int "DashboardResolution list" | FeedDone

definition perfStatsHandler :: "gostr \<Rightarrow> dashboard_state \<Rightarrow> dashboard_state \<times> feed_reply" where
  "perfStatsHandler method s =
     (if method \<noteq> ''GET'' then (s, FeedStatus 405) else (s, FeedPerf (GetResolverPerfReport (db_perf s))))"

definition perfResetHandler :: "gostr \<Rightarrow> dashboard_state \<Rightarrow> dashboard_state \<times> feed_reply" where
  "perfResetHandler method s =
     (if method \<noteq> ''POST'' then (s, FeedStatus 405) else (s\<lparr>db_perf := ResetResolverPerf\<rparr>, FeedDone))"

definition buildDashboardResolutionsPayload :: "dashboardLive \<Rightarrow> feed_reply" where
  "buildDashboardResolutionsPayload live =
     FeedResolutions (DashboardLogCap live) (GetDashboardLogNewestFirst (DashboardLogCap live) live)"

definition dashboardResolutionsHandler :: "gostr \<Rightarrow> dashboard_state \<Rightarrow> dashboard_state \<times> feed_reply" where
  "dashboardResolutionsHandler method s =
     (if method \<noteq> ''GET'' then (s, FeedStatus 405)
      else if \<not> cf_StatsDashboardEnabled (rd_Settings (db_data s)) then (s, FeedStatus 404)
      else (s, buildDashboardResolutionsPayload (db_live s)))"

definition dashboardResolutionsPurgeHandler :: "gostr \<Rightarrow> dashboard_state \<Rightarrow> dashboard_state \<times> feed_reply" where
  "dashboardResolutionsPurgeHandler method s =
     (if method \<noteq> ''POST'' then (s, FeedStatus 405)
      else if \<not> cf_StatsDashboardEnabled (rd_Settings (db_data s)) then (s, FeedStatus 404)
      else (s\<lparr>db_live := ClearDashboardResolutionLog (db_live s)\<rparr>, FeedDone))"

text \<open>\<^verbatim>\<open>GET /metrics\<close>, with the counts of the full statistics when a tracker is set (requesters and domains, total and of
  the session).\<close>

definition metricLines :: "gostr \<Rightarrow> gostr \<Rightarrow> gostr \<Rightarrow> gostr \<Rightarrow> gostr" where
  "metricLines help typeName nm v =
     ''# HELP '' @ nm @ '' '' @ help @ [CHR 0x0A] @ ''# TYPE '' @ nm @ '' '' @ typeName @ [CHR 0x0A] @ nm @ '' '' @ v @ [CHR 0x0A]"

definition metricsHandler ::
    "(rat \<Rightarrow> gostr) \<Rightarrow> gostr list \<Rightarrow> DNSStats \<Rightarrow> (nat \<times> nat \<times> nat \<times> nat) option \<Rightarrow> perf_state \<Rightarrow> dnssec_counters \<Rightarrow> drop_counters \<Rightarrow> gostr" where
  "metricsHandler g visit stats counts perf dnssec drops =
     metricLines ''Total DNS queries received'' ''counter'' ''dnsplane_queries_total'' (dec_int (st_TotalQueries stats)) @
     metricLines ''Total cache hits'' ''counter'' ''dnsplane_cache_hits_total'' (dec_int (st_TotalCacheHits stats)) @
     metricLines ''Total adblock blocks'' ''counter'' ''dnsplane_blocks_total'' (dec_int (st_TotalBlocks stats)) @
     metricLines ''Total queries forwarded to upstreams'' ''counter'' ''dnsplane_queries_forwarded_total'' (dec_int (st_TotalQueriesForwarded stats)) @
     metricLines ''Total queries answered'' ''counter'' ''dnsplane_queries_answered_total'' (dec_int (st_TotalQueriesAnswered stats)) @
     metricLines ''Server start time (Unix)'' ''gauge'' ''dnsplane_server_start_time_seconds''
       (dec_int (round_half_even (f64_round (of_int (time_Unix (st_ServerStartTime stats)))))) @
     (case counts of None \<Rightarrow> [] | Some (reqsTotal, domsTotal, reqsSession, domsSession) \<Rightarrow>
        metricLines ''Number of distinct requesters in full_stats (total)'' ''gauge'' ''dnsplane_fullstats_requesters_count_total'' (dec reqsTotal) @
        metricLines ''Number of distinct domain:type entries in full_stats (total)'' ''gauge'' ''dnsplane_fullstats_domains_count_total'' (dec domsTotal) @
        metricLines ''Number of distinct requesters in full_stats (session)'' ''gauge'' ''dnsplane_fullstats_requesters_count_session'' (dec reqsSession) @
        metricLines ''Number of distinct domain:type entries in full_stats (session)'' ''gauge'' ''dnsplane_fullstats_domains_count_session'' (dec domsSession)) @
     [CHR 0x0A] @ WriteResolverPerfPrometheus g visit perf @ [CHR 0x0A] @ WriteDNSAbusePrometheus dnssec drops"

subsection \<open>The web socket\<close>

text \<open>The request, with the two headers that the handshake looks at.\<close>

record ws_request =
  ws_req :: api_request
  ws_Origin :: gostr
  ws_Host :: gostr

definition originHost :: "gostr \<Rightarrow> gostr" where
  "originHost rest = (case Index rest ''/'' of Some i \<Rightarrow> take i rest | None \<Rightarrow> rest)"

definition dashboardWSCheckOrigin :: "ws_request \<Rightarrow> bool" where
  "dashboardWSCheckOrigin r =
     (let origin = TrimSpace (ws_Origin r); host = ws_Host r in
      if origin = [] then True
      else if host = [] then False
      else if HasPrefix origin ''http://'' then EqualFold (originHost (TrimPrefix origin ''http://'')) host
      else if HasPrefix origin ''https://'' then EqualFold (originHost (TrimPrefix origin ''https://'')) host
      else False)"

definition dashboardWSAuthorized :: "ws_request \<Rightarrow> gostr \<Rightarrow> bool" where
  "dashboardWSAuthorized r want0 =
     (let want = TrimSpace want0 in
      if want = [] then True
      else if apiRequestAuthorized (ws_req r) want then True
      else list_ex (\<lambda>key. let got = TrimSpace (query_Get (ws_req r) key) in got \<noteq> [] \<and> got = want) [''access_token'', ''token''])"

text \<open>The handshake up to the upgrade: an error status, or the connection goes on to be upgraded.\<close>

definition ws_admit :: "ws_request \<Rightarrow> Config \<Rightarrow> int \<Rightarrow> int option" where
  "ws_admit r cfg clientCount =
     (let tok = TrimSpace (cf_APIAuthToken cfg) in
      if ar_Method (ws_req r) \<noteq> ''GET'' then Some 405
      else if \<not> cf_StatsDashboardEnabled cfg then Some 404
      else if tok \<noteq> [] \<and> \<not> dashboardWSAuthorized r tok then Some 401
      else if clientCount \<ge> 32 then Some 503
      else None)"

text \<open>Subscriptions: a message of the client changes those that it mentions.\<close>

record ws_subs =
  su_stats :: bool
  su_res :: bool
  su_perf :: bool

record ws_message =
  wm_Op :: gostr
  wm_Stats :: "bool option"
  wm_Resolutions :: "bool option"
  wm_Perf :: "bool option"

definition ws_subscribe :: "ws_message option \<Rightarrow> ws_subs \<Rightarrow> ws_subs" where
  "ws_subscribe msg s = (case msg of None \<Rightarrow> s | Some m \<Rightarrow>
     if wm_Op m \<noteq> ''sub'' then s
     else s\<lparr>su_stats := (case wm_Stats m of None \<Rightarrow> su_stats s | Some b \<Rightarrow> b),
            su_res := (case wm_Resolutions m of None \<Rightarrow> su_res s | Some b \<Rightarrow> b),
            su_perf := (case wm_Perf m of None \<Rightarrow> su_perf s | Some b \<Rightarrow> b)\<rparr>)"

text \<open>A tick: what is pushed, if anything, and the last envelope.\<close>

type_synonym ('c, 'b) ws_envelope = "('c, 'b) dashboard_payload option \<times> feed_reply option \<times> perf_report option"

definition envelopeOf :: "bool \<Rightarrow> ws_subs \<Rightarrow> ('c, 'b) dashboard_payload \<Rightarrow> feed_reply \<Rightarrow> perf_report \<Rightarrow> ('c, 'b) ws_envelope" where
  "envelopeOf enabled subs payload res perf =
     (if su_stats subs \<and> enabled then Some payload else None, if su_res subs \<and> enabled then Some res else None,
      if su_perf subs then Some perf else None)"

definition ws_tick :: "bool \<Rightarrow> ws_subs \<Rightarrow> ('c, 'b) dashboard_payload \<Rightarrow> feed_reply \<Rightarrow> perf_report \<Rightarrow>
     ('c, 'b) ws_envelope option \<Rightarrow> ('c, 'b) ws_envelope option \<times> ('c, 'b) ws_envelope option" where
  "ws_tick enabled subs payload res perf prev =
     (if \<not> su_stats subs \<and> \<not> su_res subs \<and> \<not> su_perf subs then (None, prev)
      else
        let env = envelopeOf enabled subs payload res perf
        in if prev = Some env then (None, prev) else (Some env, Some env))"

subsection \<open>Observed queries\<close>

text \<open>The observer that \<^verbatim>\<open>main.go\<close> gives to the resolver: every answered question enters the live view and, when a
  tracker is set, the statistics; the line of the log is left out.\<close>

record observed_query =
  oq_qname :: gostr
  oq_qtype :: gostr
  oq_outcome :: gostr
  oq_upstream :: gostr
  oq_summary :: gostr
  oq_elapsed :: duration
  oq_clientIP :: gostr

definition observedClient :: "observed_query \<Rightarrow> gostr" where
  "observedClient q = (let cip = TrimSpace (oq_clientIP q) in if cip = [] then ''unknown'' else cip)"

definition queryObserver :: "gotime \<Rightarrow> observed_query \<Rightarrow> dashboardLive \<times> Tracker option \<Rightarrow> dashboardLive \<times> Tracker option" where
  "queryObserver now q s =
     (let (live, tracker) = s; ms = f64_mul (duration_Seconds (oq_elapsed q)) 1000; cip = observedClient q in
      (RecordDashboardResolution now \<lparr>dr_At = 0, dr_ClientIP = cip, dr_Qname = oq_qname q, dr_Qtype = oq_qtype q, dr_Outcome = oq_outcome q,
         dr_Upstream = oq_upstream q, dr_Record = oq_summary q, dr_DurationMs = ms\<rparr> live,
       map_option (RecordRequest (oq_qname q @ '':'' @ oq_qtype q) cip (oq_qtype q) (oq_outcome q)) tracker))"

text \<open>The row of the live view carries the time of the observation, and the statistics see the same name, type and
  client, unless their queue is full.\<close>

lemma queryObserver_agrees:
  assumes "length (tr_queue t) < asyncQueueSize"
  shows "\<exists>e t'. hd (GetDashboardLogNewestFirst 1 (fst (queryObserver now q (live, Some t)))) = e \<and>
     snd (queryObserver now q (live, Some t)) = Some t' \<and> dr_At e = now \<and>
     rq_key (last (tr_queue t')) = dr_Qname e @ '':'' @ dr_Qtype e \<and> rq_requesterIP (last (tr_queue t')) = dr_ClientIP e \<and>
     rq_source (last (tr_queue t')) = normalizeSource (dr_Outcome e)"
proof -
  have newest: "GetDashboardLogNewestFirst 1 (RecordDashboardResolution now e live) = [stampAt now e]" for e
  proof -
    have "\<not> DashboardLogCap live < 1" using cap_positive [of live] by linarith
    then show ?thesis
      using cap_kept [of "(now, e)" live] log_step [of "(now, e)" live] take_rev_lastN [of 1 "DashboardLogCap live" "dl_log live @ [stampAt now e]"]
      by (simp add: GetDashboardLogNewestFirst_def Let_def)
  qed
  show ?thesis using assms by (simp add: queryObserver_def newest RecordRequest_def stampAt_def time_IsZero_def Let_def)
qed

subsection \<open>What the cards say is what the server does\<close>

lemma dot_string: "dotListenString c = dotListenAddr c"
  by (simp add: dotListenString_def dotListenAddr_def listenAddr_def default_to_def Let_def)

lemma doh_string: "dohListenString c = dohListenAddr c @ dohPath c"
  by (simp add: dohListenString_def dohListenAddr_def dohPath_def listenAddr_def default_to_def Let_def)

lemma card_simps [simp]:
  "sf_Key (card_of k l v w) = k" "sf_Value (card_of k l v w) = v" "sf_Variant (card_of k l v w) = w"
  by (simp_all add: card_of_def)

text \<open>The cards of the dashboard are true of the settings at hand: the card of DoT or DoH is good exactly when the
  DNS server is up and the listener is one that would be started, and then names the address, and for DoH the
  path, that the listener binds to; the cards of the limits are good exactly when these settings make a limiter; a card
  says that the API asks for a token exactly when an anonymous request is refused.\<close>

theorem feature_cards_true:
  "(sf_Variant (hd (dotFeature cfg dnsUp)) = ''ok'' \<longleftrightarrow> dnsUp \<and> fst (startInboundDNSListeners cfg)) \<and>
   (sf_Variant (hd (dotFeature cfg dnsUp)) = ''ok'' \<longrightarrow> sf_Value (hd (dotFeature cfg dnsUp)) = dotListenAddr cfg) \<and>
   (sf_Variant (hd (dohFeature cfg dnsUp)) = ''ok'' \<longleftrightarrow> dnsUp \<and> snd (startInboundDNSListeners cfg)) \<and>
   (sf_Variant (hd (dohFeature cfg dnsUp)) = ''ok'' \<longrightarrow> sf_Value (hd (dohFeature cfg dnsUp)) = dohListenAddr cfg @ dohPath cfg) \<and>
   (sf_Variant (responseCapFeature cfg) = ''ok'' \<longleftrightarrow> buildResponseLimiter cfg \<noteq> NoLimiter) \<and>
   (sf_Variant (dnsRateLimitFeature cfg) = ''ok'' \<longleftrightarrow> newQueryLimiter cfg \<noteq> None) \<and>
   (sf_Variant (apiRateLimitFeature g cfg) = ''ok'' \<longleftrightarrow> apiLimiter (cf_APIRateLimitPerIP cfg) (cf_APIRateLimitBurst cfg) \<noteq> None) \<and>
   (sf_Variant (apiAuthFeature cfg) = ''ok'' \<longleftrightarrow> \<not> apiRequestAuthorized (r\<lparr>ar_Authorization := [], ar_Token := []\<rparr>) (cf_APIAuthToken cfg))"
proof (intro conjI)
  show "sf_Variant (responseCapFeature cfg) = ''ok'' \<longleftrightarrow> buildResponseLimiter cfg \<noteq> NoLimiter"
    by (simp add: responseCapFeature_def buildResponseLimiter_def Let_def)
  show "sf_Variant (apiAuthFeature cfg) = ''ok'' \<longleftrightarrow> \<not> apiRequestAuthorized (r\<lparr>ar_Authorization := [], ar_Token := []\<rparr>) (cf_APIAuthToken cfg)"
    by (simp add: apiAuthFeature_def apiRequestAuthorized_def Let_def)
qed (auto simp: dotFeature_def dohFeature_def startInboundDNSListeners_def dot_string doh_string dnsRateLimitFeature_def newQueryLimiter_def
      apiRateLimitFeature_def apiLimiter_def Let_def)

theorem feature_cards_true_witness:
  "sf_Value (hd (dotFeature (empty_Config\<lparr>cf_DOTEnabled := True, cf_DOTCertFile := ''c.pem'', cf_DOTKeyFile := ''k.pem''\<rparr>) True)) = '':853''"
proof -
  let ?cfg = "empty_Config\<lparr>cf_DOTEnabled := True, cf_DOTCertFile := ''c.pem'', cf_DOTKeyFile := ''k.pem''\<rparr>"
  have "fst (startInboundDNSListeners ?cfg)" "dotListenAddr ?cfg = '':853''" by code_simp+
  then show ?thesis using feature_cards_true [of ?cfg True] by simp
qed

text \<open>The top list: no domain that is left out was asked for more often than one that is shown.\<close>

lemma top_domains_are_top:
  assumes "sorts_slices (be_sortRequests E)" "set (be_rows E) = dom m" "m k = Some st"
    and "(splitDomainType k, rs_Count st, rs_FirstSeen st, rs_LastSeen st) \<notin> set (topDomainsForDashboard E m n)"
  shows "\<forall>row \<in> set (topDomainsForDashboard E m n). rs_Count st \<le> fst (snd row)"
proof -
  let ?less = "\<lambda>(a::requestRow) (b::requestRow). rs_Count (snd a) > rs_Count (snd b)"
  let ?xs = "be_sortRequests E ?less (visited (be_rows E) m)"
  have "\<forall>x y z. (?less x y \<longrightarrow> \<not> ?less y x) \<and> (?less x z \<longrightarrow> ?less x y \<or> ?less y z)" by auto
  then have s: "mset ?xs = mset (visited (be_rows E) m)" "sorted_wrt (\<lambda>x y. \<not> ?less y x) ?xs"
    using assms(1) unfolding sorts_slices_def by simp_all
  have "(k, st) \<in> set (visited (be_rows E) m)" using assms(2,3) by (auto simp: visited_set)
  then have "(k, st) \<in> set ?xs" using s(1) by (metis set_mset_mset)
  moreover have "(k, st) \<notin> set (take n ?xs)" using assms(4) by (force simp: topDomainsForDashboard_def)
  ultimately have rest: "(k, st) \<in> set (drop n ?xs)" 
    using set_append [of "take n ?xs" "drop n ?xs"] by simp
  have "sorted_wrt (\<lambda>x y. \<not> ?less y x) (take n ?xs @ drop n ?xs)" using s(2) by simp
  then have "\<forall>x \<in> set (take n ?xs). \<not> ?less (k, st) x" using rest unfolding sorted_wrt_append by blast
  then show ?thesis by (auto simp: topDomainsForDashboard_def not_less)
qed

text \<open>The card of DNSSEC signing is good although no key is configured and nothing is signed.\<close>

lemma sign_card_without_key:
  assumes "cf_DNSSECSignEnabled cfg" "TrimSpace (cf_DNSSECSignZone cfg) \<noteq> []" "TrimSpace (cf_DNSSECSignKeyFile cfg) = []"
  shows "sf_Variant (dnssecSignFeature cfg) = ''ok''" "newSigner L readFile cfg = None"
  using assms by (simp_all add: dnssecSignFeature_def newSigner_def Let_def)

subsection \<open>Who sees the live data\<close>

definition shows_token :: "ws_request \<Rightarrow> gostr \<Rightarrow> bool" where
  "shows_token r tok \<longleftrightarrow> TrimSpace (drop 7 (TrimSpace (ar_Authorization (ws_req r)))) = tok \<or> TrimSpace (ar_Token (ws_req r)) = tok \<or>
     TrimSpace (query_Get (ws_req r) ''access_token'') = tok \<or> TrimSpace (query_Get (ws_req r) ''token'') = tok"

lemma ws_tick_quiet: "fst (ws_tick enabled subs payload res perf prev) = None \<Longrightarrow> snd (ws_tick enabled subs payload res perf prev) = prev"
  by (simp add: ws_tick_def Let_def split: if_split_asm)

lemma ws_tick_pushes:
  assumes "fst (ws_tick enabled subs payload res perf prev) = Some env"
  shows "snd (ws_tick enabled subs payload res perf prev) = Some env \<and> prev \<noteq> Some env \<and>
    (fst env \<noteq> None \<longrightarrow> su_stats subs \<and> enabled) \<and> (fst (snd env) \<noteq> None \<longrightarrow> su_res subs \<and> enabled) \<and> (snd (snd env) \<noteq> None \<longrightarrow> su_perf subs)"
proof -
  have "snd (ws_tick enabled subs payload res perf prev) = Some env \<and> prev \<noteq> Some env \<and> env = envelopeOf enabled subs payload res perf"
    using assms by (auto simp: ws_tick_def Let_def split: if_split_asm)
  moreover have "fst (envelopeOf enabled subs payload res perf) \<noteq> None \<longrightarrow> su_stats subs \<and> enabled"
    "fst (snd (envelopeOf enabled subs payload res perf)) \<noteq> None \<longrightarrow> su_res subs \<and> enabled"
    "snd (snd (envelopeOf enabled subs payload res perf)) \<noteq> None \<longrightarrow> su_perf subs"
    by (simp_all add: envelopeOf_def)
  ultimately show ?thesis by metis
qed

lemma authorized_shows_token:
  assumes "TrimSpace want \<noteq> []" "dashboardWSAuthorized r want"
  shows "shows_token r (TrimSpace want)"
  using assms by (auto simp: dashboardWSAuthorized_def shows_token_def apiRequestAuthorized_def Let_def split: if_splits)

text \<open>C35.  The live feed is confined.  The web socket is exempt from the check of the other requests, and makes its own: with
  a token configured a handshake goes on only for a GET request that carries that token in a header or in the
  query, while the dashboard is enabled and fewer than 32 clients are counted.  Afterwards a client is sent
  only what it subscribed to, nothing twice in a row, and no statistics and resolutions while the dashboard is
  disabled.\<close>

theorem live_feed_confined:
  "(ws_admit r cfg n = None \<longrightarrow>
      ar_Method (ws_req r) = ''GET'' \<and> cf_StatsDashboardEnabled cfg \<and> n < 32 \<and>
      (TrimSpace (cf_APIAuthToken cfg) \<noteq> [] \<longrightarrow> shows_token r (TrimSpace (cf_APIAuthToken cfg)))) \<and>
   (case fst (ws_tick enabled subs payload res perf prev) of
      None \<Rightarrow> snd (ws_tick enabled subs payload res perf prev) = prev
    | Some env \<Rightarrow> snd (ws_tick enabled subs payload res perf prev) = Some env \<and> prev \<noteq> Some env \<and>
        (fst env \<noteq> None \<longrightarrow> su_stats subs \<and> enabled) \<and> (fst (snd env) \<noteq> None \<longrightarrow> su_res subs \<and> enabled) \<and>
        (snd (snd env) \<noteq> None \<longrightarrow> su_perf subs))"
proof (rule conjI, intro conjI impI)
  assume a: "ws_admit r cfg n = None"
  then show "ar_Method (ws_req r) = ''GET''" "cf_StatsDashboardEnabled cfg" "n < 32" by (auto simp: ws_admit_def Let_def split: if_splits)
  show "shows_token r (TrimSpace (cf_APIAuthToken cfg))" if "TrimSpace (cf_APIAuthToken cfg) \<noteq> []"
    using a that authorized_shows_token [of "TrimSpace (cf_APIAuthToken cfg)" r] by (auto simp: ws_admit_def Let_def split: if_splits)
next
  let ?tick = "ws_tick enabled subs payload res perf prev"
  show "case fst ?tick of None \<Rightarrow> snd ?tick = prev
    | Some env \<Rightarrow> snd ?tick = Some env \<and> prev \<noteq> Some env \<and> (fst env \<noteq> None \<longrightarrow> su_stats subs \<and> enabled) \<and>
        (fst (snd env) \<noteq> None \<longrightarrow> su_res subs \<and> enabled) \<and> (snd (snd env) \<noteq> None \<longrightarrow> su_perf subs)"
  proof (cases "fst ?tick")
    case None
    then show ?thesis using ws_tick_quiet by simp
  next
    case (Some env)
    from ws_tick_pushes [OF this] show ?thesis unfolding Some option.case .
  qed
qed

definition sample_ws :: ws_request where
  "sample_ws = \<lparr>ws_req = \<lparr>ar_Method = ''GET'', ar_Path = ''/stats/dashboard/ws'', ar_Query = [(''token'', ''s3cret'')], ar_Authorization = [],
     ar_Token = [], ar_RemoteAddr = ''10.0.0.1:5000'', ar_Body = None\<rparr>, ws_Origin = [], ws_Host = []\<rparr>"

theorem live_feed_confined_witness:
  "shows_token sample_ws (TrimSpace ''s3cret'')"
proof -
  let ?cfg = "empty_Config\<lparr>cf_StatsDashboardEnabled := True, cf_APIAuthToken := ''s3cret''\<rparr>"
  have "ws_admit sample_ws ?cfg 0 = None" by code_simp
  moreover have "TrimSpace (cf_APIAuthToken ?cfg) \<noteq> []" by code_simp
  ultimately show ?thesis 
    using live_feed_confined [where r = sample_ws and cfg = ?cfg and n = 0 and payload = "undefined :: (unit, unit) dashboard_payload"] by simp
qed

text \<open>The limit on clients is read before the upgrade and the counter raised after it: clients that arrive together
  all pass.  The counter itself is exact.\<close>

record ws_clients =
  wc_count :: int
  wc_admitted :: nat
  wc_connected :: nat

inductive ws_step :: "ws_clients \<Rightarrow> ws_clients \<Rightarrow> bool" where
  admitted: "wc_count s < 32 \<Longrightarrow> ws_step s (s\<lparr>wc_admitted := wc_admitted s + 1\<rparr>)"
| upgraded: "wc_admitted s > 0 \<Longrightarrow> ws_step s (s\<lparr>wc_admitted := wc_admitted s - 1, wc_connected := wc_connected s + 1, wc_count := wc_count s + 1\<rparr>)"
| upgrade_failed: "wc_admitted s > 0 \<Longrightarrow> ws_step s (s\<lparr>wc_admitted := wc_admitted s - 1\<rparr>)"
| left: "wc_connected s > 0 \<Longrightarrow> ws_step s (s\<lparr>wc_connected := wc_connected s - 1, wc_count := wc_count s - 1\<rparr>)"

lemma ws_count_exact:
  "ws_step\<^sup>*\<^sup>* \<lparr>wc_count = 0, wc_admitted = 0, wc_connected = 0\<rparr> s \<Longrightarrow> wc_count s = int (wc_connected s)"
  by (induction rule: rtranclp_induct) (auto elim!: ws_step.cases)

lemma ws_many_admitted: "ws_step\<^sup>*\<^sup>* \<lparr>wc_count = 0, wc_admitted = 0, wc_connected = 0\<rparr> \<lparr>wc_count = 0, wc_admitted = n, wc_connected = 0\<rparr>"
proof (induction n)
  case (Suc n)
  show ?case using Suc admitted [of "\<lparr>wc_count = 0, wc_admitted = n, wc_connected = 0\<rparr>"] by (auto intro: rtranclp.rtrancl_into_rtrancl)
qed simp

lemma ws_all_upgraded: "ws_step\<^sup>*\<^sup>* \<lparr>wc_count = int m, wc_admitted = n, wc_connected = m\<rparr> \<lparr>wc_count = int (m + n), wc_admitted = 0, wc_connected = m + n\<rparr>"
proof (induction n arbitrary: m)
  case (Suc n)
  show ?case
    using upgraded [of "\<lparr>wc_count = int m, wc_admitted = Suc n, wc_connected = m\<rparr>"] Suc [of "Suc m"]
    by (auto simp: add.commute intro: converse_rtranclp_into_rtranclp)
qed simp

theorem ws_limit_exceeded:
  "\<exists>s. ws_step\<^sup>*\<^sup>* \<lparr>wc_count = 0, wc_admitted = 0, wc_connected = 0\<rparr> s \<and> wc_connected s = n"
proof (intro exI conjI)
  show "ws_step\<^sup>*\<^sup>* \<lparr>wc_count = 0, wc_admitted = 0, wc_connected = 0\<rparr> \<lparr>wc_count = int n, wc_admitted = 0, wc_connected = n\<rparr>"
    using rtranclp_trans [OF ws_many_admitted [of n], of "\<lparr>wc_count = int n, wc_admitted = 0, wc_connected = n\<rparr>"] ws_all_upgraded [of 0 n] by simp
qed simp

end
