(* ===== verification/Background.thy ===== *)
theory Background
  imports ResolverData "HOL-Library.Sublist"
begin

text \<open>
  The goroutines that run beside the servers: the compaction of the cache (\<^verbatim>\<open>main_cache_compact.go\<close>), the probes of the
  upstream servers (\<^verbatim>\<open>main_upstream_health.go\<close>), the query that keeps the process warm (\<^verbatim>\<open>main_cache_warm.go\<close>), the
  watch on a directory of zone files (\<^verbatim>\<open>data/zone_watch.go\<close>), and the log with its queue (\<^verbatim>\<open>logger/logger.go\<close>).  A timer
  is an instant at or after which it fires; time passes between the steps of a loop, and the rest of the program
  may run there.
\<close>

subsection \<open>Compaction of the cache\<close>

text \<open>Where the loop is: at its top, with the interval it has read, with a deadline it has computed, with one it has
  announced, waiting for its timer (the announced deadline and the instant at which the timer fires), woken by a manual
  compaction, woken by the timer, allowed to run, with the time it has read for the run, with the number of rows it has
  removed, or on the way to withdraw the announcement, after which it sleeps or goes back to the top.\<close>

datatype compact_pc =
    LoopTop
  | Arming duration
  | Announcing gotime duration
  | Announced gotime duration
  | AwaitTimer gotime gotime
  | Bumped
  | Due
  | Cleared_To_Run
  | Compacting gotime
  | Compacted int
  | Withdrawing bool
  | Asleep gotime

text \<open>A manual compaction after it has read the settings: it will announce a time, then send the wake-up.\<close>

datatype manual_bump = Announce_At gotime | Send_Bump

text \<open>The loop takes the wake-up channel once, when it starts.  \<open>cl_old\<close> is \<open>None\<close> while that is the channel of the shared
  data, whose token is \<open>rd_cacheCompactBump\<close>; after \<^verbatim>\<open>Initialize\<close> has made a new channel it is the token of the channel
  that the loop still has.  The list of runs, newest first, is not in the code.\<close>

record compact_loop =
  cl_data :: resolver_data
  cl_pc :: compact_pc
  cl_now :: gotime
  cl_old :: "bool option"
  cl_manual :: "manual_bump list"
  cl_runs :: "gotime list"

definition compact_enabled :: "resolver_data \<Rightarrow> bool" where
  "compact_enabled d \<longleftrightarrow> cf_CacheRecords (rd_Settings d) \<and> cf_CacheCompactEnabled (rd_Settings d)"

definition compact_interval :: "resolver_data \<Rightarrow> duration" where
  "compact_interval d = CacheCompactInterval (cf_CacheCompactIntervalSeconds (rd_Settings d))"

definition loopBump :: "compact_loop \<Rightarrow> bool" where
  "loopBump s = (case cl_old s of None \<Rightarrow> rd_cacheCompactBump (cl_data s) | Some b \<Rightarrow> b)"

definition takeBump :: "compact_loop \<Rightarrow> compact_loop" where
  "takeBump s = (case cl_old s of
      None \<Rightarrow> s\<lparr>cl_data := (cl_data s)\<lparr>rd_cacheCompactBump := False\<rparr>\<rparr>
    | Some b \<Rightarrow> s\<lparr>cl_old := Some False\<rparr>)"

text \<open>Reading the settings: what the loop goes on with.\<close>

definition checkTop :: "compact_loop \<Rightarrow> compact_loop" where
  "checkTop s = s\<lparr>cl_pc := (if compact_enabled (cl_data s) then Arming (compact_interval (cl_data s)) else Withdrawing True)\<rparr>"

definition checkBumped :: "compact_loop \<Rightarrow> compact_loop" where
  "checkBumped s = s\<lparr>cl_pc := (if compact_enabled (cl_data s) then Arming (compact_interval (cl_data s)) else Withdrawing False)\<rparr>"

definition checkDue :: "compact_loop \<Rightarrow> compact_loop" where
  "checkDue s = s\<lparr>cl_pc := (if compact_enabled (cl_data s) then Cleared_To_Run else Withdrawing False)\<rparr>"

definition withdraw :: "bool \<Rightarrow> compact_loop \<Rightarrow> compact_loop" where
  "withdraw sleeps s =
     s\<lparr>cl_data := SetNextCacheCompactAt 0 (cl_data s), cl_pc := (if sleeps then Asleep (cl_now s + 30 * Second) else LoopTop)\<rparr>"

definition announceDeadline :: "gotime \<Rightarrow> duration \<Rightarrow> compact_loop \<Rightarrow> compact_loop" where
  "announceDeadline deadline interval s =
     s\<lparr>cl_data := SetNextCacheCompactAt deadline (cl_data s), cl_pc := Announced deadline interval\<rparr>"

text \<open>The timer waits until the deadline or, when that has passed already, for a whole interval.\<close>

definition armTimer :: "gotime \<Rightarrow> duration \<Rightarrow> compact_loop \<Rightarrow> compact_loop" where
  "armTimer deadline interval s =
     (let wait = (if deadline - cl_now s < 0 then interval else deadline - cl_now s)
      in s\<lparr>cl_pc := AwaitTimer deadline (cl_now s + wait)\<rparr>)"

definition runCompaction :: "gotime \<Rightarrow> compact_loop \<Rightarrow> compact_loop" where
  "runCompaction now s =
     (let (d, removed) = CompactExpiredCacheRecords now (cl_data s)
      in s\<lparr>cl_data := d, cl_pc := Compacted (int removed), cl_runs := now # cl_runs s\<rparr>)"

definition noteRun :: "int \<Rightarrow> compact_loop \<Rightarrow> compact_loop" where
  "noteRun removed s = s\<lparr>cl_data := NoteCacheCompactRun (cl_now s) removed (cl_data s), cl_pc := LoopTop\<rparr>"

text \<open>\<^verbatim>\<open>BumpCacheCompactScheduleAfterManual\<close> in three steps.\<close>

definition manualCheck :: "compact_loop \<Rightarrow> compact_loop" where
  "manualCheck s =
     (if compact_enabled (cl_data s)
      then s\<lparr>cl_manual := Announce_At (cl_now s + compact_interval (cl_data s)) # cl_manual s\<rparr> else s)"

definition manualAnnounce :: "gotime \<Rightarrow> compact_loop \<Rightarrow> compact_loop" where
  "manualAnnounce deadline s =
     s\<lparr>cl_data := SetNextCacheCompactAt deadline (cl_data s), cl_manual := Send_Bump # remove1 (Announce_At deadline) (cl_manual s)\<rparr>"

definition manualSend :: "compact_loop \<Rightarrow> compact_loop" where
  "manualSend s = s\<lparr>cl_data := (cl_data s)\<lparr>rd_cacheCompactBump := True\<rparr>, cl_manual := remove1 Send_Bump (cl_manual s)\<rparr>"

text \<open>\<open>other\<close>: the rest of the program changes the data, except for what the loop announces and the token;
  \<open>reinit\<close>: \<^verbatim>\<open>Initialize\<close>, which replaces the channel by an empty one.\<close>

definition replaceBump :: "resolver_data \<Rightarrow> compact_loop \<Rightarrow> compact_loop" where
  "replaceBump d s = s\<lparr>cl_data := d, cl_old := Some (loopBump s)\<rparr>"

inductive compact_step :: "compact_loop \<Rightarrow> compact_loop \<Rightarrow> bool" where
  top: "cl_pc s = LoopTop \<Longrightarrow> compact_step s (checkTop s)"
| withdrawn: "cl_pc s = Withdrawing b \<Longrightarrow> compact_step s (withdraw b s)"
| wake: "cl_pc s = Asleep t \<Longrightarrow> t \<le> cl_now s \<Longrightarrow> compact_step s (s\<lparr>cl_pc := LoopTop\<rparr>)"
| deadline: "cl_pc s = Arming i \<Longrightarrow> compact_step s (s\<lparr>cl_pc := Announcing (cl_now s + i) i\<rparr>)"
| announce: "cl_pc s = Announcing dl i \<Longrightarrow> compact_step s (announceDeadline dl i s)"
| arm: "cl_pc s = Announced dl i \<Longrightarrow> compact_step s (armTimer dl i s)"
| fire: "cl_pc s = AwaitTimer dl t \<Longrightarrow> t \<le> cl_now s \<Longrightarrow> compact_step s (s\<lparr>cl_pc := Due\<rparr>)"
| bump: "cl_pc s = AwaitTimer dl t \<Longrightarrow> loopBump s \<Longrightarrow> compact_step s ((takeBump s)\<lparr>cl_pc := Bumped\<rparr>)"
| bumped: "cl_pc s = Bumped \<Longrightarrow> compact_step s (checkBumped s)"
| due: "cl_pc s = Due \<Longrightarrow> compact_step s (checkDue s)"
| start_run: "cl_pc s = Cleared_To_Run \<Longrightarrow> compact_step s (s\<lparr>cl_pc := Compacting (cl_now s)\<rparr>)"
| compact: "cl_pc s = Compacting n \<Longrightarrow> compact_step s (runCompaction n s)"
| noted: "cl_pc s = Compacted n \<Longrightarrow> compact_step s (noteRun n s)"
| manual_check: "compact_step s (manualCheck s)"
| manual_announce: "Announce_At dl \<in> set (cl_manual s) \<Longrightarrow> compact_step s (manualAnnounce dl s)"
| manual_send: "Send_Bump \<in> set (cl_manual s) \<Longrightarrow> compact_step s (manualSend s)"
| reinit: "rd_nextCacheCompactAt d = rd_nextCacheCompactAt (cl_data s) \<Longrightarrow> \<not> rd_cacheCompactBump d \<Longrightarrow> compact_step s (replaceBump d s)"
| other: "rd_nextCacheCompactAt d = rd_nextCacheCompactAt (cl_data s) \<Longrightarrow> rd_cacheCompactBump d = rd_cacheCompactBump (cl_data s) \<Longrightarrow>
    compact_step s (s\<lparr>cl_data := d\<rparr>)"
| clock: "cl_now s \<le> t \<Longrightarrow> compact_step s (s\<lparr>cl_now := t\<rparr>)"

definition compact_start :: "gotime \<Rightarrow> resolver_data \<Rightarrow> compact_loop" where
  "compact_start now d = \<lparr>cl_data = d, cl_pc = LoopTop, cl_now = now, cl_old = None, cl_manual = [], cl_runs = []\<rparr>"

text \<open>The three steps of a manual compaction without an interruption are the function.\<close>

lemma manual_steps:
  assumes "compact_enabled (cl_data s)" "cl_manual s = []"
  shows "cl_data (manualSend (manualAnnounce (cl_now s + compact_interval (cl_data s)) (manualCheck s))) =
    BumpCacheCompactScheduleAfterManual (cl_now s) (cl_data s)"
  using assms by (simp add: manualCheck_def manualAnnounce_def manualSend_def BumpCacheCompactScheduleAfterManual_def Let_def
      SetNextCacheCompactAt_def compact_enabled_def compact_interval_def)

text \<open>Runs are at least a minute apart, and the loop waits at least that long after the last one.\<close>

definition spaced :: "gotime list \<Rightarrow> bool" where
  "spaced ts \<longleftrightarrow> sorted_wrt (\<lambda>later earlier. earlier + 60 * Second \<le> later) ts"

abbreviation minute_after :: "gotime list \<Rightarrow> gotime \<Rightarrow> bool" where
  "minute_after ts t \<equiv> \<forall>r \<in> set ts. r + 60 * Second \<le> t"

definition spaced_pc :: "compact_loop \<Rightarrow> bool" where
  "spaced_pc s = (case cl_pc s of
      Arming i \<Rightarrow> 60 * Second \<le> i
    | Announcing dl i \<Rightarrow> 60 * Second \<le> i \<and> minute_after (cl_runs s) dl
    | Announced dl i \<Rightarrow> 60 * Second \<le> i \<and> minute_after (cl_runs s) dl
    | AwaitTimer dl t \<Rightarrow> minute_after (cl_runs s) dl \<and> (t = dl \<or> dl + 60 * Second < t)
    | Due \<Rightarrow> minute_after (cl_runs s) (cl_now s)
    | Cleared_To_Run \<Rightarrow> minute_after (cl_runs s) (cl_now s)
    | Compacting n \<Rightarrow> minute_after (cl_runs s) n \<and> n \<le> cl_now s
    | _ \<Rightarrow> True)"

text \<open>What is announced is the loop's deadline, or a wake-up is on its way, or nobody can wake the loop any more.\<close>

definition announced_ok :: "compact_loop \<Rightarrow> gotime \<Rightarrow> bool" where
  "announced_ok s dl \<longleftrightarrow> rd_nextCacheCompactAt (cl_data s) = dl \<or> loopBump s \<or> Send_Bump \<in> set (cl_manual s) \<or> cl_old s \<noteq> None"

definition announced_pc :: "compact_loop \<Rightarrow> bool" where
  "announced_pc s = (case cl_pc s of Announced dl i \<Rightarrow> announced_ok s dl | AwaitTimer dl t \<Rightarrow> announced_ok s dl | _ \<Rightarrow> True)"

definition compact_inv :: "compact_loop \<Rightarrow> bool" where
  "compact_inv s \<longleftrightarrow> spaced (cl_runs s) \<and> (\<forall>r \<in> set (cl_runs s). r \<le> cl_now s) \<and> spaced_pc s \<and> announced_pc s"

lemma interval_bound: "60 * Second \<le> compact_interval d"
  by (simp add: compact_interval_def CacheCompactInterval_def)

lemmas interval_bound_simp [simp] = interval_bound [simplified]

lemmas compact_defs = checkTop_def checkBumped_def checkDue_def withdraw_def announceDeadline_def armTimer_def noteRun_def takeBump_def
  manualCheck_def manualAnnounce_def manualSend_def replaceBump_def SetNextCacheCompactAt_def NoteCacheCompactRun_def

lemma spaced_step: "compact_step s s' \<Longrightarrow> compact_inv s \<Longrightarrow>
    spaced (cl_runs s') \<and> (\<forall>r \<in> set (cl_runs s'). r \<le> cl_now s') \<and> spaced_pc s'"
proof (induction rule: compact_step.induct)
  case (compact s n)
  then show ?case by (auto simp: compact_inv_def spaced_pc_def runCompaction_def spaced_def split: prod.splits)
next
  case (clock s t)
  then show ?case by (force simp: compact_inv_def spaced_pc_def split: compact_pc.splits)
next
  case (fire s dl t)
  then show ?case by (force simp: compact_inv_def spaced_pc_def)
next
  case (deadline s i)
  then show ?case by (force simp: compact_inv_def spaced_pc_def)
next
  case (arm s dl i)
  then show ?case by (auto simp: compact_inv_def spaced_pc_def armTimer_def Let_def)
qed (auto simp: compact_inv_def spaced_pc_def compact_defs split: compact_pc.splits option.splits)

lemma announced_step: "compact_step s s' \<Longrightarrow> compact_inv s \<Longrightarrow> announced_pc s'"
proof (induction rule: compact_step.induct)
  case (compact s n)
  then show ?case by (auto simp: announced_pc_def runCompaction_def split: prod.splits)
next
  case (manual_send s)
  then show ?case
    by (auto simp: compact_inv_def announced_pc_def announced_ok_def loopBump_def manualSend_def split: compact_pc.splits option.splits)
qed (auto simp: compact_inv_def announced_pc_def announced_ok_def loopBump_def compact_defs Let_def split: compact_pc.splits option.splits)

lemma compact_reachable: "compact_step\<^sup>*\<^sup>* (compact_start now d) s \<Longrightarrow> compact_inv s"
proof (induction rule: rtranclp_induct)
  case base
  show ?case by (simp add: compact_start_def compact_inv_def spaced_def spaced_pc_def announced_pc_def)
next
  case (step y z)
  then show ?case using spaced_step announced_step by (auto simp: compact_inv_def)
qed

text \<open>After a run no row is left that was expired at the time of the run.\<close>

lemma run_leaves_fresh: "\<forall>c \<in> set (rd_CacheRecords (cl_data (runCompaction now s))). \<not> expired now c"
proof -
  have "rd_CacheRecords (cl_data (runCompaction now s)) = rd_CacheRecords (fst (CompactExpiredCacheRecords now (cl_data s)))"
    by (simp add: runCompaction_def split: prod.split)
  also have "\<dots> = filter (\<lambda>c. \<not> expired now c) (rd_CacheRecords (cl_data s))"
  proof (cases "filter (expired now) (rd_CacheRecords (cl_data s)) = []")
    case True
    then have "filter (\<lambda>c. \<not> expired now c) (rd_CacheRecords (cl_data s)) = rd_CacheRecords (cl_data s)"
      unfolding filter_empty_conv by (rule filter_True)
    then show ?thesis using True by (simp add: CompactExpiredCacheRecords_def Let_def del: filter_empty_conv)
  next
    case False
    then show ?thesis by (auto simp: CompactExpiredCacheRecords_def Let_def)
  qed
  finally show ?thesis by simp
qed

lemma run_step:
  "compact_step s s' \<Longrightarrow> cl_runs s' \<noteq> cl_runs s \<Longrightarrow> \<exists>n. cl_pc s = Compacting n \<and> s' = runCompaction n s"
  by (cases rule: compact_step.cases) (auto simp: compact_defs Let_def split: option.splits)

lemma cleared_step:
  "compact_step s s' \<Longrightarrow> cl_pc s' = Cleared_To_Run \<Longrightarrow> cl_pc s = Cleared_To_Run \<or> cl_pc s = Due \<and> compact_enabled (cl_data s)"
  by (cases rule: compact_step.cases)
    (auto simp: compact_defs Let_def runCompaction_def split: option.splits prod.splits if_splits)

lemma compacting_step:
  "compact_step s s' \<Longrightarrow> cl_pc s' = Compacting n \<Longrightarrow> cl_pc s = Compacting n \<or> cl_pc s = Cleared_To_Run"
  by (cases rule: compact_step.cases)
    (auto simp: compact_defs Let_def runCompaction_def split: option.splits prod.splits if_splits)

text \<open>C38.  The compaction loop keeps its schedule under every interleaving with manual compactions, changed settings,
  renewed initialisation and other work.  Automatic runs are at least a minute apart.  The loop is cleared to run only
  after its timer has fired and only when cache and compaction are enabled at that check; only then it reads the time
  and runs, and the run leaves no row that had expired by that time.  While the loop waits for its timer, the
  announced time of the next run is the deadline of the timer, provided that no wake-up is pending, no manual
  compaction is between its announcement and its wake-up, and the data have not been initialised again since the loop
  started; the timer fires at that deadline, or later when the deadline had passed before it was started.\<close>

theorem compaction_schedule:
  assumes "compact_step\<^sup>*\<^sup>* (compact_start now d) s"
  shows "spaced (cl_runs s) \<and>
     (\<forall>dl t. cl_pc s = AwaitTimer dl t \<longrightarrow> (t = dl \<or> dl + 60 * Second < t) \<and>
        (\<not> loopBump s \<and> Send_Bump \<notin> set (cl_manual s) \<and> cl_old s = None \<longrightarrow> rd_nextCacheCompactAt (cl_data s) = dl)) \<and>
     (\<forall>s'. compact_step s s' \<longrightarrow>
        (cl_pc s' = Cleared_To_Run \<longrightarrow> cl_pc s = Cleared_To_Run \<or> cl_pc s = Due \<and> compact_enabled (cl_data s)) \<and>
        (\<forall>n. cl_pc s' = Compacting n \<longrightarrow> cl_pc s = Compacting n \<or> cl_pc s = Cleared_To_Run) \<and>
        (cl_runs s' \<noteq> cl_runs s \<longrightarrow> (\<exists>n. cl_pc s = Compacting n \<and> n \<le> cl_now s \<and> cl_runs s' = n # cl_runs s \<and>
           (\<forall>c \<in> set (rd_CacheRecords (cl_data s')). \<not> expired n c))))"
proof -
  have inv: "compact_inv s" by (rule compact_reachable) (rule assms)
  have wait: "(t = dl \<or> dl + 60 * Second < t) \<and>
      (\<not> loopBump s \<and> Send_Bump \<notin> set (cl_manual s) \<and> cl_old s = None \<longrightarrow> rd_nextCacheCompactAt (cl_data s) = dl)"
    if "cl_pc s = AwaitTimer dl t" for dl t
    using inv that by (auto simp: compact_inv_def spaced_pc_def announced_pc_def announced_ok_def)
  have run: "\<exists>n. cl_pc s = Compacting n \<and> n \<le> cl_now s \<and> cl_runs s' = n # cl_runs s \<and> (\<forall>c \<in> set (rd_CacheRecords (cl_data s')). \<not> expired n c)"
    if s': "compact_step s s'" "cl_runs s' \<noteq> cl_runs s" for s'
  proof -
    obtain n where n: "cl_pc s = Compacting n" "s' = runCompaction n s" using run_step [OF s'] by blast
    have "n \<le> cl_now s" using inv n(1) by (simp add: compact_inv_def spaced_pc_def)
    moreover have "cl_runs s' = n # cl_runs s" by (simp add: n(2) runCompaction_def split: prod.split)
    ultimately show ?thesis using n run_leaves_fresh [of n s] by blast
  qed
  have "spaced (cl_runs s)" using inv by (simp add: compact_inv_def)
  then show ?thesis using wait run cleared_step compacting_step by blast
qed

subsection \<open>Probes of the upstream servers\<close>

text \<open>What the exchange with a server gave, and the verdict.\<close>

datatype probe_reply = ProbeError gostr | ProbeNil | ProbeRcode int

definition probeVerdict :: "probe_reply \<Rightarrow> bool \<times> gostr" where
  "probeVerdict r = (case r of
      ProbeError e \<Rightarrow> (False, e)
    | ProbeNil \<Rightarrow> (False, ''nil response'')
    | ProbeRcode c \<Rightarrow> if c \<noteq> 0 \<and> c \<noteq> 3 then (False, ''rcode '' @ dec_int c) else (True, []))"

definition probeInterval :: "Config \<Rightarrow> duration" where
  "probeInterval cfg = (let interval = cf_UpstreamHealthCheckIntervalSeconds cfg * Second in if interval < 5 * Second then 30 * Second else interval)"

definition probeName :: "Config \<Rightarrow> gostr" where
  "probeName cfg = (let qname = TrimSpace (cf_UpstreamHealthCheckQueryName cfg); qname = (if qname = [] then ''google.com.'' else qname)
     in if \<not> HasSuffix qname ''.'' then qname @ ''.'' else qname)"

text \<open>A round over the servers: the exchange with the \<open>i\<close>-th one ends at \<open>fst (ask i)\<close>; the settings are read again when the
  result is applied.\<close>

fun probeServers :: "(nat \<Rightarrow> gotime \<times> Config \<times> probe_reply) \<Rightarrow> nat \<Rightarrow> dns_server list \<Rightarrow> health_tracker option \<Rightarrow> health_tracker option" where
  "probeServers ask i [] h = h"
| "probeServers ask i (s # ss) h =
     (if \<not> srv_Active s then probeServers ask (Suc i) ss h
      else
        let key = HealthKey (ServerToEndpoint s); (now, cfg, reply) = ask i; (ok, errStr) = probeVerdict reply
        in probeServers ask (Suc i) ss (fst (ApplyUpstreamProbeResult now cfg key ok errStr h)))"

text \<open>One turn of the loop: the tracker afterwards and the time the loop sleeps.\<close>

definition probeTurn :: "Config \<Rightarrow> (nat \<Rightarrow> gotime \<times> Config \<times> probe_reply) \<Rightarrow> dns_server list \<Rightarrow> health_tracker option \<Rightarrow> health_tracker option \<times> duration" where
  "probeTurn cfg ask servers h =
     (if \<not> cf_UpstreamHealthCheckEnabled cfg then (h, 10 * Second) else (probeServers ask 0 servers h, probeInterval cfg))"

fun probe_event :: "gostr \<Rightarrow> gotime \<times> Config \<times> probe_reply \<Rightarrow> health_event" where
  "probe_event key (now, cfg, reply) =
     (case probeVerdict reply of (ok, errStr) \<Rightarrow> if ok then EvSuccess now key else EvFail now key errStr)"

fun probe_events :: "(nat \<Rightarrow> gotime \<times> Config \<times> probe_reply) \<Rightarrow> nat \<Rightarrow> dns_server list \<Rightarrow> health_event list" where
  "probe_events ask i [] = []"
| "probe_events ask i (s # ss) =
     (if \<not> srv_Active s then probe_events ask (Suc i) ss
      else probe_event (HealthKey (ServerToEndpoint s)) (ask i) # probe_events ask (Suc i) ss)"

definition steady :: "int \<Rightarrow> (nat \<Rightarrow> gotime \<times> Config \<times> probe_reply) \<Rightarrow> bool" where
  "steady th ask \<longleftrightarrow> (\<forall>i. cf_UpstreamHealthCheckEnabled (fst (snd (ask i))) \<and> cf_UpstreamHealthCheckFailures (fst (snd (ask i))) = th)"

lemma ProbeFail_threshold: "th \<le> 0 \<Longrightarrow> ProbeFail now key e 3 t = ProbeFail now key e th t"
  by (simp add: ProbeFail_def)

lemma apply_probe:
  assumes "steady th ask"
  shows "(case ask i of (now, cfg, reply) \<Rightarrow> case probeVerdict reply of (ok, e) \<Rightarrow> fst (ApplyUpstreamProbeResult now cfg key ok e (Some t))) =
           Some (health_step th (probe_event key (ask i)) t)"
proof -
  obtain now cfg reply ok e where a: "ask i = (now, cfg, reply)" "probeVerdict reply = (ok, e)" by (metis prod.exhaust)
  have c: "cf_UpstreamHealthCheckEnabled cfg" "cf_UpstreamHealthCheckFailures cfg = th"
    using assms [unfolded steady_def, rule_format, of i] a(1) by simp_all
  show ?thesis
    by (simp add: a ApplyUpstreamProbeResult_def c Let_def ProbeFail_threshold ProbeOK_def split: prod.split)
qed

lemma probeServers_events:
  "steady th ask \<Longrightarrow> probeServers ask i ss (Some t) = Some (fold (health_step th) (probe_events ask i ss) t)"
proof (induction ss arbitrary: i t)
  case (Cons s ss)
  obtain now cfg reply ok e where a: "ask i = (now, cfg, reply)" "probeVerdict reply = (ok, e)" by (metis prod.exhaust)
  have "fst (ApplyUpstreamProbeResult now cfg (HealthKey (ServerToEndpoint s)) ok e (Some t)) =
      Some (health_step th (probe_event (HealthKey (ServerToEndpoint s)) (ask i)) t)"
    using apply_probe [OF Cons.prems, where i = i and key = "HealthKey (ServerToEndpoint s)" and t = t] by (simp add: a)
  then show ?case using Cons by (simp add: Let_def a)
qed simp

fun probeTurns :: "dns_server list \<Rightarrow> (nat \<Rightarrow> gotime \<times> Config \<times> probe_reply) list \<Rightarrow> health_tracker option \<Rightarrow> health_tracker option" where
  "probeTurns servers [] h = h"
| "probeTurns servers (ask # asks) h = probeTurns servers asks (fst (probeTurn (fst (snd (ask 0))) ask servers h))"

lemma probeTurns_events:
  "\<forall>ask \<in> set asks. steady th ask \<Longrightarrow>
   probeTurns servers asks (Some t) = Some (fold (health_step th) (concat (map (\<lambda>ask. probe_events ask 0 servers) asks)) t)"
proof (induction asks arbitrary: t)
  case (Cons ask asks)
  then have "steady th ask" by simp
  then have "probeTurn (fst (snd (ask 0))) ask servers (Some t) = (Some (fold (health_step th) (probe_events ask 0 servers) t), probeInterval (fst (snd (ask 0))))"
    using probeServers_events by (simp add: probeTurn_def steady_def)
  then show ?case using Cons by simp
qed simp

definition asked :: "gostr \<Rightarrow> dns_server list \<Rightarrow> nat list" where
  "asked key ss = filter (\<lambda>j. srv_Active (ss ! j) \<and> HealthKey (ServerToEndpoint (ss ! j)) = key) [0..<length ss]"

lemma asked_Cons:
  "asked key (s # ss) = (if srv_Active s \<and> HealthKey (ServerToEndpoint s) = key then [0] else []) @ map Suc (asked key ss)"
proof -
  have "[0..<length (s # ss)] = 0 # map Suc [0..<length ss]" by (simp add: upt_conv_Cons map_Suc_upt del: upt_Suc)
  then show ?thesis by (simp add: asked_def filter_map comp_def)
qed

lemma probe_event_key [simp]: "ev_key (probe_event key r) = key"
  by (cases r) (simp split: prod.split)

lemma probe_events_of:
  "filter (\<lambda>ev. ev_key ev = key) (probe_events ask i ss) = map (\<lambda>j. probe_event key (ask (i + j))) (asked key ss)"
  by (induction ss arbitrary: i) (simp_all add: asked_Cons, simp_all add: asked_def)

abbreviation probe_failed :: "gotime \<times> Config \<times> probe_reply \<Rightarrow> bool" where
  "probe_failed r \<equiv> \<not> fst (probeVerdict (snd (snd r)))"

lemma probe_event_fails: "is_fail (probe_event key r) \<longleftrightarrow> probe_failed r"
  by (cases r) (simp split: prod.split)

text \<open>A server is taken out by exactly as many failed rounds as the threshold says.  While the probes are enabled
  with one threshold, and no other active server has its address, a server is unhealthy after some rounds exactly
  when at least that many of the most recent rounds failed for it; the replies of the other servers, and their
  number and order, do not matter.\<close>

theorem probe_rounds_threshold:
  assumes "key \<noteq> []" "asked key servers = [j]" "\<forall>ask \<in> set asks. steady th ask"
  shows "\<exists>t. probeTurns servers asks (Some NewUpstreamHealthTracker) = Some t \<and>
     (IsUnhealthy t key \<longleftrightarrow> (if th \<le> 0 then 3 else th) \<le> int (length (takeWhile (\<lambda>ask. probe_failed (ask j)) (rev asks))))"
proof -
  let ?evs = "concat (map (\<lambda>ask. probe_events ask 0 servers) asks)"
  have "filter (\<lambda>ev. ev_key ev = key) ?evs = map (\<lambda>ask. probe_event key (ask j)) asks"
    by (induction asks) (simp_all add: probe_events_of assms(2))
  then have n: "trailing_failures key ?evs = length (takeWhile (\<lambda>ask. probe_failed (ask j)) (rev asks))"
    by (simp add: trailing_failures_def rev_map takeWhile_map comp_def probe_event_fails)
  have "IsUnhealthy t key \<longleftrightarrow> he_unhealthy (ensure t key)" for t
    by (simp add: IsUnhealthy_def ensure_def empty_entry_def split: option.split)
  then show ?thesis
    using probeTurns_events [OF assms(3), of servers NewUpstreamHealthTracker] health_run_entry [OF assms(1), of th ?evs] n by simp
qed

subsection \<open>The query that keeps the process warm\<close>

text \<open>The time to sleep and, when the loop is enabled, the address that is asked for \<open>localhost.\<close> afterwards.\<close>

definition warmTurn :: "Config \<Rightarrow> gostr \<Rightarrow> duration \<times> gostr option" where
  "warmTurn cfg dnsPort =
     (if \<not> cf_CacheWarmEnabled cfg then (30 * Second, None)
      else
        let interval = cf_CacheWarmIntervalSeconds cfg * Second; interval = (if interval < 1 * Second then 10 * Second else interval);
            port = TrimSpace dnsPort; port = (if port = [] then ''53'' else port)
        in (interval, Some (''127.0.0.1:'' @ port)))"

subsection \<open>The watch on a directory of zone files\<close>

text \<open>\<open>wt_changes\<close> and \<open>wt_reloads\<close>, newest first, are not in the code: when an event of the directory was handled and when
  a reload began.\<close>

record watch =
  wt_now :: gotime
  wt_timer :: "gotime option"
  wt_stop :: bool
  wt_running :: bool
  wt_changes :: "gotime list"
  wt_reloads :: "gotime list"

definition bindDirWatchDebounce :: duration where
  "bindDirWatchDebounce = 500000000"

definition startBindDirWatch :: "gotime \<Rightarrow> watch" where
  "startBindDirWatch now = \<lparr>wt_now = now, wt_timer = None, wt_stop = False, wt_running = True, wt_changes = [], wt_reloads = []\<rparr>"

definition schedule :: "watch \<Rightarrow> watch" where
  "schedule w = w\<lparr>wt_timer := Some (wt_now w + bindDirWatchDebounce), wt_changes := wt_now w # wt_changes w\<rparr>"

text \<open>A fired timer starts the reload in a goroutine of its own.  The loop ends when it is told to, and then stops the
  timer, or when the channels of the watcher are closed.\<close>

inductive watch_step :: "watch \<Rightarrow> watch \<Rightarrow> bool" where
  changed: "wt_running w \<Longrightarrow> watch_step w (schedule w)"
| expires: "wt_timer w = Some t \<Longrightarrow> t \<le> wt_now w \<Longrightarrow>
    watch_step w (w\<lparr>wt_timer := None, wt_reloads := wt_now w # wt_reloads w\<rparr>)"
| asked_to_stop: "watch_step w (w\<lparr>wt_stop := True\<rparr>)"
| stops: "wt_running w \<Longrightarrow> wt_stop w \<Longrightarrow> watch_step w (w\<lparr>wt_running := False, wt_timer := None\<rparr>)"
| watcher_ends: "wt_running w \<Longrightarrow> watch_step w (w\<lparr>wt_running := False\<rparr>)"
| passes: "wt_now w \<le> t \<Longrightarrow> watch_step w (w\<lparr>wt_now := t\<rparr>)"

definition followed :: "watch \<Rightarrow> gotime \<Rightarrow> bool" where
  "followed w c \<longleftrightarrow> (\<exists>r \<in> set (wt_reloads w). c + bindDirWatchDebounce \<le> r) \<or>
     (\<exists>t. wt_timer w = Some t \<and> c + bindDirWatchDebounce \<le> t)"

definition watch_inv :: "watch \<Rightarrow> bool" where
  "watch_inv w \<longleftrightarrow>
     (\<forall>c \<in> set (wt_changes w). c \<le> wt_now w \<and> (followed w c \<or> wt_stop w \<and> \<not> wt_running w)) \<and>
     (\<forall>r \<in> set (wt_reloads w). r \<le> wt_now w \<and> (\<forall>t. wt_timer w = Some t \<longrightarrow> r + bindDirWatchDebounce \<le> t)) \<and>
     sorted_wrt (\<lambda>later earlier. earlier + bindDirWatchDebounce \<le> later) (wt_reloads w) \<and>
     length (wt_reloads w) + (if wt_timer w = None then 0 else 1) \<le> length (wt_changes w)"

lemma watch_step_inv: "watch_step w w' \<Longrightarrow> watch_inv w \<Longrightarrow> watch_inv w'"
proof (induction rule: watch_step.induct)
  case (changed w)
  then show ?case
    by (force simp: watch_inv_def schedule_def followed_def)
next
  case (expires w t)
  then show ?case by (force simp: watch_inv_def followed_def)
next
  case (passes w t)
  then show ?case by (force simp: watch_inv_def followed_def)
qed (auto simp: watch_inv_def followed_def)

text \<open>No change of the directory is lost and none makes the server reload in a storm: until the watch is told to
  stop, every handled change is followed by a reload that begins at least half a second later, or by a timer that
  is still armed for such a time; reloads begin at least half a second apart and there are never more of them than
  changes.\<close>

theorem watch_follows_changes:
  assumes "watch_step\<^sup>*\<^sup>* (startBindDirWatch now) w"
  shows "(\<forall>c \<in> set (wt_changes w). followed w c \<or> wt_stop w \<and> \<not> wt_running w) \<and>
     sorted_wrt (\<lambda>later earlier. earlier + bindDirWatchDebounce \<le> later) (wt_reloads w) \<and>
     length (wt_reloads w) \<le> length (wt_changes w)"
proof -
  have "watch_inv w"
    using assms by (induction rule: rtranclp_induct) (simp add: watch_inv_def startBindDirWatch_def, rule watch_step_inv)
  then show ?thesis by (auto simp: watch_inv_def split: if_splits)
qed

subsection \<open>The log\<close>

record lumberjack =
  lj_Filename :: gostr
  lj_MaxSize :: int
  lj_MaxAge :: int
  lj_MaxBackups :: int

definition buildLumberjack :: "gostr \<Rightarrow> LogConfig \<Rightarrow> lumberjack" where
  "buildLumberjack logPath c =
     (if log_Rotation c = ''size''
      then \<lparr>lj_Filename = logPath, lj_MaxSize = (if log_RotationSizeMB c \<le> 0 then 100 else log_RotationSizeMB c),
            lj_MaxAge = log_RotationDays c, lj_MaxBackups = 3\<rparr>
      else if log_Rotation c = ''time''
      then \<lparr>lj_Filename = logPath, lj_MaxSize = 0, lj_MaxAge = (if log_RotationDays c \<le> 0 then 7 else log_RotationDays c), lj_MaxBackups = 3\<rparr>
      else \<lparr>lj_Filename = logPath, lj_MaxSize = 0, lj_MaxAge = 0, lj_MaxBackups = 0\<rparr>)"

definition isSeverityNone :: "gostr \<Rightarrow> bool" where
  "isSeverityNone severity = EqualFold severity ''none''"

text \<open>\<^verbatim>\<open>slog\<close> levels are integers: debug -4, info 0, warn 4, error 8.\<close>

definition levelFromSeverity :: "gostr \<Rightarrow> int" where
  "levelFromSeverity severity =
     (let s = ToLower severity in
      if s = ''none'' then 8 + 1000 else if s = ''debug'' then -4 else if s = ''info'' then 0
      else if s \<in> set [''warn'', ''warning''] then 4 else if s = ''error'' then 8 else 0)"

text \<open>The check before a write: the time of the last check, and whether the file is rotated.  The file's time of
  modification is \<open>None\<close> when it cannot be read.\<close>

record throttleRotateWriter =
  rw_lastCheck :: gotime
  rw_maxAgeDays :: int
  rw_rotateByTime :: bool

definition newRotateWriter :: "LogConfig \<Rightarrow> throttleRotateWriter" where
  "newRotateWriter c = \<lparr>rw_lastCheck = 0, rw_maxAgeDays = log_RotationDays c, rw_rotateByTime = True\<rparr>"

definition rotateCheck :: "gotime \<Rightarrow> gotime option \<Rightarrow> throttleRotateWriter \<Rightarrow> throttleRotateWriter \<times> bool" where
  "rotateCheck now modTime w =
     (if rw_rotateByTime w \<and> time_Sub now (rw_lastCheck w) > 300 * Second
      then (w\<lparr>rw_lastCheck := now\<rparr>,
            case modTime of None \<Rightarrow> False
            | Some m \<Rightarrow> m < now + sint (- (word_of_int (rw_maxAgeDays w) * 24 * 3600000000000) :: 64 word))
      else (w, False))"

text \<open>Writes at the given instants, each of which is then the file's time of modification: which of them rotated.\<close>

fun log_writes :: "gotime list \<Rightarrow> gotime option \<Rightarrow> throttleRotateWriter \<Rightarrow> bool list" where
  "log_writes [] m w = []"
| "log_writes (t # ts) m w = (let (w', rot) = rotateCheck t m w in rot # log_writes ts (Some t) w')"

text \<open>No pause is longer than the age.\<close>

fun steady_writes :: "int \<Rightarrow> gotime option \<Rightarrow> gotime list \<Rightarrow> bool" where
  "steady_writes age m [] = True"
| "steady_writes age m (t # ts) = ((case m of None \<Rightarrow> True | Some m \<Rightarrow> t - age \<le> m) \<and> steady_writes age (Some t) ts)"

lemma rotateCheck_age: "rw_maxAgeDays (fst (rotateCheck t m w)) = rw_maxAgeDays w"
  by (simp add: rotateCheck_def)

lemma age_in_range:
  assumes "0 \<le> d" "d \<le> 106751"
  shows "sint (- (word_of_int d * 24 * 3600000000000) :: 64 word) = - (d * 86400 * Second)"
proof -
  have "- (word_of_int d * 24 * 3600000000000) = (word_of_int (- (d * 86400 * Second)) :: 64 word)" by simp
  moreover have "sint (word_of_int (- (d * 86400 * Second)) :: 64 word) = - (d * 86400 * Second)"
    unfolding int_word_sint by (subst mod_pos_pos_trivial) (use assms in simp_all)
  ultimately show ?thesis by simp
qed

text \<open>A log that is written to at least once in the configured age is never rotated by time.\<close>

theorem busy_log_never_rotates:
  assumes "0 \<le> rw_maxAgeDays w" "rw_maxAgeDays w \<le> 106751" "steady_writes (rw_maxAgeDays w * 86400 * Second) m ts"
  shows "True \<notin> set (log_writes ts m w)"
  using assms
proof (induction ts arbitrary: m w)
  case (Cons t ts)
  have no: "\<not> snd (rotateCheck t m w)"
    using Cons.prems age_in_range [of "rw_maxAgeDays w"] by (auto simp: rotateCheck_def split: option.splits)
  have "log_writes (t # ts) m w = snd (rotateCheck t m w) # log_writes ts (Some t) (fst (rotateCheck t m w))"
    by (simp add: case_prod_beta Let_def)
  moreover have "True \<notin> set (log_writes ts (Some t) (fst (rotateCheck t m w)))"
    by (rule Cons.IH) (use Cons.prems in \<open>simp_all add: rotateCheck_age\<close>)
  ultimately show ?case using no by simp
qed simp

subsection \<open>The queue of the log\<close>

text \<open>Callbacks wait in a channel for one worker.  \<open>aq_run\<close> is not in the code: the callbacks that have run.  A send on a
  closed channel panics, also inside \<^verbatim>\<open>select\<close>: that is \<open>None\<close>.\<close>

record 'f AsyncLogQueue =
  aq_size :: nat
  aq_ch :: "'f list"
  aq_closed :: bool
  aq_run :: "'f list"

definition NewAsyncLogQueue :: "int \<Rightarrow> 'f AsyncLogQueue" where
  "NewAsyncLogQueue n = \<lparr>aq_size = nat (if n \<le> 0 then 10000 else n), aq_ch = [], aq_closed = False, aq_run = []\<rparr>"

definition Enqueue :: "'f \<Rightarrow> 'f AsyncLogQueue \<Rightarrow> 'f AsyncLogQueue option" where
  "Enqueue f q =
     (if aq_closed q then None
      else if length (aq_ch q) < aq_size q then Some (q\<lparr>aq_ch := aq_ch q @ [f]\<rparr>) else Some q)"

definition log_worker :: "'f AsyncLogQueue \<Rightarrow> 'f AsyncLogQueue" where
  "log_worker q = (case aq_ch q of [] \<Rightarrow> q | f # fs \<Rightarrow> q\<lparr>aq_ch := fs, aq_run := aq_run q @ [f]\<rparr>)"

text \<open>\<^verbatim>\<open>Close\<close> closes the channel once and waits until the worker has emptied it.\<close>

definition CloseQueue :: "'f AsyncLogQueue \<Rightarrow> 'f AsyncLogQueue" where
  "CloseQueue q = (if aq_closed q then q else q\<lparr>aq_closed := True, aq_ch := [], aq_run := aq_run q @ aq_ch q\<rparr>)"

lemma close_is_the_worker: "\<not> aq_closed q \<Longrightarrow> CloseQueue q = (log_worker ^^ length (aq_ch q)) (q\<lparr>aq_closed := True\<rparr>)"
proof -
  have "(log_worker ^^ length fs) (q\<lparr>aq_closed := True, aq_ch := fs, aq_run := rs\<rparr>) = q\<lparr>aq_closed := True, aq_ch := [], aq_run := rs @ fs\<rparr>"
    for fs rs :: "'a list"
    by (induction fs arbitrary: rs) (simp_all add: funpow_swap1 log_worker_def)
  from this [of "aq_ch q" "aq_run q"] show "\<not> aq_closed q \<Longrightarrow> ?thesis" by (simp add: CloseQueue_def)
qed

datatype 'f queue_op = Put 'f | Work

fun queue_event :: "'f queue_op \<Rightarrow> 'f AsyncLogQueue option \<Rightarrow> 'f AsyncLogQueue option" where
  "queue_event (Put f) q = Option.bind q (Enqueue f)"
| "queue_event Work q = map_option log_worker q"

definition puts :: "'f queue_op list \<Rightarrow> 'f list" where
  "puts evs = List.map_filter (\<lambda>e. case e of Put f \<Rightarrow> Some f | Work \<Rightarrow> None) evs"

lemma puts_simps [simp]: "puts [] = []" "puts (evs @ [Put f]) = puts evs @ [f]" "puts (evs @ [Work]) = puts evs"
  by (simp_all add: puts_def List.map_filter_def)

lemma queue_open:
  "\<exists>q. fold queue_event evs (Some (NewAsyncLogQueue n)) = Some q \<and> \<not> aq_closed q \<and> length (aq_ch q) \<le> aq_size q \<and>
     aq_size q = nat (if n \<le> 0 then 10000 else n) \<and> subseq (aq_run q @ aq_ch q) (puts evs) \<and>
     (length (puts evs) \<le> aq_size q \<longrightarrow> aq_run q @ aq_ch q = puts evs)"
proof (induction evs rule: rev_induct)
  case Nil
  then show ?case by (simp add: NewAsyncLogQueue_def)
next
  case (snoc e evs)
  then obtain q where q: "fold queue_event evs (Some (NewAsyncLogQueue n)) = Some q" "\<not> aq_closed q" "length (aq_ch q) \<le> aq_size q"
    "aq_size q = nat (if n \<le> 0 then 10000 else n)" "subseq (aq_run q @ aq_ch q) (puts evs)"
    "length (puts evs) \<le> aq_size q \<longrightarrow> aq_run q @ aq_ch q = puts evs" by blast
  show ?case
  proof (cases e)
    case (Put f)
    show ?thesis
    proof (cases "length (aq_ch q) < aq_size q")
      case True
      have "subseq ((aq_run q @ aq_ch q) @ [f]) (puts evs @ [f])" using q(5) by (intro list_emb_append_mono) simp_all
      then show ?thesis using q True Put by (simp add: Enqueue_def)
    next
      case False
      have "\<not> length (puts evs @ [f]) \<le> aq_size q"
        using q(5) False list_emb_length by fastforce
      then show ?thesis using q False Put list_emb_append2 [of "(=)" "aq_run q @ aq_ch q" "puts evs"]
        by (auto simp: Enqueue_def intro: subseq_order.order_trans)
    qed
  next
    case Work
    then show ?thesis using q by (cases "aq_ch q") (simp_all add: log_worker_def)
  qed
qed

text \<open>The log queue never blocks and loses only what does not fit: under every interleaving of callers and worker, the
  callbacks that ran when the queue has been closed are among those that were handed in, in their order and each at
  most as often as it was handed in; when no more were handed in than the queue holds, all of them ran.  A caller that
  comes after the end makes the program panic.\<close>

theorem log_queue_drains:
  "\<exists>q. fold queue_event evs (Some (NewAsyncLogQueue n)) = Some q \<and> subseq (aq_run (CloseQueue q)) (puts evs) \<and> aq_ch (CloseQueue q) = [] \<and>
     (int (length (puts evs)) \<le> (if n \<le> 0 then 10000 else n) \<longrightarrow> aq_run (CloseQueue q) = puts evs) \<and> Enqueue f (CloseQueue q) = None"
proof -
  obtain q where q: "fold queue_event evs (Some (NewAsyncLogQueue n)) = Some q" "\<not> aq_closed q"
    "aq_size q = nat (if n \<le> 0 then 10000 else n)" "subseq (aq_run q @ aq_ch q) (puts evs)"
    "length (puts evs) \<le> aq_size q \<longrightarrow> aq_run q @ aq_ch q = puts evs" using queue_open by blast
  have "int (length (puts evs)) \<le> (if n \<le> 0 then 10000 else n) \<Longrightarrow> length (puts evs) \<le> aq_size q"
    unfolding q(3) by (simp split: if_splits)
  then show ?thesis using q by (intro exI [of _ q]) (simp add: CloseQueue_def Enqueue_def)
qed

theorem log_queue_drains_witness:
  "\<exists>q. fold queue_event [Put (1::nat), Put 2, Work, Put 3] (Some (NewAsyncLogQueue 3)) = Some q \<and> aq_run (CloseQueue q) = [1, 2, 3]"
  using log_queue_drains [of "[Put (1::nat), Put 2, Work, Put 3]" 3 0] by (auto simp: puts_def List.map_filter_def)

subsection \<open>Concrete runs\<close>

definition sample_upstream :: "gostr \<Rightarrow> dns_server" where
  "sample_upstream a = empty_server\<lparr>srv_Address := a, srv_Port := ''53'', srv_Active := True\<rparr>"

definition sample_ask :: "probe_reply \<Rightarrow> nat \<Rightarrow> gotime \<times> Config \<times> probe_reply" where
  "sample_ask r i = (5, empty_Config\<lparr>cf_UpstreamHealthCheckEnabled := True, cf_UpstreamHealthCheckFailures := 2\<rparr>, if i = 1 then r else ProbeRcode 0)"

text \<open>Two servers; the second one fails twice, with an error and with SERVFAIL.\<close>

theorem probe_rounds_threshold_witness:
  "\<exists>t. probeTurns [sample_upstream ''10.0.0.1'', sample_upstream ''10.0.0.2''] [sample_ask (ProbeRcode 3), sample_ask ProbeNil, sample_ask (ProbeRcode 2)]
      (Some NewUpstreamHealthTracker) = Some t \<and> IsUnhealthy t ''10.0.0.2:53''"
proof -
  have a: "asked ''10.0.0.2:53'' [sample_upstream ''10.0.0.1'', sample_upstream ''10.0.0.2''] = [1]" by code_simp
  have s: "\<forall>ask \<in> set [sample_ask (ProbeRcode 3), sample_ask ProbeNil, sample_ask (ProbeRcode 2)]. steady 2 ask"
    by (simp add: steady_def sample_ask_def)
  show ?thesis using probe_rounds_threshold [OF _ a s] by (simp add: sample_ask_def probeVerdict_def)
qed

text \<open>Two changes in quick succession and one reload.\<close>

theorem watch_follows_changes_witness:
  "\<exists>w. watch_step\<^sup>*\<^sup>* (startBindDirWatch 0) w \<and> wt_reloads w = [500000100] \<and> followed w 100"
proof -
  let ?w0 = "startBindDirWatch 0" and ?w1 = "schedule (startBindDirWatch 0)"
  let ?w2 = "?w1\<lparr>wt_now := 100\<rparr>"
  let ?w3 = "(schedule ?w2)\<lparr>wt_now := 500000100\<rparr>"
  let ?w4 = "?w3\<lparr>wt_timer := None, wt_reloads := [500000100]\<rparr>"
  have 1: "watch_step ?w0 ?w1" by (rule changed) (simp add: startBindDirWatch_def)
  have 2: "watch_step ?w1 ?w2" by (rule passes) (simp add: startBindDirWatch_def schedule_def)
  have 3: "watch_step ?w2 (schedule ?w2)" by (rule changed) (simp add: startBindDirWatch_def schedule_def)
  have 4: "watch_step (schedule ?w2) ?w3" by (rule passes) (simp add: startBindDirWatch_def schedule_def)
  have 5: "watch_step ?w3 ?w4"
    using expires [of ?w3 500000100] by (simp add: startBindDirWatch_def schedule_def bindDirWatchDebounce_def)
  have run: "watch_step\<^sup>*\<^sup>* ?w0 ?w4" using 1 2 3 4 5 by (meson converse_rtranclp_into_rtranclp rtranclp.rtrancl_refl)
  have "followed ?w4 100" using watch_follows_changes [OF run] by (simp add: startBindDirWatch_def schedule_def)
  then show ?thesis using run by (intro exI [of _ ?w4]) simp
qed

text \<open>The cache of an empty server is compacted half an hour after the start.\<close>

definition compacting_data :: resolver_data where
  "compacting_data = empty_data\<lparr>rd_Settings := (rd_Settings empty_data)\<lparr>cf_CacheRecords := True, cf_CacheCompactEnabled := True\<rparr>\<rparr>"

definition scheduled :: "gotime \<Rightarrow> bool \<Rightarrow> resolver_data" where
  "scheduled next tok = compacting_data\<lparr>rd_nextCacheCompactAt := next, rd_cacheCompactBump := tok\<rparr>"

definition waiting_loop :: "gotime \<Rightarrow> gotime \<Rightarrow> bool option \<Rightarrow> manual_bump list \<Rightarrow> bool \<Rightarrow> compact_loop" where
  "waiting_loop next now old manual tok = \<lparr>cl_data = scheduled next tok,
     cl_pc = AwaitTimer (1800 * Second) (1800 * Second), cl_now = now, cl_old = old, cl_manual = manual, cl_runs = []\<rparr>"

lemma compacting_data_facts [simp]: "compact_enabled compacting_data" "compact_interval compacting_data = 1800 * Second"
  "compact_enabled (scheduled a b)" "compact_interval (scheduled a b) = 1800 * Second"
  "rd_nextCacheCompactAt (scheduled a b) = a" "rd_cacheCompactBump (scheduled a b) = b"
  "(scheduled a b)\<lparr>rd_nextCacheCompactAt := a'\<rparr> = scheduled a' b" "(scheduled a b)\<lparr>rd_cacheCompactBump := b'\<rparr> = scheduled a b'"
  "compacting_data\<lparr>rd_nextCacheCompactAt := a\<rparr> = scheduled a False"
  by (simp_all add: scheduled_def compacting_data_def compact_enabled_def compact_interval_def CacheCompactInterval_def empty_data_def empty_Config_def)

lemma waiting_reached: "compact_step\<^sup>*\<^sup>* (compact_start 0 compacting_data) (waiting_loop (1800 * Second) 0 None [] False)"
proof -
  let ?s0 = "compact_start 0 compacting_data"
  let ?s1 = "?s0\<lparr>cl_pc := Arming (1800 * Second)\<rparr>"
  let ?s2 = "?s0\<lparr>cl_pc := Announcing (1800 * Second) (1800 * Second)\<rparr>"
  let ?s3 = "announceDeadline (1800 * Second) (1800 * Second) ?s2"
  have "compact_step ?s0 ?s1" using top [of ?s0] by (simp add: checkTop_def compact_start_def)
  moreover have "compact_step ?s1 ?s2" using deadline [of ?s1 "1800 * Second"] by (simp add: compact_start_def)
  moreover have "compact_step ?s2 ?s3" by (rule announce) simp
  moreover have "armTimer (1800 * Second) (1800 * Second) ?s3 = waiting_loop (1800 * Second) 0 None [] False"
    by (simp add: armTimer_def announceDeadline_def compact_start_def waiting_loop_def SetNextCacheCompactAt_def)
  then have "compact_step ?s3 (waiting_loop (1800 * Second) 0 None [] False)"
    using arm [of ?s3 "1800 * Second" "1800 * Second"] by (simp add: announceDeadline_def)
  ultimately show ?thesis by (meson converse_rtranclp_into_rtranclp rtranclp.rtrancl_refl)
qed

theorem compaction_schedule_witness:
  "\<exists>s. compact_step\<^sup>*\<^sup>* (compact_start 0 compacting_data) s \<and> cl_pc s = AwaitTimer (1800 * Second) (1800 * Second) \<and>
     rd_nextCacheCompactAt (cl_data s) = 1800 * Second"
proof -
  let ?s = "waiting_loop (1800 * Second) 0 None [] False"
  have "cl_pc ?s = AwaitTimer (1800 * Second) (1800 * Second)" "\<not> loopBump ?s" "Send_Bump \<notin> set (cl_manual ?s)" "cl_old ?s = None"
    by (simp_all add: waiting_loop_def loopBump_def)
  then show ?thesis using compaction_schedule [OF waiting_reached] waiting_reached by blast
qed

text \<open>After the data were initialised again, a manual compaction one minute later announces a time at which the timer
  of the loop does not fire, and no wake-up is left to correct it.\<close>

theorem replaced_bump_misannounces:
  "\<exists>s. compact_step\<^sup>*\<^sup>* (compact_start 0 compacting_data) s \<and> cl_pc s = AwaitTimer (1800 * Second) (1800 * Second) \<and>
     rd_nextCacheCompactAt (cl_data s) = 1860 * Second \<and> \<not> loopBump s \<and> cl_manual s = []"
proof -
  let ?w = "\<lambda>next now m tok. waiting_loop next now (Some False) m tok"
  have "compact_step (waiting_loop (1800 * Second) 0 None [] False) (?w (1800 * Second) 0 [] False)"
    using reinit [of "cl_data (waiting_loop (1800 * Second) 0 None [] False)" "waiting_loop (1800 * Second) 0 None [] False"]
    by (simp add: waiting_loop_def replaceBump_def loopBump_def)
  moreover have "compact_step (?w (1800 * Second) 0 [] False) (?w (1800 * Second) (60 * Second) [] False)"
    using clock [of "?w (1800 * Second) 0 [] False" "60 * Second"] by (simp add: waiting_loop_def)
  moreover have "compact_step (?w (1800 * Second) (60 * Second) [] False) (?w (1800 * Second) (60 * Second) [Announce_At (1860 * Second)] False)"
    using manual_check [of "?w (1800 * Second) (60 * Second) [] False"] by (simp add: waiting_loop_def manualCheck_def)
  moreover have "compact_step (?w (1800 * Second) (60 * Second) [Announce_At (1860 * Second)] False) (?w (1860 * Second) (60 * Second) [Send_Bump] False)"
    using manual_announce [of "1860 * Second" "?w (1800 * Second) (60 * Second) [Announce_At (1860 * Second)] False"]
    by (simp add: waiting_loop_def manualAnnounce_def SetNextCacheCompactAt_def)
  moreover have "compact_step (?w (1860 * Second) (60 * Second) [Send_Bump] False) (?w (1860 * Second) (60 * Second) [] True)"
    using manual_send [of "?w (1860 * Second) (60 * Second) [Send_Bump] False"] by (simp add: waiting_loop_def manualSend_def)
  ultimately have "compact_step\<^sup>*\<^sup>* (waiting_loop (1800 * Second) 0 None [] False) (?w (1860 * Second) (60 * Second) [] True)"
    by (meson converse_rtranclp_into_rtranclp rtranclp.rtrancl_refl)
  with waiting_reached have "compact_step\<^sup>*\<^sup>* (compact_start 0 compacting_data) (?w (1860 * Second) (60 * Second) [] True)" by (rule rtranclp_trans)
  then show ?thesis by (intro exI conjI) (assumption, simp_all add: waiting_loop_def loopBump_def)
qed

end
