(* ===== verification/Spec2Isabelle.thy ===== *)
theory Spec2Isabelle
  imports ResolverAnswers ResolverRace ConfigSet Tools Sessions Dashboard Background
begin

text \<open>
  A verification of dnsplane, a DNS server with local records, a cache, conditional upstream servers, a
  block list, health checks, DNSSEC, rate limits and a cluster of nodes that share their records.  This
  is the root theory; paths are relative to \<^verbatim>\<open>src/\<close>.

  \<^bold>\<open>The program.\<close>  Listeners for UDP, TCP, DoT and DoH (\<^verbatim>\<open>main_dns_inbound.go\<close>) hand a message to \<^verbatim>\<open>ServeDNS\<close>
  (\<^verbatim>\<open>dnsserve/\<close>), which applies the limit on queries (\<^verbatim>\<open>ratelimit/\<close>) and the limit on responses (\<^verbatim>\<open>abuse/\<close>),
  serves zone transfers itself and gives every question to the resolver (\<^verbatim>\<open>resolver/\<close>).  The resolver looks
  into the local records and the cache of the shared data (\<^verbatim>\<open>data/\<close>), which it reaches through position
  indexes, consults the block list (\<^verbatim>\<open>adblock/\<close>), and otherwise asks the upstream servers that the server
  table selects for the name (\<^verbatim>\<open>dnsservers/\<close>) and that the health tracker has not excluded, all at once; the
  first usable answer is validated (\<^verbatim>\<open>dnssecvalidate/\<close>), cached (\<^verbatim>\<open>dnsrecordcache/\<close>) and returned.  Local
  answers can be signed (\<^verbatim>\<open>dnssecsign/\<close>).  Operators change records, servers, block list and settings by the
  commands of a terminal session (\<^verbatim>\<open>commandhandler/\<close>, \<^verbatim>\<open>main_tui_server.go\<close>) or over the REST API (\<^verbatim>\<open>api/\<close>), and the
  cluster manager (\<^verbatim>\<open>cluster/\<close>) exchanges the records with other nodes.  The records come from files, zone files,
  URLs or git (\<^verbatim>\<open>zones/\<close>, \<^verbatim>\<open>data/\<close>), the settings from one JSON file (\<^verbatim>\<open>config/\<close>).  Goroutines beside the
  servers write and compact the cache, probe the servers, watch the zone files and keep statistics
  (\<^verbatim>\<open>fullstats/\<close>), which the dashboard shows.  \<^verbatim>\<open>main.go\<close> starts all of this; \<^verbatim>\<open>daemon/\<close> holds its channels and
  status.

  \<^bold>\<open>Theories\<close>, in the order of their imports.

  \<^item> \<open>GoPrelude\<close>: Go strings (char lists), numbers, times (nanoseconds as integers) and the functions of
    \<^verbatim>\<open>strings\<close>, \<^verbatim>\<open>strconv\<close> and \<^verbatim>\<open>time\<close> that the program uses; shared lemmas.  \<open>IPAddr\<close>, \<open>HostPort\<close>: \<^verbatim>\<open>net.ParseIP\<close>,
    \<^verbatim>\<open>IP.String\<close>, \<^verbatim>\<open>JoinHostPort\<close>, \<^verbatim>\<open>SplitHostPort\<close>, and \<^verbatim>\<open>ipvalidator\<close>.  \<open>GoFloat\<close>: \<^verbatim>\<open>float64\<close> arithmetic with
    rounding, on rationals.  \<open>Labels\<close>: domain labels.  \<open>Upsert\<close>: the interface of a slice used as a table
    with keys, a locale that records and cache entries interpret.
  \<^item> \<open>Util\<close>: \<^verbatim>\<open>safecast\<close>, \<^verbatim>\<open>cliutil\<close>, \<^verbatim>\<open>converters\<close>.  \<open>DnsLib\<close>: the data of the DNS library and the record of its
    functions, a parameter of every definition that calls one.
  \<^item> \<open>DnsRecords\<close> (\<^verbatim>\<open>dnsrecords\<close>): the local records, the commands on them and the look-ups.  The commands
    keep keys distinct, change nothing on error, and what was added is found.
  \<^item> \<open>RecordCache\<close> (\<^verbatim>\<open>dnsrecordcache\<close>): adding to and removing from the cache.
  \<^item> \<open>DnsServers\<close> (\<^verbatim>\<open>dnsservers\<close>): the server table, its commands, and the selection of endpoints with
    whitelists and fallbacks.
  \<^item> \<open>Adblock\<close> (\<^verbatim>\<open>adblock\<close>): the block list and the parser of its files; blocking is by subdomain.
  \<^item> \<open>Config\<close> (\<^verbatim>\<open>config\<close>): the configuration record, its defaults and their normalisation.
  \<^item> \<open>UpstreamHealth\<close> (\<^verbatim>\<open>data/upstream_health.go\<close>): the tracker, equivalent to the history of probes.
  \<^item> \<open>ResolverData\<close> (\<^verbatim>\<open>data/data.go\<close>, \<^verbatim>\<open>lookup_index.go\<close>, \<^verbatim>\<open>cache_compact.go\<close>): the shared state as a record, one
    definition per operation, the relation \<open>data_step\<close> of all operations, with the invariant that the
    indexes are current; the indexed look-ups equal full scans, the cache look-up refines an abstract one,
    compaction is invisible.
  \<^item> \<open>Dnssec\<close> (\<^verbatim>\<open>dnssecvalidate\<close>, \<^verbatim>\<open>dnssecsign\<close>): outcomes of the validation, signatures of local answers.
  \<^item> \<open>Resolver\<close> (\<^verbatim>\<open>resolver/resolver.go\<close>): a question from the first look-up to the answer.  The parallel phase
    is a function of the order in which messages arrive.  \<open>ResolverRace\<close> has the same phase as a step
    relation of goroutines, buffered channel and receive loop; every run of it is a run of the function on
    some order of arrival, and every run in which no message is dropped is bounded and ends in a decision.
    \<open>ResolverAnswers\<close> has the properties of whole queries.
  \<^item> \<open>Limiters\<close> (\<^verbatim>\<open>abuse\<close>, \<^verbatim>\<open>ratelimit\<close>): both response limiters as instances of one contract, a locale, and
    the token bucket.  A request has a time at which it is read and one at which its response is recorded.
  \<^item> \<open>Axfr\<close>, \<open>DnsServe\<close> (\<^verbatim>\<open>dnsserve\<close>, \<^verbatim>\<open>main_dns_inbound.go\<close>): zone transfers and the request path, where
    limiters, transfers and resolver are composed.
  \<^item> \<open>ClusterState\<close>, \<open>Cluster\<close> (\<^verbatim>\<open>cluster\<close>): sequence numbers, policies, frames, discovery; then the node as a
    record, and its handlers as functions from the node and the frames received to the node and the frames
    sent.  Unauthenticated connections change nothing, no connection turns the clock of a node back, and
    nodes that exchange honest snapshots under the last-writer policy agree.
  \<^item> \<open>RecordSources\<close> (\<^verbatim>\<open>zones\<close>, \<^verbatim>\<open>data/zones_load.go\<close>, \<^verbatim>\<open>data/records_source.go\<close>): where records are loaded from;
    a directory of zone files loads the same way in every order of its files.
  \<^item> \<open>Storage\<close> (\<^verbatim>\<open>data/data.go\<close>): files as states, loading, saving and start-up, and the background writer of
    the cache as a step relation with its channels and workers: stored records survive a restart; with one
    start-up \<^verbatim>\<open>Close\<close> returns and leaves the cache in its file, after a second one it never returns.
  \<^item> \<open>Api\<close> (\<^verbatim>\<open>api/server.go\<close>, the middlewares): REST requests as functions on the shared data, with the files that
    they write as effects: authorisation, errors that change nothing, data that stay well formed unless a reload
    reads a source that is not.
  \<^item> \<open>Commands\<close>, \<open>ConfigSet\<close>, \<open>Tools\<close> (\<^verbatim>\<open>commandhandler\<close>): the interactive commands on a session, every setting
    of \<^verbatim>\<open>server set\<close> as a table, the arguments of the look-up tool and the cluster commands.
  \<^item> \<open>FullStats\<close> (\<^verbatim>\<open>fullstats\<close>): queue, worker and counters of the statistics, which count exactly.  \<open>StatsBrowse\<close>
    (\<^verbatim>\<open>api/fullstats_browse.go\<close>): filter, order and pages of their tables; the pages list every row once although
    each of them visits the maps in an order of its own.
  \<^item> \<open>Metrics\<close> (\<^verbatim>\<open>data/resolver_perf.go\<close>, \<^verbatim>\<open>prometheus_metrics.go\<close>, \<^verbatim>\<open>dns_metrics.go\<close>, \<^verbatim>\<open>dashboard_live.go\<close>): counters,
    histograms and the live view, as instances of two locales: an operation that adds to a counter, and
    buckets of time of which old ones are dropped.  Chart, every rate and the log are exact.
  \<^item> \<open>Lifecycle\<close> (\<^verbatim>\<open>daemon\<close>, \<^verbatim>\<open>main_dns_server.go\<close>): channels and status of the daemon, and starts, stops and
    restarts of the DNS servers under every interleaving.
  \<^item> \<open>ConfigFile\<close> (\<^verbatim>\<open>config\<close>): the JSON document of the configuration, finding, reading, creating and saving the
    file.  \<open>Startup\<close> (\<^verbatim>\<open>main.go\<close>, \<^verbatim>\<open>main_api.go\<close>): from flags and file to the running server; composed with the
    reader of the file it shows which protections no file can switch on.
  \<^item> \<open>Sessions\<close> (\<^verbatim>\<open>main_tui_server.go\<close>, \<^verbatim>\<open>main_client.go\<close>): terminal sessions and take-overs as a step relation,
    with a step of its own for each of the two mutexes that a session takes.
  \<^item> \<open>Dashboard\<close> (\<^verbatim>\<open>api/dashboard*.go\<close>, \<^verbatim>\<open>api/perf.go\<close>): feature cards, payload, handlers, metrics and the web
    socket; the cards agree with the listeners and limiters that the settings make.
  \<^item> \<open>Background\<close> (\<^verbatim>\<open>main_cache_compact.go\<close>, \<^verbatim>\<open>main_upstream_health.go\<close>, \<^verbatim>\<open>data/zone_watch.go\<close>, \<^verbatim>\<open>logger\<close>): the
    compaction loop, with the manual compactions and renewed start-ups that interfere with it, and the watch as
    step relations with a clock; the rounds of the probes, the log.

  \<^bold>\<open>Conventions.\<close>  Stateful operations take and return the state; errors are \<open>Inl\<close>, \<open>None\<close> or messages as in
  the source; the clock, random bytes, files, network replies and schedules are arguments, so a statement
  holds for all of them.  Outside the step relations a handler runs without interruption.  Sequence numbers, TTLs, codes and
  counters that can wrap are words; \<^verbatim>\<open>int\<close> values that cannot reach their bounds are integers.  A handler
  that never returns is the value \<open>None\<close>.  Strings are bytes: case mapping and white space are those of
  ASCII.  No fuel is used: every loop is a structural recursion or has a measure.

  \<^bold>\<open>Step relations.\<close>  Where goroutines interleave (the parallel phase of a query, the writer of the cache, the life
  cycle, terminal sessions, the compaction loop, the watch, the clients of the web socket) the model is an
  inductive relation whose steps are the atomic actions of the code, and a property is an invariant of every
  reachable state.  State that only the proofs need (histories of writes, runs or events) is named as such
  where it is declared.

  \<^bold>\<open>Not modelled.\<close>  The bytes below the interfaces: sockets, TLS, the HTTP server, the text of JSON, the DNS
  library and cryptography are parameters or arguments; that the DNS library parses a record without an error but
  into nothing (an empty text or a comment) is the same outcome as an error.  Texts for people: HTML pages, printed tables,
  help, colours, log lines.  The terminal itself and the copying of its bytes, the profiler, the accept
  loop and tickers of the cluster, and the order of the shutdown in \<^verbatim>\<open>main.go\<close>, which waits for signals.  Messages
  of the cluster with a JSON value of a wrong type are not considered.
\<close>

end
